(* ===== verification/Prelude.thy ===== *)
theory Prelude
  imports Main "HOL-Library.Sublist"
begin

text \<open>
  Shared vocabulary of the development: Rust's \<open>str\<close> operations over UTF-8 byte
  sequences, and the generic facts on lists and options the components use.

  A Rust \<open>String\<close> is modelled as the list of its UTF-8 bytes (an Isabelle \<open>char\<close> is a
  byte), so \<open>len\<close>, equality, comparison, \<open>contains\<close>, \<open>starts_with\<close>, ASCII case
  folding and splitting at ASCII separators are exact for every string. Operations
  that look at Unicode scalar values are written over the encoded bytes: \<open>trim\<close> and
  \<open>split_whitespace\<close> recognise the encodings of all characters with the White_Space
  property, and \<open>chars().count()\<close> counts the bytes that are not continuation bytes.
  Only \<open>str::to_lowercase\<close> needs the Unicode case tables: it is exact on ASCII strings
  and takes its value on other strings from the parameter \<open>u\<close> of
  \<open>to_lowercase\<close>, which every definition that calls it passes on.
\<close>

named_theorems str_simps \<open>evaluation of the string operations\<close>

section \<open>Bytes and ASCII\<close>

definition byte :: "char \<Rightarrow> nat" where
  "byte c = of_char c"

definition is_ascii_digit :: "char \<Rightarrow> bool" where
  "is_ascii_digit c = (48 \<le> byte c \<and> byte c \<le> 57)"

definition is_ascii_upper :: "char \<Rightarrow> bool" where
  "is_ascii_upper c = (65 \<le> byte c \<and> byte c \<le> 90)"

definition is_ascii_lower :: "char \<Rightarrow> bool" where
  "is_ascii_lower c = (97 \<le> byte c \<and> byte c \<le> 122)"

definition is_ascii_alphanumeric :: "char \<Rightarrow> bool" where
  "is_ascii_alphanumeric c = (is_ascii_digit c \<or> is_ascii_upper c \<or> is_ascii_lower c)"

definition is_ascii_hexdigit :: "char \<Rightarrow> bool" where
  "is_ascii_hexdigit c =
     (is_ascii_digit c \<or> (65 \<le> byte c \<and> byte c \<le> 70) \<or> (97 \<le> byte c \<and> byte c \<le> 102))"

definition ascii_lower :: "char \<Rightarrow> char" where
  "ascii_lower c = (if is_ascii_upper c then char_of (byte c + 32) else c)"

definition is_ascii :: "string \<Rightarrow> bool" where
  "is_ascii s = list_all (\<lambda>c. byte c < 128) s"

definition to_ascii_lowercase :: "string \<Rightarrow> string" where
  "to_ascii_lowercase s = map ascii_lower s"

text \<open>A byte that continues a character of a UTF-8 sequence.\<close>

definition is_cont :: "char \<Rightarrow> bool" where
  "is_cont c = (128 \<le> byte c \<and> byte c < 192)"

definition eq_ignore_ascii_case :: "string \<Rightarrow> string \<Rightarrow> bool" where
  "eq_ignore_ascii_case s t = (to_ascii_lowercase s = to_ascii_lowercase t)"

text \<open>\<open>str::to_lowercase\<close>; \<open>u\<close> is its value on strings with a non-ASCII character.\<close>

definition to_lowercase :: "(string \<Rightarrow> string) \<Rightarrow> string \<Rightarrow> string" where
  "to_lowercase u s = (if is_ascii s then to_ascii_lowercase s else u s)"

lemma byte_less_256 [simp]: "byte c < 256"
  unfolding byte_def by (metis mod_less_divisor of_char_mod_256 zero_less_numeral)

lemma byte_inject [simp]: "byte c = byte d \<longleftrightarrow> c = d"
  by (simp add: byte_def)

lemma byte_char_of [simp]: "n < 256 \<Longrightarrow> byte (char_of n) = n"
  by (simp add: byte_def)

lemma byte_ascii_lower:
  "byte (ascii_lower c) = (if 65 \<le> byte c \<and> byte c \<le> 90 then byte c + 32 else byte c)"
  by (simp add: ascii_lower_def is_ascii_upper_def)

lemma ascii_lower_idem [simp]: "ascii_lower (ascii_lower c) = ascii_lower c"
  by (simp add: ascii_lower_def is_ascii_upper_def)

lemma ascii_lower_not_upper [simp]: "\<not> is_ascii_upper (ascii_lower c)"
  by (simp add: is_ascii_upper_def byte_ascii_lower)

lemma to_ascii_lowercase_idem [simp]:
  "to_ascii_lowercase (to_ascii_lowercase s) = to_ascii_lowercase s"
  by (simp add: to_ascii_lowercase_def)

lemma to_ascii_lowercase_append [simp]:
  "to_ascii_lowercase (s @ t) = to_ascii_lowercase s @ to_ascii_lowercase t"
  by (simp add: to_ascii_lowercase_def)

lemma to_ascii_lowercase_Nil [simp]: "to_ascii_lowercase [] = []"
  by (simp add: to_ascii_lowercase_def)

lemma length_to_ascii_lowercase [simp]: "length (to_ascii_lowercase s) = length s"
  by (simp add: to_ascii_lowercase_def)

lemma to_ascii_lowercase_eq_Nil [simp]: "to_ascii_lowercase s = [] \<longleftrightarrow> s = []"
  by (simp add: to_ascii_lowercase_def)

lemma eq_ignore_ascii_case_refl [simp]: "eq_ignore_ascii_case s s"
  by (simp add: eq_ignore_ascii_case_def)

lemma eq_ignore_ascii_case_sym: "eq_ignore_ascii_case s t = eq_ignore_ascii_case t s"
  by (auto simp: eq_ignore_ascii_case_def)

lemma eq_ignore_ascii_case_trans:
  "eq_ignore_ascii_case s t \<Longrightarrow> eq_ignore_ascii_case t v \<Longrightarrow> eq_ignore_ascii_case s v"
  by (simp add: eq_ignore_ascii_case_def)

lemma is_ascii_to_ascii_lowercase [simp]: "is_ascii (to_ascii_lowercase s) = is_ascii s"
  by (auto simp: is_ascii_def to_ascii_lowercase_def list_all_iff byte_ascii_lower)

lemma to_lowercase_ascii [simp]: "is_ascii s \<Longrightarrow> to_lowercase u s = to_ascii_lowercase s"
  by (simp add: to_lowercase_def)

section \<open>Searching and stripping\<close>

definition starts_with :: "'a list \<Rightarrow> 'a list \<Rightarrow> bool" where
  "starts_with p s = (take (length p) s = p)"

definition ends_with :: "'a list \<Rightarrow> 'a list \<Rightarrow> bool" where
  "ends_with p s = starts_with (rev p) (rev s)"

definition strip_prefix :: "'a list \<Rightarrow> 'a list \<Rightarrow> 'a list option" where
  "strip_prefix p s = (if starts_with p s then Some (drop (length p) s) else None)"

definition strip_suffix :: "'a list \<Rightarrow> 'a list \<Rightarrow> 'a list option" where
  "strip_suffix p s = (if ends_with p s then Some (take (length s - length p) s) else None)"

text \<open>\<open>s.strip_suffix(p).unwrap_or(s)\<close> and its prefix form.\<close>

definition strip_suffix_or :: "'a list \<Rightarrow> 'a list \<Rightarrow> 'a list" where
  "strip_suffix_or p s = (case strip_suffix p s of Some t \<Rightarrow> t | None \<Rightarrow> s)"

definition strip_prefix_or :: "'a list \<Rightarrow> 'a list \<Rightarrow> 'a list" where
  "strip_prefix_or p s = (case strip_prefix p s of Some t \<Rightarrow> t | None \<Rightarrow> s)"

fun contains_str :: "'a list \<Rightarrow> 'a list \<Rightarrow> bool" where
  "contains_str p [] = (p = [])"
| "contains_str p (c # cs) = (starts_with p (c # cs) \<or> contains_str p cs)"

definition contains_any :: "'a list \<Rightarrow> 'a list \<Rightarrow> bool" where
  "contains_any cs s = list_ex (\<lambda>c. c \<in> set cs) s"

fun find_index :: "('a \<Rightarrow> bool) \<Rightarrow> 'a list \<Rightarrow> nat option" where
  "find_index P [] = None"
| "find_index P (x # xs) = (if P x then Some 0 else map_option Suc (find_index P xs))"

definition split_once :: "'a \<Rightarrow> 'a list \<Rightarrow> ('a list \<times> 'a list) option" where
  "split_once c s = map_option (\<lambda>i. (take i s, drop (Suc i) s)) (find_index (\<lambda>x. x = c) s)"

fun split_on :: "('a \<Rightarrow> bool) \<Rightarrow> 'a list \<Rightarrow> 'a list list" where
  "split_on P [] = [[]]"
| "split_on P (c # cs) =
     (if P c then [] # split_on P cs
      else (case split_on P cs of [] \<Rightarrow> [[c]] | w # ws \<Rightarrow> (c # w) # ws))"

fun join :: "'a list \<Rightarrow> 'a list list \<Rightarrow> 'a list" where
  "join sep [] = []"
| "join sep [w] = w"
| "join sep (w # v # ws) = w @ sep @ join sep (v # ws)"

text \<open>\<open>trim_start_matches\<close> / \<open>trim_end_matches\<close> / \<open>trim_matches\<close> with a set of ASCII characters.\<close>

definition trim_start_matches :: "'a list \<Rightarrow> 'a list \<Rightarrow> 'a list" where
  "trim_start_matches cs s = dropWhile (\<lambda>c. c \<in> set cs) s"

definition trim_end_matches :: "'a list \<Rightarrow> 'a list \<Rightarrow> 'a list" where
  "trim_end_matches cs s = rev (dropWhile (\<lambda>c. c \<in> set cs) (rev s))"

definition trim_matches :: "'a list \<Rightarrow> 'a list \<Rightarrow> 'a list" where
  "trim_matches cs s = trim_end_matches cs (trim_start_matches cs s)"

definition replace_char :: "'a \<Rightarrow> 'a list \<Rightarrow> 'a list \<Rightarrow> 'a list" where
  "replace_char c r s = concat (map (\<lambda>x. if x = c then r else [x]) s)"

lemma starts_with_append [simp]: "starts_with p (p @ s)"
  by (simp add: starts_with_def)

lemma starts_with_Nil [simp]: "starts_with [] s"
  by (simp add: starts_with_def)

lemma starts_with_iff: "starts_with p s \<longleftrightarrow> (\<exists>r. s = p @ r)"
  unfolding starts_with_def by (metis append_eq_conv_conj append_take_drop_id)

lemma starts_with_trans: "starts_with p q \<Longrightarrow> starts_with q s \<Longrightarrow> starts_with p s"
  by (auto simp: starts_with_iff)

lemma starts_with_refl [simp]: "starts_with p p"
  by (simp add: starts_with_def)

lemma starts_with_length: "starts_with p s \<Longrightarrow> length p \<le> length s"
  by (auto simp: starts_with_iff)

lemma starts_with_antisym: "starts_with p s \<Longrightarrow> starts_with s p \<Longrightarrow> p = s"
  by (auto simp: starts_with_iff)

lemma ends_with_iff: "ends_with p s \<longleftrightarrow> (\<exists>r. s = r @ p)"
proof
  assume "ends_with p s"
  then obtain r where "rev s = rev p @ r"
    by (auto simp: ends_with_def starts_with_iff)
  then have "s = rev r @ p"
    by (metis rev_append rev_rev_ident)
  then show "\<exists>r. s = r @ p" ..
next
  assume "\<exists>r. s = r @ p"
  then show "ends_with p s" by (auto simp: ends_with_def)
qed

lemma contains_str_iff: "contains_str p s \<longleftrightarrow> (\<exists>a b. s = a @ p @ b)"
proof (induction s)
  case Nil
  then show ?case by auto
next
  case (Cons c cs)
  show ?case
  proof
    assume "contains_str p (c # cs)"
    then consider "starts_with p (c # cs)" | "contains_str p cs" by auto
    then show "\<exists>a b. c # cs = a @ p @ b"
    proof cases
      case 1
      then show ?thesis by (metis append_Nil starts_with_iff)
    next
      case 2
      then show ?thesis using Cons.IH by (metis append_Cons)
    qed
  next
    assume "\<exists>a b. c # cs = a @ p @ b"
    then obtain a b where ab: "c # cs = a @ p @ b" by blast
    show "contains_str p (c # cs)"
    proof (cases a)
      case Nil
      with ab have "c # cs = p @ b" by simp
      then have "starts_with p (c # cs)" by (metis starts_with_append)
      then show ?thesis by simp
    next
      case (Cons d ds)
      with ab have "cs = ds @ p @ b" by simp
      with Cons.IH show ?thesis by (auto intro: exI [of _ ds])
    qed
  qed
qed

lemma find_index_None: "find_index P xs = None \<longleftrightarrow> (\<forall>x \<in> set xs. \<not> P x)"
  by (induction xs) auto

lemma find_index_Some:
  "find_index P xs = Some i \<Longrightarrow> i < length xs \<and> P (xs ! i) \<and> (\<forall>j < i. \<not> P (xs ! j))"
proof (induction xs arbitrary: i)
  case Nil
  then show ?case by simp
next
  case (Cons x xs)
  then show ?case
    by (cases i) (auto split: if_splits simp: less_Suc_eq_0_disj)
qed

lemma split_once_Some:
  assumes "split_once c s = Some (a, b)"
  shows "s = a @ c # b" and "c \<notin> set a"
proof -
  obtain i where i: "find_index (\<lambda>x. x = c) s = Some i" and ab: "a = take i s" "b = drop (Suc i) s"
    using assms by (auto simp: split_once_def)
  from find_index_Some [OF i] have len: "i < length s" and at: "s ! i = c"
    and before: "\<forall>j < i. s ! j \<noteq> c" by auto
  from id_take_nth_drop [OF len] at ab show "s = a @ c # b" by simp
  from before len ab show "c \<notin> set a" by (auto simp: in_set_conv_nth)
qed

lemma split_on_nonempty [simp]: "split_on P s \<noteq> []"
  by (induction s) (auto split: list.splits)

lemma split_on_no_sep: "\<forall>c \<in> set s. \<not> P c \<Longrightarrow> split_on P s = [s]"
  by (induction s) auto

lemma split_on_parts: "w \<in> set (split_on P s) \<Longrightarrow> \<forall>c \<in> set w. \<not> P c"
proof (induction s arbitrary: w)
  case (Cons c cs)
  obtain v vs where v: "split_on P cs = v # vs" by (meson neq_Nil_conv split_on_nonempty)
  with Cons show ?case by (fastforce split: if_splits)
qed simp

lemma split_on_append_sep:
  "P c \<Longrightarrow> split_on P (s @ c # t) = split_on P s @ split_on P t"
  by (induction s) (auto split: list.splits simp: neq_Nil_conv)

lemma split_on_join:
  assumes "ws \<noteq> []" and "\<forall>w \<in> set ws. \<forall>c \<in> set w. \<not> P c" and "P sep"
  shows "split_on P (join [sep] ws) = ws"
  using assms
proof (induction ws rule: induct_list012)
  case (3 w v ws)
  then show ?case by (simp add: split_on_append_sep split_on_no_sep)
qed (auto simp: split_on_no_sep)

lemma join_split_on: "join [sep] (split_on (\<lambda>c. c = sep) s) = s"
proof (induction s)
  case Nil
  then show ?case by simp
next
  case (Cons c cs)
  obtain w ws where w: "split_on (\<lambda>c. c = sep) cs = w # ws"
    by (meson neq_Nil_conv split_on_nonempty)
  with Cons show ?case by (cases ws) auto
qed

lemma set_replace_char: "set (replace_char c r s) \<subseteq> set s - {c} \<union> set r"
  by (auto simp: replace_char_def split: if_splits)

section \<open>White space\<close>

text \<open>
  The number of bytes of the white-space character a byte sequence starts with, 0 if it
  starts with none: U+0009 to U+000D, U+0020, U+0085, U+00A0, U+1680, U+2000 to U+200A,
  U+2028, U+2029, U+202F, U+205F and U+3000, as \<open>char::is_whitespace\<close> has them.
\<close>

definition ws3 :: "nat \<Rightarrow> nat \<Rightarrow> nat \<Rightarrow> bool" where
  "ws3 a b c =
     (a = 225 \<and> b = 154 \<and> c = 128
      \<or> a = 226 \<and> b = 128 \<and> (128 \<le> c \<and> c \<le> 138 \<or> c = 168 \<or> c = 169 \<or> c = 175)
      \<or> a = 226 \<and> b = 129 \<and> c = 159
      \<or> a = 227 \<and> b = 128 \<and> c = 128)"

definition ws1 :: "nat \<Rightarrow> bool" where
  "ws1 a = (9 \<le> a \<and> a \<le> 13 \<or> a = 32)"

definition ws2 :: "nat \<Rightarrow> nat \<Rightarrow> bool" where
  "ws2 a b = (a = 194 \<and> (b = 133 \<or> b = 160))"

fun ws_len :: "string \<Rightarrow> nat" where
  "ws_len [] = 0"
| "ws_len [a] = (if ws1 (byte a) then 1 else 0)"
| "ws_len [a, b] = (if ws1 (byte a) then 1 else if ws2 (byte a) (byte b) then 2 else 0)"
| "ws_len (a # b # c # r) =
     (if ws1 (byte a) then 1 else if ws2 (byte a) (byte b) then 2
      else if ws3 (byte a) (byte b) (byte c) then 3 else 0)"

text \<open>The same for the last character, on the reversed bytes.\<close>

fun ws_len_rev :: "string \<Rightarrow> nat" where
  "ws_len_rev [] = 0"
| "ws_len_rev [a] = (if ws1 (byte a) then 1 else 0)"
| "ws_len_rev [b, a] = (if ws1 (byte b) then 1 else if ws2 (byte a) (byte b) then 2 else 0)"
| "ws_len_rev (c # b # a # r) =
     (if ws1 (byte c) then 1 else if ws2 (byte b) (byte c) then 2
      else if ws3 (byte a) (byte b) (byte c) then 3 else 0)"

lemma ws_len_le: "ws_len s \<le> length s"
  by (induction s rule: ws_len.induct) auto

lemma ws_len_rev_le: "ws_len_rev s \<le> length s"
  by (induction s rule: ws_len_rev.induct) auto

lemma ws_len_pos_ne: "ws_len s \<noteq> 0 \<Longrightarrow> s \<noteq> []"
  by auto

lemma ws_len_rev_pos_ne: "ws_len_rev s \<noteq> 0 \<Longrightarrow> s \<noteq> []"
  by auto

function trim_start :: "string \<Rightarrow> string" where
  "trim_start s = (if ws_len s = 0 then s else trim_start (drop (ws_len s) s))"
  by pat_completeness auto
termination
  by (relation "measure length") (use ws_len_pos_ne in fastforce)+

function trim_rev :: "string \<Rightarrow> string" where
  "trim_rev s = (if ws_len_rev s = 0 then s else trim_rev (drop (ws_len_rev s) s))"
  by pat_completeness auto
termination
  by (relation "measure length") (use ws_len_rev_pos_ne in fastforce)+

declare trim_start.simps [simp del] trim_rev.simps [simp del]

definition trim_end :: "string \<Rightarrow> string" where
  "trim_end s = rev (trim_rev (rev s))"

definition trim :: "string \<Rightarrow> string" where
  "trim s = trim_end (trim_start s)"

function split_ws :: "string \<Rightarrow> string \<Rightarrow> string list" where
  "split_ws [] cur = (if cur = [] then [] else [rev cur])"
| "split_ws (c # cs) cur =
     (if ws_len (c # cs) = 0 then split_ws cs (c # cur)
      else (if cur = [] then [] else [rev cur]) @ split_ws (drop (ws_len (c # cs)) (c # cs)) [])"
  by pat_completeness auto
termination
  by (relation "measure (\<lambda>(s, cur). length s)") auto

definition split_whitespace :: "string \<Rightarrow> string list" where
  "split_whitespace s = split_ws s []"

text \<open>A string that holds no white-space character.\<close>

fun no_ws :: "string \<Rightarrow> bool" where
  "no_ws [] = True"
| "no_ws (c # cs) = (ws_len (c # cs) = 0 \<and> no_ws cs)"

lemma ws_len_append: "ws_len v \<noteq> 0 \<Longrightarrow> ws_len (v @ r) = ws_len v"
proof (induction v rule: ws_len.induct)
  case (2 a)
  then show ?case by (cases r rule: ws_len.cases) (auto split: if_splits)
next
  case (3 a b)
  then show ?case by (cases r) (auto split: if_splits)
qed auto

lemma ws_len_append_lead:
  "v \<noteq> [] \<Longrightarrow> ws_len v = 0 \<Longrightarrow> \<not> is_cont x \<Longrightarrow> ws_len (v @ x # r) = 0"
proof (induction v rule: ws_len.induct)
  case (2 a)
  then show ?case by (cases r) (auto split: if_splits simp: ws2_def ws3_def is_cont_def)
next
  case (3 a b)
  then show ?case by (auto split: if_splits simp: ws3_def is_cont_def)
qed auto

lemma ws_len_append_ascii:
  "v \<noteq> [] \<Longrightarrow> ws_len v = 0 \<Longrightarrow> byte x < 128 \<Longrightarrow> ws_len (v @ x # r) = 0"
  by (rule ws_len_append_lead) (simp_all add: is_cont_def)

lemma ws_len_rev_append_ascii:
  "v \<noteq> [] \<Longrightarrow> ws_len_rev v = 0 \<Longrightarrow> byte x < 128 \<Longrightarrow> ws_len_rev (v @ x # r) = 0"
proof (induction v rule: ws_len_rev.induct)
  case (2 a)
  then show ?case by (cases r) (auto split: if_splits simp: ws2_def ws3_def)
next
  case (3 a b)
  then show ?case by (auto split: if_splits simp: ws3_def)
qed auto

lemma ws_len_append_space:
  "v \<noteq> [] \<Longrightarrow> ws_len v = 0 \<Longrightarrow> ws_len (v @ CHR '' '' # r) = 0"
  by (rule ws_len_append_ascii) (simp_all add: byte_def)

lemma ws_len_ascii: "\<not> ws1 (byte a) \<Longrightarrow> byte a < 128 \<Longrightarrow> ws_len (a # r) = 0"
  by (cases "a # r" rule: ws_len.cases) (auto simp: ws2_def ws3_def)

lemma ws_len_rev_ascii: "\<not> ws1 (byte a) \<Longrightarrow> byte a < 128 \<Longrightarrow> ws_len_rev (a # r) = 0"
  by (cases "a # r" rule: ws_len_rev.cases) (auto simp: ws2_def ws3_def)

lemma ws_len_rev_hd:
  "s \<noteq> [] \<Longrightarrow> \<not> ws1 (byte (hd s)) \<Longrightarrow> byte (hd s) < 128 \<Longrightarrow> ws_len_rev s = 0"
  by (cases s) (simp_all add: ws_len_rev_ascii)

lemma no_ws_append: "no_ws (v @ r) \<Longrightarrow> no_ws v"
proof (induction v)
  case (Cons c cs)
  then have "ws_len (c # cs @ r) = 0" by simp
  then have "ws_len (c # cs) = 0" using ws_len_append [of "c # cs" r] by auto
  with Cons show ?case by simp
qed simp

lemma no_ws_appendR: "no_ws (v @ r) \<Longrightarrow> no_ws r"
  by (induction v) auto

lemma trim_start_fix: "ws_len s = 0 \<Longrightarrow> trim_start s = s"
  by (subst trim_start.simps) simp

lemma trim_rev_fix: "ws_len_rev s = 0 \<Longrightarrow> trim_rev s = s"
  by (subst trim_rev.simps) simp

lemma ws_len_trim_start [simp]: "ws_len (trim_start s) = 0"
proof (induction s rule: trim_start.induct)
  case (1 s)
  then show ?case by (cases "ws_len s = 0") (simp_all add: trim_start.simps [of s])
qed

lemma ws_len_rev_trim_rev [simp]: "ws_len_rev (trim_rev s) = 0"
proof (induction s rule: trim_rev.induct)
  case (1 s)
  then show ?case by (cases "ws_len_rev s = 0") (simp_all add: trim_rev.simps [of s])
qed

lemma trim_start_suffix: "\<exists>p. s = p @ trim_start s"
proof (induction s rule: trim_start.induct)
  case (1 s)
  show ?case
  proof (cases "ws_len s = 0")
    case True
    then show ?thesis by (simp add: trim_start_fix)
  next
    case False
    with 1 obtain p where p: "drop (ws_len s) s = p @ trim_start (drop (ws_len s) s)" by blast
    have "s = (take (ws_len s) s @ p) @ trim_start s"
      using p False by (metis append.assoc append_take_drop_id trim_start.simps)
    then show ?thesis by blast
  qed
qed

lemma trim_rev_suffix: "\<exists>p. s = p @ trim_rev s"
proof (induction s rule: trim_rev.induct)
  case (1 s)
  show ?case
  proof (cases "ws_len_rev s = 0")
    case True
    then show ?thesis by (simp add: trim_rev_fix)
  next
    case False
    with 1 obtain p where p: "drop (ws_len_rev s) s = p @ trim_rev (drop (ws_len_rev s) s)" by blast
    have "s = (take (ws_len_rev s) s @ p) @ trim_rev s"
      using p False by (metis append.assoc append_take_drop_id trim_rev.simps)
    then show ?thesis by blast
  qed
qed

lemma trim_end_prefix: "\<exists>q. s = trim_end s @ q"
proof -
  obtain p where "rev s = p @ trim_rev (rev s)" using trim_rev_suffix by blast
  then have "s = rev (trim_rev (rev s)) @ rev p" by (metis rev_append rev_rev_ident)
  then show ?thesis by (auto simp: trim_end_def)
qed

lemma trim_infix: "\<exists>p q. s = p @ trim s @ q"
proof -
  obtain p where "s = p @ trim_start s" using trim_start_suffix by blast
  moreover obtain q where "trim_start s = trim s @ q"
    using trim_end_prefix [of "trim_start s"] by (auto simp: trim_def)
  ultimately show ?thesis by metis
qed

lemma set_trim: "set (trim s) \<subseteq> set s"
proof -
  obtain p q where "s = p @ trim s @ q" using trim_infix by blast
  then have "set s = set p \<union> set (trim s) \<union> set q" by (metis set_append Un_assoc)
  then show ?thesis by blast
qed

lemma ws_len_prefix0: "ws_len (v @ r) = 0 \<Longrightarrow> ws_len v = 0"
  using ws_len_append [of v r] by auto

lemma trim_ws_len [simp]: "ws_len (trim s) = 0"
proof -
  obtain q where "trim_start s = trim s @ q"
    using trim_end_prefix [of "trim_start s"] by (auto simp: trim_def)
  then show ?thesis by (metis ws_len_prefix0 ws_len_trim_start)
qed

lemma trim_idem [simp]: "trim (trim s) = trim s"
proof -
  have "trim_start (trim s) = trim s" by (simp add: trim_start_fix)
  moreover have "trim_end (trim s) = trim s"
    by (simp add: trim_def trim_end_def trim_rev_fix)
  ultimately show ?thesis by (simp add: trim_def)
qed

lemma trim_eq_self: "trim s = s \<longleftrightarrow> ws_len s = 0 \<and> ws_len_rev (rev s) = 0"
proof
  assume t: "trim s = s"
  then have "ws_len s = 0" by (metis trim_ws_len)
  moreover have "rev (trim s) = trim_rev (rev (trim_start s))" by (simp add: trim_def trim_end_def)
  ultimately show "ws_len s = 0 \<and> ws_len_rev (rev s) = 0" using t by (metis ws_len_rev_trim_rev)
next
  assume "ws_len s = 0 \<and> ws_len_rev (rev s) = 0"
  then show "trim s = s" by (simp add: trim_def trim_end_def trim_start_fix trim_rev_fix)
qed

lemma trim_Nil [simp]: "trim [] = []"
  by (simp add: trim_def trim_end_def trim_start.simps trim_rev.simps)

text \<open>A word that holds no white space survives; the words of a split hold none.\<close>

lemma split_ws_no_ws: "no_ws s \<Longrightarrow> split_ws s cur = (if s = [] \<and> cur = [] then [] else [rev cur @ s])"
  by (induction s arbitrary: cur) auto

lemma split_ws_word_space:
  "no_ws w \<Longrightarrow> split_ws (w @ CHR '' '' # r) cur =
     (if w = [] \<and> cur = [] then [] else [rev cur @ w]) @ split_ws r []"
proof (induction w arbitrary: cur)
  case Nil
  have "ws_len (CHR '' '' # r) = 1"
    by (cases r rule: ws_len.cases) (auto simp: ws1_def byte_def)
  then show ?case by simp
next
  case (Cons c cs)
  then have "ws_len (c # cs @ CHR '' '' # r) = 0"
    using ws_len_append_space [of "c # cs" r] by simp
  with Cons show ?case by simp
qed

lemma split_whitespace_join:
  assumes "\<forall>w \<in> set ws. w \<noteq> [] \<and> no_ws w"
  shows "split_whitespace (join '' '' ws) = ws"
  using assms unfolding split_whitespace_def
proof (induction ws rule: induct_list012)
  case (3 w v ws)
  then show ?case by (simp add: split_ws_word_space)
qed (auto simp: split_ws_no_ws)

lemma split_ws_nonempty: "w \<in> set (split_ws s cur) \<Longrightarrow> w \<noteq> []"
  by (induction s cur rule: split_ws.induct) (auto split: if_splits)

lemma no_ws_suffix: "no_ws (a @ b) \<Longrightarrow> b \<noteq> [] \<Longrightarrow> ws_len b = 0"
  by (drule no_ws_appendR) (cases b, auto)

lemma no_wsI: "(\<And>a b. w = a @ b \<Longrightarrow> b \<noteq> [] \<Longrightarrow> ws_len b = 0) \<Longrightarrow> no_ws w"
proof (induction w)
  case (Cons c cs)
  have "no_ws cs"
  proof (rule Cons.IH)
    fix a b :: string assume "cs = a @ b" "b \<noteq> []"
    then show "ws_len b = 0" using Cons.prems [of "c # a" b] by simp
  qed
  moreover have "ws_len (c # cs) = 0" using Cons.prems [of "[]" "c # cs"] by simp
  ultimately show ?case by simp
qed simp

lemma split_ws_no_ws_words:
  assumes "\<And>a b. rev cur = a @ b \<Longrightarrow> b \<noteq> [] \<Longrightarrow> ws_len (b @ s) = 0"
    and "w \<in> set (split_ws s cur)"
  shows "no_ws w"
  using assms
proof (induction s cur rule: split_ws.induct)
  case (1 cur)
  then show ?case by (auto intro!: no_wsI split: if_splits)
next
  case (2 c cs cur)
  show ?case
  proof (cases "ws_len (c # cs) = 0")
    case True
    have "ws_len (b @ cs) = 0" if "rev (c # cur) = a @ b" "b \<noteq> []" for a b
    proof -
      from that obtain d where d: "b = d @ [c]" "rev cur = a @ d"
        by (metis append_butlast_last_id last_appendR last_snoc butlast_append butlast_snoc rev.simps(2))
      then show ?thesis using 2(3) [OF d(2)] True by (cases "d = []") auto
    qed
    with 2 True show ?thesis by simp
  next
    case False
    have "no_ws (rev cur)"
      by (rule no_wsI) (use 2(3) ws_len_prefix0 in blast)
    moreover have "no_ws w" if "w \<in> set (split_ws (drop (ws_len (c # cs)) (c # cs)) [])"
      using 2(2) [OF False _ that] by simp
    ultimately show ?thesis using 2(4) False by (auto split: if_splits)
  qed
qed

lemma split_whitespace_words: "w \<in> set (split_whitespace s) \<Longrightarrow> w \<noteq> [] \<and> no_ws w"
  using split_ws_nonempty split_ws_no_ws_words [of "[]"] unfolding split_whitespace_def by auto

lemma ws_suffix:
  assumes "ws_len_rev s \<noteq> 0"
  obtains t x r where "rev s = t @ x # r" and "\<not> is_cont x" and "ws_len (x # r) = length (x # r)"
    and "drop (ws_len_rev s) s = rev t"
proof -
  have ws1: "\<not> is_cont a" if "ws1 (byte a)" for a using that by (auto simp: ws1_def is_cont_def)
  have lead: "\<not> ws1 (byte a) \<and> \<not> is_cont a" if "ws2 (byte a) n \<or> ws3 (byte a) n m" for a n m
    using that by (auto simp: ws1_def ws2_def ws3_def is_cont_def)
  have ws2: "\<not> ws2 (byte a) n" if "ws3 (byte a) n m" for a n m
    using that by (auto simp: ws2_def ws3_def)
  show thesis
  proof (cases s rule: ws_len_rev.cases)
    case (2 a)
    with assms ws1 that [of "[]" a "[]"] show ?thesis by (auto split: if_splits)
  next
    case (3 b a)
    with assms ws1 [of b] lead [of a "byte b" 0] that [of "[a]" b "[]"] that [of "[]" a "[b]"]
    show ?thesis by (auto split: if_splits)
  next
    case (4 c b a r)
    with assms ws1 [of c] lead [of b "byte c" 0] lead [of a "byte b" "byte c"] ws2 [of a "byte b" "byte c"]
      that [of "rev r @ [a, b]" c "[]"] that [of "rev r @ [a]" b "[c]"] that [of "rev r" a "[b, c]"]
    show ?thesis by (auto split: if_splits)
  qed (use assms in auto)
qed

lemma split_ws_trim_start: "split_ws (trim_start s) [] = split_ws s []"
proof (induction s rule: trim_start.induct)
  case (1 s)
  show ?case
  proof (cases "ws_len s = 0")
    case False
    then obtain c cs where "s = c # cs" by (cases s) auto
    with 1 False show ?thesis by (simp add: trim_start.simps [of "c # cs"])
  qed (simp add: trim_start_fix)
qed

lemma split_ws_drop_last:
  "\<not> is_cont x \<Longrightarrow> ws_len (x # r) = length (x # r) \<Longrightarrow> split_ws (t @ x # r) cur = split_ws t cur"
proof (induction t cur rule: split_ws.induct)
  case (1 cur)
  then show ?case by auto
next
  case (2 c cs cur)
  show ?case
  proof (cases "ws_len (c # cs) = 0")
    case True
    then have "ws_len (c # cs @ x # r) = 0" using ws_len_append_lead [of "c # cs" x r] 2(3) by simp
    with True 2 show ?thesis by simp
  next
    case False
    then have l: "ws_len (c # cs @ x # r) = ws_len (c # cs)" using ws_len_append [of "c # cs" "x # r"] by simp
    have d: "drop (ws_len (c # cs)) (c # cs @ x # r) = drop (ws_len (c # cs)) (c # cs) @ x # r"
      using ws_len_le [of "c # cs"] by (metis append_Cons diff_is_0_eq drop_0 drop_append)
    show ?thesis using 2(2) [OF False 2(3,4)] False l d by simp
  qed
qed

lemma split_ws_trim_rev: "split_ws (rev (trim_rev s)) cur = split_ws (rev s) cur"
proof (induction s rule: trim_rev.induct)
  case (1 s)
  show ?case
  proof (cases "ws_len_rev s = 0")
    case False
    then obtain t x r where w: "rev s = t @ x # r" "\<not> is_cont x" "ws_len (x # r) = length (x # r)"
      "drop (ws_len_rev s) s = rev t" by (rule ws_suffix)
    have "split_ws (rev (trim_rev s)) cur = split_ws t cur"
      using 1 [OF False] False w(4) by (simp add: trim_rev.simps [of s])
    with w show ?thesis by (simp add: split_ws_drop_last)
  qed (simp add: trim_rev_fix)
qed

lemma split_whitespace_trim [simp]: "split_whitespace (trim s) = split_whitespace s"
  by (simp add: split_whitespace_def trim_def trim_end_def split_ws_trim_rev split_ws_trim_start)

section \<open>Decimal numbers\<close>

text \<open>\<open>Display\<close> of an unsigned integer, and \<open>str::parse\<close> for the type with largest value \<open>m\<close>.\<close>

fun show_nat :: "nat \<Rightarrow> string" where
  "show_nat n =
     (if n < 10 then [char_of (48 + n)] else show_nat (n div 10) @ [char_of (48 + n mod 10)])"

declare show_nat.simps [simp del]

definition show_int :: "int \<Rightarrow> string" where
  "show_int i = (if i < 0 then CHR ''-'' # show_nat (nat (- i)) else show_nat (nat i))"

definition digits_val :: "nat \<Rightarrow> string \<Rightarrow> nat" where
  "digits_val a s = foldl (\<lambda>n c. 10 * n + (byte c - 48)) a s"

definition parse_digits :: "nat \<Rightarrow> string \<Rightarrow> nat option" where
  "parse_digits m s =
     (if s \<noteq> [] \<and> list_all is_ascii_digit s \<and> digits_val 0 s \<le> m then Some (digits_val 0 s) else None)"

definition parse_uint :: "nat \<Rightarrow> string \<Rightarrow> nat option" where
  "parse_uint m s = parse_digits m (strip_prefix_or ''+'' s)"

lemma show_nat_digits: "list_all is_ascii_digit (show_nat n) \<and> show_nat n \<noteq> []"
proof (induction n rule: show_nat.induct)
  case (1 n)
  then show ?case
    by (cases "n < 10") (auto simp: is_ascii_digit_def [of "char_of _"] show_nat.simps [of n])
qed

lemma digits_val_show_nat [simp]: "digits_val 0 (show_nat n) = n"
proof (induction n rule: show_nat.induct)
  case (1 n)
  then show ?case
    by (subst show_nat.simps) (auto simp: digits_val_def)
qed

lemma parse_uint_show_nat: "n \<le> m \<Longrightarrow> parse_uint m (show_nat n) = Some n"
proof -
  assume n: "n \<le> m"
  obtain c cs where s: "show_nat n = c # cs" using show_nat_digits [of n] by (cases "show_nat n") auto
  with show_nat_digits [of n] have "is_ascii_digit c" by simp
  then have "c \<noteq> CHR ''+''" by (auto simp: is_ascii_digit_def byte_def)
  then have "strip_prefix_or ''+'' (show_nat n) = show_nat n"
    by (simp add: strip_prefix_or_def strip_prefix_def starts_with_def s)
  then show ?thesis using n show_nat_digits [of n] by (simp add: parse_uint_def parse_digits_def)
qed

lemma parse_uint_le: "parse_uint m s = Some n \<Longrightarrow> n \<le> m"
  by (auto simp: parse_uint_def parse_digits_def split: if_splits)

section \<open>Byte budgets\<close>

text \<open>
  \<open>str::is_char_boundary\<close> holds at both ends and before every byte that does not continue a
  character, and \<open>chars().count()\<close> counts those bytes.
\<close>

definition is_char_boundary :: "string \<Rightarrow> nat \<Rightarrow> bool" where
  "is_char_boundary s i = (i = 0 \<or> i = length s \<or> (i < length s \<and> \<not> is_cont (s ! i)))"

definition char_count :: "string \<Rightarrow> nat" where
  "char_count s = length (filter (\<lambda>c. \<not> is_cont c) s)"

text \<open>\<open>s.chars().take(n).collect()\<close>.\<close>

fun take_chars :: "nat \<Rightarrow> string \<Rightarrow> string" where
  "take_chars n [] = []"
| "take_chars n (c # cs) =
     (if is_cont c then c # take_chars n cs
      else (case n of 0 \<Rightarrow> [] | Suc k \<Rightarrow> c # take_chars k cs))"

lemma take_chars_prefix: "\<exists>r. s = take_chars n s @ r"
  by (induction n s rule: take_chars.induct) (auto split: nat.splits)

lemma take_chars_all: "char_count s \<le> n \<Longrightarrow> take_chars n s = s"
  by (induction n s rule: take_chars.induct) (auto simp: char_count_def split: nat.splits if_splits)

lemma take_chars_append:
  "char_count k = n \<Longrightarrow> r = [] \<or> \<not> is_cont (hd r) \<Longrightarrow> take_chars n (k @ r) = k"
proof (induction n k rule: take_chars.induct)
  case (1 n)
  then show ?case by (cases r) (auto simp: char_count_def)
next
  case (2 n c cs)
  then show ?case by (cases n) (auto simp: char_count_def split: if_splits)
qed

lemma char_count_take_chars: "char_count (take_chars n s) \<le> n"
  by (induction n s rule: take_chars.induct) (auto simp: char_count_def split: nat.splits)

lemma char_count_take_chars_eq: "char_count (take_chars n s) = min n (char_count s)"
  by (induction n s rule: take_chars.induct) (auto simp: char_count_def split: nat.splits)

lemma char_count_Nil [str_simps]: "char_count [] = 0"
  by (simp add: char_count_def)

lemma char_count_append [str_simps]: "char_count (s @ t) = char_count s + char_count t"
  by (simp add: char_count_def)

lemma char_count_le_length: "char_count s \<le> length s"
  by (simp add: char_count_def)

section \<open>Punctuation of the messages\<close>

definition emdash :: string where "emdash = [CHR 0xE2, CHR 0x80, CHR 0x94]"
definition ellipsis :: string where "ellipsis = [CHR 0xE2, CHR 0x80, CHR 0xA6]"
definition apos :: string where "apos = [CHR 0x27]"
definition newline :: char where "newline = CHR 0x0A"

definition quoted :: "string \<Rightarrow> string" where
  "quoted s = CHR 0x27 # s @ [CHR 0x27]"

text \<open>\<open>str::lines\<close>: split at newlines, a final empty line and a carriage return before each break dropped.\<close>

definition lines :: "string \<Rightarrow> string list" where
  "lines s =
     (let ls = split_on (\<lambda>c. c = newline) s
      in map (strip_suffix_or [CHR 0x0D]) (butlast ls) @
         (if last ls = [] then [] else [last ls]))"

lemma contains_str_append: "contains_str p (a @ p @ b)"
  by (auto simp: contains_str_iff)

lemma contains_str_prefix: "contains_str p (p @ b)"
  using contains_str_append [of p "[]"] by simp

lemma contains_str_left: "contains_str p b \<Longrightarrow> contains_str p (a @ b)"
  by (auto simp: contains_str_iff) (metis append.assoc)

lemma contains_str_right: "contains_str p a \<Longrightarrow> contains_str p (a @ b)"
  by (auto simp: contains_str_iff) (metis append.assoc)

lemma contains_str_Cons: "contains_str p b \<Longrightarrow> contains_str p (c # b)"
  by simp

lemma contains_str_quoted: "contains_str p (quoted p)"
  using contains_str_append [of p "[CHR 0x27]" "[CHR 0x27]"] by (simp add: quoted_def)

end
