(* ===== verification/Paths.thy ===== *)
theory Paths
  imports Prelude
begin

text \<open>
  The lexical path comparison of \<open>policy/mod.rs\<close>: normalising a path, a registry key or a
  task name to lower-case components, the containment test the policy's blocklists and the
  registry executor's scope lists share, and the UNC test. The locale \<open>containment\<close> is
  the contract those clients rely on: containment is transitive, so a blocklist covers
  everything under what it covers.
\<close>

section \<open>Normalisation\<close>

abbreviation backslash :: char where "backslash \<equiv> CHR 0x5C"

definition is_sep :: "char \<Rightarrow> bool" where
  "is_sep c = (c = backslash \<or> c = CHR ''/'')"

definition hive_aliases :: "(string \<times> string) list" where
  "hive_aliases = [(''HKEY_LOCAL_MACHINE'', ''HKLM:''), (''HKEY_CURRENT_USER'', ''HKCU:'')]"

fun fold_hive :: "(string \<times> string) list \<Rightarrow> string \<Rightarrow> string" where
  "fold_hive [] p = p"
| "fold_hive ((alias, short) # rest) p =
     (if eq_ignore_ascii_case (take (length alias) p) alias then short @ drop (length alias) p
      else fold_hive rest p)"

definition verbatim_prefix :: string where
  "verbatim_prefix = [backslash, backslash, CHR ''?'', backslash]"

text \<open>One step of the loop over the raw components.\<close>

definition push_comp :: "(string \<Rightarrow> string) \<Rightarrow> string list \<Rightarrow> string \<Rightarrow> string list" where
  "push_comp u comps raw =
     (if raw = [] \<or> raw = ''.'' then comps
      else if raw = ''..'' then (if 1 < length comps then butlast comps else comps)
      else comps @ [to_lowercase u raw])"

definition normalize_path_lexical :: "(string \<Rightarrow> string) \<Rightarrow> string \<Rightarrow> string list" where
  "normalize_path_lexical u path =
     (let p = fold_hive hive_aliases (trim path);
          p = strip_prefix_or verbatim_prefix p
      in foldl (push_comp u) [] (split_on is_sep p))"

definition is_within :: "(string \<Rightarrow> string) \<Rightarrow> string \<Rightarrow> string \<Rightarrow> bool" where
  "is_within u path ancestor =
     (let cand = normalize_path_lexical u path; anc = normalize_path_lexical u ancestor
      in anc \<noteq> [] \<and> length cand \<ge> length anc \<and> take (length anc) cand = anc)"

definition is_network_path :: "string \<Rightarrow> bool" where
  "is_network_path path =
     starts_with [backslash, backslash] (replace_char (CHR ''/'') [backslash] (trim_start path))"

section \<open>Containment\<close>

text \<open>
  What a scope list needs of the containment test, and what it then gives: a list that
  covers a target covers everything inside the target, and an allowlist cut down by a
  denylist never admits what lies under a denied root.
\<close>

locale containment =
  fixes within :: "'a \<Rightarrow> 'a \<Rightarrow> bool"
  assumes within_trans: "within a b \<Longrightarrow> within b c \<Longrightarrow> within a c"
begin

lemma covered_inside: "list_ex (within p) roots \<Longrightarrow> within q p \<Longrightarrow> list_ex (within q) roots"
  using within_trans by (auto simp: list_ex_iff)

lemma uncovered_outside: "\<not> list_ex (within q) roots \<Longrightarrow> within q p \<Longrightarrow> \<not> list_ex (within p) roots"
  using covered_inside by blast

lemma scope_split:
  assumes "list_ex (within k) allow" and "\<not> list_ex (within k) deny"
  shows "\<exists>a \<in> set allow. within k a \<and> (\<forall>d \<in> set deny. \<not> within a d)"
proof -
  obtain a where a: "a \<in> set allow" "within k a" using assms(1) by (auto simp: list_ex_iff)
  moreover have "\<not> within a d" if "d \<in> set deny" for d
    using within_trans [OF a(2)] that assms(2) by (auto simp: list_ex_iff)
  ultimately show ?thesis by blast
qed

end

lemma is_within_iff:
  "is_within u p a \<longleftrightarrow> normalize_path_lexical u a \<noteq> [] \<and>
     (\<exists>r. normalize_path_lexical u p = normalize_path_lexical u a @ r)"
  by (auto simp: is_within_def Let_def) (metis append_take_drop_id)

lemma is_within_trans: "is_within u a b \<Longrightarrow> is_within u b c \<Longrightarrow> is_within u a c"
  by (auto simp: is_within_iff)

interpretation scope: containment "is_within u" for u
  by unfold_locales (rule is_within_trans)

lemma is_within_refl: "is_within u p p \<longleftrightarrow> normalize_path_lexical u p \<noteq> []"
  by (simp add: is_within_iff)

section \<open>What normalisation folds\<close>

lemma ws_len_lower [simp]: "ws_len (to_ascii_lowercase s) = ws_len s"
  by (induction s rule: ws_len.induct)
    (auto simp: to_ascii_lowercase_def byte_ascii_lower ws1_def ws2_def ws3_def)

lemma ws_len_rev_lower [simp]: "ws_len_rev (to_ascii_lowercase s) = ws_len_rev s"
  by (induction s rule: ws_len_rev.induct)
    (auto simp: to_ascii_lowercase_def byte_ascii_lower ws1_def ws2_def ws3_def)

lemma drop_lower: "drop n (to_ascii_lowercase s) = to_ascii_lowercase (drop n s)"
  by (simp add: to_ascii_lowercase_def drop_map)

lemma take_lower: "take n (to_ascii_lowercase s) = to_ascii_lowercase (take n s)"
  by (simp add: to_ascii_lowercase_def take_map)

lemma trim_start_lower: "trim_start (to_ascii_lowercase s) = to_ascii_lowercase (trim_start s)"
proof (induction s rule: trim_start.induct)
  case (1 s)
  show ?case
  proof (cases "ws_len s = 0")
    case False
    then show ?thesis using 1
      by (subst (1 2) trim_start.simps) (simp add: drop_lower)
  qed (simp add: trim_start_fix)
qed

lemma trim_rev_lower: "trim_rev (to_ascii_lowercase s) = to_ascii_lowercase (trim_rev s)"
proof (induction s rule: trim_rev.induct)
  case (1 s)
  show ?case
  proof (cases "ws_len_rev s = 0")
    case False
    then show ?thesis using 1
      by (subst (1 2) trim_rev.simps) (simp add: drop_lower)
  qed (simp add: trim_rev_fix)
qed

lemma trim_lower: "trim (to_ascii_lowercase s) = to_ascii_lowercase (trim s)"
  by (simp add: trim_def trim_end_def trim_start_lower trim_rev_lower [symmetric])
    (simp add: to_ascii_lowercase_def rev_map trim_rev_lower [unfolded to_ascii_lowercase_def])

lemma ascii_lower_sep: "is_sep (ascii_lower c) = is_sep c"
proof -
  have "is_sep d \<longleftrightarrow> byte d = 92 \<or> byte d = 47" for d
    using byte_inject [of d backslash, symmetric] byte_inject [of d "CHR ''/''", symmetric]
    by (simp add: is_sep_def del: byte_inject) (simp add: byte_def)
  then show ?thesis by (auto simp: byte_ascii_lower)
qed

lemma split_on_lower:
  "split_on is_sep (to_ascii_lowercase s) = map to_ascii_lowercase (split_on is_sep s)"
  by (induction s) (auto simp: to_ascii_lowercase_def ascii_lower_sep split: list.splits)


text \<open>Case folding commutes with every step, so a name's ASCII case never matters.\<close>

lemma fold_hive_lower:
  "\<forall>(a, b) \<in> set al. True \<Longrightarrow>
   to_ascii_lowercase (fold_hive al (to_ascii_lowercase p)) = to_ascii_lowercase (fold_hive al p)"
  by (induction al p rule: fold_hive.induct)
    (auto simp: take_lower drop_lower eq_ignore_ascii_case_def)

lemma ascii_lower_eq_nonletter:
  "byte d < 65 \<or> byte d = 92 \<Longrightarrow> ascii_lower c = d \<longleftrightarrow> c = d"
proof -
  assume d: "byte d < 65 \<or> byte d = 92"
  have "ascii_lower c = d \<longleftrightarrow> byte (ascii_lower c) = byte d" by simp
  also have "\<dots> \<longleftrightarrow> byte c = byte d" using d by (auto simp: byte_ascii_lower)
  finally show ?thesis by simp
qed

lemma strip_verbatim_lower:
  "strip_prefix_or verbatim_prefix (to_ascii_lowercase s) =
   to_ascii_lowercase (strip_prefix_or verbatim_prefix s)"
proof -
  have "to_ascii_lowercase t = verbatim_prefix \<longleftrightarrow> t = verbatim_prefix" for t
    by (auto simp: to_ascii_lowercase_def verbatim_prefix_def map_eq_Cons_conv
        ascii_lower_eq_nonletter byte_def)
  then show ?thesis
    by (simp add: strip_prefix_or_def strip_prefix_def starts_with_def take_lower drop_lower)
qed

lemma push_comp_lower:
  "is_ascii raw \<Longrightarrow> push_comp u comps (to_ascii_lowercase raw) = push_comp u comps raw"
proof -
  have "to_ascii_lowercase t = ''.'' \<longleftrightarrow> t = ''.''" "to_ascii_lowercase t = ''..'' \<longleftrightarrow> t = ''..''" for t
    by (auto simp: to_ascii_lowercase_def map_eq_Cons_conv ascii_lower_eq_nonletter byte_def)
  then show "is_ascii raw \<Longrightarrow> ?thesis" by (simp add: push_comp_def)
qed

lemma foldl_push_lower:
  "\<forall>w \<in> set ws. is_ascii w \<Longrightarrow>
   foldl (push_comp u) cs (map to_ascii_lowercase ws) = foldl (push_comp u) cs ws"
  by (induction ws arbitrary: cs) (auto simp: push_comp_lower)

lemma set_split_on: "w \<in> set (split_on P s) \<Longrightarrow> set w \<subseteq> set s"
proof (induction s arbitrary: w)
  case (Cons c cs)
  obtain v vs where v: "split_on P cs = v # vs" by (meson neq_Nil_conv split_on_nonempty)
  with Cons show ?case by (fastforce split: if_splits)
qed simp

lemma is_ascii_subset: "is_ascii s \<Longrightarrow> set t \<subseteq> set s \<Longrightarrow> is_ascii t"
  by (auto simp: is_ascii_def list_all_iff)

lemma set_strip_prefix_or: "set (strip_prefix_or p s) \<subseteq> set s"
  by (auto simp: strip_prefix_or_def strip_prefix_def dest: in_set_dropD)

lemma is_ascii_fold_hive: "is_ascii p \<Longrightarrow> is_ascii (fold_hive hive_aliases p)"
  by (auto simp: hive_aliases_def is_ascii_def list_all_iff byte_def dest: in_set_dropD)

text \<open>The components after the hive fold depend only on the case-folded string.\<close>

lemma comps_lower:
  assumes "is_ascii q"
  shows "foldl (push_comp u) [] (split_on is_sep (strip_prefix_or verbatim_prefix (to_ascii_lowercase q)))
       = foldl (push_comp u) [] (split_on is_sep (strip_prefix_or verbatim_prefix q))"
proof -
  have "\<forall>w \<in> set (split_on is_sep (strip_prefix_or verbatim_prefix q)). is_ascii w"
    using assms set_split_on set_strip_prefix_or is_ascii_subset by (metis subset_trans)
  then show ?thesis by (simp add: strip_verbatim_lower split_on_lower foldl_push_lower)
qed

lemma normalize_case:
  assumes "is_ascii p"
  shows "normalize_path_lexical u (to_ascii_lowercase p) = normalize_path_lexical u p"
proof -
  let ?q = "fold_hive hive_aliases (trim p)"
  let ?q' = "fold_hive hive_aliases (to_ascii_lowercase (trim p))"
  have "is_ascii (trim p)" using assms set_trim is_ascii_subset by blast
  then have a: "is_ascii ?q" "is_ascii ?q'" by (simp_all add: is_ascii_fold_hive)
  have "to_ascii_lowercase ?q' = to_ascii_lowercase ?q" by (simp add: fold_hive_lower)
  then show ?thesis
    using comps_lower [OF a(1), of u] comps_lower [OF a(2), of u]
    by (simp add: normalize_path_lexical_def trim_lower)
qed

section \<open>Children\<close>

text \<open>A plain component name: what \<open>dir\\name\<close> adds to a path.\<close>

definition plain_comp :: "string \<Rightarrow> bool" where
  "plain_comp c = (c \<noteq> [] \<and> c \<noteq> ''.'' \<and> c \<noteq> ''..'' \<and> list_all (\<lambda>x. \<not> is_sep x) c \<and> ws_len_rev (rev c) = 0)"

lemma trim_child:
  assumes "trim p = p" and "p \<noteq> []" and "plain_comp c"
  shows "trim (p @ backslash # c) = p @ backslash # c"
proof -
  have "ws_len (p @ backslash # c) = 0"
    using assms(1,2) by (intro ws_len_append_ascii) (auto simp: trim_eq_self byte_def)
  moreover have "ws_len_rev (rev c @ backslash # rev p) = 0"
    using assms(3) by (intro ws_len_rev_append_ascii) (auto simp: plain_comp_def byte_def)
  ultimately show ?thesis by (simp add: trim_eq_self)
qed

lemma fold_hive_child:
  assumes "\<forall>(a, b) \<in> set al. list_all (\<lambda>x. ascii_lower x \<noteq> backslash) a"
  shows "fold_hive al (p @ backslash # c) = fold_hive al p @ backslash # c"
  using assms
proof (induction al)
  case (Cons ab al)
  obtain a b where ab: "ab = (a, b)" by (cases ab)
  show ?case
  proof (cases "length a \<le> length p")
    case True
    with Cons ab show ?thesis by simp
  next
    case False
    have "backslash \<in> set (take (length a) (p @ backslash # c))"
      using False by (auto simp: take_Cons' )
    then have "ascii_lower backslash \<in> set (to_ascii_lowercase (take (length a) (p @ backslash # c)))"
      by (auto simp: to_ascii_lowercase_def)
    moreover have "ascii_lower backslash \<notin> set (to_ascii_lowercase a)"
      using Cons.prems ab
      by (auto simp: to_ascii_lowercase_def list_all_iff ascii_lower_def is_ascii_upper_def byte_def)
    ultimately have "\<not> eq_ignore_ascii_case (take (length a) (p @ backslash # c)) a"
      unfolding eq_ignore_ascii_case_def by metis
    moreover have "length (take (length a) p) \<noteq> length a" using False by simp
    then have "\<not> eq_ignore_ascii_case (take (length a) p) a"
      unfolding eq_ignore_ascii_case_def by (metis length_to_ascii_lowercase)
    ultimately show ?thesis using Cons ab by simp
  qed
qed simp

lemma hive_aliases_plain:
  "\<forall>(a, b) \<in> set hive_aliases. list_all (\<lambda>x. ascii_lower x \<noteq> backslash) a"
  by (simp add: hive_aliases_def ascii_lower_eq_nonletter byte_def)

lemma strip_verbatim_child:
  assumes "q \<noteq> []" and "q \<noteq> [backslash, backslash, CHR ''?'']" and "plain_comp c"
  shows "strip_prefix_or verbatim_prefix (q @ backslash # c) =
         strip_prefix_or verbatim_prefix q @ backslash # c"
proof (cases "4 \<le> length q")
  case True
  then show ?thesis
    by (simp add: strip_prefix_or_def strip_prefix_def starts_with_def verbatim_prefix_def)
next
  case False
  have c: "list_all (\<lambda>x. x \<noteq> backslash) c"
    using assms(3) by (auto simp: plain_comp_def list_all_iff is_sep_def)
  from False have "length q < 4" by simp
  then have "\<not> starts_with verbatim_prefix q" by (auto dest: starts_with_length simp: verbatim_prefix_def)
  moreover have "\<not> starts_with verbatim_prefix (q @ backslash # c)"
  proof
    assume "starts_with verbatim_prefix (q @ backslash # c)"
    then obtain r where r: "q @ backslash # c = verbatim_prefix @ r" by (auto simp: starts_with_iff)
    with \<open>length q < 4\<close> assms(1,2) c show False
      by (cases q rule: remdups_adj.cases; cases "tl (tl q)"; cases "tl (tl (tl q))")
        (auto simp: verbatim_prefix_def append_eq_Cons_conv Cons_eq_append_conv)
  qed
  ultimately show ?thesis by (simp add: strip_prefix_or_def strip_prefix_def)
qed

lemma fold_hive_not_verbatim:
  assumes "p \<noteq> [backslash, backslash, CHR ''?'']" and "p \<noteq> []"
  shows "fold_hive hive_aliases p \<noteq> [backslash, backslash, CHR ''?'']" and "fold_hive hive_aliases p \<noteq> []"
  using assms by (auto simp: hive_aliases_def)

lemma normalize_child:
  assumes "trim p = p" and "p \<noteq> []" and "p \<noteq> [backslash, backslash, CHR ''?'']" and "plain_comp c"
  shows "normalize_path_lexical u (p @ backslash # c) = normalize_path_lexical u p @ [to_lowercase u c]"
proof -
  let ?q = "fold_hive hive_aliases p"
  have q: "?q \<noteq> []" "?q \<noteq> [backslash, backslash, CHR ''?'']"
    using fold_hive_not_verbatim assms(2,3) by blast+
  have sc: "split_on is_sep c = [c]"
    using assms(4) by (intro split_on_no_sep) (simp add: plain_comp_def list_all_iff)
  have "split_on is_sep (strip_prefix_or verbatim_prefix ?q @ backslash # c) =
        split_on is_sep (strip_prefix_or verbatim_prefix ?q) @ [c]"
    by (subst split_on_append_sep) (simp_all add: sc is_sep_def)
  then show ?thesis
    using assms
    by (simp add: normalize_path_lexical_def trim_child fold_hive_child [OF hive_aliases_plain]
        strip_verbatim_child [OF q] push_comp_def plain_comp_def)
qed

text \<open>What lies in a directory is within whatever the directory is within.\<close>

lemma is_within_child:
  assumes "is_within u p a" and "trim p = p" and "p \<noteq> []"
    and "p \<noteq> [backslash, backslash, CHR ''?'']" and "plain_comp c"
  shows "is_within u (p @ backslash # c) a"
  using assms by (auto simp: is_within_iff normalize_child)

text \<open>No sequence of components pops the root: \<open>..\<close> never leaves it.\<close>

lemma foldl_push_hd: "cs \<noteq> [] \<Longrightarrow> foldl (push_comp u) cs ws \<noteq> [] \<and> hd (foldl (push_comp u) cs ws) = hd cs"
proof (induction ws arbitrary: cs)
  case (Cons w ws)
  have "push_comp u cs w \<noteq> [] \<and> hd (push_comp u cs w) = hd cs"
    using Cons.prems by (cases cs rule: rev_cases) (auto simp: push_comp_def hd_append split: if_splits)
  with Cons.IH [of "push_comp u cs w"] show ?case by simp
qed simp

lemma is_network_path_unc: "is_sep a \<Longrightarrow> is_sep b \<Longrightarrow> is_network_path (a # b # r)"
proof -
  assume a: "is_sep a" and b: "is_sep b"
  have "\<not> ws1 (byte a) \<and> byte a < 128"
    using a unfolding is_sep_def by (elim disjE) (simp_all add: ws1_def byte_def)
  then have "trim_start (a # b # r) = a # b # r"
    by (intro trim_start_fix ws_len_ascii) simp_all
  moreover have "replace_char (CHR ''/'') [backslash] (a # b # r) =
      backslash # backslash # replace_char (CHR ''/'') [backslash] r"
    using a b unfolding is_sep_def by (elim disjE) (simp_all add: replace_char_def)
  ultimately show ?thesis by (simp add: is_network_path_def starts_with_def)
qed

end
