(* ===== verification/Floats.thy ===== *)
theory Floats
  imports Prelude Complex_Main
begin

text \<open>
  IEEE 754 binary floating point as Rust's \<open>f32\<close> and \<open>f64\<close> have it, exactly: a value is
  NaN, an infinity or a rational number, and every arithmetic operation is the exact
  rational result rounded to nearest, ties to even, with the format's precision, its
  smallest exponent (gradual underflow) and its largest exponent (overflow to infinity).
  The sign of zero is not kept: no operation of the modelled code divides by a zero or
  looks at the sign of one. Everything computes, so a witness can run it.

  The lemmas say that rounding is monotone against representable numbers from both
  sides; they are stated once in the locale \<open>rounding\<close> and hold for both formats by
  interpretation.
\<close>

datatype fnum = NaN | PInf | NInf | Fin rat

section \<open>Rounding\<close>

record fmt =
  prec :: int
  min_ulp :: int
  max_exp :: int

definition f32 :: fmt where
  "f32 = \<lparr>prec = 24, min_ulp = -149, max_exp = 127\<rparr>"

definition f64 :: fmt where
  "f64 = \<lparr>prec = 53, min_ulp = -1074, max_exp = 1023\<rparr>"

definition pow2 :: "int \<Rightarrow> rat" where
  "pow2 k = (if 0 \<le> k then 2 ^ nat k else 1 / 2 ^ nat (- k))"

fun bit_len :: "nat \<Rightarrow> nat" where
  "bit_len n = (if n = 0 then 0 else Suc (bit_len (n div 2)))"

declare bit_len.simps [simp del]

text \<open>The exponent of a positive number: \<open>2 ^ expo a \<le> a < 2 ^ (expo a + 1)\<close>.\<close>

definition expo :: "rat \<Rightarrow> int" where
  "expo a =
     (let (n, d) = quotient_of a;
          e = int (bit_len (nat n)) - int (bit_len (nat d))
      in if pow2 e \<le> a then e else e - 1)"

definition ulp :: "fmt \<Rightarrow> rat \<Rightarrow> rat" where
  "ulp f a = pow2 (max (expo a - prec f + 1) (min_ulp f))"

definition rne :: "rat \<Rightarrow> int" where
  "rne x =
     (let n = \<lfloor>x\<rfloor>; d = x - of_int n in
      if d < 1 / 2 then n else if d > 1 / 2 then n + 1 else if even n then n else n + 1)"

definition round_pos :: "fmt \<Rightarrow> rat \<Rightarrow> rat" where
  "round_pos f a = of_int (rne (a / ulp f a)) * ulp f a"

definition rnd :: "fmt \<Rightarrow> rat \<Rightarrow> fnum" where
  "rnd f q =
     (if q = 0 then Fin 0
      else if q > 0 then (let r = round_pos f q in if r < pow2 (max_exp f + 1) then Fin r else PInf)
      else (let r = round_pos f (- q) in if r < pow2 (max_exp f + 1) then Fin (- r) else NInf))"

section \<open>Operations\<close>

fun f_add :: "fmt \<Rightarrow> fnum \<Rightarrow> fnum \<Rightarrow> fnum" where
  "f_add f (Fin a) (Fin b) = rnd f (a + b)"
| "f_add f NaN y = NaN"
| "f_add f x NaN = NaN"
| "f_add f PInf NInf = NaN"
| "f_add f NInf PInf = NaN"
| "f_add f PInf y = PInf"
| "f_add f NInf y = NInf"
| "f_add f x PInf = PInf"
| "f_add f x NInf = NInf"

fun f_neg :: "fnum \<Rightarrow> fnum" where
  "f_neg NaN = NaN"
| "f_neg PInf = NInf"
| "f_neg NInf = PInf"
| "f_neg (Fin a) = Fin (- a)"

definition f_sub :: "fmt \<Rightarrow> fnum \<Rightarrow> fnum \<Rightarrow> fnum" where
  "f_sub f x y = f_add f x (f_neg y)"

text \<open>Division by a nonzero finite number, the only division the code does.\<close>

fun f_div :: "fmt \<Rightarrow> fnum \<Rightarrow> rat \<Rightarrow> fnum" where
  "f_div f NaN b = NaN"
| "f_div f PInf b = (if b > 0 then PInf else NInf)"
| "f_div f NInf b = (if b > 0 then NInf else PInf)"
| "f_div f (Fin a) b = rnd f (a / b)"

fun f_mul :: "fmt \<Rightarrow> fnum \<Rightarrow> rat \<Rightarrow> fnum" where
  "f_mul f NaN b = NaN"
| "f_mul f PInf b = (if b > 0 then PInf else if b < 0 then NInf else NaN)"
| "f_mul f NInf b = (if b > 0 then NInf else if b < 0 then PInf else NaN)"
| "f_mul f (Fin a) b = rnd f (a * b)"

fun f_le :: "fnum \<Rightarrow> fnum \<Rightarrow> bool" where
  "f_le (Fin a) (Fin b) = (a \<le> b)"
| "f_le NaN y = False"
| "f_le x NaN = False"
| "f_le NInf y = True"
| "f_le x PInf = True"
| "f_le x y = False"

fun f_lt :: "fnum \<Rightarrow> fnum \<Rightarrow> bool" where
  "f_lt (Fin a) (Fin b) = (a < b)"
| "f_lt NaN y = False"
| "f_lt x NaN = False"
| "f_lt PInf y = False"
| "f_lt x NInf = False"
| "f_lt x y = True"

text \<open>\<open>f32::max\<close> and \<open>f32::min\<close> return the other argument when one is NaN.\<close>

definition f_max :: "fnum \<Rightarrow> fnum \<Rightarrow> fnum" where
  "f_max x y = (if x = NaN then y else if y = NaN then x else if f_lt x y then y else x)"

definition f_min :: "fnum \<Rightarrow> fnum \<Rightarrow> fnum" where
  "f_min x y = (if x = NaN then y else if y = NaN then x else if f_lt y x then y else x)"

fun is_finite :: "fnum \<Rightarrow> bool" where
  "is_finite (Fin a) = True"
| "is_finite x = False"

fun convert :: "fmt \<Rightarrow> fnum \<Rightarrow> fnum" where
  "convert f (Fin a) = rnd f a"
| "convert f x = x"

definition representable :: "fmt \<Rightarrow> rat \<Rightarrow> bool" where
  "representable f q = (rnd f q = Fin q)"

section \<open>Powers of two and exponents\<close>

lemma pow2_powi: "pow2 k = 2 powi k"
  by (simp add: pow2_def power_int_def field_simps)

lemma pow2_add: "pow2 (a + b) = pow2 a * pow2 b"
  by (simp add: pow2_powi power_int_add)

lemma pow2_pos [simp]: "0 < pow2 k"
  by (simp add: pow2_def)

lemma pow2_nz [simp]: "pow2 k \<noteq> 0"
  using pow2_pos [of k] by linarith

lemma pow2_mono: "a \<le> b \<Longrightarrow> pow2 a \<le> pow2 b"
  by (simp add: pow2_powi power_int_increasing)

lemma pow2_strict: "a < b \<Longrightarrow> pow2 a < pow2 b"
  by (simp add: pow2_powi power_int_strict_increasing)

lemma pow2_less_iff: "pow2 a < pow2 b \<longleftrightarrow> a < b"
  using pow2_strict [of a b] pow2_mono [of b a] by linarith

lemma pow2_Suc: "pow2 (k + 1) = 2 * pow2 k"
  by (simp add: pow2_add) (simp add: pow2_def)

text \<open>A power of two is an integer multiple of every smaller one.\<close>

lemma pow2_multiple: "a \<le> b \<Longrightarrow> \<exists>m. pow2 b = of_int m * pow2 a \<and> 0 < m"
proof -
  assume "a \<le> b"
  then have "pow2 b = of_int (2 ^ nat (b - a)) * pow2 a"
    using pow2_add [of "b - a" a] by (simp add: pow2_def)
  then show ?thesis by (intro exI [of _ "2 ^ nat (b - a)"]) simp
qed

lemma bit_len_bounds: "0 < n \<Longrightarrow> 2 ^ (bit_len n - 1) \<le> n \<and> n < 2 ^ bit_len n \<and> 0 < bit_len n"
proof (induction n rule: bit_len.induct)
  case (1 n)
  show ?case
  proof (cases "n div 2 = 0")
    case True
    with 1(2) have "n = 1" by (simp add: div_eq_0_iff)
    then show ?thesis by (simp add: bit_len.simps [of "Suc 0"] bit_len.simps [of 0])
  next
    case False
    with 1 have IH: "2 ^ (bit_len (n div 2) - 1) \<le> n div 2" "n div 2 < 2 ^ bit_len (n div 2)"
      "0 < bit_len (n div 2)" by auto
    have b: "bit_len n = Suc (bit_len (n div 2))"
      using 1(2) by (subst bit_len.simps) simp
    have "2 ^ bit_len (n div 2) = 2 * (2::nat) ^ (bit_len (n div 2) - 1)"
      using IH(3) by (metis Suc_pred' power_Suc)
    then show ?thesis using IH b by simp linarith
  qed
qed

lemma bit_len_rat:
  assumes "0 < n"
  shows "pow2 (int (bit_len (nat n)) - 1) \<le> of_int n" and "of_int n < pow2 (int (bit_len (nat n)))"
proof -
  let ?b = "bit_len (nat n)"
  have B: "2 ^ (?b - 1) \<le> nat n" "nat n < 2 ^ ?b" "0 < ?b"
    using bit_len_bounds [of "nat n"] assms by auto
  have "(2::int) ^ (?b - 1) \<le> n" "n < 2 ^ ?b"
    using B(1,2) assms by (simp_all add: nat_less_iff le_nat_iff flip: of_nat_le_iff of_nat_less_iff)
  then have "of_int (2 ^ (?b - 1)) \<le> (of_int n :: rat)" "(of_int n :: rat) < of_int (2 ^ ?b)"
    by (simp_all only: of_int_le_iff of_int_less_iff)
  then show "pow2 (int ?b - 1) \<le> of_int n" "of_int n < pow2 (int ?b)"
    using B(3) by (simp_all add: pow2_def nat_diff_distrib)
qed

lemma expo_bounds:
  assumes "0 < a"
  shows "pow2 (expo a) \<le> a" and "a < pow2 (expo a + 1)"
proof -
  obtain n d where q: "quotient_of a = (n, d)" by (cases "quotient_of a") auto
  have d: "0 < d" using quotient_of_denom_pos [OF q] .
  have a: "a = of_int n / of_int d" using quotient_of_div [OF q] .
  with assms d have n: "0 < n" by (simp add: zero_less_divide_iff)
  let ?bn = "int (bit_len (nat n))" and ?bd = "int (bit_len (nat d))"
  have up: "a < pow2 (?bn - ?bd + 1)"
  proof -
    have "of_int n < pow2 ?bn" by (rule bit_len_rat [OF n])
    also have "\<dots> = pow2 (?bn - ?bd + 1) * pow2 (?bd - 1)" by (simp flip: pow2_add)
    also have "\<dots> \<le> pow2 (?bn - ?bd + 1) * of_int d"
      using bit_len_rat(1) [OF d] by (simp add: mult_left_mono less_imp_le)
    finally show ?thesis using d a by (simp add: divide_less_eq)
  qed
  have lo: "pow2 (?bn - ?bd - 1) \<le> a"
  proof -
    have "pow2 (?bn - ?bd - 1) * of_int d \<le> pow2 (?bn - ?bd - 1) * pow2 ?bd"
      using bit_len_rat(2) [OF d] by (simp add: mult_left_mono less_imp_le)
    also have "\<dots> = pow2 (?bn - 1)" by (simp flip: pow2_add)
    also have "\<dots> \<le> of_int n" by (rule bit_len_rat [OF n])
    finally show ?thesis using d a by (simp add: le_divide_eq)
  qed
  show "pow2 (expo a) \<le> a" using lo by (simp add: expo_def q Let_def)
  show "a < pow2 (expo a + 1)" using up by (auto simp: expo_def q Let_def)
qed

lemma expo_mono: "0 < a \<Longrightarrow> a \<le> b \<Longrightarrow> expo a \<le> expo b"
  using expo_bounds(1) [of a] expo_bounds(2) [of b] pow2_less_iff [of "expo a" "expo b + 1"] by force

section \<open>Monotonicity of rounding\<close>

lemma rne_le: "x \<le> of_int k \<Longrightarrow> rne x \<le> k"
proof -
  assume x: "x \<le> of_int k"
  have f: "\<lfloor>x\<rfloor> \<le> k" using x by linarith
  show ?thesis
  proof (cases "\<lfloor>x\<rfloor> = k")
    case True
    with x have "x - of_int \<lfloor>x\<rfloor> = 0" by linarith
    with f show ?thesis by (simp add: rne_def)
  next
    case False
    with f show ?thesis by (auto simp: rne_def Let_def)
  qed
qed

lemma rne_ge: "of_int k \<le> x \<Longrightarrow> k \<le> rne x"
proof -
  assume "of_int k \<le> x"
  then have "k \<le> \<lfloor>x\<rfloor>" by linarith
  then show ?thesis by (auto simp: rne_def Let_def)
qed

lemma ulp_pos [simp]: "0 < ulp f a"
  by (simp add: ulp_def)

lemma round_pos_nonneg: "0 \<le> a \<Longrightarrow> 0 \<le> round_pos f a"
  using rne_ge [of 0 "a / ulp f a"] by (simp add: round_pos_def less_imp_le)

lemma round_pos_le_multiple: "a \<le> of_int k * ulp f a \<Longrightarrow> round_pos f a \<le> of_int k * ulp f a"
  using rne_le [of "a / ulp f a" k] by (simp add: round_pos_def divide_le_eq mult_right_mono less_imp_le)

lemma round_pos_ge_multiple: "of_int k * ulp f a \<le> a \<Longrightarrow> of_int k * ulp f a \<le> round_pos f a"
  using rne_ge [of k "a / ulp f a"] by (simp add: round_pos_def le_divide_eq mult_right_mono less_imp_le)

lemma representable_pos:
  assumes "representable f x" and "0 < x"
  shows "round_pos f x = x" and "x < pow2 (max_exp f + 1)"
  using assms by (auto simp: representable_def rnd_def Let_def split: if_splits)

lemma representable_pos_ulp:
  assumes "representable f x" and "0 < x"
  obtains k where "x = of_int k * ulp f x" and "0 < k"
proof
  show x: "x = of_int (rne (x / ulp f x)) * ulp f x"
    using representable_pos(1) [OF assms] by (simp add: round_pos_def)
  have "0 < of_int (rne (x / ulp f x)) * ulp f x" using x assms(2) by linarith
  then show "0 < rne (x / ulp f x)" using ulp_pos [of f x] by (simp add: zero_less_mult_iff del: ulp_pos)
qed

lemma ulp_multiple: "0 < a \<Longrightarrow> a \<le> b \<Longrightarrow> \<exists>m. ulp f b = of_int m * ulp f a"
  unfolding ulp_def using pow2_multiple expo_mono by (metis add.commute add_le_cancel_left diff_right_mono max.mono order_refl)

locale rounding =
  fixes f :: fmt
  assumes prec_pos: "1 \<le> prec f"
begin

lemma round_le:
  assumes "representable f x" and "0 \<le> q" and "q \<le> x"
  shows "\<exists>r. rnd f q = Fin r \<and> 0 \<le> r \<and> r \<le> x"
proof (cases "q = 0")
  case True
  with assms show ?thesis by (simp add: rnd_def)
next
  case False
  with assms have q: "0 < q" "0 < x" by auto
  obtain k where k: "x = of_int k * ulp f x" using representable_pos_ulp [OF assms(1) q(2)] .
  obtain m where "ulp f x = of_int m * ulp f q" using ulp_multiple [OF q(1) assms(3)] by blast
  with k have x: "x = of_int (k * m) * ulp f q" by (metis mult.assoc of_int_mult)
  have "round_pos f q \<le> x" using round_pos_le_multiple [of q "k * m" f] assms(3) x by simp
  moreover have "x < pow2 (max_exp f + 1)" using representable_pos(2) [OF assms(1) q(2)] .
  ultimately show ?thesis using q round_pos_nonneg [of q f] by (auto simp: rnd_def Let_def)
qed

lemma round_pos_ge:
  assumes "representable f y" and "0 < y" and "y \<le> q"
  shows "y \<le> round_pos f q"
proof (cases "expo y = expo q")
  case True
  then have u: "ulp f y = ulp f q" by (simp add: ulp_def)
  obtain k where "y = of_int k * ulp f y" using representable_pos_ulp [OF assms(1,2)] .
  then show ?thesis using round_pos_ge_multiple [of k f q] assms(3) u by simp
next
  case False
  with expo_mono [OF assms(2,3)] have lt: "expo y + 1 \<le> expo q" by simp
  obtain k where k: "y = of_int k * ulp f y" "0 < k" using representable_pos_ulp [OF assms(1,2)] .
  have "(1::rat) \<le> of_int k" using k(2) by simp
  then have "1 * ulp f y \<le> of_int k * ulp f y" by (rule mult_right_mono) (simp add: less_imp_le)
  moreover have "pow2 (min_ulp f) \<le> ulp f y" unfolding ulp_def by (intro pow2_mono) simp
  ultimately have "pow2 (min_ulp f) \<le> y" using k(1) by linarith
  also have "y < pow2 (expo y + 1)" by (rule expo_bounds [OF assms(2)])
  finally have "min_ulp f < expo y + 1" by (simp add: pow2_less_iff)
  with lt prec_pos obtain m where m: "pow2 (expo q) = of_int m * ulp f q"
    unfolding ulp_def using pow2_multiple [of "max (expo q - prec f + 1) (min_ulp f)" "expo q"] by auto
  have "y \<le> pow2 (expo q)"
    using expo_bounds(2) [OF assms(2)] pow2_mono [OF lt] by linarith
  also have "\<dots> \<le> round_pos f q"
    using round_pos_ge_multiple [of m f q] m expo_bounds(1) [of q] assms by simp
  finally show ?thesis .
qed

lemma round_ge:
  assumes "representable f y" and "0 < y" and "y \<le> q"
  shows "f_le (Fin y) (rnd f q)"
  using round_pos_ge [OF assms] assms by (auto simp: rnd_def Let_def)

end

interpretation r32: rounding f32
  by unfold_locales (simp add: f32_def)

interpretation r64: rounding f64
  by unfold_locales (simp add: f64_def)

text \<open>Rounding to the format a number is representable in changes nothing.\<close>

lemma representable_0 [simp]: "representable f 0"
  by (simp add: representable_def rnd_def)

lemma representable_1_32 [simp]: "representable f32 1"
  by (simp add: representable_def rnd_def round_pos_def ulp_def f32_def expo_def pow2_def
      bit_len.simps rne_def quotient_of_number)

text \<open>The values an \<open>f32\<close> holds.\<close>

fun is_f32 :: "fnum \<Rightarrow> bool" where
  "is_f32 (Fin q) = (rnd f32 q = Fin q)"
| "is_f32 x = True"

lemma f_max_0: "x \<noteq> NaN \<Longrightarrow> f_le (Fin 0) (f_max x (Fin 0))"
  by (cases x) (auto simp: f_max_def)

end
