(* ===== verification/Fix_Action.thy ===== *)
theory Fix_Action
  imports Paths Floats
begin

text \<open>
  The vocabulary of \<open>models.rs\<close>: the closed set of fix actions, the key that identifies
  the issue an action addresses, the lenient readers of the model's JSON (confidence,
  booleans, the shorthand form of an action) and the byte bounds on the model's output.
\<close>

section \<open>Actions\<close>

datatype fix_action =
    ServiceRestart (service_name: string)
  | ServiceStop string
  | ServiceStart string
  | LogCleanup string nat
  | DiskCleanup string
  | PowerShellDiagnostic (script: string)
  | TaskDisable string
  | TaskEnable string
  | RegistryReset (key_path: string) (value_name: string) (value_data: string)
  | NetworkDiagnostic string
  | DriverDisable string
  | DriverEnable string
  | SoftwareUninstall string
  | BcdEdit string string
  | ProcessKill string
  | FileDelete string
  | FirewallEnable string
  | DefenderSignatureUpdate
  | DefenderRealtimeEnable
  | SfcScan
  | DismRestoreHealth
  | StartupSet string string string bool

definition action_type_name :: "fix_action \<Rightarrow> string" where
  "action_type_name a = (case a of
     ServiceRestart _ \<Rightarrow> ''service_restart''
   | ServiceStop _ \<Rightarrow> ''service_stop''
   | ServiceStart _ \<Rightarrow> ''service_start''
   | LogCleanup _ _ \<Rightarrow> ''log_cleanup''
   | DiskCleanup _ \<Rightarrow> ''disk_cleanup''
   | PowerShellDiagnostic _ \<Rightarrow> ''powershell_diagnostic''
   | TaskDisable _ \<Rightarrow> ''task_disable''
   | TaskEnable _ \<Rightarrow> ''task_enable''
   | RegistryReset _ _ _ \<Rightarrow> ''registry_reset''
   | NetworkDiagnostic _ \<Rightarrow> ''network_diagnostic''
   | DriverDisable _ \<Rightarrow> ''driver_disable''
   | DriverEnable _ \<Rightarrow> ''driver_enable''
   | SoftwareUninstall _ \<Rightarrow> ''software_uninstall''
   | BcdEdit _ _ \<Rightarrow> ''bcd_edit''
   | ProcessKill _ \<Rightarrow> ''process_kill''
   | FileDelete _ \<Rightarrow> ''file_delete''
   | FirewallEnable _ \<Rightarrow> ''firewall_enable''
   | DefenderSignatureUpdate \<Rightarrow> ''defender_signature_update''
   | DefenderRealtimeEnable \<Rightarrow> ''defender_realtime_enable''
   | SfcScan \<Rightarrow> ''sfc_scan''
   | DismRestoreHealth \<Rightarrow> ''dism_restore_health''
   | StartupSet _ _ _ _ \<Rightarrow> ''startup_set'')"

definition can_always_approve :: "fix_action \<Rightarrow> bool" where
  "can_always_approve a = (case a of PowerShellDiagnostic _ \<Rightarrow> False | _ \<Rightarrow> True)"

definition normalized_windows_target :: "(string \<Rightarrow> string) \<Rightarrow> string \<Rightarrow> string" where
  "normalized_windows_target u target = join [backslash] (normalize_path_lexical u target)"

definition show_bool :: "bool \<Rightarrow> string" where
  "show_bool b = (if b then ''true'' else ''false'')"

definition keyed :: "string \<Rightarrow> string \<Rightarrow> string" where
  "keyed kind target = kind @ ''|'' @ to_ascii_lowercase target"

definition dedup_key :: "(string \<Rightarrow> string) \<Rightarrow> fix_action \<Rightarrow> string" where
  "dedup_key u a = (case a of
     ServiceRestart s \<Rightarrow> keyed ''service_restart'' s
   | ServiceStop s \<Rightarrow> keyed ''service_stop'' s
   | ServiceStart s \<Rightarrow> keyed ''service_start'' s
   | LogCleanup path _ \<Rightarrow> ''log_cleanup|'' @ normalized_windows_target u path
   | DiskCleanup target \<Rightarrow> keyed ''disk_cleanup'' target
   | PowerShellDiagnostic _ \<Rightarrow> ''powershell_diagnostic''
   | TaskDisable t \<Rightarrow> ''task_disable|'' @ normalized_windows_target u t
   | TaskEnable t \<Rightarrow> ''task_enable|'' @ normalized_windows_target u t
   | RegistryReset k v _ \<Rightarrow>
       ''registry_reset|'' @ normalized_windows_target u k @ ''|'' @ to_ascii_lowercase v
   | NetworkDiagnostic c \<Rightarrow> keyed ''network_diagnostic'' c
   | DriverDisable d \<Rightarrow> keyed ''driver_disable'' d
   | DriverEnable d \<Rightarrow> keyed ''driver_enable'' d
   | SoftwareUninstall p \<Rightarrow> keyed ''software_uninstall'' p
   | BcdEdit e _ \<Rightarrow> keyed ''bcd_edit'' e
   | ProcessKill p \<Rightarrow> keyed ''process_kill'' p
   | FileDelete path \<Rightarrow> ''file_delete|'' @ normalized_windows_target u path
   | FirewallEnable p \<Rightarrow> keyed ''firewall_enable'' p
   | DefenderSignatureUpdate \<Rightarrow> ''defender_signature_update''
   | DefenderRealtimeEnable \<Rightarrow> ''defender_realtime_enable''
   | SfcScan \<Rightarrow> ''sfc_scan''
   | DismRestoreHealth \<Rightarrow> ''dism_restore_health''
   | StartupSet n l h en \<Rightarrow>
       ''startup_set|'' @ to_ascii_lowercase n @ ''|'' @ to_ascii_lowercase l @ ''|'' @
       to_ascii_lowercase h @ ''|'' @ show_bool en)"

text \<open>
  The derived \<open>Debug\<close> form, the label the audit tables and the activity feed use; \<open>esc\<close> is
  the \<open>Debug\<close> form of a string, quotes included.
\<close>

definition debug_fields :: "string \<Rightarrow> (string \<times> string) list \<Rightarrow> string" where
  "debug_fields name fs = name @ '' { '' @ join '', '' (map (\<lambda>(k, v). k @ '': '' @ v) fs) @ '' }''"

definition debug_action :: "(string \<Rightarrow> string) \<Rightarrow> fix_action \<Rightarrow> string" where
  "debug_action esc a = (case a of
     ServiceRestart s \<Rightarrow> debug_fields ''ServiceRestart'' [(''service_name'', esc s)]
   | ServiceStop s \<Rightarrow> debug_fields ''ServiceStop'' [(''service_name'', esc s)]
   | ServiceStart s \<Rightarrow> debug_fields ''ServiceStart'' [(''service_name'', esc s)]
   | LogCleanup p d \<Rightarrow> debug_fields ''LogCleanup'' [(''path'', esc p), (''days_old'', show_nat d)]
   | DiskCleanup t \<Rightarrow> debug_fields ''DiskCleanup'' [(''target'', esc t)]
   | PowerShellDiagnostic s \<Rightarrow> debug_fields ''PowerShellDiagnostic'' [(''script'', esc s)]
   | TaskDisable t \<Rightarrow> debug_fields ''TaskDisable'' [(''task_name'', esc t)]
   | TaskEnable t \<Rightarrow> debug_fields ''TaskEnable'' [(''task_name'', esc t)]
   | RegistryReset k v d \<Rightarrow>
       debug_fields ''RegistryReset'' [(''key_path'', esc k), (''value_name'', esc v), (''value_data'', esc d)]
   | NetworkDiagnostic c \<Rightarrow> debug_fields ''NetworkDiagnostic'' [(''command'', esc c)]
   | DriverDisable d \<Rightarrow> debug_fields ''DriverDisable'' [(''driver_name'', esc d)]
   | DriverEnable d \<Rightarrow> debug_fields ''DriverEnable'' [(''driver_name'', esc d)]
   | SoftwareUninstall p \<Rightarrow> debug_fields ''SoftwareUninstall'' [(''package_name'', esc p)]
   | BcdEdit e v \<Rightarrow> debug_fields ''BcdEdit'' [(''element'', esc e), (''value'', esc v)]
   | ProcessKill p \<Rightarrow> debug_fields ''ProcessKill'' [(''process_name'', esc p)]
   | FileDelete p \<Rightarrow> debug_fields ''FileDelete'' [(''path'', esc p)]
   | FirewallEnable p \<Rightarrow> debug_fields ''FirewallEnable'' [(''profile'', esc p)]
   | DefenderSignatureUpdate \<Rightarrow> ''DefenderSignatureUpdate''
   | DefenderRealtimeEnable \<Rightarrow> ''DefenderRealtimeEnable''
   | SfcScan \<Rightarrow> ''SfcScan''
   | DismRestoreHealth \<Rightarrow> ''DismRestoreHealth''
   | StartupSet n l h en \<Rightarrow>
       debug_fields ''StartupSet'' [(''name'', esc n), (''location'', esc l), (''hive'', esc h), (''enable'', show_bool en)])"

section \<open>JSON values\<close>

text \<open>
  \<open>serde_json::Value\<close>: a number is a \<open>u64\<close>, a negative \<open>i64\<close> or a finite \<open>f64\<close>; an object
  keeps one value per key.
\<close>

datatype jnum = PosInt nat | NegInt int | JFloat fnum

datatype json =
    JNull
  | JBool bool
  | JNum jnum
  | JStr string
  | JArr "json list"
  | JObj "(string \<times> json) list"

text \<open>\<open>as_f64\<close> and \<open>as_i64\<close> of a number.\<close>

fun as_f64 :: "jnum \<Rightarrow> fnum" where
  "as_f64 (PosInt n) = rnd f64 (of_nat n)"
| "as_f64 (NegInt i) = rnd f64 (of_int i)"
| "as_f64 (JFloat x) = x"

fun as_i64 :: "jnum \<Rightarrow> int option" where
  "as_i64 (PosInt n) = (if n < 2 ^ 63 then Some (int n) else None)"
| "as_i64 (NegInt i) = Some i"
| "as_i64 (JFloat x) = None"

text \<open>
  The lenient confidence reader; \<open>parse_f32\<close> is \<open>str::parse::<f32>\<close> on the trimmed text.
\<close>

definition confidence_from_value :: "(string \<Rightarrow> fnum option) \<Rightarrow> json \<Rightarrow> fnum" where
  "confidence_from_value parse_f32 value =
     (let n = (case value of
                 JNull \<Rightarrow> Fin 0
               | JNum n \<Rightarrow> convert f32 (as_f64 n)
               | JStr s \<Rightarrow> (case parse_f32 (trim_end_matches ''%'' (trim s)) of Some x \<Rightarrow> x | None \<Rightarrow> Fin 0)
               | _ \<Rightarrow> Fin 0)
      in if f_lt (Fin 1) n \<and> f_le n (Fin 100) then f_div f32 n 100 else n)"

definition boolish_from_value :: "json \<Rightarrow> bool" where
  "boolish_from_value value = (case value of
     JBool b \<Rightarrow> b
   | JNum n \<Rightarrow> (case as_i64 n of Some i \<Rightarrow> i \<noteq> 0 | None \<Rightarrow> False)
   | JStr s \<Rightarrow> to_ascii_lowercase (trim s) \<in> {''true'', ''yes'', ''1'', ''on''}
   | _ \<Rightarrow> False)"

section \<open>Reading an action\<close>

text \<open>
  The derived reader of the internally tagged enum: \<open>action\<close> names the variant in snake
  case, every field of the variant has to be present with its type, others are ignored.
\<close>

definition str_field :: "(string \<times> json) list \<Rightarrow> string \<Rightarrow> string option" where
  "str_field fs k = (case map_of fs k of Some (JStr s) \<Rightarrow> Some s | _ \<Rightarrow> None)"

definition u32_field :: "(string \<times> json) list \<Rightarrow> string \<Rightarrow> nat option" where
  "u32_field fs k =
     (case map_of fs k of Some (JNum (PosInt n)) \<Rightarrow> (if n < 2 ^ 32 then Some n else None) | _ \<Rightarrow> None)"

definition bool_field :: "(string \<times> json) list \<Rightarrow> string \<Rightarrow> bool option" where
  "bool_field fs k = (case map_of fs k of Some (JBool b) \<Rightarrow> Some b | _ \<Rightarrow> None)"

definition fix_of_object :: "(string \<times> json) list \<Rightarrow> fix_action option" where
  "fix_of_object fs =
     (case str_field fs ''action'' of None \<Rightarrow> None | Some tag \<Rightarrow>
      if tag = ''service_restart'' then map_option ServiceRestart (str_field fs ''service_name'')
      else if tag = ''service_stop'' then map_option ServiceStop (str_field fs ''service_name'')
      else if tag = ''service_start'' then map_option ServiceStart (str_field fs ''service_name'')
      else if tag = ''log_cleanup'' then
        (case (str_field fs ''path'', u32_field fs ''days_old'') of
           (Some p, Some d) \<Rightarrow> Some (LogCleanup p d) | _ \<Rightarrow> None)
      else if tag = ''disk_cleanup'' then map_option DiskCleanup (str_field fs ''target'')
      else if tag = ''powershell_diagnostic'' then map_option PowerShellDiagnostic (str_field fs ''script'')
      else if tag = ''task_disable'' then map_option TaskDisable (str_field fs ''task_name'')
      else if tag = ''task_enable'' then map_option TaskEnable (str_field fs ''task_name'')
      else if tag = ''registry_reset'' then
        (case (str_field fs ''key_path'', str_field fs ''value_name'', str_field fs ''value_data'') of
           (Some k, Some v, Some d) \<Rightarrow> Some (RegistryReset k v d) | _ \<Rightarrow> None)
      else if tag = ''network_diagnostic'' then map_option NetworkDiagnostic (str_field fs ''command'')
      else if tag = ''driver_disable'' then map_option DriverDisable (str_field fs ''driver_name'')
      else if tag = ''driver_enable'' then map_option DriverEnable (str_field fs ''driver_name'')
      else if tag = ''software_uninstall'' then map_option SoftwareUninstall (str_field fs ''package_name'')
      else if tag = ''bcd_edit'' then
        (case (str_field fs ''element'', str_field fs ''value'') of
           (Some e, Some v) \<Rightarrow> Some (BcdEdit e v) | _ \<Rightarrow> None)
      else if tag = ''process_kill'' then map_option ProcessKill (str_field fs ''process_name'')
      else if tag = ''file_delete'' then map_option FileDelete (str_field fs ''path'')
      else if tag = ''firewall_enable'' then map_option FirewallEnable (str_field fs ''profile'')
      else if tag = ''defender_signature_update'' then Some DefenderSignatureUpdate
      else if tag = ''defender_realtime_enable'' then Some DefenderRealtimeEnable
      else if tag = ''sfc_scan'' then Some SfcScan
      else if tag = ''dism_restore_health'' then Some DismRestoreHealth
      else if tag = ''startup_set'' then
        (case (str_field fs ''name'', str_field fs ''location'', str_field fs ''hive'', bool_field fs ''enable'') of
           (Some n, Some l, Some h, Some en) \<Rightarrow> Some (StartupSet n l h en) | _ \<Rightarrow> None)
      else None)"

text \<open>The derived writer, tag first.\<close>

definition object_of_fix :: "fix_action \<Rightarrow> (string \<times> json) list" where
  "object_of_fix a = (''action'', JStr (action_type_name a)) # (case a of
     ServiceRestart s \<Rightarrow> [(''service_name'', JStr s)]
   | ServiceStop s \<Rightarrow> [(''service_name'', JStr s)]
   | ServiceStart s \<Rightarrow> [(''service_name'', JStr s)]
   | LogCleanup p d \<Rightarrow> [(''path'', JStr p), (''days_old'', JNum (PosInt d))]
   | DiskCleanup t \<Rightarrow> [(''target'', JStr t)]
   | PowerShellDiagnostic s \<Rightarrow> [(''script'', JStr s)]
   | TaskDisable t \<Rightarrow> [(''task_name'', JStr t)]
   | TaskEnable t \<Rightarrow> [(''task_name'', JStr t)]
   | RegistryReset k v d \<Rightarrow> [(''key_path'', JStr k), (''value_name'', JStr v), (''value_data'', JStr d)]
   | NetworkDiagnostic c \<Rightarrow> [(''command'', JStr c)]
   | DriverDisable d \<Rightarrow> [(''driver_name'', JStr d)]
   | DriverEnable d \<Rightarrow> [(''driver_name'', JStr d)]
   | SoftwareUninstall p \<Rightarrow> [(''package_name'', JStr p)]
   | BcdEdit e v \<Rightarrow> [(''element'', JStr e), (''value'', JStr v)]
   | ProcessKill p \<Rightarrow> [(''process_name'', JStr p)]
   | FileDelete p \<Rightarrow> [(''path'', JStr p)]
   | FirewallEnable p \<Rightarrow> [(''profile'', JStr p)]
   | StartupSet n l h en \<Rightarrow>
       [(''name'', JStr n), (''location'', JStr l), (''hive'', JStr h), (''enable'', JBool en)]
   | _ \<Rightarrow> [])"

definition parse_fix_shorthand :: "string \<Rightarrow> fix_action option" where
  "parse_fix_shorthand s =
     (if s = ''defender_signature_update'' then Some DefenderSignatureUpdate
      else if s = ''defender_realtime_enable'' then Some DefenderRealtimeEnable
      else if s = ''sfc_scan'' then Some SfcScan
      else if s = ''dism_restore_health'' then Some DismRestoreHealth
      else
        (case (case split_once (CHR '':'') s of Some x \<Rightarrow> Some x | None \<Rightarrow> split_once (CHR '' '') s) of
           None \<Rightarrow> None
         | Some (action, rest) \<Rightarrow>
             (let action = trim action; rest = trim_matches [CHR 0x22] (trim rest) in
              if rest = [] then None
              else if action = ''process_kill'' then Some (ProcessKill rest)
              else if action = ''service_restart'' then Some (ServiceRestart rest)
              else if action = ''service_start'' then Some (ServiceStart rest)
              else if action = ''service_stop'' then Some (ServiceStop rest)
              else if action = ''file_delete'' then Some (FileDelete rest)
              else if action = ''disk_cleanup'' then Some (DiskCleanup rest)
              else if action = ''firewall_enable'' then Some (FirewallEnable rest)
              else if action = ''task_disable'' then Some (TaskDisable rest)
              else if action = ''task_enable'' then Some (TaskEnable rest)
              else if action = ''driver_disable'' then Some (DriverDisable rest)
              else if action = ''driver_enable'' then Some (DriverEnable rest)
              else if action = ''network_diagnostic'' then Some (NetworkDiagnostic rest)
              else None)))"

text \<open>\<open>parse_json\<close> is \<open>serde_json::from_str\<close>.\<close>

definition coerce_fix_value :: "(string \<Rightarrow> json option) \<Rightarrow> json \<Rightarrow> fix_action option" where
  "coerce_fix_value parse_json value = (case value of
     JObj fs \<Rightarrow> fix_of_object fs
   | JStr raw \<Rightarrow>
       (let trimmed = trim raw in
        if starts_with ''{'' trimmed then
          (case parse_json trimmed of Some (JObj fs) \<Rightarrow> fix_of_object fs | _ \<Rightarrow> None)
        else parse_fix_shorthand trimmed)
   | _ \<Rightarrow> None)"

section \<open>Problems and the bounds on the model's output\<close>

record problem =
  diagnosis :: string
  root_cause :: string
  confidence :: fnum
  proposed_fix :: json
  reasoning :: string
  side_effects :: string
  undo_instructions :: string

definition parse_fix_action :: "(string \<Rightarrow> json option) \<Rightarrow> problem \<Rightarrow> fix_action option" where
  "parse_fix_action parse_json p = coerce_fix_value parse_json (proposed_fix p)"

record decision =
  analysis :: string
  problems :: "problem list"
  needs_deeper_analysis :: bool

definition MAX_MODEL_PROBLEMS :: nat where "MAX_MODEL_PROBLEMS = 5"
definition MAX_MODEL_DECISION_TEXT_BYTES :: nat where "MAX_MODEL_DECISION_TEXT_BYTES = 16384"
definition MAX_MODEL_ACTION_STRING_BYTES :: nat where "MAX_MODEL_ACTION_STRING_BYTES = 16384"
definition MAX_MODEL_ACTION_BYTES :: nat where "MAX_MODEL_ACTION_BYTES = 65536"

text \<open>The loop that steps back to a character boundary; 0 always is one.\<close>

fun back_to_boundary :: "string \<Rightarrow> nat \<Rightarrow> nat" where
  "back_to_boundary s e =
     (if is_char_boundary s e then e else if e = 0 then 0 else back_to_boundary s (e - 1))"

declare back_to_boundary.simps [simp del]

definition truncate_utf8_bytes :: "string \<Rightarrow> nat \<Rightarrow> string" where
  "truncate_utf8_bytes s m =
     (if length s \<le> m then s else take (back_to_boundary s m) s)"

fun json_strings_within :: "json \<Rightarrow> nat \<Rightarrow> bool" where
  "json_strings_within (JStr s) m = (length s \<le> m)"
| "json_strings_within (JArr vs) m = list_all (\<lambda>v. json_strings_within v m) vs"
| "json_strings_within (JObj fs) m = list_all (\<lambda>(k, v). length k \<le> m \<and> json_strings_within v m) fs"
| "json_strings_within JNull m = True"
| "json_strings_within (JBool b) m = True"
| "json_strings_within (JNum n) m = True"

definition bound_problem_text :: "problem \<Rightarrow> problem" where
  "bound_problem_text p = p\<lparr>
     diagnosis := truncate_utf8_bytes (diagnosis p) MAX_MODEL_DECISION_TEXT_BYTES,
     root_cause := truncate_utf8_bytes (root_cause p) MAX_MODEL_DECISION_TEXT_BYTES,
     reasoning := truncate_utf8_bytes (reasoning p) MAX_MODEL_DECISION_TEXT_BYTES,
     side_effects := truncate_utf8_bytes (side_effects p) MAX_MODEL_DECISION_TEXT_BYTES,
     undo_instructions := truncate_utf8_bytes (undo_instructions p) MAX_MODEL_DECISION_TEXT_BYTES\<rparr>"

text \<open>\<open>json_len\<close> is the length of \<open>serde_json::to_vec\<close>, \<open>None\<close> where it fails.\<close>

definition action_within_bounds ::
  "(string \<Rightarrow> json option) \<Rightarrow> (json \<Rightarrow> nat option) \<Rightarrow> problem \<Rightarrow> bool" where
  "action_within_bounds parse_json json_len p =
     (json_strings_within (proposed_fix p) MAX_MODEL_ACTION_STRING_BYTES \<and>
      (case json_len (proposed_fix p) of Some n \<Rightarrow> n \<le> MAX_MODEL_ACTION_BYTES | None \<Rightarrow> False) \<and>
      parse_fix_action parse_json p \<noteq> None)"

definition bound_model_output ::
  "(string \<Rightarrow> json option) \<Rightarrow> (json \<Rightarrow> nat option) \<Rightarrow> decision \<Rightarrow> decision" where
  "bound_model_output parse_json json_len d = d\<lparr>
     analysis := truncate_utf8_bytes (analysis d) MAX_MODEL_DECISION_TEXT_BYTES,
     problems := take MAX_MODEL_PROBLEMS
       (filter (action_within_bounds parse_json json_len) (map bound_problem_text (problems d)))\<rparr>"

section \<open>Registry snapshots\<close>

datatype registry_scalar_kind = KString | KExpandString | KDWord | KQWord

definition kind_as_str :: "registry_scalar_kind \<Rightarrow> string" where
  "kind_as_str k = (case k of
     KString \<Rightarrow> ''String'' | KExpandString \<Rightarrow> ''ExpandString'' | KDWord \<Rightarrow> ''DWord'' | KQWord \<Rightarrow> ''QWord'')"

definition kind_from_storage :: "string \<Rightarrow> registry_scalar_kind option" where
  "kind_from_storage v =
     (if v = ''String'' then Some KString
      else if v = ''ExpandString'' then Some KExpandString
      else if v = ''DWord'' then Some KDWord
      else if v = ''QWord'' then Some KQWord
      else None)"

record registry_undo =
  undo_key_path :: string
  undo_value_name :: string
  prior_existed :: bool
  prior_kind :: "registry_scalar_kind option"
  prior_data :: "string option"
  applied_kind :: "registry_scalar_kind option"
  applied_data :: "string option"

record execution_result =
  res_action :: string
  res_success :: bool
  res_output :: string
  res_undo :: "registry_undo option"

lemma kind_roundtrip: "kind_from_storage (kind_as_str k) = Some k"
  by (cases k) (simp_all add: kind_from_storage_def kind_as_str_def)

section \<open>Lemmas\<close>

text \<open>The field holds what Rust's types allow: \<open>days_old\<close> is a \<open>u32\<close>.\<close>

definition fix_action_ok :: "fix_action \<Rightarrow> bool" where
  "fix_action_ok a = (case a of LogCleanup p d \<Rightarrow> d < 2 ^ 32 | _ \<Rightarrow> True)"

lemmas field_defs = str_field_def u32_field_def bool_field_def

lemma fix_of_object_tag:
  "fix_of_object fs = Some a \<Longrightarrow> str_field fs ''action'' = Some (action_type_name a)"
  by (auto simp: fix_of_object_def action_type_name_def split: option.splits if_splits)

lemma back_to_boundary_le: "back_to_boundary s e \<le> e"
  by (induction s e rule: back_to_boundary.induct) (subst back_to_boundary.simps, auto)

lemma back_to_boundary_boundary: "is_char_boundary s (back_to_boundary s e)"
proof (induction s e rule: back_to_boundary.induct)
  case (1 s e)
  then show ?case by (subst back_to_boundary.simps) (auto simp: is_char_boundary_def)
qed

lemma back_to_boundary_max:
  "i \<le> e \<Longrightarrow> is_char_boundary s i \<Longrightarrow> i \<le> back_to_boundary s e"
proof (induction s e rule: back_to_boundary.induct)
  case (1 s e)
  show ?case
  proof (cases "is_char_boundary s e \<or> e = 0")
    case True
    then show ?thesis using 1(2) by (subst back_to_boundary.simps) auto
  next
    case False
    then have "i \<noteq> e" using 1(3) by blast
    with 1 False show ?thesis by (subst back_to_boundary.simps) auto
  qed
qed

lemma truncate_utf8_bytes_length: "length (truncate_utf8_bytes s m) \<le> m"
  using back_to_boundary_le [of s m] by (auto simp: truncate_utf8_bytes_def)

text \<open>The longest prefix that fits the budget and ends at a character boundary.\<close>

definition longest_fit :: "string \<Rightarrow> nat \<Rightarrow> string \<Rightarrow> bool" where
  "longest_fit s m t =
     (\<exists>n. t = take n s \<and> n \<le> m \<and> n \<le> length s \<and> is_char_boundary s n \<and>
        (\<forall>i. i \<le> m \<and> is_char_boundary s i \<longrightarrow> i \<le> n))"

lemma truncate_longest_fit: "longest_fit s m (truncate_utf8_bytes s m)"
proof (cases "length s \<le> m")
  case True
  then show ?thesis
    by (auto simp: longest_fit_def truncate_utf8_bytes_def is_char_boundary_def intro!: exI [of _ "length s"])
next
  case False
  then show ?thesis
    unfolding longest_fit_def
    using back_to_boundary_le [of s m] back_to_boundary_boundary [of s m] back_to_boundary_max [of _ m s]
    by (auto simp: truncate_utf8_bytes_def intro!: exI [of _ "back_to_boundary s m"])
qed

lemma confidence_shape:
  assumes "\<And>s x. parse_f32 s = Some x \<Longrightarrow> is_f32 x"
    and "confidence_from_value parse_f32 v = Fin q"
  shows "q \<le> 1 \<or> 100 < q"
proof -
  define n where "n = (case v of JNull \<Rightarrow> Fin 0 | JNum n \<Rightarrow> convert f32 (as_f64 n)
               | JStr s \<Rightarrow> (case parse_f32 (trim_end_matches ''%'' (trim s)) of Some x \<Rightarrow> x | None \<Rightarrow> Fin 0)
               | _ \<Rightarrow> Fin 0)"
  have c: "confidence_from_value parse_f32 v =
      (if f_lt (Fin 1) n \<and> f_le n (Fin 100) then f_div f32 n 100 else n)"
    by (simp only: confidence_from_value_def n_def Let_def)
  show ?thesis
  proof (cases "f_lt (Fin 1) n \<and> f_le n (Fin 100)")
    case True
    then obtain x where x: "n = Fin x" "1 < x" "x \<le> 100" by (cases n) auto
    then have "\<exists>r. rnd f32 (x / 100) = Fin r \<and> 0 \<le> r \<and> r \<le> 1"
      by (intro r32.round_le) auto
    with True x c assms(2) show ?thesis by auto
  next
    case False
    with c assms(2) show ?thesis by (cases n) auto
  qed
qed

lemma takeWhile_kind:
  "list_all (\<lambda>c. c \<noteq> CHR ''|'') k \<Longrightarrow> takeWhile (\<lambda>c. c \<noteq> CHR ''|'') (k @ CHR ''|'' # r) = k"
  by (induction k) auto

lemma dedup_key_kind: "takeWhile (\<lambda>c. c \<noteq> CHR ''|'') (dedup_key u a) = action_type_name a"
  by (cases a) (simp_all add: dedup_key_def action_type_name_def keyed_def)

section \<open>Properties\<close>



text \<open>
  the shorthand a cheap model may answer with never yields an action that carries a
  free-form payload: a script, a registry value, a boot setting, a software removal, an age
  limit or a startup flag always needs the full JSON object; and the target it does yield is
  non-empty.
\<close>

theorem shorthand_closed:
  assumes "parse_fix_shorthand s = Some a"
  shows "(\<exists>t. t \<noteq> [] \<and> a \<in> {ProcessKill t, ServiceRestart t, ServiceStart t, ServiceStop t, FileDelete t,
            DiskCleanup t, FirewallEnable t, TaskDisable t, TaskEnable t, DriverDisable t,
            DriverEnable t, NetworkDiagnostic t})
         \<or> a \<in> {DefenderSignatureUpdate, DefenderRealtimeEnable, SfcScan, DismRestoreHealth}"
  using assms by (auto simp: parse_fix_shorthand_def Let_def split: if_splits option.splits prod.splits)

lemma shorthand_closed_witness:
  "\<exists>t. t \<noteq> [] \<and> ProcessKill ''a.exe'' = ProcessKill t"
  using shorthand_closed [of "''process_kill:a.exe''" "ProcessKill ''a.exe''"] by simp

text \<open>
  the issue key never confuses two kinds of action, so a standing preference for one
  kind can never stand for another, and every PowerShell script has the same key, which is
  why scripts are excluded from standing approvals.
\<close>

theorem dedup_key_kind_faithful:
  "(dedup_key u a = dedup_key u b \<longrightarrow>
      action_type_name a = action_type_name b \<and> can_always_approve a = can_always_approve b) \<and>
   (\<not> can_always_approve a \<and> \<not> can_always_approve b \<longrightarrow> dedup_key u a = dedup_key u b)"
proof (intro conjI impI)
  assume eq: "dedup_key u a = dedup_key u b"
  then show n: "action_type_name a = action_type_name b" by (metis dedup_key_kind)
  have "can_always_approve x \<longleftrightarrow> action_type_name x \<noteq> ''powershell_diagnostic''" for x
    by (cases x) (simp_all add: can_always_approve_def action_type_name_def)
  then show "can_always_approve a = can_always_approve b" by (simp add: n)
next
  assume "\<not> can_always_approve a \<and> \<not> can_always_approve b"
  then show "dedup_key u a = dedup_key u b"
    by (cases a; cases b) (simp_all add: can_always_approve_def dedup_key_def)
qed

lemma dedup_key_kind_faithful_witness:
  "dedup_key id (PowerShellDiagnostic ''a'') = dedup_key id (PowerShellDiagnostic ''b'')"
  using dedup_key_kind_faithful [of id "PowerShellDiagnostic ''a''" "PowerShellDiagnostic ''b''"]
  by (simp add: can_always_approve_def)

text \<open>
  bounding the model's answer leaves at most five problems, each with an action that
  parses and whose strings and encoding fit their byte limits; the action is one the model
  proposed, byte for byte (an oversized one is dropped, never shortened), and every prose
  field is the longest prefix that ends at a character boundary within the limit.
\<close>

theorem bound_model_output_safe:
  assumes "d' = bound_model_output parse_json json_len d"
  shows "length (problems d') \<le> 5 \<and> longest_fit (analysis d) 16384 (analysis d') \<and>
    (\<forall>p \<in> set (problems d'). action_within_bounds parse_json json_len p \<and>
      (\<exists>q \<in> set (problems d). proposed_fix p = proposed_fix q \<and> confidence p = confidence q \<and>
         longest_fit (diagnosis q) 16384 (diagnosis p) \<and> longest_fit (root_cause q) 16384 (root_cause p) \<and>
         longest_fit (reasoning q) 16384 (reasoning p) \<and>
         longest_fit (side_effects q) 16384 (side_effects p) \<and>
         longest_fit (undo_instructions q) 16384 (undo_instructions p)))"
proof -
  have "action_within_bounds parse_json json_len p \<and> (\<exists>q \<in> set (problems d). p = bound_problem_text q)"
    if "p \<in> set (problems d')" for p
  proof -
    have "p \<in> set (filter (action_within_bounds parse_json json_len) (map bound_problem_text (problems d)))"
      by (rule in_set_takeD [of _ MAX_MODEL_PROBLEMS]) (use that in \<open>simp add: assms bound_model_output_def\<close>)
    then show ?thesis by auto
  qed
  moreover have "longest_fit (f q) 16384 (truncate_utf8_bytes (f q) 16384)" for f :: "problem \<Rightarrow> string" and q
    by (rule truncate_longest_fit)
  ultimately have "\<forall>p \<in> set (problems d'). action_within_bounds parse_json json_len p \<and>
      (\<exists>q \<in> set (problems d). p = bound_problem_text q)" by blast
  moreover have "length (problems d') \<le> 5" "longest_fit (analysis d) 16384 (analysis d')"
    using truncate_longest_fit
    by (simp_all add: assms bound_model_output_def MAX_MODEL_PROBLEMS_def MAX_MODEL_DECISION_TEXT_BYTES_def)
  moreover have "proposed_fix p = proposed_fix q \<and> confidence p = confidence q \<and>
      longest_fit (diagnosis q) 16384 (diagnosis p) \<and> longest_fit (root_cause q) 16384 (root_cause p) \<and>
      longest_fit (reasoning q) 16384 (reasoning p) \<and> longest_fit (side_effects q) 16384 (side_effects p) \<and>
      longest_fit (undo_instructions q) 16384 (undo_instructions p)" if "p = bound_problem_text q" for p q
    using that truncate_longest_fit by (simp add: bound_problem_text_def MAX_MODEL_DECISION_TEXT_BYTES_def)
  ultimately show ?thesis by meson
qed

lemma bound_model_output_safe_witness:
  "length (problems (bound_model_output (\<lambda>s. None) (\<lambda>j. Some 9) \<lparr>analysis = ''ok'', problems = [],
      needs_deeper_analysis = False\<rparr>)) \<le> 5"
  using bound_model_output_safe [OF refl] by blast

end
