(* ===== verification/Policy.thy ===== *)
theory Policy
  imports Fix_Action
begin

text \<open>
  The execution policy (\<open>policy/mod.rs\<close>): the operator's blocklists, the confidence gate
  and the auto-run whitelist that turn a proposed action into a verdict.
\<close>

section \<open>Configuration and verdicts\<close>

record execution_config =
  confidence_threshold :: fnum
  max_retries_per_issue :: nat
  rate_limit_mins :: nat
  auto_approve_on_success_rate :: fnum

record blocklist_config =
  bl_services :: "string list"
  bl_paths :: "string list"
  bl_actions :: "string list"
  bl_tasks :: "string list"

record execution_policy =
  execution :: execution_config
  whitelist_actions :: "string list"
  blocklist :: blocklist_config

text \<open>Why an action is held back; the code formats each into the message it shows.\<close>

datatype reason =
    ActionDisabled string
  | NetworkPath string
  | ServiceBlocked string
  | PathBlocked string
  | RegistryPathBlocked string
  | TaskBlocked string
  | InvalidConfidence fnum
  | InvalidThreshold fnum
  | BelowThreshold fnum fnum
  | NotWhitelisted string

datatype verdict = AutoApprove | RequireApproval reason | Block reason

section \<open>Evaluation\<close>

definition service_blocked :: "(string \<Rightarrow> string) \<Rightarrow> execution_policy \<Rightarrow> string \<Rightarrow> bool" where
  "service_blocked u pol name =
     list_ex (\<lambda>b. to_lowercase u b = to_lowercase u name) (bl_services (blocklist pol))"

definition path_blocked :: "(string \<Rightarrow> string) \<Rightarrow> execution_policy \<Rightarrow> string \<Rightarrow> bool" where
  "path_blocked u pol path = list_ex (is_within u path) (bl_paths (blocklist pol))"

definition task_blocked :: "(string \<Rightarrow> string) \<Rightarrow> execution_policy \<Rightarrow> string \<Rightarrow> bool" where
  "task_blocked u pol task = list_ex (is_within u task) (bl_tasks (blocklist pol))"

definition blocked_reason ::
  "(string \<Rightarrow> string) \<Rightarrow> execution_policy \<Rightarrow> fix_action \<Rightarrow> reason option" where
  "blocked_reason u pol a = (case a of
     LogCleanup p _ \<Rightarrow>
       if is_network_path p then Some (NetworkPath p)
       else if path_blocked u pol p then Some (PathBlocked p) else None
   | FileDelete p \<Rightarrow>
       if is_network_path p then Some (NetworkPath p)
       else if path_blocked u pol p then Some (PathBlocked p) else None
   | ServiceRestart s \<Rightarrow> if service_blocked u pol s then Some (ServiceBlocked s) else None
   | ServiceStop s \<Rightarrow> if service_blocked u pol s then Some (ServiceBlocked s) else None
   | ServiceStart s \<Rightarrow> if service_blocked u pol s then Some (ServiceBlocked s) else None
   | RegistryReset k _ _ \<Rightarrow> if path_blocked u pol k then Some (RegistryPathBlocked k) else None
   | TaskDisable t \<Rightarrow> if task_blocked u pol t then Some (TaskBlocked t) else None
   | TaskEnable t \<Rightarrow> if task_blocked u pol t then Some (TaskBlocked t) else None
   | _ \<Rightarrow> None)"

definition evaluate ::
  "(string \<Rightarrow> string) \<Rightarrow> execution_policy \<Rightarrow> fix_action \<Rightarrow> fnum \<Rightarrow> verdict" where
  "evaluate u pol a conf =
     (let name = action_type_name a in
      if list_ex (\<lambda>x. x = name) (bl_actions (blocklist pol)) then Block (ActionDisabled name)
      else (case blocked_reason u pol a of
        Some r \<Rightarrow> Block r
      | None \<Rightarrow>
          (let threshold = confidence_threshold (execution pol) in
           if \<not> (f_le (Fin 0) conf \<and> f_le conf (Fin 1)) then Block (InvalidConfidence conf)
           else if \<not> is_finite threshold \<or> f_le threshold (Fin 0) \<or> f_lt (Fin 1) threshold
             then Block (InvalidThreshold threshold)
           else if f_lt conf threshold then Block (BelowThreshold conf threshold)
           else if \<not> list_ex (\<lambda>x. x = name) (whitelist_actions pol)
             then RequireApproval (NotWhitelisted name)
           else AutoApprove)))"

text \<open>A verdict that lets the action go further than another: block, ask, run.\<close>

fun permission :: "verdict \<Rightarrow> nat" where
  "permission (Block r) = 0"
| "permission (RequireApproval r) = 1"
| "permission AutoApprove = 2"

section \<open>What the verdicts mean\<close>

lemma evaluate_permission:
  "permission (evaluate u pol a conf) =
     (if action_type_name a \<in> set (bl_actions (blocklist pol)) \<or> blocked_reason u pol a \<noteq> None
         \<or> \<not> (\<exists>c t. conf = Fin c \<and> confidence_threshold (execution pol) = Fin t \<and>
                c \<le> 1 \<and> 0 < t \<and> t \<le> 1 \<and> t \<le> c)
      then 0 else if action_type_name a \<in> set (whitelist_actions pol) then 2 else 1)"
  by (cases conf; cases "confidence_threshold (execution pol)")
    (auto simp: evaluate_def Let_def list_ex_iff split: option.split)

lemma evaluate_auto:
  "evaluate u pol a conf = AutoApprove \<longleftrightarrow>
     action_type_name a \<in> set (whitelist_actions pol) \<and>
     action_type_name a \<notin> set (bl_actions (blocklist pol)) \<and>
     blocked_reason u pol a = None \<and>
     (\<exists>c t. conf = Fin c \<and> confidence_threshold (execution pol) = Fin t \<and> 0 < t \<and> t \<le> c \<and> c \<le> 1)"
  by (cases conf; cases "confidence_threshold (execution pol)")
    (auto simp: evaluate_def Let_def list_ex_iff split: option.split)

lemma permission_2 [simp]: "permission v = 2 \<longleftrightarrow> v = AutoApprove"
  by (cases v) auto

lemma permission_0 [simp]: "permission v = 0 \<longleftrightarrow> (\<exists>r. v = Block r)"
  by (cases v) auto

text \<open>Every filesystem or registry target inside a blocked path is blocked.\<close>

lemma path_blocked_inside: "path_blocked u pol p \<Longrightarrow> is_within u q p \<Longrightarrow> path_blocked u pol q"
  unfolding path_blocked_def by (rule scope.covered_inside)

lemma task_blocked_inside: "task_blocked u pol p \<Longrightarrow> is_within u q p \<Longrightarrow> task_blocked u pol q"
  unfolding task_blocked_def by (rule scope.covered_inside)

lemma evaluate_blocked: "blocked_reason u pol a \<noteq> None \<Longrightarrow> \<exists>r. evaluate u pol a c = Block r"
  using evaluate_permission [of u pol a c] by simp

section \<open>Properties\<close>

text \<open>
  A directory or key as users and the model write it: no white space around it, and not one
  of the three strings (empty, a lone backslash, an unfinished verbatim prefix) to which a
  separator changes the meaning of what is already there.
\<close>

definition dir_like :: "string \<Rightarrow> bool" where
  "dir_like p = (trim p = p \<and> p \<notin> {[], [backslash], [backslash, backslash, CHR ''?'']})"

definition descend :: "string \<Rightarrow> string list \<Rightarrow> string" where
  "descend p cs = foldl (\<lambda>q c. q @ backslash # c) p cs"

lemma dir_like_child: "dir_like p \<Longrightarrow> plain_comp c \<Longrightarrow> dir_like (p @ backslash # c)"
  using trim_child [of p c] by (auto simp: dir_like_def append_eq_Cons_conv)

lemma is_within_descend:
  "dir_like p \<Longrightarrow> list_all plain_comp cs \<Longrightarrow> is_within u p a \<Longrightarrow> is_within u (descend p cs) a"
proof (induction cs arbitrary: p)
  case (Cons c cs)
  then have "is_within u (p @ backslash # c) a" by (intro is_within_child) (auto simp: dir_like_def)
  with Cons show ?case by (simp add: descend_def dir_like_child)
qed (simp add: descend_def)

text \<open>
  C7: the policy lets an action run on its own exactly when its type is on the whitelist and
  off the action blocklist, its target is not blocked, the configured threshold lies in
  (0, 1] and the confidence is a number between that threshold and 1; every malformed
  confidence or threshold (NaN, infinite, out of range) fails closed.
\<close>

theorem auto_approve_iff:
  "evaluate u pol a conf = AutoApprove \<longleftrightarrow>
     action_type_name a \<in> set (whitelist_actions pol) \<and>
     action_type_name a \<notin> set (bl_actions (blocklist pol)) \<and>
     blocked_reason u pol a = None \<and>
     (\<exists>c t. conf = Fin c \<and> confidence_threshold (execution pol) = Fin t \<and> 0 < t \<and> t \<le> c \<and> c \<le> 1)"
  by (rule evaluate_auto)

text \<open>
  C9: blocking a directory or registry key blocks everything below it: whatever chain of plain
  child names is appended to a blocked path, a file deletion, log cleanup or registry write
  there is refused at every confidence.
\<close>

theorem blocked_subtree:
  assumes "path_blocked u pol p" and "dir_like p" and "list_all plain_comp cs"
    and "a \<in> {FileDelete (descend p cs), LogCleanup (descend p cs) days,
              RegistryReset (descend p cs) name data}"
  shows "\<exists>r. evaluate u pol a conf = Block r"
proof -
  obtain b where b: "b \<in> set (bl_paths (blocklist pol))" "is_within u p b"
    using assms(1) by (auto simp: path_blocked_def list_ex_iff)
  have "is_within u (descend p cs) b" by (rule is_within_descend [OF assms(2,3) b(2)])
  with b(1) have "path_blocked u pol (descend p cs)" by (auto simp: path_blocked_def list_ex_iff)
  then have "blocked_reason u pol a \<noteq> None" using assms(4) by (auto simp: blocked_reason_def)
  then show ?thesis by (rule evaluate_blocked)
qed

text \<open>
  a network path, in either separator and after any leading white space, is refused for
  every filesystem action at every confidence, whatever the policy file says.
\<close>

theorem network_path_refused:
  assumes "is_sep s1" and "is_sep s2" and "trim_start p = s1 # s2 # rest"
    and "a \<in> {FileDelete p, LogCleanup p days}"
  shows "\<exists>r. evaluate u pol a conf = Block r"
proof -
  have "trim_start (s1 # s2 # rest) = s1 # s2 # rest"
    using assms(3) by (metis trim_start_fix ws_len_trim_start)
  then have "is_network_path p"
    using is_network_path_unc [OF assms(1,2), of rest] assms(3) by (simp add: is_network_path_def)
  then have "blocked_reason u pol a \<noteq> None" using assms(4) by (auto simp: blocked_reason_def)
  then show ?thesis by (rule evaluate_blocked)
qed

text \<open>
  the ASCII letter case of a path never matters to the policy, and the issue key of a file
  action is the same for all spellings that differ in case only.
\<close>

theorem path_case_irrelevant:
  assumes "is_ascii p"
  shows "path_blocked u pol (to_ascii_lowercase p) = path_blocked u pol p \<and>
         task_blocked u pol (to_ascii_lowercase p) = task_blocked u pol p \<and>
         dedup_key u (FileDelete (to_ascii_lowercase p)) = dedup_key u (FileDelete p)"
proof -
  have "is_within u (to_ascii_lowercase p) = is_within u p"
    by (rule ext) (simp add: is_within_def normalize_case [OF assms])
  then show ?thesis
    by (simp add: path_blocked_def task_blocked_def dedup_key_def normalized_windows_target_def
        normalize_case [OF assms])
qed

section \<open>Witnesses\<close>

definition sample_policy :: execution_policy where
  "sample_policy = \<lparr>
     execution = \<lparr>confidence_threshold = Fin (3 / 5), max_retries_per_issue = 3, rate_limit_mins = 60,
                  auto_approve_on_success_rate = Fin (9 / 10)\<rparr>,
     whitelist_actions = [''sfc_scan'', ''file_delete''],
     blocklist = \<lparr>bl_services = [], bl_paths = [''C:/Windows''], bl_actions = [], bl_tasks = []\<rparr>\<rparr>"

lemmas path_eval =
  is_within_def normalize_path_lexical_def hive_aliases_def eq_ignore_ascii_case_def to_ascii_lowercase_def
  ascii_lower_def is_ascii_upper_def is_ascii_def byte_def strip_prefix_or_def strip_prefix_def
  starts_with_def verbatim_prefix_def push_comp_def to_lowercase_def is_sep_def trim_def trim_end_def
  trim_start.simps trim_rev.simps char_of_def bit_0 ws1_def ws2_def ws3_def

lemma sample_blocked: "path_blocked id sample_policy ''c:/windows''"
  by (simp add: path_blocked_def sample_policy_def path_eval)

lemma sample_dir: "dir_like ''c:/windows''" "plain_comp ''x''"
  by (simp_all add: dir_like_def plain_comp_def path_eval)

lemma blocked_subtree_witness:
  "\<exists>r. evaluate id sample_policy (FileDelete (descend ''c:/windows'' [''x''])) (Fin 1) = Block r"
  by (rule blocked_subtree [OF sample_blocked sample_dir(1), of "[''x'']"]) (simp_all add: sample_dir)

lemma network_path_refused_witness:
  "\<exists>r. evaluate id sample_policy (FileDelete ''//host/share'') (Fin 1) = Block r"
  by (rule network_path_refused [of "CHR ''/''" "CHR ''/''" _ "''host/share''"])
    (simp_all add: path_eval)

lemma path_case_irrelevant_witness:
  "path_blocked id sample_policy (to_ascii_lowercase ''C:/Windows'') = path_blocked id sample_policy ''C:/Windows''"
  using path_case_irrelevant [of "''C:/Windows''"] by (simp add: is_ascii_def byte_def)

end
