(* ===== verification/Safety.thy ===== *)
theory Safety
  imports Policy
begin

text \<open>
  The execution log and the rate limiter over it (\<open>safety.rs\<close>): an action that already
  succeeded in the window, or failed three times in it, does not run again. Instants are
  nanoseconds; the RFC 3339 texts the code compares sort as the instants do.
\<close>

type_synonym instant = int

definition minute :: instant where "minute = 60 * 1000000000"
definition day :: instant where "day = 24 * 60 * minute"

record exec_row =
  er_id :: int
  er_decision :: int
  er_action :: string
  er_key :: "string option"
  er_success :: bool
  er_output :: string
  er_at :: instant

definition FAILURE_BREAKER_THRESHOLD :: nat where "FAILURE_BREAKER_THRESHOLD = 3"

definition same_action :: "(string \<Rightarrow> string) \<Rightarrow> (string \<Rightarrow> string) \<Rightarrow> fix_action \<Rightarrow> exec_row \<Rightarrow> bool" where
  "same_action u esc a r =
     (er_key r = Some (dedup_key u a) \<or> (er_key r = None \<and> er_action r = debug_action esc a))"

definition rate_limited ::
  "(string \<Rightarrow> string) \<Rightarrow> (string \<Rightarrow> string) \<Rightarrow> exec_row list \<Rightarrow> fix_action \<Rightarrow> nat \<Rightarrow> instant \<Rightarrow> bool" where
  "rate_limited u esc elog a window_mins now =
     (let cutoff = now - int window_mins * minute;
          rows = filter (\<lambda>r. er_at r > cutoff \<and> same_action u esc a r) elog;
          successes = length (filter er_success rows);
          total = length rows;
          failures = total - successes
      in successes > 0 \<or> failures \<ge> FAILURE_BREAKER_THRESHOLD)"

definition success_rate :: "exec_row list \<Rightarrow> fnum" where
  "success_rate elog =
     (if elog = [] then Fin 1
      else f_div f32 (rnd f32 (of_nat (length (filter er_success elog))))
             (case rnd f32 (of_nat (length elog)) of Fin q \<Rightarrow> q | _ \<Rightarrow> 1))"

section \<open>Lemmas\<close>

lemma rate_limited_iff:
  "rate_limited u esc elog a w now \<longleftrightarrow>
     (\<exists>r \<in> set elog. er_at r > now - int w * minute \<and> same_action u esc a r \<and> er_success r) \<or>
     3 \<le> length (filter (\<lambda>r. er_at r > now - int w * minute \<and> same_action u esc a r \<and> \<not> er_success r) elog)"
proof -
  let ?rows = "filter (\<lambda>r. er_at r > now - int w * minute \<and> same_action u esc a r) elog"
  have "length ?rows - length (filter er_success ?rows) = length (filter (\<lambda>r. \<not> er_success r) ?rows)"
    using sum_length_filter_compl [of er_success ?rows] by linarith
  then show ?thesis
    by (auto simp: rate_limited_def Let_def FAILURE_BREAKER_THRESHOLD_def filter_empty_conv conj_ac)
qed

lemma rate_limited_success:
  "r \<in> set elog \<Longrightarrow> er_success r \<Longrightarrow> same_action u esc a r \<Longrightarrow> now - int w * minute < er_at r \<Longrightarrow>
   rate_limited u esc elog a w now"
  by (auto simp: rate_limited_iff)

text \<open>Appending executions only ever makes the limiter stricter.\<close>

lemma rate_limited_mono: "rate_limited u esc elog a w now \<Longrightarrow> rate_limited u esc (elog @ later) a w now"
  unfolding rate_limited_iff by auto

section \<open>Properties\<close>

text \<open>
  the rate limiter holds an action back exactly when the window since the cutoff has a
  success of the same action or at least three failures of it; a row counts as the same
  action by its key, and by the exact label only when it predates keys. Two actions with
  the same key share one budget, whatever parameters the model regenerated.
\<close>

theorem rate_limiter_exact:
  "(rate_limited u esc elog a w now \<longleftrightarrow>
     (\<exists>r \<in> set elog. er_at r > now - int w * minute \<and> same_action u esc a r \<and> er_success r) \<or>
     3 \<le> length (filter (\<lambda>r. er_at r > now - int w * minute \<and> same_action u esc a r \<and> \<not> er_success r) elog))
   \<and> ((\<forall>r \<in> set elog. er_key r \<noteq> None) \<and> dedup_key u a = dedup_key u b \<longrightarrow>
        rate_limited u esc elog a w now = rate_limited u esc elog b w now)"
proof (intro conjI impI)
  assume h: "(\<forall>r \<in> set elog. er_key r \<noteq> None) \<and> dedup_key u a = dedup_key u b"
  then have "filter (\<lambda>r. P r \<and> same_action u esc a r) elog = filter (\<lambda>r. P r \<and> same_action u esc b r) elog" for P
    by (intro filter_cong) (auto simp: same_action_def)
  then show "rate_limited u esc elog a w now = rate_limited u esc elog b w now"
    by (simp add: rate_limited_def)
qed (rule rate_limited_iff)

lemma rate_limiter_exact_witness:
  "rate_limited id id [\<lparr>er_id = 1, er_decision = 1, er_action = ''SfcScan'', er_key = Some ''sfc_scan'',
      er_success = True, er_output = [], er_at = 5\<rparr>] SfcScan 60 6"
  using rate_limiter_exact [of id id _ SfcScan 60 6 SfcScan]
  by (simp add: same_action_def dedup_key_def minute_def)

end
