(* ===== verification/System_State.thy ===== *)
theory System_State
  imports Safety "HOL-Library.Char_ord" "HOL-Library.List_Lexorder" "HOL-Library.Multiset"
begin

text \<open>
  The signals of one decision cycle (\<open>models.rs\<close>) and what of them is worth an analysis: the
  fault parts of the system state and the fingerprint of a snapshot that lets the loop skip
  an unchanged machine (\<open>actionable_fingerprint\<close> in \<open>main.rs\<close>).
\<close>

section \<open>Signals\<close>

record firewall_status =
  fw_domain :: "bool option"
  fw_private :: "bool option"
  fw_public :: "bool option"

record defender_status =
  realtime_enabled :: "bool option"
  antivirus_enabled :: "bool option"
  signature_age_days :: "nat option"

record network_interface =
  if_name :: string
  if_status :: string
  if_ipv4 :: "string option"

record system_state =
  collected_at :: int
  collector_errors :: "string list"
  uptime_secs :: nat
  cpu_usage_percent :: fnum
  memory_usage_percent :: fnum
  memory_available_gb :: fnum
  disk_usage_percent :: fnum
  disk_free_gb :: fnum
  running_services_count :: nat
  failed_services :: "string list"
  network_interfaces :: "network_interface list"
  network_errors :: nat
  disk_health :: string
  windows_update_status :: string
  firewall :: firewall_status
  defender :: defender_status

definition default_state :: system_state where
  "default_state = \<lparr>
     collected_at = 0, collector_errors = [], uptime_secs = 0, cpu_usage_percent = Fin 0,
     memory_usage_percent = Fin 0, memory_available_gb = Fin 0, disk_usage_percent = Fin 0,
     disk_free_gb = Fin 0, running_services_count = 0, failed_services = [], network_interfaces = [],
     network_errors = 0, disk_health = [], windows_update_status = [],
     firewall = \<lparr>fw_domain = None, fw_private = None, fw_public = None\<rparr>,
     defender = \<lparr>realtime_enabled = None, antivirus_enabled = None, signature_age_days = None\<rparr>\<rparr>"

record event_log_entry =
  ev_timestamp :: instant
  ev_level :: string
  ev_source :: string
  ev_message :: string
  ev_event_id :: nat

record log_event =
  le_program :: string
  le_log_path :: string
  le_severity :: string
  le_error_snippets :: "string list"
  le_content_excerpt :: string

record file_change =
  fc_path :: string
  fc_kind :: string
  fc_size_bytes :: nat
  fc_timestamp :: instant
  fc_log_event :: "log_event option"

record screen_error =
  se_timestamp :: instant
  se_app :: string
  se_title :: string
  se_text :: string
  se_hung :: bool

record snapshot =
  sn_timestamp :: instant
  event_log :: "event_log_entry list"
  file_changes :: "file_change list"
  sn_state :: system_state
  screen_errors :: "screen_error list"
  user_report :: "string option"

definition event_is_actionable :: "event_log_entry \<Rightarrow> bool" where
  "event_is_actionable e = (ev_level e = ''Error'' \<or> ev_level e = ''Warning'')"

definition log_is_actionable :: "log_event \<Rightarrow> bool" where
  "log_is_actionable e = (le_severity e \<noteq> ''INFO'' \<or> le_error_snippets e \<noteq> [])"

section \<open>Faults\<close>

definition fault_parts :: "(string \<Rightarrow> string) \<Rightarrow> system_state \<Rightarrow> string list" where
  "fault_parts u s =
     (let fw = firewall s; def = defender s; dh = to_lowercase u (disk_health s) in
      map (\<lambda>x. ''S|'' @ x) (failed_services s)
      @ concat (map (\<lambda>(name, on). if on = Some False then [''FW|'' @ name] else [])
          [(''domain'', fw_domain fw), (''private'', fw_private fw), (''public'', fw_public fw)])
      @ (if antivirus_enabled def \<noteq> Some False then
           (if realtime_enabled def = Some False then [''DEF|realtime_off''] else [])
           @ (case signature_age_days def of Some d \<Rightarrow> if d > 3 then [''DEF|sig_stale''] else [] | None \<Rightarrow> [])
         else [])
      @ (if dh = ''warning'' \<or> dh = ''unhealthy'' then [''DISK_HEALTH|'' @ dh] else []))"

text \<open>\<open>hash\<close> is the 16-digit form of the standard hasher over the error lines.\<close>

definition file_part :: "(string list \<Rightarrow> string) \<Rightarrow> file_change \<Rightarrow> string list" where
  "file_part hash fc = (case fc_log_event fc of
     None \<Rightarrow> []
   | Some le \<Rightarrow>
       if log_is_actionable le
       then [''F|'' @ le_log_path le @ ''|'' @ le_severity le @ ''|'' @ hash (le_error_snippets le)]
       else [])"

definition event_part :: "event_log_entry \<Rightarrow> string list" where
  "event_part e =
     (if event_is_actionable e then [''E|'' @ ev_level e @ ''|'' @ ev_source e @ ''|'' @ show_nat (ev_event_id e)]
      else [])"

definition screen_part :: "screen_error \<Rightarrow> string" where
  "screen_part e = (if se_hung e then ''H|'' @ se_app e else ''D|'' @ se_app e @ ''|'' @ se_title e)"

definition over_90 :: "fnum \<Rightarrow> string \<Rightarrow> string list" where
  "over_90 x part = (if f_lt (Fin 90) x then [part] else [])"

definition fingerprint_parts ::
  "(string \<Rightarrow> string) \<Rightarrow> (string list \<Rightarrow> string) \<Rightarrow> snapshot \<Rightarrow> string list" where
  "fingerprint_parts u hash snap =
     (let sys = sn_state snap in
      concat (map (file_part hash) (file_changes snap))
      @ concat (map event_part (event_log snap))
      @ map screen_part (screen_errors snap)
      @ fault_parts u sys
      @ over_90 (cpu_usage_percent sys) ''CPU>90''
      @ over_90 (memory_usage_percent sys) ''MEM>90''
      @ over_90 (disk_usage_percent sys) ''DISK>90'')"

definition actionable_fingerprint ::
  "(string \<Rightarrow> string) \<Rightarrow> (string list \<Rightarrow> string) \<Rightarrow> snapshot \<Rightarrow> string option" where
  "actionable_fingerprint u hash snap =
     (let parts = fingerprint_parts u hash snap in
      if parts = [] then None else Some (join [CHR 0x0A] (sort parts)))"

section \<open>Properties\<close>

text \<open>
  The fingerprint does not depend on the order in which signals arrive, and there is
  none exactly when nothing is actionable: no actionable log line or event, no screen error,
  no fault, no resource above 90 percent. An unknown security state (\<open>None\<close>) never counts as a
  fault, and Defender's own state counts only while it is the active antivirus.
\<close>

theorem fingerprint_order_independent:
  assumes "mset (file_changes s) = mset (file_changes t)" and "mset (event_log s) = mset (event_log t)"
    and "mset (screen_errors s) = mset (screen_errors t)" and "sn_state s = sn_state t"
  shows "actionable_fingerprint u hash s = actionable_fingerprint u hash t \<and>
    (actionable_fingerprint u hash s = None \<longleftrightarrow>
       (\<forall>fc \<in> set (file_changes s). \<forall>le. fc_log_event fc = Some le \<longrightarrow> \<not> log_is_actionable le) \<and>
       (\<forall>e \<in> set (event_log s). \<not> event_is_actionable e) \<and> screen_errors s = [] \<and>
       fault_parts u (sn_state s) = [] \<and>
       \<not> f_lt (Fin 90) (cpu_usage_percent (sn_state s)) \<and>
       \<not> f_lt (Fin 90) (memory_usage_percent (sn_state s)) \<and>
       \<not> f_lt (Fin 90) (disk_usage_percent (sn_state s)))"
proof
  have cm: "mset (concat (map f xs)) = mset (concat (map f ys))" if "mset xs = mset ys" for f :: "'x \<Rightarrow> string list" and xs ys
    using that by (simp add: mset_concat image_mset.compositionality comp_def flip: sum_mset_sum_list)
  have m: "mset (fingerprint_parts u hash s) = mset (fingerprint_parts u hash t)"
    using cm [OF assms(1), of "file_part hash"] cm [OF assms(2), of event_part] assms(3,4)
    by (simp add: fingerprint_parts_def Let_def)
  then have "sort (fingerprint_parts u hash s) = sort (fingerprint_parts u hash t)"
    by (intro properties_for_sort) simp_all
  moreover have "fingerprint_parts u hash s = [] \<longleftrightarrow> fingerprint_parts u hash t = []"
    using m by (metis mset_zero_iff)
  ultimately show "actionable_fingerprint u hash s = actionable_fingerprint u hash t"
    by (simp add: actionable_fingerprint_def)
next
  show "actionable_fingerprint u hash s = None \<longleftrightarrow>
       (\<forall>fc \<in> set (file_changes s). \<forall>le. fc_log_event fc = Some le \<longrightarrow> \<not> log_is_actionable le) \<and>
       (\<forall>e \<in> set (event_log s). \<not> event_is_actionable e) \<and> screen_errors s = [] \<and>
       fault_parts u (sn_state s) = [] \<and>
       \<not> f_lt (Fin 90) (cpu_usage_percent (sn_state s)) \<and>
       \<not> f_lt (Fin 90) (memory_usage_percent (sn_state s)) \<and>
       \<not> f_lt (Fin 90) (disk_usage_percent (sn_state s))"
    by (auto simp: actionable_fingerprint_def fingerprint_parts_def Let_def file_part_def event_part_def over_90_def
        split: option.splits if_splits)
qed

definition sample_event :: "nat \<Rightarrow> event_log_entry" where
  "sample_event n = \<lparr>ev_timestamp = 0, ev_level = ''Error'', ev_source = ''disk'', ev_message = [], ev_event_id = n\<rparr>"

definition sample_snapshot :: "nat list \<Rightarrow> snapshot" where
  "sample_snapshot ns = \<lparr>sn_timestamp = 0, event_log = map sample_event ns, file_changes = [],
     sn_state = default_state, screen_errors = [], user_report = None\<rparr>"

lemma fingerprint_order_independent_witness:
  "actionable_fingerprint id (\<lambda>ls. []) (sample_snapshot [7, 11]) =
   actionable_fingerprint id (\<lambda>ls. []) (sample_snapshot [11, 7])"
  using fingerprint_order_independent [of "sample_snapshot [7, 11]" "sample_snapshot [11, 7]"]
  by (simp add: sample_snapshot_def)

end
