(* ===== verification/Tables.thy ===== *)
theory Tables
  imports Prelude
begin

text \<open>
  Keyed tables: what the service relies on of the SQLite tables with a primary or unique
  key. The locale states the contract of a keyed store; the association-list table is the
  model of \<open>INSERT ... ON CONFLICT DO UPDATE\<close>, \<open>SELECT ... WHERE key\<close> and \<open>DELETE ... WHERE
  key\<close>. The key/value table \<open>app_state\<close> and the preference table interpret it.
\<close>

locale kv_store =
  fixes lookup :: "'s \<Rightarrow> 'k \<Rightarrow> 'v option"
    and upsert :: "'k \<Rightarrow> 'v \<Rightarrow> 's \<Rightarrow> 's"
    and remove :: "'k \<Rightarrow> 's \<Rightarrow> 's"
    and wf :: "'s \<Rightarrow> bool"
  assumes lookup_upsert: "wf s \<Longrightarrow> lookup (upsert k v s) j = (if j = k then Some v else lookup s j)"
    and lookup_remove: "wf s \<Longrightarrow> lookup (remove k s) j = (if j = k then None else lookup s j)"
    and wf_upsert: "wf s \<Longrightarrow> wf (upsert k v s)"
    and wf_remove: "wf s \<Longrightarrow> wf (remove k s)"
begin

lemma upsert_get [simp]: "wf s \<Longrightarrow> lookup (upsert k v s) k = Some v"
  by (simp add: lookup_upsert)

lemma upsert_upsert: "wf s \<Longrightarrow> lookup (upsert k w (upsert k v s)) j = lookup (upsert k w s) j"
  by (simp add: lookup_upsert wf_upsert)

lemma remove_idem: "wf s \<Longrightarrow> lookup (remove k (remove k s)) j = lookup (remove k s) j"
  by (simp add: lookup_remove wf_remove)

lemma remove_after_upsert: "wf s \<Longrightarrow> lookup s k = None \<Longrightarrow> lookup (remove k (upsert k v s)) j = lookup s j"
  by (simp add: lookup_remove lookup_upsert wf_upsert)

text \<open>A key nobody else writes keeps its value through any number of other writes.\<close>

lemma frame: "wf s \<Longrightarrow> \<forall>(k, v) \<in> set ops. k \<noteq> j \<Longrightarrow>
  lookup (fold (\<lambda>(k, v). case v of Some w \<Rightarrow> upsert k w | None \<Rightarrow> remove k) ops s) j = lookup s j"
proof (induction ops arbitrary: s)
  case (Cons kv ops)
  obtain k v where kv: "kv = (k, v)" by (cases kv)
  let ?s = "case v of Some w \<Rightarrow> upsert k w s | None \<Rightarrow> remove k s"
  have "wf ?s" using Cons.prems(1) by (auto simp: wf_upsert wf_remove split: option.split)
  moreover have "lookup ?s j = lookup s j"
    using Cons.prems kv by (auto simp: lookup_upsert lookup_remove split: option.split)
  ultimately show ?case using Cons.IH [of ?s] Cons.prems(2) kv by (cases v) auto
qed simp

end

section \<open>Association tables\<close>

definition tbl_get :: "('k \<times> 'v) list \<Rightarrow> 'k \<Rightarrow> 'v option" where
  "tbl_get t k = map_of t k"

fun tbl_put :: "'k \<Rightarrow> 'v \<Rightarrow> ('k \<times> 'v) list \<Rightarrow> ('k \<times> 'v) list" where
  "tbl_put k v [] = [(k, v)]"
| "tbl_put k v ((j, w) # t) = (if j = k then (k, v) # t else (j, w) # tbl_put k v t)"

definition tbl_del :: "'k \<Rightarrow> ('k \<times> 'v) list \<Rightarrow> ('k \<times> 'v) list" where
  "tbl_del k t = filter (\<lambda>(j, w). j \<noteq> k) t"

definition tbl_wf :: "('k \<times> 'v) list \<Rightarrow> bool" where
  "tbl_wf t = distinct (map fst t)"

lemma set_tbl_put: "fst ` set (tbl_put k v t) = insert k (fst ` set t)"
  by (induction k v t rule: tbl_put.induct) auto

lemma map_of_tbl_put: "map_of (tbl_put k v t) = (map_of t)(k \<mapsto> v)"
  by (induction k v t rule: tbl_put.induct) auto

lemma length_tbl_put: "length (tbl_put k v t) = (if map_of t k = None then Suc (length t) else length t)"
  by (induction k v t rule: tbl_put.induct) auto

lemma map_of_tbl_del: "map_of (tbl_del k t) = (map_of t)(k := None)"
  by (induction t) (auto simp: tbl_del_def)

lemma tbl_wf_put: "tbl_wf t \<Longrightarrow> tbl_wf (tbl_put k v t)"
proof (induction k v t rule: tbl_put.induct)
  case (2 k v j w t)
  then show ?case using set_tbl_put [of k v t] by (auto simp: tbl_wf_def)
qed (simp add: tbl_wf_def)

lemma tbl_wf_del: "tbl_wf t \<Longrightarrow> tbl_wf (tbl_del k t)"
  by (induction t) (auto simp: tbl_wf_def tbl_del_def)

lemma length_tbl_del: "length (tbl_del k t) \<le> length t"
  by (simp add: tbl_del_def)

interpretation table: kv_store tbl_get tbl_put tbl_del tbl_wf
  by unfold_locales (auto simp: tbl_get_def map_of_tbl_put map_of_tbl_del tbl_wf_put tbl_wf_del)

section \<open>Claims\<close>

text \<open>
  A durable claim: a call that wins it takes the item, nobody else can win it until it is
  released. What follows for every interleaving of calls is that the wins of an item are at
  most one more than its releases, and none more when it was not free at the start.
\<close>

datatype 'i claim_event = Claim 'i | Release 'i

locale claim_once =
  fixes free :: "'s \<Rightarrow> 'i \<Rightarrow> bool"
    and claim :: "'i \<Rightarrow> 's \<Rightarrow> 's option"
    and release :: "'i \<Rightarrow> 's \<Rightarrow> 's"
  assumes claim_free: "claim i s = Some t \<Longrightarrow> free s i"
    and claim_taken: "claim i s = Some t \<Longrightarrow> \<not> free t i"
    and claim_frame: "claim i s = Some t \<Longrightarrow> free t j \<Longrightarrow> free s j"
    and release_frame: "j \<noteq> i \<Longrightarrow> free (release i s) j \<Longrightarrow> free s j"
begin

fun wins :: "'s \<Rightarrow> 'i claim_event list \<Rightarrow> 'i list" where
  "wins s [] = []"
| "wins s (Claim i # es) = (case claim i s of Some t \<Rightarrow> i # wins t es | None \<Rightarrow> wins s es)"
| "wins s (Release i # es) = wins (release i s) es"

lemma wins_bound:
  "length (filter (\<lambda>j. j = i) (wins s es)) \<le>
     length (filter (\<lambda>e. e = Release i) es) + (if free s i then 1 else 0)"
proof (induction s es rule: wins.induct)
  case (2 s j es)
  show ?case
  proof (cases "claim j s")
    case None
    with 2 show ?thesis by simp
  next
    case (Some t)
    with 2(2) have IH: "length (filter (\<lambda>j. j = i) (wins t es)) \<le>
      length (filter (\<lambda>e. e = Release i) es) + (if free t i then 1 else 0)" by blast
    show ?thesis
      using IH Some claim_free [OF Some] claim_taken [OF Some] claim_frame [OF Some, of i]
      by (cases "j = i") (auto split: if_splits)
  qed
next
  case (3 s j es)
  then show ?case using release_frame [of i j s] by (cases "j = i") (auto split: if_splits)
qed simp

end

section \<open>Aggregation\<close>

text \<open>
  A loop that keeps one accumulator per key: \<open>map.entry(key).or_insert(init)\<close> updated by each
  row that has a key. Its table holds, for each key met, the fold over that key's rows.
\<close>

definition agg_step :: "('r \<Rightarrow> 'k option) \<Rightarrow> 'a \<Rightarrow> ('r \<Rightarrow> 'a \<Rightarrow> 'a) \<Rightarrow> 'r \<Rightarrow> ('k \<times> 'a) list \<Rightarrow> ('k \<times> 'a) list" where
  "agg_step key init upd r m =
     (case key r of
        None \<Rightarrow> m
      | Some k \<Rightarrow> tbl_put k (upd r (case tbl_get m k of Some a \<Rightarrow> a | None \<Rightarrow> init)) m)"

definition aggregate :: "('r \<Rightarrow> 'k option) \<Rightarrow> 'a \<Rightarrow> ('r \<Rightarrow> 'a \<Rightarrow> 'a) \<Rightarrow> 'r list \<Rightarrow> ('k \<times> 'a) list" where
  "aggregate key init upd rows = fold (agg_step key init upd) rows []"

lemma aggregate_wf: "tbl_wf (aggregate key init upd rows)"
proof -
  have "tbl_wf m \<Longrightarrow> tbl_wf (fold (agg_step key init upd) rows m)" for m
    by (induction rows arbitrary: m) (auto simp: agg_step_def tbl_wf_put split: option.split)
  then show ?thesis by (simp add: aggregate_def tbl_wf_def)
qed

lemma aggregate_get:
  "tbl_get (aggregate key init upd rows) k =
     (if \<exists>r \<in> set rows. key r = Some k then Some (fold upd (filter (\<lambda>r. key r = Some k) rows) init) else None)"
proof -
  have "tbl_get (fold (agg_step key init upd) rows m) k =
     (if \<exists>r \<in> set rows. key r = Some k
      then Some (fold upd (filter (\<lambda>r. key r = Some k) rows) (case tbl_get m k of Some a \<Rightarrow> a | None \<Rightarrow> init))
      else tbl_get m k)" for m
  proof (induction rows arbitrary: m)
    case (Cons r rows)
    show ?case
    proof (cases "key r = Some k")
      case True
      then have "tbl_get (agg_step key init upd r m) k = Some (upd r (case tbl_get m k of Some a \<Rightarrow> a | None \<Rightarrow> init))"
        by (simp add: agg_step_def tbl_get_def map_of_tbl_put)
      with Cons True show ?thesis by auto
    next
      case False
      then have "tbl_get (agg_step key init upd r m) k = tbl_get m k"
        by (auto simp: agg_step_def tbl_get_def map_of_tbl_put split: option.split)
      with Cons False show ?thesis by auto
    qed
  qed simp
  from this [of "[]"] show ?thesis by (simp add: aggregate_def tbl_get_def)
qed

lemma aggregate_mem:
  "(k, a) \<in> set (aggregate key init upd rows) \<longleftrightarrow>
     (\<exists>r \<in> set rows. key r = Some k) \<and> a = fold upd (filter (\<lambda>r. key r = Some k) rows) init"
proof -
  have "(k, a) \<in> set (aggregate key init upd rows) \<longleftrightarrow> tbl_get (aggregate key init upd rows) k = Some a"
    using aggregate_wf [of key init upd rows] by (simp add: tbl_wf_def tbl_get_def map_of_eq_Some_iff)
  then show ?thesis by (auto simp: aggregate_get)
qed

text \<open>Counting and collecting accumulators.\<close>

lemma fold_count: "fold (\<lambda>r n. if P r then n + 1 else n) rows (n::nat) = n + length (filter P rows)"
  by (induction rows arbitrary: n) auto

lemma fold_disj: "fold (\<lambda>r b. b \<or> P r) rows b \<longleftrightarrow> b \<or> (\<exists>r \<in> set rows. P r)"
  by (induction rows arbitrary: b) auto

lemma fold_collect:
  "set (fold (\<lambda>r xs. if P r then List.insert (f r) xs else xs) rows ys) = set ys \<union> f ` {r \<in> set rows. P r}"
  by (induction rows arbitrary: ys) auto

lemma fold_collect_distinct:
  "distinct ys \<Longrightarrow> distinct (fold (\<lambda>r xs. if P r then List.insert (f r) xs else xs) rows ys)"
  by (induction rows arbitrary: ys) auto

end
