(* ===== verification/Approval_Store.thy ===== *)
theory Approval_Store
  imports System_State Tables
begin

text \<open>
  The durable side of approvals and executions (\<open>audit.rs\<close>): the approval queue with its
  unique key per active issue, the claim that hands an approval to at most one execution,
  the transaction that records an execution together with the approval's fate and the
  registry undo, the claim of an undo, and retention.

  Each operation is one whose SQL statements succeed; a transaction that fails leaves the
  store as it was, which the callers model. Rows carry the JSON texts the code stores; the
  record \<open>codec\<close> holds serde's writers and readers for them.
\<close>

section \<open>Rows and codecs\<close>

record approval_info =
  ai_id :: int
  ai_diagnosis :: string
  ai_root_cause :: string
  ai_confidence :: fnum
  ai_action :: string
  ai_reason :: string
  ai_side_effects :: string
  ai_undo_instructions :: string
  ai_action_summary :: string
  ai_target :: string
  ai_target_details :: string
  ai_reversible :: bool
  ai_created_at :: int

record pending_approval =
  pa_info :: approval_info
  pa_action :: fix_action
  pa_decision :: int
  pa_baseline :: system_state

record codec =
  enc_action :: "fix_action \<Rightarrow> string"
  dec_action :: "string \<Rightarrow> fix_action option"
  enc_info :: "approval_info \<Rightarrow> string"
  dec_info :: "string \<Rightarrow> approval_info option"
  enc_state :: "system_state \<Rightarrow> string"
  dec_state :: "string \<Rightarrow> system_state option"

datatype status = Pending | Approved | Rejected

record approval_row =
  ar_id :: int
  ar_created :: instant
  ar_decision :: int
  ar_action_json :: string
  ar_info_json :: string
  ar_baseline_json :: string
  ar_key :: "string option"
  ar_status :: status
  ar_claimed :: "instant option"

record decision_row =
  de_id :: int
  de_at :: instant
  de_executed :: bool

record undo_row =
  ud_id :: int
  ud_execution :: int
  ud_undo :: registry_undo
  ud_at :: instant
  ud_undone :: bool

record store =
  approvals :: "approval_row list"
  next_approval :: int
  executions :: "exec_row list"
  next_execution :: int
  decisions :: "decision_row list"
  next_decision :: int
  undos :: "undo_row list"
  next_undo :: int

definition MAX_ACTIVE_APPROVALS :: nat where "MAX_ACTIVE_APPROVALS = 256"
definition MAX_APPROVAL_ACTION_BYTES :: nat where "MAX_APPROVAL_ACTION_BYTES = 65536"
definition MAX_APPROVAL_INFO_BYTES :: nat where "MAX_APPROVAL_INFO_BYTES = 262144"
definition MAX_APPROVAL_BASELINE_BYTES :: nat where "MAX_APPROVAL_BASELINE_BYTES = 1048576"

definition active :: "approval_row \<Rightarrow> bool" where
  "active r = (ar_status r = Pending \<or> ar_status r = Approved)"

section \<open>Decisions\<close>

definition log_decision :: "instant \<Rightarrow> store \<Rightarrow> int \<times> store" where
  "log_decision now db =
     (next_decision db, db\<lparr>
        decisions := decisions db @ [\<lparr>de_id = next_decision db, de_at = now, de_executed = False\<rparr>],
        next_decision := next_decision db + 1\<rparr>)"

section \<open>The approval queue\<close>

definition approval_row_bounded :: "codec \<Rightarrow> string \<Rightarrow> string \<Rightarrow> string \<Rightarrow> bool" where
  "approval_row_bounded cd aj ij bj =
     (length aj \<le> MAX_APPROVAL_ACTION_BYTES \<and> length ij \<le> MAX_APPROVAL_INFO_BYTES \<and>
      length bj \<le> MAX_APPROVAL_BASELINE_BYTES \<and>
      dec_action cd aj \<noteq> None \<and> dec_info cd ij \<noteq> None \<and> dec_state cd bj \<noteq> None)"

text \<open>The insertion fails on an unbounded row, a full queue, or an active row with the same key.\<close>

definition insert_pending_approval ::
  "(string \<Rightarrow> string) \<Rightarrow> codec \<Rightarrow> int \<Rightarrow> fix_action \<Rightarrow> approval_info \<Rightarrow> system_state \<Rightarrow> instant \<Rightarrow> store
    \<Rightarrow> (int \<times> store) option" where
  "insert_pending_approval u cd decision action info baseline now db =
     (let row = \<lparr>ar_id = next_approval db, ar_created = now, ar_decision = decision,
                 ar_action_json = enc_action cd action, ar_info_json = enc_info cd info,
                 ar_baseline_json = enc_state cd baseline, ar_key = Some (dedup_key u action),
                 ar_status = Pending, ar_claimed = None\<rparr>
      in if \<not> approval_row_bounded cd (ar_action_json row) (ar_info_json row) (ar_baseline_json row) then None
         else if \<not> length (filter active (approvals db)) < MAX_ACTIVE_APPROVALS then None
         else if list_ex (\<lambda>r. active r \<and> ar_key r = ar_key row) (approvals db) then None
         else Some (next_approval db, db\<lparr>approvals := approvals db @ [row], next_approval := next_approval db + 1\<rparr>))"

definition parse_pending_approval :: "codec \<Rightarrow> approval_row \<Rightarrow> pending_approval option" where
  "parse_pending_approval cd r =
     (if \<not> approval_row_bounded cd (ar_action_json r) (ar_info_json r) (ar_baseline_json r) then None
      else (case (dec_action cd (ar_action_json r), dec_info cd (ar_info_json r), dec_state cd (ar_baseline_json r)) of
         (Some a, Some i, Some b) \<Rightarrow>
           (if ar_id r < 0 then None
            else Some \<lparr>pa_info = i\<lparr>ai_id := ar_id r\<rparr>, pa_action = a, pa_decision = ar_decision r, pa_baseline = b\<rparr>)
       | _ \<Rightarrow> None))"

definition set_status :: "int \<Rightarrow> status \<Rightarrow> status \<Rightarrow> instant option \<Rightarrow> approval_row \<Rightarrow> approval_row" where
  "set_status i from to claimed r =
     (if ar_id r = i \<and> ar_status r = from then r\<lparr>ar_status := to, ar_claimed := claimed\<rparr> else r)"

text \<open>
  The claim, one transaction: \<open>Inl\<close> when the row does not parse (nothing is changed),
  \<open>Inr None\<close> when there is no pending row with the id.
\<close>

definition claim_pending_approval ::
  "codec \<Rightarrow> int \<Rightarrow> bool \<Rightarrow> instant \<Rightarrow> store \<Rightarrow> (unit + pending_approval option) \<times> store" where
  "claim_pending_approval cd i approved now db =
     (case filter (\<lambda>r. ar_id r = i \<and> ar_status r = Pending) (approvals db) of
        [] \<Rightarrow> (Inr None, db)
      | r # _ \<Rightarrow>
          (case parse_pending_approval cd r of
             None \<Rightarrow> (Inl (), db)
           | Some pa \<Rightarrow>
               (Inr (Some pa),
                db\<lparr>approvals := map (set_status i Pending (if approved then Approved else Rejected) (Some now)) (approvals db)\<rparr>)))"

definition delete_approval_row :: "int \<Rightarrow> store \<Rightarrow> store" where
  "delete_approval_row i db = db\<lparr>approvals := filter (\<lambda>r. ar_id r \<noteq> i) (approvals db)\<rparr>"

definition delete_pending_approval :: "int \<Rightarrow> store \<Rightarrow> store" where
  "delete_pending_approval i db = delete_approval_row i db"

definition requeue_claimed_approvals_on_startup :: "store \<Rightarrow> nat \<times> store" where
  "requeue_claimed_approvals_on_startup db =
     (length (filter (\<lambda>r. ar_status r = Approved) (approvals db)),
      db\<lparr>approvals := map (\<lambda>r. if ar_status r = Approved then r\<lparr>ar_status := Pending, ar_claimed := None\<rparr> else r)
           (approvals db)\<rparr>)"

section \<open>Loading the queue\<close>

text \<open>Active rows in the order of precedence: approved ones first, then by descending id.\<close>

definition by_precedence :: "approval_row list \<Rightarrow> approval_row list" where
  "by_precedence rows =
     sort_key (\<lambda>r. - ar_id r) (filter (\<lambda>r. ar_status r = Approved) rows)
     @ sort_key (\<lambda>r. - ar_id r) (filter (\<lambda>r. ar_status r = Pending) rows)"

definition oversized :: "approval_row \<Rightarrow> bool" where
  "oversized r = (length (ar_action_json r) > MAX_APPROVAL_ACTION_BYTES \<or>
     length (ar_info_json r) > MAX_APPROVAL_INFO_BYTES \<or>
     length (ar_baseline_json r) > MAX_APPROVAL_BASELINE_BYTES)"

definition sanitize_active_approval_rows :: "approval_row list \<Rightarrow> approval_row list" where
  "sanitize_active_approval_rows rows =
     (let rows = filter (\<lambda>r. \<not> (active r \<and> oversized r)) rows;
          kept = map ar_id (take MAX_ACTIVE_APPROVALS (by_precedence rows))
      in filter (\<lambda>r. active r \<longrightarrow> ar_id r \<in> set kept) rows)"

fun split_duplicates ::
  "(string \<Rightarrow> string) \<Rightarrow> codec \<Rightarrow> string list \<Rightarrow> approval_row list \<Rightarrow> (int \<times> string) list \<times> int list" where
  "split_duplicates u cd seen [] = ([], [])"
| "split_duplicates u cd seen (r # rows) =
     (case dec_action cd (ar_action_json r) of
        Some a \<Rightarrow>
          (let key = dedup_key u a in
           if key \<in> set seen then
             (let (keep, remove) = split_duplicates u cd seen rows in (keep, ar_id r # remove))
           else
             (let (keep, remove) = split_duplicates u cd (key # seen) rows in ((ar_id r, key) # keep, remove)))
      | None \<Rightarrow> (let (keep, remove) = split_duplicates u cd seen rows in (keep, ar_id r # remove)))"

definition normalize_active_approval_keys ::
  "(string \<Rightarrow> string) \<Rightarrow> codec \<Rightarrow> approval_row list \<Rightarrow> approval_row list" where
  "normalize_active_approval_keys u cd rows =
     (let (keep, remove) = split_duplicates u cd [] (by_precedence rows);
          rows = filter (\<lambda>r. ar_id r \<notin> set remove) rows;
          rows = map (\<lambda>r. if active r then r\<lparr>ar_key := None\<rparr> else r) rows
      in map (\<lambda>r. case map_of keep (ar_id r) of Some key \<Rightarrow> r\<lparr>ar_key := Some key\<rparr> | None \<Rightarrow> r) rows)"

text \<open>The sweep of the loaded approvals, newest first: the duplicates are deleted.\<close>

fun sweep_duplicates ::
  "(string \<Rightarrow> string) \<Rightarrow> string list \<Rightarrow> pending_approval list \<Rightarrow> pending_approval list \<times> int list" where
  "sweep_duplicates u seen [] = ([], [])"
| "sweep_duplicates u seen (p # ps) =
     (let key = dedup_key u (pa_action p) in
      if key \<in> set seen then
        (let (keep, gone) = sweep_duplicates u seen ps in (keep, ai_id (pa_info p) # gone))
      else (let (keep, gone) = sweep_duplicates u (key # seen) ps in (p # keep, gone)))"

text \<open>
  \<open>load_pending_approvals\<close> in four statements that may each fail: the rejected tombstones,
  the size and count limits, the keys, the reading. \<open>stages\<close> is how many of them succeed; a
  failure keeps what the earlier ones did and returns nothing. The deletions of unreadable
  rows and duplicates are best effort: \<open>ok\<close> says for which ids they succeed.
\<close>

definition load_pending_approvals ::
  "(string \<Rightarrow> string) \<Rightarrow> codec \<Rightarrow> nat \<Rightarrow> (int \<Rightarrow> bool) \<Rightarrow> store \<Rightarrow> pending_approval list option \<times> store" where
  "load_pending_approvals u cd stages ok db =
     (if stages = 0 then (None, db) else
      let rows1 = filter (\<lambda>r. ar_status r \<noteq> Rejected) (approvals db) in
      if stages = 1 then (None, db\<lparr>approvals := rows1\<rparr>) else
      let rows2 = sanitize_active_approval_rows rows1 in
      if stages = 2 then (None, db\<lparr>approvals := rows2\<rparr>) else
      let rows3 = normalize_active_approval_keys u cd rows2 in
      if stages = 3 then (None, db\<lparr>approvals := rows3\<rparr>) else
      let todo = sort_key ar_id (filter (\<lambda>r. ar_status r = Pending) rows3);
          unreadable = map ar_id (filter (\<lambda>r. parse_pending_approval cd r = None) todo);
          out = List.map_filter (parse_pending_approval cd) todo;
          (keep, gone) = sweep_duplicates u [] (rev out);
          rows4 = filter (\<lambda>r. \<not> (ar_id r \<in> set (unreadable @ gone) \<and> ok (ar_id r))) rows3
      in (Some (rev keep), db\<lparr>approvals := rows4\<rparr>))"

section \<open>Recording an execution\<close>

record persisted_execution =
  pe_execution :: int
  pe_undo :: "int option"

definition is_registry_reset :: "fix_action \<Rightarrow> bool" where
  "is_registry_reset a = (case a of RegistryReset k v d \<Rightarrow> True | _ \<Rightarrow> False)"

definition undo_exact :: "registry_undo \<Rightarrow> bool" where
  "undo_exact un =
     (applied_kind un \<noteq> None \<and> applied_data un \<noteq> None \<and>
      (if prior_existed un then prior_kind un \<noteq> None \<and> prior_data un \<noteq> None
       else prior_kind un = None \<and> prior_data un = None))"

definition undo_required :: "fix_action \<Rightarrow> execution_result \<Rightarrow> bool" where
  "undo_required a res = (res_success res \<and> is_registry_reset a)"

definition complete_row :: "int \<Rightarrow> bool \<Rightarrow> approval_row list \<Rightarrow> approval_row list" where
  "complete_row i requeue rows =
     (if requeue then map (set_status i Approved Pending None) rows
      else filter (\<lambda>r. \<not> (ar_id r = i \<and> ar_status r = Approved)) rows)"

definition persist_execution ::
  "(string \<Rightarrow> string) \<Rightarrow> int \<Rightarrow> fix_action \<Rightarrow> execution_result \<Rightarrow> int option \<Rightarrow> bool \<Rightarrow> instant \<Rightarrow> store
    \<Rightarrow> (persisted_execution \<times> store) option" where
  "persist_execution u decision action res approval requeue now db =
     (if requeue \<and> approval = None then None
      else if (if undo_required action res then (case res_undo res of None \<Rightarrow> True | Some un \<Rightarrow> \<not> undo_exact un)
               else res_undo res \<noteq> None) then None
      else
        (let eid = next_execution db;
             db = db\<lparr>executions := executions db @ [\<lparr>er_id = eid, er_decision = decision, er_action = res_action res,
                       er_key = Some (dedup_key u action), er_success = res_success res, er_output = res_output res,
                       er_at = now\<rparr>],
                     next_execution := eid + 1,
                     decisions := map (\<lambda>d. if de_id d = decision then d\<lparr>de_executed := True\<rparr> else d) (decisions db)\<rparr>;
             (undo_id, db) =
               (case (undo_required action res, res_undo res) of
                  (True, Some un) \<Rightarrow>
                    (Some (next_undo db), db\<lparr>
                       undos := undos db @ [\<lparr>ud_id = next_undo db, ud_execution = eid, ud_undo = un, ud_at = now,
                                             ud_undone = False\<rparr>],
                       next_undo := next_undo db + 1\<rparr>)
                | _ \<Rightarrow> (None, db))
         in case approval of
              None \<Rightarrow> Some (\<lparr>pe_execution = eid, pe_undo = undo_id\<rparr>, db)
            | Some i \<Rightarrow>
                (if length (filter (\<lambda>r. ar_id r = i \<and> ar_status r = Approved) (approvals db)) = 1
                 then Some (\<lparr>pe_execution = eid, pe_undo = undo_id\<rparr>,
                            db\<lparr>approvals := complete_row i requeue (approvals db)\<rparr>)
                 else None)))"

section \<open>Registry undo\<close>

definition claim_registry_undo :: "int \<Rightarrow> store \<Rightarrow> registry_undo option \<times> store" where
  "claim_registry_undo i db =
     (case filter (\<lambda>r. ud_id r = i \<and> \<not> ud_undone r) (undos db) of
        [] \<Rightarrow> (None, db)
      | r # _ \<Rightarrow> (Some (ud_undo r),
          db\<lparr>undos := map (\<lambda>r. if ud_id r = i \<and> \<not> ud_undone r then r\<lparr>ud_undone := True\<rparr> else r) (undos db)\<rparr>))"

definition unclaim_registry_undo :: "int \<Rightarrow> store \<Rightarrow> store" where
  "unclaim_registry_undo i db =
     db\<lparr>undos := map (\<lambda>r. if ud_id r = i then r\<lparr>ud_undone := False\<rparr> else r) (undos db)\<rparr>"

section \<open>Retention\<close>

text \<open>Of the four tables the store holds two; the decisions of an outstanding approval stay.\<close>

definition prune_old :: "nat \<Rightarrow> instant \<Rightarrow> store \<Rightarrow> store" where
  "prune_old days now db =
     (let cutoff = now - int days * day in
      db\<lparr>executions := filter (\<lambda>r. \<not> er_at r < cutoff) (executions db),
         decisions := filter (\<lambda>d. \<not> (de_at d < cutoff \<and> de_id d \<notin> ar_decision ` set (approvals db))) (decisions db)\<rparr>)"

section \<open>The queue invariant\<close>

definition keys_unique :: "approval_row list \<Rightarrow> bool" where
  "keys_unique rows =
     (\<forall>r \<in> set rows. \<forall>s \<in> set rows.
        active r \<and> active s \<and> ar_key r = ar_key s \<and> ar_key r \<noteq> None \<longrightarrow> ar_id r = ar_id s)"

lemma keys_uniqueI:
  "(\<And>r s k. r \<in> set rows \<Longrightarrow> s \<in> set rows \<Longrightarrow> active r \<Longrightarrow> active s \<Longrightarrow>
     ar_key r = Some k \<Longrightarrow> ar_key s = Some k \<Longrightarrow> ar_id r = ar_id s) \<Longrightarrow> keys_unique rows"
  unfolding keys_unique_def by (metis option.exhaust)

lemma keys_uniqueD:
  "keys_unique rows \<Longrightarrow> r \<in> set rows \<Longrightarrow> s \<in> set rows \<Longrightarrow>
   ar_key r = Some k \<Longrightarrow> ar_key s = Some k \<Longrightarrow> active r \<Longrightarrow> active s \<Longrightarrow> ar_id r = ar_id s"
  unfolding keys_unique_def by (metis option.discI)

definition ids_ok :: "int \<Rightarrow> approval_row list \<Rightarrow> bool" where
  "ids_ok n rows = (distinct (map ar_id rows) \<and> (\<forall>r \<in> set rows. 0 < ar_id r \<and> ar_id r < n))"

definition rows_ok :: "int \<Rightarrow> approval_row list \<Rightarrow> bool" where
  "rows_ok n rows =
     (0 < n \<and> ids_ok n rows \<and> keys_unique rows \<and> length (filter active rows) \<le> MAX_ACTIVE_APPROVALS)"

definition queue_ok :: "store \<Rightarrow> bool" where
  "queue_ok db = rows_ok (next_approval db) (approvals db)"

text \<open>A change of rows that keeps identity, key and activity keeps the invariant.\<close>

lemma rows_ok_map:
  assumes "rows_ok n rows"
    and "\<And>r. r \<in> set rows \<Longrightarrow> ar_id (f r) = ar_id r \<and> ar_key (f r) = ar_key r \<and> (active (f r) \<longrightarrow> active r)"
  shows "rows_ok n (map f rows)"
proof -
  have ids: "map ar_id (map f rows) = map ar_id rows" using assms(2) by simp
  moreover have "length (filter active (map f rows)) \<le> length (filter active rows)"
    using assms(2) by (induction rows) auto
  moreover have "ids_ok n (map f rows)"
    using assms unfolding rows_ok_def ids_ok_def ids by simp
  moreover have "keys_unique (map f rows)"
  proof (rule keys_uniqueI)
    fix x y k assume "x \<in> set (map f rows)" "y \<in> set (map f rows)"
      and h: "active x" "active y" "ar_key x = Some k" "ar_key y = Some k"
    then obtain r t where r: "x = f r" "r \<in> set rows" and t: "y = f t" "t \<in> set rows" by auto
    have u: "keys_unique rows" using assms(1) by (simp add: rows_ok_def)
    have "ar_id r = ar_id t"
      by (rule keys_uniqueD [OF u r(2) t(2), of k]) (use assms(2) [OF r(2)] assms(2) [OF t(2)] h r t in auto)
    then show "ar_id x = ar_id y" using assms(2) [OF r(2)] assms(2) [OF t(2)] r t by simp
  qed
  ultimately show ?thesis
    using assms(1) by (simp add: rows_ok_def)
qed

lemma rows_ok_filter: "rows_ok n rows \<Longrightarrow> rows_ok n (filter P rows)"
proof -
  assume ok: "rows_ok n rows"
  have "length (filter active (filter P rows)) \<le> length (filter active rows)"
    by (induction rows) auto
  with ok show ?thesis
    by (auto simp: rows_ok_def ids_ok_def keys_unique_def distinct_map_filter)
qed

lemma rows_ok_set_status:
  assumes "rows_ok n rows" and "from \<noteq> Rejected"
  shows "rows_ok n (map (set_status i from to c) rows)"
  by (rule rows_ok_map [OF assms(1)]) (use assms(2) in \<open>auto simp: set_status_def active_def; cases from; simp\<close>)

lemma rows_ok_complete: "rows_ok n rows \<Longrightarrow> rows_ok n (complete_row i requeue rows)"
  by (simp add: complete_row_def rows_ok_filter rows_ok_set_status)

lemma insert_Some:
  assumes "insert_pending_approval u cd d a info b now db = Some (i, db')"
  obtains row where "db' = db\<lparr>approvals := approvals db @ [row], next_approval := next_approval db + 1\<rparr>"
    and "i = next_approval db" and "ar_id row = i" and "ar_key row = Some (dedup_key u a)"
    and "ar_status row = Pending" and "ar_action_json row = enc_action cd a"
    and "ar_info_json row = enc_info cd info" and "ar_baseline_json row = enc_state cd b"
    and "ar_decision row = d"
    and "approval_row_bounded cd (ar_action_json row) (ar_info_json row) (ar_baseline_json row)"
    and "length (filter active (approvals db)) < MAX_ACTIVE_APPROVALS"
    and "\<not> list_ex (\<lambda>r. active r \<and> ar_key r = Some (dedup_key u a)) (approvals db)"
proof -
  let ?row = "\<lparr>ar_id = next_approval db, ar_created = now, ar_decision = d, ar_action_json = enc_action cd a,
     ar_info_json = enc_info cd info, ar_baseline_json = enc_state cd b, ar_key = Some (dedup_key u a),
     ar_status = Pending, ar_claimed = None\<rparr>"
  note D = assms [unfolded insert_pending_approval_def Let_def]
  show thesis
  proof (rule that [of ?row])
    show "approval_row_bounded cd (ar_action_json ?row) (ar_info_json ?row) (ar_baseline_json ?row)"
      using D by (rule contrapos_pp) simp
    show "length (filter active (approvals db)) < MAX_ACTIVE_APPROVALS"
      using D by (rule contrapos_pp) simp
    show "\<not> list_ex (\<lambda>r. active r \<and> ar_key r = Some (dedup_key u a)) (approvals db)"
      using D by (rule contrapos_pn) simp
    show i: "i = next_approval db" using D by (simp split: if_splits)
    show "db' = db\<lparr>approvals := approvals db @ [?row], next_approval := next_approval db + 1\<rparr>"
      using D by (auto split: if_splits)
    show "ar_id ?row = i" using i by simp
  qed simp_all
qed

lemma ids_ok_snoc: "ids_ok n rows \<Longrightarrow> 0 < n \<Longrightarrow> ar_id row = n \<Longrightarrow> ids_ok (n + 1) (rows @ [row])"
  by (auto simp: ids_ok_def)

lemma queue_ok_insert:
  assumes "queue_ok db" and "insert_pending_approval u cd d a info b now db = Some (i, db')"
  shows "queue_ok db'"
proof -
  obtain row where db': "db' = db\<lparr>approvals := approvals db @ [row], next_approval := next_approval db + 1\<rparr>"
    and row: "i = next_approval db" "ar_id row = i" "ar_key row = Some (dedup_key u a)"
    and n: "length (filter active (approvals db)) < MAX_ACTIVE_APPROVALS"
    and k: "\<not> list_ex (\<lambda>r. active r \<and> ar_key r = Some (dedup_key u a)) (approvals db)"
    by (rule insert_Some [OF assms(2)])
  have ok: "rows_ok (next_approval db) (approvals db)" using assms(1) by (simp add: queue_ok_def)
  then have u: "keys_unique (approvals db)" by (simp add: rows_ok_def)
  have new: "active r \<Longrightarrow> ar_key r = ar_key row \<Longrightarrow> r \<notin> set (approvals db)" for r
    using k row(3) by (auto simp: list_ex_iff)
  have "keys_unique (approvals db @ [row])"
  proof (rule keys_uniqueI)
    fix r s k assume "r \<in> set (approvals db @ [row])" "s \<in> set (approvals db @ [row])"
      and h: "active r" "active s" "ar_key r = Some k" "ar_key s = Some k"
    then consider "r = row" "s = row" | "r \<in> set (approvals db)" "s \<in> set (approvals db)"
      using new [of r] new [of s] by auto
    then show "ar_id r = ar_id s" using keys_uniqueD [OF u] h by cases blast+
  qed
  moreover have "ids_ok (next_approval db + 1) (approvals db @ [row])"
    using ok row ids_ok_snoc by (simp add: rows_ok_def)
  ultimately show "queue_ok db'"
    using ok n by (simp add: queue_ok_def rows_ok_def db')
qed

lemma queue_ok_claim: "queue_ok db \<Longrightarrow> queue_ok (snd (claim_pending_approval cd i ap now db))"
  by (auto simp: claim_pending_approval_def queue_ok_def rows_ok_set_status split: list.split option.split)

lemma queue_ok_delete: "queue_ok db \<Longrightarrow> queue_ok (delete_pending_approval i db)"
  by (simp add: delete_pending_approval_def delete_approval_row_def queue_ok_def rows_ok_filter)

lemma queue_ok_requeue: "queue_ok db \<Longrightarrow> queue_ok (snd (requeue_claimed_approvals_on_startup db))"
  unfolding queue_ok_def requeue_claimed_approvals_on_startup_def
  by (simp, rule rows_ok_map) (auto simp: active_def)

lemma persist_approvals:
  assumes "persist_execution u d a res ap rq now db = Some (pe, db')"
  shows "next_approval db' = next_approval db \<and>
    approvals db' = (case ap of None \<Rightarrow> approvals db | Some i \<Rightarrow> complete_row i rq (approvals db))"
  using assms by (auto simp: persist_execution_def Let_def split: if_splits option.splits prod.splits bool.splits)

lemma queue_ok_persist:
  "queue_ok db \<Longrightarrow> persist_execution u d a res ap rq now db = Some (pe, db') \<Longrightarrow> queue_ok db'"
  using persist_approvals [of u d a res ap rq now db pe db']
  by (auto simp: queue_ok_def rows_ok_complete split: option.splits)

section \<open>What loading leaves\<close>

lemma set_by_precedence: "set (by_precedence rows) = {r \<in> set rows. active r}"
  by (auto simp: by_precedence_def active_def)

lemma distinct_by_precedence: "distinct (map ar_id rows) \<Longrightarrow> distinct (map ar_id (by_precedence rows))"
proof -
  assume d: "distinct (map ar_id rows)"
  then have inj: "inj_on ar_id (set rows)" and dr: "distinct rows" by (simp_all add: distinct_map)
  have "distinct (by_precedence rows)" using dr by (auto simp: by_precedence_def distinct_filter)
  moreover have "inj_on ar_id (set (by_precedence rows))"
    using inj by (auto simp: set_by_precedence inj_on_def)
  ultimately show ?thesis by (simp add: distinct_map)
qed

lemma split_duplicates_Cons:
  assumes "split_duplicates u cd seen (r # rows) = (keep, remove)"
  obtains (drop) r0 where "split_duplicates u cd seen rows = (keep, r0)" and "remove = ar_id r # r0"
      and "\<And>a. dec_action cd (ar_action_json r) = Some a \<Longrightarrow> dedup_key u a \<in> set seen"
  | (keep) a k0 where "dec_action cd (ar_action_json r) = Some a" and "dedup_key u a \<notin> set seen"
      and "split_duplicates u cd (dedup_key u a # seen) rows = (k0, remove)"
      and "keep = (ar_id r, dedup_key u a) # k0"
  using assms by (auto simp: Let_def split: option.splits if_splits prod.splits)

lemma split_duplicates_ids:
  "split_duplicates u cd seen rows = (keep, remove) \<Longrightarrow>
   i \<in> ar_id ` set rows \<longleftrightarrow> (\<exists>k. (i, k) \<in> set keep) \<or> i \<in> set remove"
proof (induction rows arbitrary: seen keep remove)
  case (Cons r rows)
  from Cons.prems show ?case
  proof (cases rule: split_duplicates_Cons)
    case (drop r0)
    with Cons.IH [OF drop(1)] show ?thesis by auto
  next
    case (keep a k0)
    with Cons.IH [OF keep(3)] show ?thesis by auto
  qed
qed simp

lemma split_duplicates_keys:
  "split_duplicates u cd seen rows = (keep, remove) \<Longrightarrow>
   distinct (map snd keep) \<and> (\<forall>(i, k) \<in> set keep. k \<notin> set seen)"
proof (induction rows arbitrary: seen keep remove)
  case (Cons r rows)
  from Cons.prems show ?case
  proof (cases rule: split_duplicates_Cons)
    case (drop r0)
    with Cons.IH [OF drop(1)] show ?thesis by simp
  next
    case (keep a k0)
    with Cons.IH [OF keep(3)] show ?thesis by auto
  qed
qed simp

lemma split_duplicates_origin:
  "split_duplicates u cd seen rows = (keep, remove) \<Longrightarrow> (i, k) \<in> set keep \<Longrightarrow>
   \<exists>r \<in> set rows. ar_id r = i \<and> (\<exists>a. dec_action cd (ar_action_json r) = Some a \<and> k = dedup_key u a)"
proof (induction rows arbitrary: seen keep remove)
  case (Cons r rows)
  from Cons.prems(1) show ?case
  proof (cases rule: split_duplicates_Cons)
    case (drop r0)
    with Cons.IH [OF drop(1) Cons.prems(2)] show ?thesis by auto
  next
    case (keep a k0)
    with Cons.IH [OF keep(3)] Cons.prems(2) show ?thesis by auto
  qed
qed simp

lemma split_duplicates_disjoint:
  "split_duplicates u cd seen rows = (keep, remove) \<Longrightarrow> distinct (map ar_id rows) \<Longrightarrow>
   distinct (map fst keep) \<and> (\<forall>(i, k) \<in> set keep. i \<notin> set remove)"
proof (induction rows arbitrary: seen keep remove)
  case (Cons r rows)
  have new: "ar_id r \<notin> ar_id ` set rows" and d: "distinct (map ar_id rows)" using Cons.prems(2) by auto
  from Cons.prems(1) show ?case
  proof (cases rule: split_duplicates_Cons)
    case (drop r0)
    have "\<forall>(i, k) \<in> set keep. i \<noteq> ar_id r" using split_duplicates_ids [OF drop(1), of "ar_id r"] new by blast
    with Cons.IH [OF drop(1) d] drop(2) show ?thesis by auto
  next
    case (keep a k0)
    have "\<forall>(i, k) \<in> set k0. i \<noteq> ar_id r" and "ar_id r \<notin> set remove"
      using split_duplicates_ids [OF keep(3), of "ar_id r"] new by blast+
    with Cons.IH [OF keep(3) d] keep(4) show ?thesis by auto
  qed
qed simp

text \<open>A row that reads but is dropped gives way to one of higher precedence with the same key.\<close>

lemma split_duplicates_newest:
  "split_duplicates u cd seen (xs @ r # ys) = (keep, remove) \<Longrightarrow>
   dec_action cd (ar_action_json r) = Some a \<Longrightarrow> \<forall>k. (ar_id r, k) \<notin> set keep \<Longrightarrow>
   dedup_key u a \<in> set seen \<or> (\<exists>s \<in> set xs. (ar_id s, dedup_key u a) \<in> set keep)"
proof (induction xs arbitrary: seen keep remove)
  case Nil
  from Nil.prems(1) [unfolded append_Nil] show ?case
    by (cases rule: split_duplicates_Cons) (use Nil.prems in auto)
next
  case (Cons x xs)
  from Cons.prems(1) [unfolded append_Cons] show ?case
  proof (cases rule: split_duplicates_Cons)
    case (drop r0)
    with Cons.IH [OF drop(1) Cons.prems(2,3)] show ?thesis by auto
  next
    case (keep b k0)
    with Cons.prems(3) have "\<forall>k. (ar_id r, k) \<notin> set k0" by simp
    from Cons.IH [OF keep(3) Cons.prems(2) this] keep(4) show ?thesis by auto
  qed
qed

definition row_keyed :: "(string \<Rightarrow> string) \<Rightarrow> codec \<Rightarrow> approval_row \<Rightarrow> bool" where
  "row_keyed u cd r =
     (\<exists>a. dec_action cd (ar_action_json r) = Some a \<and> ar_key r = Some (dedup_key u a))"

text \<open>The effect of the normalisation on one row that stays.\<close>

definition rekey :: "(int \<times> string) list \<Rightarrow> approval_row \<Rightarrow> approval_row" where
  "rekey keep r =
     (let r = (if active r then r\<lparr>ar_key := None\<rparr> else r) in
      case map_of keep (ar_id r) of Some key \<Rightarrow> r\<lparr>ar_key := Some key\<rparr> | None \<Rightarrow> r)"

lemma rekey_simps [simp]:
  "ar_id (rekey keep r) = ar_id r" "ar_status (rekey keep r) = ar_status r"
  "ar_action_json (rekey keep r) = ar_action_json r" "ar_info_json (rekey keep r) = ar_info_json r"
  "ar_baseline_json (rekey keep r) = ar_baseline_json r" "ar_decision (rekey keep r) = ar_decision r"
  "active (rekey keep r) = active r"
  by (auto simp: rekey_def Let_def active_def split: option.split)

lemma normalize_rekey:
  "split_duplicates u cd [] (by_precedence rows) = (keep, remove) \<Longrightarrow>
   normalize_active_approval_keys u cd rows = map (rekey keep) (filter (\<lambda>r. ar_id r \<notin> set remove) rows)"
  by (simp add: normalize_active_approval_keys_def rekey_def Let_def)

lemma ids_ok_filter: "ids_ok n rows \<Longrightarrow> ids_ok n (filter P rows)"
  by (auto simp: ids_ok_def distinct_map_filter)

lemma normalize_spec:
  fixes u :: "string \<Rightarrow> string" and cd :: codec and rows :: "approval_row list"
  assumes ids: "ids_ok n rows"
  defines "rows' \<equiv> normalize_active_approval_keys u cd rows"
  shows "ids_ok n rows'" and "keys_unique rows'" and "\<forall>r \<in> set rows'. active r \<longrightarrow> row_keyed u cd r"
    and "length (filter active rows') \<le> length (filter active rows)"
proof -
  obtain keep remove where sd: "split_duplicates u cd [] (by_precedence rows) = (keep, remove)" by fastforce
  note n = normalize_rekey [OF sd, folded rows'_def]
  have dist: "distinct (map ar_id rows)" using ids by (simp add: ids_ok_def)
  note disj = split_duplicates_disjoint [OF sd distinct_by_precedence [OF dist]]
  have same: "r = s" if "r \<in> set rows" "s \<in> set rows" "ar_id r = ar_id s" for r s
    using that dist by (metis distinct_map inj_onD)
  have kept: "\<exists>a. dec_action cd (ar_action_json r) = Some a \<and> (ar_id r, dedup_key u a) \<in> set keep
      \<and> ar_key (rekey keep r) = Some (dedup_key u a)"
    if r: "r \<in> set rows" "active r" "ar_id r \<notin> set remove" for r
  proof -
    have "ar_id r \<in> ar_id ` set (by_precedence rows)" using r by (auto simp: set_by_precedence)
    with split_duplicates_ids [OF sd] r(3) obtain k where k: "(ar_id r, k) \<in> set keep" by blast
    from split_duplicates_origin [OF sd k] obtain s a where s: "s \<in> set rows" "ar_id s = ar_id r"
      "dec_action cd (ar_action_json s) = Some a" "k = dedup_key u a" by (auto simp: set_by_precedence)
    with same r(1) have "s = r" by blast
    moreover have "map_of keep (ar_id r) = Some k" using k disj by (simp add: map_of_is_SomeI)
    ultimately show ?thesis using s k by (auto simp: rekey_def Let_def)
  qed
  show "ids_ok n rows'"
    using ids_ok_filter [OF ids, of "\<lambda>r. ar_id r \<notin> set remove"]
    by (simp add: n ids_ok_def comp_def)
  show "\<forall>r \<in> set rows'. active r \<longrightarrow> row_keyed u cd r"
    using kept by (fastforce simp: n row_keyed_def)
  show "keys_unique rows'"
  proof (rule keys_uniqueI)
    fix r s k assume "r \<in> set rows'" "s \<in> set rows'" and h: "active r" "active s" "ar_key r = Some k" "ar_key s = Some k"
    then obtain r0 s0 where r0: "r = rekey keep r0" "r0 \<in> set rows" "ar_id r0 \<notin> set remove"
      and s0: "s = rekey keep s0" "s0 \<in> set rows" "ar_id s0 \<notin> set remove" by (auto simp: n)
    have "(ar_id r0, k) \<in> set keep" "(ar_id s0, k) \<in> set keep"
      using kept [of r0] kept [of s0] r0 s0 h by auto
    then have "ar_id r0 = ar_id s0"
      using split_duplicates_keys [OF sd] by (metis distinct_map inj_onD prod.inject snd_conv)
    then show "ar_id r = ar_id s" by (simp add: r0 s0)
  qed
  have "length (filter active rows') = length (filter (\<lambda>r. active r \<and> ar_id r \<notin> set remove) rows)"
    by (simp add: n filter_map comp_def conj_commute)
  also have "\<dots> \<le> length (filter active rows)" by (induction rows) auto
  finally show "length (filter active rows') \<le> length (filter active rows)" .
qed

lemma sanitize_filter: "\<exists>P. sanitize_active_approval_rows rows = filter P rows"
  by (auto simp: sanitize_active_approval_rows_def Let_def)

lemma sanitize_count:
  assumes "distinct (map ar_id rows)"
  shows "length (filter active (sanitize_active_approval_rows rows)) \<le> MAX_ACTIVE_APPROVALS"
proof -
  let ?rows = "filter (\<lambda>r. \<not> (active r \<and> oversized r)) rows"
  let ?kept = "map ar_id (take MAX_ACTIVE_APPROVALS (by_precedence ?rows))"
  let ?res = "filter active (sanitize_active_approval_rows rows)"
  have "distinct (map ar_id ?res)"
    using assms by (auto simp: sanitize_active_approval_rows_def Let_def distinct_map_filter)
  then have "length ?res = card (set (map ar_id ?res))" by (metis distinct_card length_map)
  also have "\<dots> \<le> card (set ?kept)"
    by (rule card_mono) (auto simp: sanitize_active_approval_rows_def Let_def)
  also have "\<dots> \<le> length ?kept" by (rule card_length)
  also have "\<dots> \<le> MAX_ACTIVE_APPROVALS" by simp
  finally show ?thesis .
qed

lemma sweep_distinct:
  "distinct (map (\<lambda>p. dedup_key u (pa_action p)) ps) \<Longrightarrow>
   \<forall>p \<in> set ps. dedup_key u (pa_action p) \<notin> set seen \<Longrightarrow> sweep_duplicates u seen ps = (ps, [])"
proof (induction ps arbitrary: seen)
  case (Cons p ps)
  have "sweep_duplicates u (dedup_key u (pa_action p) # seen) ps = (ps, [])"
    using Cons.prems by (intro Cons.IH) (auto simp: image_iff)
  with Cons.prems show ?case by (simp add: Let_def)
qed simp

lemma parse_Some:
  "parse_pending_approval cd r = Some p \<Longrightarrow>
   dec_action cd (ar_action_json r) = Some (pa_action p) \<and> ai_id (pa_info p) = ar_id r \<and> pa_decision p = ar_decision r"
  by (auto simp: parse_pending_approval_def split: if_splits option.splits)

lemma keys_unique_mono: "keys_unique xs \<Longrightarrow> set ys \<subseteq> set xs \<Longrightarrow> keys_unique ys"
  unfolding keys_unique_def by blast

lemma parsed_keys_distinct:
  "distinct (map ar_id xs) \<Longrightarrow> keys_unique xs \<Longrightarrow> \<forall>r \<in> set xs. active r \<and> row_keyed u cd r \<Longrightarrow>
   distinct (map (\<lambda>p. dedup_key u (pa_action p)) (List.map_filter (parse_pending_approval cd) xs))"
proof (induction xs)
  case (Cons r xs)
  have IH: "distinct (map (\<lambda>p. dedup_key u (pa_action p)) (List.map_filter (parse_pending_approval cd) xs))"
    by (rule Cons.IH [OF _ keys_unique_mono [OF Cons.prems(2)]]) (use Cons.prems in auto)
  show ?case
  proof (cases "parse_pending_approval cd r")
    case (Some p)
    have key: "ar_key s = Some (dedup_key u (pa_action q))"
      if "s \<in> set (r # xs)" "parse_pending_approval cd s = Some q" for s q
      using Cons.prems(3) that parse_Some [of cd s q] by (fastforce simp: row_keyed_def)
    have "dedup_key u (pa_action q) \<noteq> dedup_key u (pa_action p)"
      if q: "q \<in> set (List.map_filter (parse_pending_approval cd) xs)" for q
    proof
      assume eq: "dedup_key u (pa_action q) = dedup_key u (pa_action p)"
      from q obtain s where s: "s \<in> set xs" "parse_pending_approval cd s = Some q"
        by (auto simp: map_filter_def)
      then have "ar_id r = ar_id s"
        using keys_uniqueD [OF Cons.prems(2), of r s "dedup_key u (pa_action p)"] key [of r p] key [of s q]
          Some eq Cons.prems(3) by auto
      with s(1) Cons.prems(1) show False by auto
    qed
    then have "dedup_key u (pa_action p) \<notin>
        (\<lambda>p. dedup_key u (pa_action p)) ` set (List.map_filter (parse_pending_approval cd) xs)"
      by (metis (no_types, lifting) imageE)
    with IH Some show ?thesis by (simp add: map_filter_simps)
  qed (simp add: IH map_filter_simps)
qed (simp add: map_filter_simps)

lemma sanitize_ids: "ids_ok n rows \<Longrightarrow> ids_ok n (sanitize_active_approval_rows rows)"
  using sanitize_filter [of rows] ids_ok_filter by metis

lemma map_filter_id: "List.map_filter f (filter (\<lambda>r. f r \<noteq> None \<or> P r) xs) = List.map_filter f xs"
  by (induction xs) (auto simp: map_filter_simps split: option.splits)

text \<open>The rows after the keys are normalised, the state the reading starts from.\<close>

definition clean_rows :: "(string \<Rightarrow> string) \<Rightarrow> codec \<Rightarrow> approval_row list \<Rightarrow> approval_row list" where
  "clean_rows u cd rows =
     normalize_active_approval_keys u cd
       (sanitize_active_approval_rows (filter (\<lambda>r. ar_status r \<noteq> Rejected) rows))"

lemma clean_rows_ok:
  assumes "0 < n" and "ids_ok n rows"
  shows "rows_ok n (clean_rows u cd rows)" and "\<forall>r \<in> set (clean_rows u cd rows). active r \<and> row_keyed u cd r"
proof -
  let ?r1 = "filter (\<lambda>r. ar_status r \<noteq> Rejected) rows"
  let ?r2 = "sanitize_active_approval_rows ?r1"
  have i1: "ids_ok n ?r1" by (rule ids_ok_filter [OF assms(2)])
  have i2: "ids_ok n ?r2" by (rule sanitize_ids [OF i1])
  note N = normalize_spec [OF i2, of u cd, folded clean_rows_def]
  have "length (filter active ?r2) \<le> MAX_ACTIVE_APPROVALS"
    using i1 by (intro sanitize_count) (simp add: ids_ok_def)
  with N assms(1) show "rows_ok n (clean_rows u cd rows)" by (simp add: rows_ok_def)
  have "\<forall>r \<in> set ?r2. active r"
  proof -
    obtain P where "?r2 = filter P ?r1" using sanitize_filter by blast
    then show ?thesis by (auto simp: active_def) (metis status.exhaust)
  qed
  moreover obtain keep remove where
    "split_duplicates u cd [] (by_precedence ?r2) = (keep, remove)" by fastforce
  from normalize_rekey [OF this]
  have "clean_rows u cd rows = map (rekey keep) (filter (\<lambda>r. ar_id r \<notin> set remove) ?r2)"
    by (simp add: clean_rows_def)
  ultimately have "\<forall>r \<in> set (clean_rows u cd rows). active r" by auto
  with N(3) show "\<forall>r \<in> set (clean_rows u cd rows). active r \<and> row_keyed u cd r" by blast
qed

lemma load_result:
  assumes "0 < next_approval db" and "ids_ok (next_approval db) (approvals db)" and "3 < stages"
  shows "load_pending_approvals u cd stages ok db =
    (Some (List.map_filter (parse_pending_approval cd)
       (sort_key ar_id (filter (\<lambda>r. ar_status r = Pending) (clean_rows u cd (approvals db))))),
     db\<lparr>approvals := filter (\<lambda>r. \<not> (ar_status r = Pending \<and> parse_pending_approval cd r = None \<and> ok (ar_id r)))
       (clean_rows u cd (approvals db))\<rparr>)"
proof -
  let ?rows = "clean_rows u cd (approvals db)"
  let ?todo = "sort_key ar_id (filter (\<lambda>r. ar_status r = Pending) ?rows)"
  let ?out = "List.map_filter (parse_pending_approval cd) ?todo"
  let ?bad = "map ar_id (filter (\<lambda>r. parse_pending_approval cd r = None) ?todo)"
  have ok: "rows_ok (next_approval db) ?rows" and ak: "\<forall>r \<in> set ?rows. active r \<and> row_keyed u cd r"
    using clean_rows_ok [OF assms(1,2)] by blast+
  have dist: "distinct (map ar_id ?rows)" using ok by (simp add: rows_ok_def ids_ok_def)
  have "inj_on ar_id (set ?rows)" "distinct ?rows" using dist by (simp_all add: distinct_map)
  then have dt: "distinct (map ar_id ?todo)" by (auto simp: distinct_map inj_on_def distinct_sort)
  have "distinct (map (\<lambda>p. dedup_key u (pa_action p)) ?out)"
    by (rule parsed_keys_distinct [OF dt keys_unique_mono [of ?rows]]) (use ok ak in \<open>auto simp: rows_ok_def\<close>)
  then have sweep: "sweep_duplicates u [] (rev ?out) = (rev ?out, [])"
    by (intro sweep_distinct) (simp_all add: rev_map [symmetric])
  have bad: "ar_id r \<in> set ?bad \<longleftrightarrow> ar_status r = Pending \<and> parse_pending_approval cd r = None"
    if "r \<in> set ?rows" for r
    using that \<open>inj_on ar_id (set ?rows)\<close> by (auto dest: inj_onD)
  have "filter (\<lambda>r. \<not> (ar_id r \<in> set ?bad \<and> ok (ar_id r))) ?rows =
      filter (\<lambda>r. \<not> (ar_status r = Pending \<and> parse_pending_approval cd r = None \<and> ok (ar_id r))) ?rows"
    by (rule filter_cong [OF refl]) (use bad in blast)
  then show ?thesis
    using assms(3) sweep
    by (simp add: load_pending_approvals_def Let_def clean_rows_def [symmetric])
qed

lemma queue_ok_load:
  assumes "queue_ok db" and "load_pending_approvals u cd stages ok db = (res, db')"
  shows "queue_ok db'"
proof -
  have ok: "rows_ok (next_approval db) (approvals db)" using assms(1) by (simp add: queue_ok_def)
  then have i: "0 < next_approval db" "ids_ok (next_approval db) (approvals db)" by (simp_all add: rows_ok_def)
  have r1: "rows_ok (next_approval db) (filter (\<lambda>r. ar_status r \<noteq> Rejected) (approvals db))"
    by (rule rows_ok_filter [OF ok])
  have r2: "rows_ok (next_approval db)
      (sanitize_active_approval_rows (filter (\<lambda>r. ar_status r \<noteq> Rejected) (approvals db)))"
    using sanitize_filter r1 rows_ok_filter by metis
  have r3: "rows_ok (next_approval db) (clean_rows u cd (approvals db))" by (rule clean_rows_ok [OF i])
  consider "stages = 0" | "stages = 1" | "stages = 2" | "stages = 3" | "3 < stages" by linarith
  then show ?thesis
  proof cases
    case 5
    with load_result [OF i 5] assms(2) r3 show ?thesis
      by (auto simp: queue_ok_def rows_ok_filter)
  qed (use assms(2) ok r1 r2 r3 in \<open>auto simp: load_pending_approvals_def Let_def queue_ok_def clean_rows_def\<close>)
qed

section \<open>Properties\<close>


definition empty_store :: store where
  "empty_store = \<lparr>approvals = [], next_approval = 1, executions = [], next_execution = 1, decisions = [],
     next_decision = 1, undos = [], next_undo = 1\<rparr>"

lemma empty_store_ok: "queue_ok empty_store"
  by (simp add: queue_ok_def empty_store_def rows_ok_def ids_ok_def keys_unique_def)


definition outranks :: "approval_row \<Rightarrow> approval_row \<Rightarrow> bool" where
  "outranks s r =
     ((ar_status s = Approved \<or> ar_status r = Pending) \<and> (ar_status s = ar_status r \<longrightarrow> ar_id r \<le> ar_id s))"

lemma sorted_wrt_desc: "sorted_wrt (\<lambda>s r. ar_id r \<le> ar_id s) (sort_key (\<lambda>r. - ar_id r) rows)"
  using sorted_sort_key [of "\<lambda>r. - ar_id r" rows] by (simp add: sorted_map)

lemma by_precedence_outranks: "sorted_wrt outranks (by_precedence rows)"
proof -
  have "sorted_wrt outranks (sort_key (\<lambda>r. - ar_id r) (filter (\<lambda>r. ar_status r = st) rows))"
    if "st \<noteq> Rejected" for st
    by (rule sorted_wrt_mono_rel [OF _ sorted_wrt_desc]) (use that in \<open>auto simp: outranks_def; cases st; simp\<close>)
  then show ?thesis by (auto simp: by_precedence_def sorted_wrt_append outranks_def)
qed

text \<open>A readable row that loading drops as a duplicate gives way to one that outranks it.\<close>

lemma dropped_outranked:
  fixes u :: "string \<Rightarrow> string" and cd :: codec
  defines "rows' \<equiv> \<lambda>rows. normalize_active_approval_keys u cd rows"
  assumes "ids_ok n rows" and "r \<in> set rows" and "active r" and a: "dec_action cd (ar_action_json r) = Some a"
    and gone: "ar_id r \<notin> ar_id ` set (rows' rows)"
  shows "\<exists>s \<in> set rows. outranks s r \<and>
     (\<exists>t \<in> set (rows' rows). ar_id t = ar_id s \<and> ar_key t = Some (dedup_key u a))"
proof -
  obtain keep remove where sd: "split_duplicates u cd [] (by_precedence rows) = (keep, remove)" by fastforce
  note n = normalize_rekey [OF sd]
  have dist: "distinct (map ar_id rows)" using assms(2) by (simp add: ids_ok_def)
  note disj = split_duplicates_disjoint [OF sd distinct_by_precedence [OF dist]]
  obtain xs ys where xy: "by_precedence rows = xs @ r # ys"
    using assms(3,4) split_list [of r "by_precedence rows"] by (auto simp: set_by_precedence)
  have rem: "ar_id r \<in> set remove"
    using gone assms(3) by (auto simp: rows'_def n image_iff)
  then have "\<forall>k. (ar_id r, k) \<notin> set keep" using disj by blast
  from split_duplicates_newest [OF sd [unfolded xy] a this]
  obtain s where s: "s \<in> set xs" "(ar_id s, dedup_key u a) \<in> set keep" by auto
  have "s \<in> set (by_precedence rows)" using s(1) xy by simp
  then have srow: "s \<in> set rows" "active s" by (simp_all add: set_by_precedence)
  have "outranks s r" using by_precedence_outranks [of rows] s(1) xy by (simp add: sorted_wrt_append)
  moreover have "ar_id s \<notin> set remove" using s(2) disj by blast
  then have "rekey keep s \<in> set (rows' rows)" using srow by (simp add: rows'_def n)
  moreover have "ar_key (rekey keep s) = Some (dedup_key u a)"
    using s(2) disj by (simp add: rekey_def Let_def map_of_is_SomeI)
  ultimately show ?thesis using srow by (metis rekey_simps(1))
qed

text \<open>
  loading recovers any stored queue, legacy rows without keys, duplicates, oversized,
  unreadable and rejected rows included: afterwards every active row carries its action's
  key, no two share one, at most 256 remain, and the approvals returned are exactly the
  pending rows that read, oldest first. Of two readable rows of one issue the one that
  outranks the other stays: an approved row before a pending one, otherwise the newer.
\<close>

theorem load_queue_correct:
  assumes "0 < next_approval db" and "ids_ok (next_approval db) (approvals db)" and "3 < stages"
    and "load_pending_approvals u cd stages ok db = (res, db')"
    and "rows = sanitize_active_approval_rows (filter (\<lambda>r. ar_status r \<noteq> Rejected) (approvals db))"
    and "clean = normalize_active_approval_keys u cd rows"
  shows "queue_ok db' \<and> (\<forall>r \<in> set (approvals db'). active r \<and> row_keyed u cd r) \<and>
    res = Some (List.map_filter (parse_pending_approval cd)
      (sort_key ar_id (filter (\<lambda>r. ar_status r = Pending) clean))) \<and>
    (\<forall>r \<in> set rows. \<forall>a. active r \<and> dec_action cd (ar_action_json r) = Some a \<and> ar_id r \<notin> ar_id ` set clean \<longrightarrow>
      (\<exists>s \<in> set rows. outranks s r \<and> (\<exists>t \<in> set clean. ar_id t = ar_id s \<and> ar_key t = Some (dedup_key u a))))"
proof (intro conjI ballI allI impI)
  have c: "clean = clean_rows u cd (approvals db)" by (simp add: assms clean_rows_def)
  note L = load_result [OF assms(1-3), of u cd ok] clean_rows_ok [OF assms(1,2), of u cd]
  show "queue_ok db'" using L assms(4) by (auto simp: queue_ok_def rows_ok_filter)
  show "active r" "row_keyed u cd r" if "r \<in> set (approvals db')" for r using that L assms(4) by auto
  show "res = Some (List.map_filter (parse_pending_approval cd)
      (sort_key ar_id (filter (\<lambda>r. ar_status r = Pending) clean)))" using L assms(4) c by simp
  fix r a assume "r \<in> set rows"
    and "active r \<and> dec_action cd (ar_action_json r) = Some a \<and> ar_id r \<notin> ar_id ` set clean"
  then show "\<exists>s \<in> set rows. outranks s r \<and> (\<exists>t \<in> set clean. ar_id t = ar_id s \<and> ar_key t = Some (dedup_key u a))"
    using dropped_outranked [of "next_approval db" rows r cd a u] sanitize_ids [OF ids_ok_filter [OF assms(2)]]
    by (simp add: assms)
qed

definition sample_codec :: codec where
  "sample_codec = \<lparr>enc_action = \<lambda>a. ''x'', dec_action = \<lambda>s. Some SfcScan, enc_info = \<lambda>i. [], dec_info = \<lambda>s. None,
      enc_state = \<lambda>s. [], dec_state = \<lambda>s. None\<rparr>"

lemma load_queue_correct_witness:
  "queue_ok (snd (load_pending_approvals id sample_codec 4 (\<lambda>i. True) empty_store))"
proof -
  have "0 < next_approval empty_store" "ids_ok (next_approval empty_store) (approvals empty_store)" "3 < (4::nat)"
    using empty_store_ok by (simp_all add: queue_ok_def rows_ok_def)
  from load_queue_correct [OF this prod.collapse [symmetric] refl refl]
  show ?thesis by blast
qed


definition sample_result :: execution_result where
  "sample_result = \<lparr>res_action = ''SfcScan'', res_success = True, res_output = [], res_undo = None\<rparr>"


section \<open>Claims\<close>

text \<open>The two claims of the store, an approval's and an undo's, keep the contract of a durable claim.\<close>

definition claim_approved :: "codec \<Rightarrow> instant \<Rightarrow> int \<Rightarrow> store \<Rightarrow> store option" where
  "claim_approved cd now i db =
     (case claim_pending_approval cd i True now db of (Inr (Some pa), db') \<Rightarrow> Some db' | _ \<Rightarrow> None)"

definition approval_free :: "store \<Rightarrow> int \<Rightarrow> bool" where
  "approval_free db i = (\<exists>r \<in> set (approvals db). ar_id r = i \<and> ar_status r = Pending)"

definition requeue_approval :: "int \<Rightarrow> store \<Rightarrow> store" where
  "requeue_approval i db = db\<lparr>approvals := complete_row i True (approvals db)\<rparr>"

definition claim_undo :: "int \<Rightarrow> store \<Rightarrow> store option" where
  "claim_undo i db = (case claim_registry_undo i db of (Some un, db') \<Rightarrow> Some db' | _ \<Rightarrow> None)"

definition undo_free :: "store \<Rightarrow> int \<Rightarrow> bool" where
  "undo_free db i = (\<exists>r \<in> set (undos db). ud_id r = i \<and> \<not> ud_undone r)"

lemma claim_approved_Some:
  "claim_approved cd now i db = Some db' \<Longrightarrow> approval_free db i \<and>
     db' = db\<lparr>approvals := map (set_status i Pending Approved (Some now)) (approvals db)\<rparr>"
  by (auto simp: claim_approved_def claim_pending_approval_def approval_free_def filter_eq_Cons_iff
      split: prod.splits sum.splits option.splits list.splits)

interpretation approval: claim_once approval_free "claim_approved cd now" requeue_approval for cd now
proof unfold_locales
  fix i s t j
  assume "claim_approved cd now i s = Some t"
  note c = claim_approved_Some [OF this]
  show "approval_free s i" using c by blast
  show "\<not> approval_free t i" using c by (auto simp: approval_free_def set_status_def)
  show "approval_free t j \<Longrightarrow> approval_free s j"
    using c by (auto simp: approval_free_def set_status_def split: if_splits)
next
  fix i j s
  show "j \<noteq> i \<Longrightarrow> approval_free (requeue_approval i s) j \<Longrightarrow> approval_free s j"
    by (auto simp: approval_free_def requeue_approval_def complete_row_def set_status_def split: if_splits)
qed

lemma claim_undo_Some:
  "claim_undo i db = Some db' \<Longrightarrow> undo_free db i \<and>
     db' = db\<lparr>undos := map (\<lambda>r. if ud_id r = i \<and> \<not> ud_undone r then r\<lparr>ud_undone := True\<rparr> else r) (undos db)\<rparr>"
  by (auto simp: claim_undo_def claim_registry_undo_def undo_free_def filter_eq_Cons_iff
      split: prod.splits option.splits list.splits)

interpretation undo: claim_once undo_free claim_undo unclaim_registry_undo
proof unfold_locales
  fix i s t j
  assume "claim_undo i s = Some t"
  note c = claim_undo_Some [OF this]
  show "undo_free s i" using c by blast
  show "\<not> undo_free t i" using c by (auto simp: undo_free_def)
  show "undo_free t j \<Longrightarrow> undo_free s j" using c by (auto simp: undo_free_def split: if_splits)
next
  fix i j s
  show "j \<noteq> i \<Longrightarrow> undo_free (unclaim_registry_undo i s) j \<Longrightarrow> undo_free s j"
    by (auto simp: undo_free_def unclaim_registry_undo_def split: if_splits)
qed

text \<open>
  however approvals are claimed and returned to the queue, and however a registry undo is
  claimed and released, each item is won at most once per release and once more only if it
  was free at the start: no double click and no second connection runs an approval twice.
\<close>

theorem claims_at_most_once:
  "length (filter (\<lambda>j. j = i) (approval.wins cd now db es)) \<le>
     length (filter (\<lambda>e. e = Release i) es) + (if approval_free db i then 1 else 0) \<and>
   length (filter (\<lambda>j. j = i) (undo.wins db es)) \<le>
     length (filter (\<lambda>e. e = Release i) es) + (if undo_free db i then 1 else 0)"
  using approval.wins_bound [of i cd now db es] undo.wins_bound [of i db es] by blast

end
