(* ===== verification/Prefs.thy ===== *)
theory Prefs
  imports Safety Tables
begin

text \<open>
  Standing preferences of the user for an issue key (\<open>prefs.rs\<close>): \<open>ignore\<close> and
  \<open>always_approve\<close>, in a table with the key as its primary key and at most 256 rows.
  Database failures are the caller's business: each operation here is one whose statements
  succeed; a failing one leaves the table as it was.
\<close>

section \<open>The table and its operations\<close>

datatype preference = Ignore | AlwaysApprove

definition as_token :: "preference \<Rightarrow> string" where
  "as_token p = (case p of Ignore \<Rightarrow> ''ignore'' | AlwaysApprove \<Rightarrow> ''always_approve'')"

definition from_token :: "string \<Rightarrow> preference option" where
  "from_token s = (if s = ''ignore'' then Some Ignore else if s = ''always_approve'' then Some AlwaysApprove else None)"

record pref_row =
  pr_preference :: string
  pr_summary :: string
  pr_target :: string
  pr_created :: instant

type_synonym pref_table = "(string \<times> pref_row) list"

datatype pref_error = KeyEmpty | PreferenceLimit

definition MAX_ACTION_PREFERENCES :: nat where "MAX_ACTION_PREFERENCES = 256"
definition MAX_SUMMARY_CHARS :: nat where "MAX_SUMMARY_CHARS = 500"
definition MAX_TARGET_CHARS :: nat where "MAX_TARGET_CHARS = 500"
definition MAX_KEY_CHARS :: nat where "MAX_KEY_CHARS = 500"

definition sanitize_text :: "string \<Rightarrow> nat \<Rightarrow> string" where
  "sanitize_text raw m = trim (take_chars m (filter (\<lambda>c. c \<noteq> CHR 0x00 \<and> c \<noteq> CHR 0x0D) raw))"

definition validate_key :: "string \<Rightarrow> pref_error + string" where
  "validate_key k = (let key = sanitize_text k MAX_KEY_CHARS in if key = [] then Inl KeyEmpty else Inr key)"

definition set_preference ::
  "string \<Rightarrow> preference \<Rightarrow> string \<Rightarrow> string \<Rightarrow> instant \<Rightarrow> pref_table \<Rightarrow> pref_error + pref_table" where
  "set_preference action_key p summary target now t =
     (case validate_key action_key of
        Inl e \<Rightarrow> Inl e
      | Inr key \<Rightarrow>
          (let summary = sanitize_text summary MAX_SUMMARY_CHARS;
               target = sanitize_text target MAX_TARGET_CHARS;
               summary = (if summary = [] then key else summary)
           in if tbl_get t key = None \<and> length t \<ge> MAX_ACTION_PREFERENCES then Inl PreferenceLimit
              else Inr (tbl_put key \<lparr>pr_preference = as_token p, pr_summary = summary, pr_target = target,
                                    pr_created = now\<rparr> t)))"

definition clear_preference :: "string \<Rightarrow> pref_table \<Rightarrow> pref_error + (bool \<times> pref_table)" where
  "clear_preference action_key t =
     (case validate_key action_key of
        Inl e \<Rightarrow> Inl e
      | Inr key \<Rightarrow> Inr (tbl_get t key \<noteq> None, tbl_del key t))"

definition clear_always_approve :: "string \<Rightarrow> pref_table \<Rightarrow> pref_error + (bool \<times> pref_table)" where
  "clear_always_approve action_key t =
     (case validate_key action_key of
        Inl e \<Rightarrow> Inl e
      | Inr key \<Rightarrow>
          (let gone = (\<lambda>(k, r). k = key \<and> pr_preference r = as_token AlwaysApprove)
           in Inr (list_ex gone t, filter (\<lambda>r. \<not> gone r) t)))"

definition get_preference :: "string \<Rightarrow> pref_table \<Rightarrow> pref_error + preference option" where
  "get_preference action_key t =
     (case validate_key action_key of
        Inl e \<Rightarrow> Inl e
      | Inr key \<Rightarrow> Inr (case tbl_get t key of None \<Rightarrow> None | Some r \<Rightarrow> from_token (pr_preference r)))"

text \<open>Newest first; the rows of an unknown preference are skipped.\<close>

definition list_preferences :: "pref_table \<Rightarrow> (string \<times> pref_row) list" where
  "list_preferences t =
     filter (\<lambda>(k, r). from_token (pr_preference r) \<noteq> None)
       (take MAX_ACTION_PREFERENCES (sort_key (\<lambda>(k, r). - pr_created r) t))"

section \<open>Lemmas\<close>

definition prefs_ok :: "pref_table \<Rightarrow> bool" where
  "prefs_ok t = (tbl_wf t \<and> length t \<le> MAX_ACTION_PREFERENCES \<and>
     list_all (\<lambda>(k, r). from_token (pr_preference r) \<noteq> None) t)"

lemma from_as_token [simp]: "from_token (as_token p) = Some p"
  by (cases p) (simp_all add: from_token_def as_token_def)

lemma as_token_inject: "as_token p = as_token q \<longleftrightarrow> p = q"
  by (cases p; cases q) (simp_all add: as_token_def)

lemma list_all_tbl_put: "list_all P t \<Longrightarrow> P (k, v) \<Longrightarrow> list_all P (tbl_put k v t)"
  by (induction k v t rule: tbl_put.induct) auto

lemma prefs_ok_set:
  assumes "prefs_ok t" and "set_preference k p s g now t = Inr t'"
  shows "prefs_ok t'"
proof -
  from assms(2) obtain key row where key: "t' = tbl_put key row t" "pr_preference row = as_token p"
    "\<not> (tbl_get t key = None \<and> length t \<ge> MAX_ACTION_PREFERENCES)"
    by (auto simp: set_preference_def Let_def split: sum.splits if_splits)
  with assms(1) show ?thesis
    by (auto simp: prefs_ok_def tbl_wf_put list_all_tbl_put length_tbl_put tbl_get_def)
qed

lemma prefs_ok_filter: "prefs_ok t \<Longrightarrow> prefs_ok (filter P t)"
  using length_filter_le [of P t]
  by (auto simp: prefs_ok_def tbl_wf_def distinct_map_filter list_all_iff simp del: length_filter_le)

lemma prefs_ok_clear: "prefs_ok t \<Longrightarrow> clear_preference k t = Inr (b, t') \<Longrightarrow> prefs_ok t'"
  by (auto simp: clear_preference_def tbl_del_def prefs_ok_filter split: sum.splits)

lemma prefs_ok_clear_always: "prefs_ok t \<Longrightarrow> clear_always_approve k t = Inr (b, t') \<Longrightarrow> prefs_ok t'"
  by (auto simp: clear_always_approve_def prefs_ok_filter Let_def split: sum.splits)

lemma get_after_set:
  assumes "prefs_ok t" and "set_preference k p s g now t = Inr t'"
  shows "get_preference j t' =
     (if validate_key j = validate_key k then Inr (Some p) else get_preference j t)"
proof -
  from assms(2) obtain key row where key: "validate_key k = Inr key" "t' = tbl_put key row t"
    "pr_preference row = as_token p"
    by (auto simp: set_preference_def Let_def split: sum.splits if_splits)
  have wf: "tbl_wf t" using assms(1) by (simp add: prefs_ok_def)
  show ?thesis
    using key table.lookup_upsert [OF wf] by (auto simp: get_preference_def split: sum.splits)
qed

lemma get_after_clear:
  assumes "prefs_ok t" and "clear_preference k t = Inr (b, t')"
  shows "get_preference j t' =
     (if validate_key j = validate_key k then Inr None else get_preference j t)"
proof -
  from assms(2) obtain key where key: "validate_key k = Inr key" "t' = tbl_del key t"
    by (auto simp: clear_preference_def split: sum.splits)
  have wf: "tbl_wf t" using assms(1) by (simp add: prefs_ok_def)
  show ?thesis
    using key table.lookup_remove [OF wf] by (auto simp: get_preference_def split: sum.splits)
qed

section \<open>Properties\<close>

text \<open>
  the preference table never exceeds 256 rows, keeps one row per key and only known
  preferences; setting one makes exactly the keys with the same stored form answer with it,
  replacing an existing one always succeeds, and a refused insertion happens only for an
  empty key or for a new key when the table is full.
\<close>

theorem preference_table_correct:
  assumes "prefs_ok t"
  shows "case set_preference k p s g now t of
      Inr t' \<Rightarrow> prefs_ok t' \<and>
        (\<forall>j. get_preference j t' = (if validate_key j = validate_key k then Inr (Some p) else get_preference j t))
    | Inl e \<Rightarrow> (e = KeyEmpty \<and> sanitize_text k 500 = []) \<or>
        (e = PreferenceLimit \<and> length t = 256 \<and> get_preference k t = Inr None)"
proof (cases "set_preference k p s g now t")
  case (Inr t')
  then show ?thesis using prefs_ok_set [OF assms Inr] get_after_set [OF assms Inr] by simp
next
  case (Inl e)
  then show ?thesis using assms
    by (auto simp: set_preference_def validate_key_def get_preference_def Let_def prefs_ok_def
        MAX_ACTION_PREFERENCES_def MAX_KEY_CHARS_def split: if_splits)
qed

lemma preference_table_correct_witness:
  "prefs_ok [] \<and> (case set_preference ''sfc_scan'' Ignore [] [] 7 [] of Inr t \<Rightarrow> prefs_ok t | Inl e \<Rightarrow> True)"
  using preference_table_correct [of "[]" "''sfc_scan''" Ignore "[]" "[]" 7]
  by (simp add: prefs_ok_def tbl_wf_def split: sum.splits)

text \<open>The key of a network diagnostic whose command starts with 481 letters fills the 500 characters.\<close>

definition long_command :: string where
  "long_command = replicate 481 (CHR ''x'')"

lemma long_key:
  assumes "is_ascii r"
  shows "validate_key (dedup_key u (NetworkDiagnostic (long_command @ r))) = Inr (''network_diagnostic|'' @ long_command)"
proof -
  let ?k = "''network_diagnostic|'' @ long_command"
  let ?f = "filter (\<lambda>c. c \<noteq> CHR 0x00 \<and> c \<noteq> CHR 0x0D)"
  have key: "dedup_key u (NetworkDiagnostic (long_command @ r)) = ?k @ to_ascii_lowercase r"
    by (simp add: dedup_key_def keyed_def long_command_def to_ascii_lowercase_def ascii_lower_def
        is_ascii_upper_def byte_def)
  have f: "?f (?k @ to_ascii_lowercase r) = ?k @ ?f (to_ascii_lowercase r)"
    by (simp add: long_command_def)
  have "list_all (\<lambda>c. \<not> is_cont c) (?f (to_ascii_lowercase r))"
    using assms is_ascii_to_ascii_lowercase [of r]
    by (auto simp: list_all_iff is_ascii_def is_cont_def simp del: is_ascii_to_ascii_lowercase)
  then have nc: "?f (to_ascii_lowercase r) = [] \<or> \<not> is_cont (hd (?f (to_ascii_lowercase r)))"
    by (cases "?f (to_ascii_lowercase r)") auto
  have "char_count ?k = 500"
    by (simp add: char_count_def long_command_def is_cont_def byte_def)
  then have "take_chars 500 (?k @ ?f (to_ascii_lowercase r)) = ?k"
    using nc by (rule take_chars_append)
  moreover have "trim ?k = ?k"
  proof -
    have "ws_len ?k = 0" by (simp add: ws_len_ascii ws1_def ws2_def ws3_def byte_def)
    moreover have "hd (rev ?k) = CHR ''x''" by (simp add: hd_rev long_command_def last_append)
    then have "ws_len_rev (rev ?k) = 0" by (intro ws_len_rev_hd) (simp_all add: ws1_def byte_def)
    ultimately show ?thesis by (simp add: trim_eq_self)
  qed
  ultimately have "sanitize_text (dedup_key u (NetworkDiagnostic (long_command @ r))) MAX_KEY_CHARS = ?k"
    unfolding sanitize_text_def key f MAX_KEY_CHARS_def by presburger
  moreover have "?k \<noteq> []" by simp
  ultimately show ?thesis unfolding validate_key_def Let_def by presburger
qed

text \<open>
  keys are stored by their first 500 characters, so a standing approval does not pin down
  what runs when the key is longer: one saved for a network diagnostic whose command starts
  with 481 given characters answers for every other command that starts with them.
\<close>

theorem preference_key_collision:
  assumes "prefs_ok t" and "is_ascii r1" and "is_ascii r2"
    and "set_preference (dedup_key u (NetworkDiagnostic (long_command @ r1))) AlwaysApprove s g now t = Inr t'"
  shows "get_preference (dedup_key u (NetworkDiagnostic (long_command @ r2))) t' = Inr (Some AlwaysApprove)"
  using get_after_set [OF assms(1,4)] long_key [OF assms(2), of u] long_key [OF assms(3), of u] by simp

lemma preference_key_collision_witness:
  "\<exists>t. get_preference (dedup_key id (NetworkDiagnostic (long_command @ '' -y''))) t = Inr (Some AlwaysApprove)"
proof -
  have k: "is_ascii '' -x''" "is_ascii '' -y''" by (simp_all add: is_ascii_def byte_def)
  obtain t where "set_preference (dedup_key id (NetworkDiagnostic (long_command @ '' -x''))) AlwaysApprove [] [] 0 [] = Inr t"
    using long_key [OF k(1), of id]
    by (auto simp: set_preference_def tbl_get_def MAX_ACTION_PREFERENCES_def Let_def)
  from preference_key_collision [OF _ k this] show ?thesis
    by (auto simp: prefs_ok_def tbl_wf_def)
qed

end
