(* ===== verification/Updater_Names.thy ===== *)
theory Updater_Names
  imports Paths "HOL-Library.Multiset"
begin

text \<open>
  Stable application identities (\<open>updater/names.rs\<close> and \<open>base_id\<close> of \<open>updater/check.rs\<close>): the
  version, architecture and connector tokens are stripped from a display name so that notes,
  ignores and history keep applying across releases.
\<close>

section \<open>Token classes\<close>

definition is_version_token :: "string \<Rightarrow> bool" where
  "is_version_token token =
     (let t = trim_end_matches '')'' (trim_start_matches ''('' (trim token));
          t = (case t of c # cs \<Rightarrow> if c = CHR ''v'' \<or> c = CHR ''V'' then cs else t | [] \<Rightarrow> t);
          run = takeWhile (\<lambda>c. is_ascii_digit c \<or> c = CHR ''.'') t;
          core = trim_end_matches ''.'' run;
          rest = drop (length core) t
      in if core = [] \<or> \<not> is_ascii_digit (hd core) \<or> CHR ''.'' \<notin> set core then False
         else rest = [] \<or>
           (hd rest \<in> set ''-+.'' \<and> list_all (\<lambda>c. is_ascii_alphanumeric c \<or> c \<in> set ''.-+'') rest))"

definition arch_qualifiers :: "string list" where
  "arch_qualifiers =
     [''x64'', ''x86'', ''amd64'', ''arm64'', ''win64'', ''win32'', ''32-bit'', ''64-bit'', ''32bit'', ''64bit'']"

definition is_arch_qualifier :: "string \<Rightarrow> bool" where
  "is_arch_qualifier token =
     (to_ascii_lowercase (trim_end_matches '')'' (trim_start_matches ''('' (trim token))) \<in> set arch_qualifiers)"

text \<open>Hyphen, en dash, em dash, figure dash, minus sign, bar, colon and middle dot, in UTF-8.\<close>

definition connectors :: "string list" where
  "connectors = [''-'', [CHR 0xE2, CHR 0x80, CHR 0x93], [CHR 0xE2, CHR 0x80, CHR 0x94],
     [CHR 0xE2, CHR 0x80, CHR 0x92], [CHR 0xE2, CHR 0x88, CHR 0x92], ''|'', '':'', [CHR 0xC2, CHR 0xB7]]"

definition is_connector :: "string \<Rightarrow> bool" where
  "is_connector token = (token \<in> set connectors)"

definition counter_keywords :: "string list" where
  "counter_keywords = [''update'', ''build'', ''rev'', ''revision'', ''patch'']"

section \<open>Cleaning a name\<close>

text \<open>The stripping loop, on the words in reverse order.\<close>

fun strip_words :: "bool \<Rightarrow> string list \<Rightarrow> string list" where
  "strip_words removed [] = []"
| "strip_words removed (w # ws) =
     (if is_version_token w then strip_words True ws
      else if is_arch_qualifier w \<or> is_connector w then strip_words removed ws
      else (case ws of
              k # ks \<Rightarrow>
                if w \<noteq> [] \<and> list_all is_ascii_digit w \<and> to_ascii_lowercase k \<in> set counter_keywords
                then strip_words True ks
                else if removed \<and> to_ascii_lowercase w \<in> {''version'', ''ver''} then strip_words removed ws
                else w # ws
            | [] \<Rightarrow>
                if removed \<and> to_ascii_lowercase w \<in> {''version'', ''ver''} then strip_words removed ws
                else w # ws))"

definition clean_app_name :: "string \<Rightarrow> string" where
  "clean_app_name name =
     (let words = rev (dropWhile is_connector (strip_words False (rev (split_whitespace name))))
      in if words = [] then trim name else join '' '' words)"

definition app_id :: "(string \<Rightarrow> string) \<Rightarrow> string \<Rightarrow> string" where
  "app_id u name = to_lowercase u (clean_app_name name)"

definition base_id :: "string \<Rightarrow> string" where
  "base_id i =
     (case strip_suffix ''.install'' i of Some s \<Rightarrow> s | None \<Rightarrow>
      (case strip_suffix ''.portable'' i of Some s \<Rightarrow> s | None \<Rightarrow>
       (case strip_suffix ''.app'' i of Some s \<Rightarrow> s | None \<Rightarrow>
        (case strip_suffix ''.commandline'' i of Some s \<Rightarrow> s | None \<Rightarrow> i))))"

section \<open>Matching names\<close>

definition name_tokens :: "string \<Rightarrow> string list" where
  "name_tokens s =
     map to_ascii_lowercase (filter (\<lambda>t. t \<noteq> []) (split_on (\<lambda>c. \<not> is_ascii_alphanumeric c) s))"

fun windows :: "nat \<Rightarrow> 'a list \<Rightarrow> 'a list list" where
  "windows n [] = (if n = 0 then [[]] else [])"
| "windows n (x # xs) = (if n \<le> length (x # xs) then [take n (x # xs)] else []) @ windows n xs"

definition contiguous_sublist :: "string list \<Rightarrow> string list \<Rightarrow> bool" where
  "contiguous_sublist small big =
     (if small = [] \<or> length small > length big then False
      else list_ex (\<lambda>w. w = small) (windows (length small) big))"

definition tokens_match :: "string \<Rightarrow> string \<Rightarrow> bool" where
  "tokens_match n key =
     (let nt = name_tokens n; kt = name_tokens key in
      kt \<noteq> [] \<and> (contiguous_sublist nt kt \<or> contiguous_sublist kt nt))"

text \<open>The installed apps are a map, given as its entries in the order the map iterates them.\<close>

definition match_installed_entry ::
  "(string \<Rightarrow> string) \<Rightarrow> (string \<times> string) list \<Rightarrow> string \<Rightarrow> (string \<times> string) option" where
  "match_installed_entry u installed name =
     (let n = app_id u name in
      case map_of installed n of
        Some v \<Rightarrow> Some (n, v)
      | None \<Rightarrow>
          if name_tokens n = [] then None
          else (case filter (\<lambda>(key, v). tokens_match n key) installed of
                  [found] \<Rightarrow> Some found
                | _ \<Rightarrow> None))"

section \<open>Lemmas\<close>

text \<open>One turn of the loop: it drops one word, or the two of a counter, or stops for good.\<close>

lemma strip_step:
  obtains (one) r' where "strip_words r (w # ws) = strip_words r' ws"
  | (two) k ks where "ws = k # ks" and "strip_words r (w # ws) = strip_words True ks"
  | (stop) "strip_words r (w # ws) = w # ws" and "strip_words False (w # ws) = w # ws" and "\<not> is_connector w"
proof (cases "is_version_token w \<or> is_arch_qualifier w \<or> is_connector w")
  case True
  then show ?thesis using one [of True] one [of r] by (cases "is_version_token w") auto
next
  case False
  let ?led = "r \<and> to_ascii_lowercase w \<in> {''version'', ''ver''}"
  show ?thesis
  proof (cases "\<exists>k ks. ws = k # ks \<and> w \<noteq> [] \<and> list_all is_ascii_digit w \<and>
      to_ascii_lowercase k \<in> set counter_keywords")
    case True
    then obtain k ks where k: "ws = k # ks" "w \<noteq> []" "list_all is_ascii_digit w"
      "to_ascii_lowercase k \<in> set counter_keywords" by blast
    have "strip_words r (w # ws) = strip_words True ks" unfolding k(1) using False k(2-4) by simp
    with k(1) show ?thesis by (rule two)
  next
    case no: False
    show ?thesis
    proof (cases ?led)
      case True
      have "strip_words r (w # ws) = strip_words r ws"
        by (subst strip_words.simps(2)) (use False no True in \<open>auto simp del: strip_words.simps split: list.split\<close>)
      then show ?thesis by (rule one)
    next
      case stay: False
      have "strip_words r (w # ws) = w # ws"
        by (subst strip_words.simps(2)) (use False no stay in \<open>auto simp del: strip_words.simps split: list.split\<close>)
      moreover have "strip_words False (w # ws) = w # ws"
        by (subst strip_words.simps(2)) (use False no in \<open>auto simp del: strip_words.simps split: list.split\<close>)
      moreover have "\<not> is_connector w" using False by blast
      ultimately show ?thesis by (rule stop)
    qed
  qed
qed

lemma strip_words_suffix: "suffix (strip_words r ws) ws"
proof (induction ws arbitrary: r rule: length_induct)
  case (1 ws)
  show ?case
  proof (cases ws)
    case (Cons w vs)
    show ?thesis
    proof (cases rule: strip_step [of r w vs])
      case (one r')
      with 1 Cons show ?thesis by (auto intro: suffix_ConsI)
    next
      case (two k ks)
      with 1 Cons have "suffix (strip_words True ks) ks" by simp
      with two Cons show ?thesis by (auto intro: suffix_ConsI)
    qed (simp add: Cons)
  qed simp
qed

lemma strip_words_end:
  "strip_words r ws = [] \<or>
   (strip_words False (strip_words r ws) = strip_words r ws \<and> \<not> is_connector (hd (strip_words r ws)))"
proof (induction ws arbitrary: r rule: length_induct)
  case (1 ws)
  show ?case
  proof (cases ws)
    case (Cons w vs)
    show ?thesis
    proof (cases rule: strip_step [of r w vs])
      case (one r')
      with 1 Cons show ?thesis by auto
    next
      case (two k ks)
      with 1 Cons show ?thesis by auto
    qed (simp add: Cons)
  qed simp
qed

lemma strip_words_stable: "strip_words False (strip_words r ws) = strip_words r ws"
  using strip_words_end [of r ws] by auto

text \<open>The loop never stops at a connector, so the trim after it finds nothing.\<close>

lemma dropWhile_strip: "dropWhile is_connector (strip_words r ws) = strip_words r ws"
  using strip_words_end [of r ws] by (cases "strip_words r ws") auto

lemma clean_words:
  "clean_app_name name =
     (let words = rev (strip_words False (rev (split_whitespace name)))
      in if words = [] then trim name else join '' '' words)"
  by (simp add: clean_app_name_def dropWhile_strip)

lemma split_join_strip:
  "split_whitespace (join '' '' (rev (strip_words r (rev (split_whitespace name))))) =
   rev (strip_words r (rev (split_whitespace name)))"
proof (rule split_whitespace_join, rule ballI)
  fix w assume "w \<in> set (rev (strip_words r (rev (split_whitespace name))))"
  then have "w \<in> set (split_whitespace name)"
    using set_mono_suffix [OF strip_words_suffix [of r "rev (split_whitespace name)"]] by auto
  then show "w \<noteq> [] \<and> no_ws w" by (rule split_whitespace_words)
qed

lemma clean_idem: "clean_app_name (clean_app_name name) = clean_app_name name"
proof (cases "strip_words False (rev (split_whitespace name)) = []")
  case True
  then show ?thesis by (simp add: clean_words)
next
  case False
  then show ?thesis
    by (simp add: clean_words split_join_strip strip_words_stable Let_def)
qed

lemma split_whitespace_snoc:
  assumes "\<forall>w \<in> set ws. w \<noteq> [] \<and> no_ws w" and "v \<noteq> []" and "no_ws v"
  shows "split_whitespace (join '' '' (ws @ [v])) = ws @ [v]"
  using assms by (intro split_whitespace_join) auto

text \<open>The only element of a list, if there is just one, does not depend on the order.\<close>

lemma only_mset:
  "mset xs = mset ys \<Longrightarrow> (case xs of [x] \<Rightarrow> Some x | _ \<Rightarrow> None) = (case ys of [x] \<Rightarrow> Some x | _ \<Rightarrow> None)"
proof (cases "length xs = 1")
  case True
  assume m: "mset xs = mset ys"
  obtain x where x: "xs = [x]" using True by (auto simp: length_Suc_conv)
  with m have "ys = [x]" by simp
  with x show ?thesis by simp
next
  case False
  assume m: "mset xs = mset ys"
  then have "length ys \<noteq> 1" using False by (metis size_mset)
  with False show ?thesis by (auto split: list.split)
qed

section \<open>Properties\<close>

text \<open>
  a display name cleans to the same identity however often it is cleaned, and releases of
  one app that differ only in a trailing version token share one identity, so a note or an
  ignore saved for one version keeps applying to the next.
\<close>

theorem app_identity_stable:
  assumes "\<forall>w \<in> set ws. w \<noteq> [] \<and> no_ws w" and "strip_words True (rev ws) \<noteq> []"
    and "is_version_token v1" and "is_version_token v2" and "v1 \<noteq> []" and "no_ws v1" and "v2 \<noteq> []" and "no_ws v2"
  shows "clean_app_name (clean_app_name name) = clean_app_name name \<and>
    app_id u (join '' '' (ws @ [v1])) = app_id u (join '' '' (ws @ [v2]))"
proof
  show "clean_app_name (clean_app_name name) = clean_app_name name" by (rule clean_idem)
  have "clean_app_name (join '' '' (ws @ [v])) = join '' '' (rev (strip_words True (rev ws)))"
    if "is_version_token v" "v \<noteq> []" "no_ws v" for v
    using assms(2) split_whitespace_snoc [OF assms(1) that(2,3)] that(1) by (simp add: clean_words)
  then show "app_id u (join '' '' (ws @ [v1])) = app_id u (join '' '' (ws @ [v2]))"
    using assms by (simp add: app_id_def)
qed

lemma app_identity_stable_witness:
  "app_id id (join '' '' [''Tool'', ''1.2'']) = app_id id (join '' '' [''Tool'', ''1.3''])"
  using app_identity_stable [of "[''Tool'']" "''1.2''" "''1.3''" "[]" id]
  by (simp add: is_version_token_def trim_def trim_end_def trim_start.simps trim_rev.simps ws1_def ws2_def ws3_def
      byte_def trim_start_matches_def trim_end_matches_def is_ascii_digit_def is_arch_qualifier_def
      arch_qualifiers_def is_connector_def connectors_def to_ascii_lowercase_def ascii_lower_def
      is_ascii_upper_def char_of_def bit_0)

text \<open>
  resolving a name an AI returned to an installed app never guesses: the answer is an
  entry of the inventory, either the one under the name's own identity or the only one whose
  tokens match, and it does not depend on the order in which the inventory is iterated.
\<close>

theorem match_installed_unambiguous:
  assumes "distinct (map fst installed)" and "mset installed' = mset installed"
  shows "match_installed_entry u installed name = match_installed_entry u installed' name \<and>
    (\<forall>key v. match_installed_entry u installed name = Some (key, v) \<longrightarrow>
       (key, v) \<in> set installed \<and>
       (key = app_id u name \<or>
        (tokens_match (app_id u name) key \<and>
         (\<forall>(k, w) \<in> set installed. tokens_match (app_id u name) k \<longrightarrow> k = key))))"
proof
  have perm: "set installed' = set installed" using assms(2) by (metis set_mset_mset)
  have d': "distinct (map fst installed')"
    using assms mset_eq_imp_distinct_iff [of "map fst installed'" "map fst installed"] by simp
  have m: "map_of installed' = map_of installed"
    using map_of_inject_set [OF d' assms(1)] perm by simp
  let ?P = "\<lambda>(key, v). tokens_match (app_id u name) key"
  have f: "mset (filter ?P installed') = mset (filter ?P installed)" using assms(2) by (simp add: mset_filter)
  show "match_installed_entry u installed name = match_installed_entry u installed' name"
    unfolding match_installed_entry_def Let_def m only_mset [OF f] ..
next
  show "\<forall>key v. match_installed_entry u installed name = Some (key, v) \<longrightarrow>
       (key, v) \<in> set installed \<and>
       (key = app_id u name \<or>
        (tokens_match (app_id u name) key \<and>
         (\<forall>(k, w) \<in> set installed. tokens_match (app_id u name) k \<longrightarrow> k = key)))"
  proof (intro allI impI)
    fix key v assume r: "match_installed_entry u installed name = Some (key, v)"
    show "(key, v) \<in> set installed \<and>
       (key = app_id u name \<or>
        (tokens_match (app_id u name) key \<and>
         (\<forall>(k, w) \<in> set installed. tokens_match (app_id u name) k \<longrightarrow> k = key)))"
    proof (cases "map_of installed (app_id u name)")
      case (Some w)
      with r show ?thesis by (auto simp: match_installed_entry_def Let_def dest: map_of_SomeD)
    next
      case None
      with r have one: "filter (\<lambda>(key, v). tokens_match (app_id u name) key) installed = [(key, v)]"
        by (auto simp: match_installed_entry_def Let_def split: if_splits list.splits)
      have in_filter: "x \<in> set (filter (\<lambda>(key, v). tokens_match (app_id u name) key) installed) \<longleftrightarrow>
          x \<in> set installed \<and> tokens_match (app_id u name) (fst x)" for x by (cases x) simp
      have "(key, v) \<in> set installed" "tokens_match (app_id u name) key"
        using in_filter [of "(key, v)"] one by simp_all
      moreover have "k = key" if "(k, w) \<in> set installed" "tokens_match (app_id u name) k" for k w
        using in_filter [of "(k, w)"] one that by simp
      ultimately show ?thesis by blast
    qed
  qed
qed

lemma match_installed_unambiguous_witness:
  "match_installed_entry id [(''vlc'', ''3.0''), (''git'', ''2.4'')] ''git'' =
   match_installed_entry id [(''git'', ''2.4''), (''vlc'', ''3.0'')] ''git''"
  by (rule conjunct1 [OF match_installed_unambiguous]) simp_all

end
