(* ===== verification/Learn_Detect.thy ===== *)
theory Learn_Detect
  imports Updater_Names Tables Fix_Action "HOL-Library.Char_ord" "HOL-Library.List_Lexorder"
begin

text \<open>
  The pattern detectors of the self-improvement layer (\<open>learn/detect.rs\<close>): pure folds over
  rows of the audit history. Each keeps one accumulator per subject in a hash map; the
  results are sorted by subject, so the map's iteration order does not show.
\<close>

section \<open>Evidence\<close>

record attempt_row =
  at_app_id :: string
  at_cycle_id :: int
  at_success :: bool
  at_exit_code :: "int option"
  at_category :: "string option"
  at_method :: string
  at_detail :: string

record feedback_row =
  fb_action :: string
  fb_succeeded :: bool
  fb_resolved :: "bool option"

definition TIMED_OUT :: int where "TIMED_OUT = -4"
definition SUBJECT_SEP :: char where "SUBJECT_SEP = CHR 0x1F"
definition WINDOW_DAYS :: nat where "WINDOW_DAYS = 30"
definition QUORUM :: nat where "QUORUM = 3"

definition action_type :: "string \<Rightarrow> string" where
  "action_type label =
     trim (take (case find_index (\<lambda>c. c \<in> set '' {('') label of Some i \<Rightarrow> i | None \<Rightarrow> length label) label)"

section \<open>Updater evidence\<close>

definition is_timeout :: "(string \<Rightarrow> string) \<Rightarrow> attempt_row \<Rightarrow> bool" where
  "is_timeout u r =
     (\<not> at_success r \<and> at_category r = Some ''network_transient'' \<and>
      (at_exit_code r = Some TIMED_OUT \<or> contains_str ''timed out'' (to_lowercase u (at_detail r))))"

text \<open>Per app: the distinct cycles with a timeout, and the number of successes.\<close>

definition self_updater_upd :: "(string \<Rightarrow> string) \<Rightarrow> attempt_row \<Rightarrow> int list \<times> nat \<Rightarrow> int list \<times> nat" where
  "self_updater_upd u r a =
     (if at_success r then (fst a, snd a + 1)
      else if is_timeout u r then (List.insert (at_cycle_id r) (fst a), snd a)
      else a)"

definition detect_self_updaters ::
  "(string \<Rightarrow> string) \<Rightarrow> attempt_row list \<Rightarrow> nat \<Rightarrow> (string \<times> nat) list" where
  "detect_self_updaters u rows quorum =
     (let by_app = aggregate (\<lambda>r. Some (base_id (at_app_id r))) ([], 0) (self_updater_upd u) rows
      in sort_key fst
           (map (\<lambda>(subject, cycles, succ). (subject, length cycles))
             (filter (\<lambda>(subject, cycles, succ). succ = 0 \<and> length cycles \<ge> quorum) by_app)))"

definition METHOD_FAULT_CATEGORIES :: "string list" where
  "METHOD_FAULT_CATEGORIES =
     [''installer_failed'', ''verify_failed'', ''not_found'', ''needs_force'', ''permission_denied'']"

definition is_method_fault :: "attempt_row \<Rightarrow> bool" where
  "is_method_fault r =
     (\<not> at_success r \<and> (case at_category r of Some c \<Rightarrow> c \<in> set METHOD_FAULT_CATEGORIES | None \<Rightarrow> False))"

definition method_subject :: "string \<times> string \<Rightarrow> string" where
  "method_subject am = fst am @ SUBJECT_SEP # snd am"

definition method_relevant :: "attempt_row \<Rightarrow> bool" where
  "method_relevant r = (at_success r \<or> is_method_fault r)"

definition detect_method_failing :: "attempt_row list \<Rightarrow> nat \<Rightarrow> ((string \<times> string) \<times> nat) list" where
  "detect_method_failing rows quorum =
     (let by_app_method =
            aggregate (\<lambda>r. if method_relevant r then Some (base_id (at_app_id r), at_method r) else None) (0, 0 :: nat)
              (\<lambda>r a. if at_success r then (fst a, snd a + 1) else (fst a + 1, snd a)) rows;
          app_success =
            aggregate (\<lambda>r. if method_relevant r then Some (base_id (at_app_id r)) else None) False
              (\<lambda>r b. b \<or> at_success r) rows
      in sort_key (\<lambda>(am, n). method_subject am)
           (map (\<lambda>(am, failures, succ). (am, failures))
             (filter (\<lambda>((app, m), failures, succ). succ = 0 \<and> failures \<ge> quorum \<and>
                 (case tbl_get app_success app of Some b \<Rightarrow> b | None \<Rightarrow> False)) by_app_method)))"

section \<open>Decision-loop evidence\<close>

definition SERVICE_FIX_TYPES :: "string list" where
  "SERVICE_FIX_TYPES = [''ServiceRestart'', ''ServiceStart'']"

definition fix_subject :: "feedback_row \<Rightarrow> string option" where
  "fix_subject r =
     (if \<not> fb_succeeded r then None
      else if action_type (fb_action r) \<notin> set SERVICE_FIX_TYPES then None
      else if fb_resolved r = None then None
      else Some (action_type (fb_action r)))"

definition detect_fix_ineffective :: "feedback_row list \<Rightarrow> nat \<Rightarrow> (string \<times> nat) list" where
  "detect_fix_ineffective rows quorum =
     (let by_type = aggregate fix_subject (0, 0 :: nat)
            (\<lambda>r a. if fb_resolved r = Some True then (fst a, snd a + 1) else (fst a + 1, snd a)) rows
      in sort_key fst
           (map (\<lambda>(subject, ineffective, effective). (subject, ineffective))
             (filter (\<lambda>(subject, ineffective, effective). effective = 0 \<and> ineffective \<ge> quorum) by_type)))"

definition detect_rejected :: "string list \<Rightarrow> nat \<Rightarrow> (string \<times> nat) list" where
  "detect_rejected labels quorum =
     (let by_label = aggregate Some 0 (\<lambda>r n. n + 1) labels
      in sort_key fst (filter (\<lambda>(subject, n). n \<ge> quorum) by_label))"

section \<open>What the detectors find\<close>

lemma self_updater_fold:
  "fold (self_updater_upd u) rows (xs, n) =
     (fold (\<lambda>r xs. if \<not> at_success r \<and> is_timeout u r then List.insert (at_cycle_id r) xs else xs) rows xs,
      n + length (filter at_success rows))"
  by (induction rows arbitrary: xs n) (auto simp: self_updater_upd_def)

lemma detect_self_updaters_iff:
  "(s, n) \<in> set (detect_self_updaters u rows q) \<longleftrightarrow>
     (\<exists>r \<in> set rows. base_id (at_app_id r) = s) \<and>
     (\<forall>r \<in> set rows. base_id (at_app_id r) = s \<longrightarrow> \<not> at_success r) \<and>
     n = card (at_cycle_id ` {r \<in> set rows. base_id (at_app_id r) = s \<and> is_timeout u r}) \<and> q \<le> n"
proof -
  let ?mine = "filter (\<lambda>r. base_id (at_app_id r) = s) rows"
  let ?cycles = "fold (\<lambda>r xs. if \<not> at_success r \<and> is_timeout u r then List.insert (at_cycle_id r) xs else xs) ?mine []"
  have "length ?cycles = card (set ?cycles)"
    by (rule distinct_card [symmetric], rule fold_collect_distinct) simp
  also have "set ?cycles = at_cycle_id ` {r \<in> set rows. base_id (at_app_id r) = s \<and> is_timeout u r}"
    by (auto simp: fold_collect is_timeout_def)
  finally have len: "length ?cycles = card (at_cycle_id ` {r \<in> set rows. base_id (at_app_id r) = s \<and> is_timeout u r})" .
  have "(s, n) \<in> set (detect_self_updaters u rows q) \<longleftrightarrow>
     (\<exists>cycles succ. (s, cycles, succ) \<in> set (aggregate (\<lambda>r. Some (base_id (at_app_id r))) ([], 0) (self_updater_upd u) rows)
        \<and> succ = 0 \<and> length cycles \<ge> q \<and> n = length cycles)"
    by (force simp: detect_self_updaters_def Let_def)
  also have "\<dots> \<longleftrightarrow> (\<exists>r \<in> set rows. base_id (at_app_id r) = s) \<and>
      length (filter at_success ?mine) = 0 \<and> n = length ?cycles \<and> q \<le> n"
    by (auto simp: aggregate_mem self_updater_fold)
  also have "length (filter at_success ?mine) = 0 \<longleftrightarrow>
      (\<forall>r \<in> set rows. base_id (at_app_id r) = s \<longrightarrow> \<not> at_success r)"
    by (auto simp: filter_empty_conv)
  finally show ?thesis using len by simp
qed

lemma split_count_fold:
  "fold (\<lambda>r a. if P r then (fst a, snd a + 1) else (fst a + 1, snd a)) rows (m, n) =
     (m + length (filter (\<lambda>r. \<not> P r) rows), n + length (filter P rows) :: nat)"
  by (induction rows arbitrary: m n) auto

lemma mem_counts:
  "(k, n) \<in> set (sort_key g (map (\<lambda>(k, a, b). (k, a)) (filter P xs))) \<longleftrightarrow> (\<exists>b. (k, n, b) \<in> set xs \<and> P (k, n, b))"
  by force

lemma detect_method_failing_iff:
  "((app, m), n) \<in> set (detect_method_failing rows q) \<longleftrightarrow>
     (\<exists>r \<in> set rows. method_relevant r \<and> base_id (at_app_id r) = app \<and> at_method r = m) \<and>
     (\<forall>r \<in> set rows. base_id (at_app_id r) = app \<and> at_method r = m \<longrightarrow> \<not> at_success r) \<and>
     n = length (filter (\<lambda>r. is_method_fault r \<and> base_id (at_app_id r) = app \<and> at_method r = m) rows) \<and> q \<le> n \<and>
     (\<exists>r \<in> set rows. base_id (at_app_id r) = app \<and> at_success r)"
proof -
  let ?key = "\<lambda>r. if method_relevant r then Some (base_id (at_app_id r), at_method r) else None"
  let ?mine = "filter (\<lambda>r. ?key r = Some (app, m)) rows"
  let ?app = "aggregate (\<lambda>r. if method_relevant r then Some (base_id (at_app_id r)) else None) False
              (\<lambda>r b. b \<or> at_success r) rows"
  have ok: "(case tbl_get ?app app of Some b \<Rightarrow> b | None \<Rightarrow> False) \<longleftrightarrow>
      (\<exists>r \<in> set rows. base_id (at_app_id r) = app \<and> at_success r)"
    by (auto simp: aggregate_get fold_disj method_relevant_def)
  have fails: "filter (\<lambda>r. \<not> at_success r) ?mine =
      filter (\<lambda>r. is_method_fault r \<and> base_id (at_app_id r) = app \<and> at_method r = m) rows"
    by (auto simp: method_relevant_def is_method_fault_def intro!: filter_cong)
  have succs: "length (filter at_success ?mine) = 0 \<longleftrightarrow>
      (\<forall>r \<in> set rows. base_id (at_app_id r) = app \<and> at_method r = m \<longrightarrow> \<not> at_success r)"
    by (auto simp: filter_empty_conv method_relevant_def)
  have "((app, m), n) \<in> set (detect_method_failing rows q) \<longleftrightarrow>
     (\<exists>f s. ((app, m), f, s) \<in> set (aggregate ?key (0, 0 :: nat)
              (\<lambda>r a. if at_success r then (fst a, snd a + 1) else (fst a + 1, snd a)) rows)
        \<and> s = 0 \<and> q \<le> f \<and> (case tbl_get ?app app of Some b \<Rightarrow> b | None \<Rightarrow> False) \<and> n = f)"
    unfolding detect_method_failing_def Let_def mem_counts by auto
  also have "\<dots> \<longleftrightarrow> (\<exists>r \<in> set rows. ?key r = Some (app, m)) \<and> length (filter at_success ?mine) = 0 \<and>
      n = length (filter (\<lambda>r. \<not> at_success r) ?mine) \<and> q \<le> n \<and>
      (\<exists>r \<in> set rows. base_id (at_app_id r) = app \<and> at_success r)"
    unfolding aggregate_mem split_count_fold ok by auto
  finally show ?thesis unfolding fails succs by auto
qed

lemma detect_fix_ineffective_iff:
  "(s, n) \<in> set (detect_fix_ineffective rows q) \<longleftrightarrow>
     (\<exists>r \<in> set rows. fix_subject r = Some s) \<and>
     (\<forall>r \<in> set rows. fix_subject r = Some s \<longrightarrow> fb_resolved r \<noteq> Some True) \<and>
     n = length (filter (\<lambda>r. fix_subject r = Some s) rows) \<and> q \<le> n"
proof -
  let ?mine = "filter (\<lambda>r. fix_subject r = Some s) rows"
  have "(s, n) \<in> set (detect_fix_ineffective rows q) \<longleftrightarrow>
    (\<exists>i e. (s, i, e) \<in> set (aggregate fix_subject (0, 0 :: nat)
            (\<lambda>r a. if fb_resolved r = Some True then (fst a, snd a + 1) else (fst a + 1, snd a)) rows)
       \<and> e = 0 \<and> q \<le> i \<and> n = i)"
    unfolding detect_fix_ineffective_def Let_def mem_counts by auto
  also have "\<dots> \<longleftrightarrow> (\<exists>r \<in> set rows. fix_subject r = Some s) \<and>
      length (filter (\<lambda>r. fb_resolved r = Some True) ?mine) = 0 \<and>
      n = length (filter (\<lambda>r. fb_resolved r \<noteq> Some True) ?mine) \<and> q \<le> n"
    unfolding aggregate_mem split_count_fold by auto
  also have "length (filter (\<lambda>r. fb_resolved r = Some True) ?mine) = 0 \<longleftrightarrow>
      (\<forall>r \<in> set rows. fix_subject r = Some s \<longrightarrow> fb_resolved r \<noteq> Some True)"
    by (auto simp: filter_empty_conv)
  finally have eq: "(s, n) \<in> set (detect_fix_ineffective rows q) \<longleftrightarrow> (\<exists>r \<in> set rows. fix_subject r = Some s) \<and>
      (\<forall>r \<in> set rows. fix_subject r = Some s \<longrightarrow> fb_resolved r \<noteq> Some True) \<and>
      n = length (filter (\<lambda>r. fb_resolved r \<noteq> Some True) ?mine) \<and> q \<le> n" .
  show ?thesis
  proof (cases "\<forall>r \<in> set rows. fix_subject r = Some s \<longrightarrow> fb_resolved r \<noteq> Some True")
    case True
    then have "filter (\<lambda>r. fb_resolved r \<noteq> Some True) ?mine = ?mine" by (intro filter_True) simp
    with eq True show ?thesis by (simp only: simp_thms)
  qed (use eq in blast)
qed

lemma detect_rejected_iff:
  "(s, n) \<in> set (detect_rejected labels q) \<longleftrightarrow> s \<in> set labels \<and> n = length (filter (\<lambda>l. l = s) labels) \<and> q \<le> n"
proof -
  have "fold (\<lambda>r n. n + 1) xs (k::nat) = k + length xs" for xs :: "string list" and k
    by (induction xs arbitrary: k) auto
  then show ?thesis by (auto simp: detect_rejected_def Let_def aggregate_mem)
qed

text \<open>The subject lists are sorted, whatever order the map was iterated in.\<close>

lemma detect_sorted:
  "sorted (map fst (detect_self_updaters u rows q))" "sorted (map fst (detect_fix_ineffective frows q))"
  "sorted (map fst (detect_rejected labels q))"
  by (simp_all add: detect_self_updaters_def detect_fix_ineffective_def detect_rejected_def Let_def)

section \<open>Properties\<close>

text \<open>
  a self-updater is an app with timeouts in at least the quorum of distinct cycles and no
  success in the window, and the count is the number of those cycles; a method is failing for
  an app exactly when it failed at least quorum times with a fault of the method, never
  succeeded, and another method of the same app did succeed.
\<close>

theorem updater_detectors_exact:
  "((s, k) \<in> set (detect_self_updaters u rows q) \<longleftrightarrow>
     (\<exists>r \<in> set rows. base_id (at_app_id r) = s) \<and>
     (\<forall>r \<in> set rows. base_id (at_app_id r) = s \<longrightarrow> \<not> at_success r) \<and>
     k = card (at_cycle_id ` {r \<in> set rows. base_id (at_app_id r) = s \<and> is_timeout u r}) \<and> q \<le> k) \<and>
   (((app, m), n) \<in> set (detect_method_failing rows q) \<longleftrightarrow>
     (\<exists>r \<in> set rows. method_relevant r \<and> base_id (at_app_id r) = app \<and> at_method r = m) \<and>
     (\<forall>r \<in> set rows. base_id (at_app_id r) = app \<and> at_method r = m \<longrightarrow> \<not> at_success r) \<and>
     n = length (filter (\<lambda>r. is_method_fault r \<and> base_id (at_app_id r) = app \<and> at_method r = m) rows) \<and> q \<le> n \<and>
     (\<exists>r \<in> set rows. base_id (at_app_id r) = app \<and> at_success r))"
  by (intro conjI detect_self_updaters_iff detect_method_failing_iff)

definition sample_attempt :: "bool \<Rightarrow> string \<Rightarrow> int \<Rightarrow> attempt_row" where
  "sample_attempt ok m c = \<lparr>at_app_id = ''vlc'', at_cycle_id = c, at_success = ok, at_exit_code = None,
     at_category = Some ''not_found'', at_method = m, at_detail = []\<rparr>"

lemma updater_detectors_exact_witness:
  "((''vlc'', ''choco''), 2) \<in> set (detect_method_failing
      [sample_attempt True ''winget'' 1, sample_attempt False ''choco'' 1, sample_attempt False ''choco'' 2] 2)"
  using updater_detectors_exact [of "[]" 0 id _ 2 "''vlc''" "''choco''" 2]
  by (simp add: sample_attempt_def is_method_fault_def METHOD_FAULT_CATEGORIES_def method_relevant_def
      base_id_def strip_suffix_def ends_with_def starts_with_def)

text \<open>
  C32: an integrity failure (a wrong hash, a rejected signature) is never evidence: dropping all
  such failures from the history changes nothing either updater detector finds, so a tampered
  download cannot teach the service to avoid the method that caught it or to stop updating
  the app.
\<close>

definition integrity_failure :: "attempt_row \<Rightarrow> bool" where
  "integrity_failure r =
     (\<not> at_success r \<and> (at_category r = Some ''hash_mismatch'' \<or> at_category r = Some ''signature_rejected''))"

theorem integrity_failures_are_not_evidence:
  assumes "0 < q"
  shows "set (detect_self_updaters u (filter (\<lambda>r. \<not> integrity_failure r) rows) q) = set (detect_self_updaters u rows q) \<and>
    set (detect_method_failing (filter (\<lambda>r. \<not> integrity_failure r) rows) q) = set (detect_method_failing rows q)"
proof -
  let ?rows = "filter (\<lambda>r. \<not> integrity_failure r) rows"
  have no: "\<not> is_timeout u r" "\<not> is_method_fault r" "\<not> method_relevant r" "\<not> at_success r"
    if "integrity_failure r" for r
    using that by (auto simp: integrity_failure_def is_timeout_def is_method_fault_def
        METHOD_FAULT_CATEGORIES_def method_relevant_def)
  have cyc: "{r \<in> set ?rows. base_id (at_app_id r) = s \<and> is_timeout u r} =
      {r \<in> set rows. base_id (at_app_id r) = s \<and> is_timeout u r}" for s
    using no(1) by auto
  have "(s, n) \<in> set (detect_self_updaters u ?rows q) \<longleftrightarrow> (s, n) \<in> set (detect_self_updaters u rows q)" for s n
  proof -
    have "\<exists>r \<in> set rs. base_id (at_app_id r) = s"
      if "q \<le> card (at_cycle_id ` {r \<in> set rs. base_id (at_app_id r) = s \<and> is_timeout u r})" for rs
    proof -
      have "{r \<in> set rs. base_id (at_app_id r) = s \<and> is_timeout u r} \<noteq> {}" using that assms by force
      then show ?thesis by blast
    qed
    from this [of ?rows] this [of rows] show ?thesis
      unfolding detect_self_updaters_iff cyc using no(4) by auto
  qed
  moreover have "filter (\<lambda>r. is_method_fault r \<and> P r) ?rows = filter (\<lambda>r. is_method_fault r \<and> P r) rows" for P
    using no(2) by (auto intro!: filter_cong)
  then have "((app, m), n) \<in> set (detect_method_failing ?rows q) \<longleftrightarrow> ((app, m), n) \<in> set (detect_method_failing rows q)" for app m n
    unfolding detect_method_failing_iff using no(3,4) by auto
  ultimately show ?thesis by (auto simp: set_eq_iff)
qed

lemma integrity_failures_are_not_evidence_witness:
  "set (detect_method_failing (filter (\<lambda>r. \<not> integrity_failure r) [sample_attempt True ''winget'' 1]) QUORUM) =
   set (detect_method_failing [sample_attempt True ''winget'' 1] QUORUM)"
  by (rule conjunct2 [OF integrity_failures_are_not_evidence [of QUORUM id]]) (simp add: QUORUM_def)

end
