(* ===== verification/Learn_Store.thy ===== *)
theory Learn_Store
  imports Learn_Detect Safety
begin

text \<open>
  The learned facts (\<open>learn/store.rs\<close>, \<open>learn/mod.rs\<close>): one row per kind and subject, written
  by the detectors, decayed when the evidence lapses, overridden only by the user, and the
  rejections the detectors read. Each operation is one whose statements succeed.
\<close>

section \<open>Facts\<close>

datatype fact_kind = SelfUpdaterSuspected | MethodFailing | FixIneffective | RejectedSignal

definition kind_token :: "fact_kind \<Rightarrow> string" where
  "kind_token k = (case k of
     SelfUpdaterSuspected \<Rightarrow> ''self_updater_suspected''
   | MethodFailing \<Rightarrow> ''method_failing''
   | FixIneffective \<Rightarrow> ''fix_ineffective''
   | RejectedSignal \<Rightarrow> ''rejected_signal'')"

definition kind_from_token :: "string \<Rightarrow> fact_kind option" where
  "kind_from_token s =
     (if s = ''self_updater_suspected'' then Some SelfUpdaterSuspected
      else if s = ''method_failing'' then Some MethodFailing
      else if s = ''fix_ineffective'' then Some FixIneffective
      else if s = ''rejected_signal'' then Some RejectedSignal
      else None)"

text \<open>There is no effect that enables an action or raises a confidence.\<close>

datatype effect = Skip | DeprioritiseMethod string | ConfidencePenalty fnum

definition MAX_CONFIDENCE_PENALTY :: rat where
  "MAX_CONFIDENCE_PENALTY = 5033165 / 33554432"

record fact_row =
  lf_id :: int
  lf_kind :: string
  lf_subject :: string
  lf_effect :: "effect option"
  lf_evidence :: string
  lf_window :: nat
  lf_first_seen :: instant
  lf_last_reinforced :: instant
  lf_status :: string
  lf_source :: string
  lf_explanation :: "string option"
  lf_attempted :: "instant option"

record facts =
  fact_rows :: "fact_row list"
  next_fact :: int

definition user_override :: "string \<Rightarrow> bool" where
  "user_override status = (status \<in> {''user_disabled'', ''user_pinned''})"

definition in_force :: "fact_row \<Rightarrow> bool" where
  "in_force r = (lf_status r \<in> {''active'', ''user_pinned''})"

definition upsert_fact :: "string \<Rightarrow> string \<Rightarrow> effect \<Rightarrow> string \<Rightarrow> instant \<Rightarrow> facts \<Rightarrow> facts" where
  "upsert_fact kind subject eff evidence now fs =
     (if list_ex (\<lambda>r. lf_kind r = kind \<and> lf_subject r = subject) (fact_rows fs)
      then fs\<lparr>fact_rows := map (\<lambda>r. if lf_kind r = kind \<and> lf_subject r = subject
             then r\<lparr>lf_effect := Some eff, lf_evidence := evidence, lf_last_reinforced := now,
                    lf_status := (if user_override (lf_status r) then lf_status r else ''active'')\<rparr>
             else r) (fact_rows fs)\<rparr>
      else fs\<lparr>fact_rows := fact_rows fs @ [\<lparr>lf_id = next_fact fs, lf_kind = kind, lf_subject = subject,
                lf_effect = Some eff, lf_evidence = evidence, lf_window = WINDOW_DAYS, lf_first_seen = now,
                lf_last_reinforced = now, lf_status = ''active'', lf_source = ''detector'',
                lf_explanation = None, lf_attempted = None\<rparr>],
              next_fact := next_fact fs + 1\<rparr>)"

definition expire_unsupported :: "string \<Rightarrow> string list \<Rightarrow> facts \<Rightarrow> facts" where
  "expire_unsupported kind current fs = fs\<lparr>fact_rows := map (\<lambda>r.
     if lf_kind r = kind \<and> lf_source r = ''detector'' \<and> lf_status r = ''active'' \<and> lf_subject r \<notin> set current
     then r\<lparr>lf_status := ''expired''\<rparr> else r) (fact_rows fs)\<rparr>"

definition clear_detector_facts :: "facts \<Rightarrow> nat \<times> facts" where
  "clear_detector_facts fs =
     (let gone = (\<lambda>r. lf_source r = ''detector'' \<and> lf_status r \<in> {''active'', ''expired''})
      in (length (filter gone (fact_rows fs)), fs\<lparr>fact_rows := filter (\<lambda>r. \<not> gone r) (fact_rows fs)\<rparr>))"

definition active_facts :: "facts \<Rightarrow> fact_row list" where
  "active_facts fs = filter in_force (fact_rows fs)"

definition active_self_updater_subjects :: "facts \<Rightarrow> string list" where
  "active_self_updater_subjects fs =
     map lf_subject (filter (\<lambda>r. lf_kind r = ''self_updater_suspected'' \<and> in_force r) (fact_rows fs))"

text \<open>The user's override of one fact; an unknown operation or id is an error.\<close>

definition set_learned_fact :: "int \<Rightarrow> string \<Rightarrow> facts \<Rightarrow> facts option" where
  "set_learned_fact i op fs =
     (let found = length (filter (\<lambda>r. lf_id r = i) (fact_rows fs)) = 1 in
      if op = ''forget'' then
        (if found then Some (fs\<lparr>fact_rows := filter (\<lambda>r. lf_id r \<noteq> i) (fact_rows fs)\<rparr>) else None)
      else if op = ''pin'' \<or> op = ''disable'' then
        (if found then Some (fs\<lparr>fact_rows := map (\<lambda>r. if lf_id r = i
             then r\<lparr>lf_status := (if op = ''pin'' then ''user_pinned'' else ''user_disabled'')\<rparr> else r) (fact_rows fs)\<rparr>)
         else None)
      else None)"

definition mark_label_attempted :: "int \<Rightarrow> instant \<Rightarrow> facts \<Rightarrow> facts" where
  "mark_label_attempted i now fs =
     fs\<lparr>fact_rows := map (\<lambda>r. if lf_id r = i then r\<lparr>lf_attempted := Some now\<rparr> else r) (fact_rows fs)\<rparr>"

definition set_ai_explanation :: "int \<Rightarrow> string \<Rightarrow> facts \<Rightarrow> facts" where
  "set_ai_explanation i txt fs =
     fs\<lparr>fact_rows := map (\<lambda>r. if lf_id r = i then r\<lparr>lf_explanation := Some txt\<rparr> else r) (fact_rows fs)\<rparr>"

definition next_unlabelled :: "facts \<Rightarrow> (int \<times> string \<times> string \<times> string) option" where
  "next_unlabelled fs =
     (case sort_key (\<lambda>r. - lf_last_reinforced r)
             (filter (\<lambda>r. lf_source r = ''detector'' \<and> in_force r \<and> lf_attempted r = None) (fact_rows fs)) of
        [] \<Rightarrow> None
      | r # _ \<Rightarrow> Some (lf_id r, lf_kind r, lf_subject r, lf_evidence r))"

definition view_summary :: "string \<Rightarrow> string \<Rightarrow> string" where
  "view_summary kind subject = (case kind_from_token kind of
     Some SelfUpdaterSuspected \<Rightarrow>
       ''Not managing updates for '' @ quoted subject @ '' '' @ emdash @ '' it self-updates / keeps timing out''
   | Some MethodFailing \<Rightarrow>
       (case split_once SUBJECT_SEP subject of
          Some (app, m) \<Rightarrow> ''Updating '' @ quoted app @ '': trying '' @ quoted m @ '' last (it keeps failing here)''
        | None \<Rightarrow> ''Updating '' @ quoted subject @ '': trying '' @ quoted ''?'' @ '' last (it keeps failing here)'')
   | Some FixIneffective \<Rightarrow>
       ''Lower confidence in '' @ quoted subject @ '' fixes '' @ emdash @ '' they never resolve the fault here''
   | Some RejectedSignal \<Rightarrow>
       ''Proposing '' @ quoted subject @ '' less readily '' @ emdash @ '' you keep rejecting it''
   | None \<Rightarrow> kind @ '': '' @ subject)"

record fact_view =
  fv_id :: int
  fv_summary :: string
  fv_detail :: string
  fv_status :: string
  fv_source :: string

definition fact_view_of :: "fact_row \<Rightarrow> fact_view" where
  "fact_view_of r =
     (let ai = (case lf_explanation r of Some s \<Rightarrow> if trim s \<noteq> [] then Some s else None | None \<Rightarrow> None)
      in \<lparr>fv_id = lf_id r,
          fv_summary = (case ai of Some s \<Rightarrow> s | None \<Rightarrow> view_summary (lf_kind r) (lf_subject r)),
          fv_detail = lf_evidence r, fv_status = lf_status r,
          fv_source = (if ai \<noteq> None then ''ai_labelled'' else lf_source r)\<rparr>)"

text \<open>Disabled facts last, then expired ones, otherwise the most recently reinforced first.\<close>

definition facts_for_view :: "facts \<Rightarrow> fact_view list" where
  "facts_for_view fs =
     map fact_view_of
       (sort_key (\<lambda>r. if lf_status r = ''user_disabled'' then 1 else (0::int))
         (sort_key (\<lambda>r. if lf_status r = ''expired'' then 1 else (0::int))
           (sort_key (\<lambda>r. - lf_last_reinforced r) (fact_rows fs))))"

section \<open>Rejections\<close>

record rejection_row =
  rj_decision :: int
  rj_label :: string
  rj_key :: "string option"
  rj_at :: instant

definition record_rejection :: "int \<Rightarrow> string \<Rightarrow> string \<Rightarrow> instant \<Rightarrow> rejection_row list \<Rightarrow> rejection_row list" where
  "record_rejection decision label key now rs =
     (let k = trim key in
      rs @ [\<lparr>rj_decision = decision, rj_label = label, rj_key = (if k = [] then None else Some k), rj_at = now\<rparr>])"

definition rejection_rows :: "nat \<Rightarrow> instant \<Rightarrow> rejection_row list \<Rightarrow> string list" where
  "rejection_rows window_days now rs =
     map (\<lambda>r. case rj_key r of Some k \<Rightarrow> if trim k \<noteq> [] then k else rj_label r | None \<Rightarrow> rj_label r)
       (filter (\<lambda>r. rj_at r > now - int window_days * day) rs)"

definition prune_old_rejections :: "nat \<Rightarrow> instant \<Rightarrow> rejection_row list \<Rightarrow> rejection_row list" where
  "prune_old_rejections days now rs = filter (\<lambda>r. \<not> rj_at r < now - int days * day) rs"

section \<open>The analysis passes\<close>

definition analyse_updates :: "(string \<Rightarrow> string) \<Rightarrow> instant \<Rightarrow> attempt_row list \<Rightarrow> facts \<Rightarrow> facts" where
  "analyse_updates u now rows fs =
     (let su = detect_self_updaters u rows QUORUM;
          fs = fold (\<lambda>(s, n). upsert_fact (kind_token SelfUpdaterSuspected) s Skip
                 (show_nat n @ '' timed-out update cycles, 0 successes in '' @ show_nat WINDOW_DAYS @ ''d'') now) su fs;
          fs = expire_unsupported (kind_token SelfUpdaterSuspected) (map fst su) fs;
          mf = detect_method_failing rows QUORUM;
          fs = fold (\<lambda>((app, m), n). upsert_fact (kind_token MethodFailing) (method_subject (app, m)) (DeprioritiseMethod m)
                 (show_nat n @ '' failures via '' @ m @ '' (another method succeeded) in '' @ show_nat WINDOW_DAYS @ ''d'') now) mf fs
      in expire_unsupported (kind_token MethodFailing) (map (method_subject \<circ> fst) mf) fs)"

definition penalty_effect :: effect where
  "penalty_effect = ConfidencePenalty (Fin MAX_CONFIDENCE_PENALTY)"

text \<open>A read that fails leaves that half of the analysis out.\<close>

definition analyse_issues ::
  "instant \<Rightarrow> feedback_row list option \<Rightarrow> string list option \<Rightarrow> facts \<Rightarrow> facts" where
  "analyse_issues now feedback rejections fs =
     (let fs = (case feedback of None \<Rightarrow> fs | Some rows \<Rightarrow>
            (let bad = detect_fix_ineffective rows QUORUM;
                 fs = fold (\<lambda>(s, n). upsert_fact (kind_token FixIneffective) s penalty_effect
                   (''ran '' @ show_nat n @ '' times with no improvement in '' @ show_nat WINDOW_DAYS @ ''d'') now) bad fs
             in expire_unsupported (kind_token FixIneffective) (map fst bad) fs))
      in case rejections of None \<Rightarrow> fs | Some rows \<Rightarrow>
            (let rej = detect_rejected rows QUORUM;
                 fs = fold (\<lambda>(s, n). upsert_fact (kind_token RejectedSignal) s penalty_effect
                   (''rejected '' @ show_nat n @ '' times in '' @ show_nat WINDOW_DAYS @ ''d'') now) rej fs
             in expire_unsupported (kind_token RejectedSignal) (map fst rej) fs))"

section \<open>Invariants\<close>

definition facts_ok :: "facts \<Rightarrow> bool" where
  "facts_ok fs =
     (distinct (map (\<lambda>r. (lf_kind r, lf_subject r)) (fact_rows fs)) \<and>
      (\<forall>r \<in> set (fact_rows fs). lf_id r < next_fact fs) \<and> distinct (map lf_id (fact_rows fs)))"

text \<open>What the service does to facts without the user: any sequence of these.\<close>

datatype detector_op =
    Upsert string string effect string instant
  | Expire string "string list"
  | Clear
  | Explain int string
  | Attempt int instant

fun detector_step :: "detector_op \<Rightarrow> facts \<Rightarrow> facts" where
  "detector_step (Upsert k s e ev now) fs = upsert_fact k s e ev now fs"
| "detector_step (Expire k current) fs = expire_unsupported k current fs"
| "detector_step Clear fs = snd (clear_detector_facts fs)"
| "detector_step (Explain i t) fs = set_ai_explanation i t fs"
| "detector_step (Attempt i now) fs = mark_label_attempted i now fs"

text \<open>What identifies a fact together with the user's word on it.\<close>

definition override_of :: "fact_row \<Rightarrow> int \<times> string \<times> string \<times> string" where
  "override_of r = (lf_id r, lf_kind r, lf_subject r, lf_status r)"

lemma facts_ok_map:
  assumes "facts_ok fs" and "\<And>r. lf_id (f r) = lf_id r \<and> lf_kind (f r) = lf_kind r \<and> lf_subject (f r) = lf_subject r"
  shows "facts_ok (fs\<lparr>fact_rows := map f (fact_rows fs)\<rparr>)"
  using assms by (auto simp: facts_ok_def comp_def)

lemma facts_ok_filter: "facts_ok fs \<Longrightarrow> facts_ok (fs\<lparr>fact_rows := filter P (fact_rows fs)\<rparr>)"
  by (auto simp: facts_ok_def distinct_map_filter)

lemma facts_ok_upsert: "facts_ok fs \<Longrightarrow> facts_ok (upsert_fact k s e ev now fs)"
proof (cases "list_ex (\<lambda>r. lf_kind r = k \<and> lf_subject r = s) (fact_rows fs)")
  case True
  assume "facts_ok fs"
  then show ?thesis using True by (simp add: upsert_fact_def facts_ok_map)
next
  case False
  assume ok: "facts_ok fs"
  have "(k, s) \<notin> (\<lambda>r. (lf_kind r, lf_subject r)) ` set (fact_rows fs)"
    using False by (auto simp: list_ex_iff)
  moreover have "next_fact fs \<notin> lf_id ` set (fact_rows fs)" using ok by (auto simp: facts_ok_def)
  ultimately show ?thesis using ok False by (auto simp: upsert_fact_def facts_ok_def)
qed

lemma facts_ok_step: "facts_ok fs \<Longrightarrow> facts_ok (detector_step op fs)"
  by (cases op) (simp_all add: facts_ok_upsert expire_unsupported_def clear_detector_facts_def Let_def
      set_ai_explanation_def mark_label_attempted_def facts_ok_map facts_ok_filter)

lemma override_step:
  assumes "r \<in> set (fact_rows fs)" and "user_override (lf_status r)"
  shows "\<exists>r' \<in> set (fact_rows (detector_step op fs)). override_of r' = override_of r"
proof -
  have keep: "\<exists>r' \<in> set (map f (fact_rows fs)). override_of r' = override_of r"
    if "override_of (f r) = override_of r" for f
    using assms(1) that by auto
  show ?thesis
  proof (cases op)
    case (Upsert k s e ev now)
    show ?thesis
    proof (cases "list_ex (\<lambda>r. lf_kind r = k \<and> lf_subject r = s) (fact_rows fs)")
      case True
      then show ?thesis unfolding Upsert detector_step.simps upsert_fact_def
        using keep [of "\<lambda>r. if lf_kind r = k \<and> lf_subject r = s
             then r\<lparr>lf_effect := Some e, lf_evidence := ev, lf_last_reinforced := now,
                    lf_status := (if user_override (lf_status r) then lf_status r else ''active'')\<rparr>
             else r"] assms(2) by (simp add: override_of_def)
    next
      case False
      then show ?thesis using assms(1) by (auto simp: Upsert upsert_fact_def)
    qed
  next
    case (Expire k current)
    have "lf_status r \<noteq> ''active''" using assms(2) by (auto simp: user_override_def)
    then show ?thesis using assms(1) by (auto simp: Expire expire_unsupported_def intro!: bexI [of _ r])
  next
    case Clear
    then show ?thesis using assms by (auto simp: clear_detector_facts_def Let_def user_override_def)
  next
    case (Explain i t)
    show ?thesis unfolding Explain detector_step.simps set_ai_explanation_def
      using keep [of "\<lambda>r. if lf_id r = i then r\<lparr>lf_explanation := Some t\<rparr> else r"] by (simp add: override_of_def)
  next
    case (Attempt i now)
    show ?thesis unfolding Attempt detector_step.simps mark_label_attempted_def
      using keep [of "\<lambda>r. if lf_id r = i then r\<lparr>lf_attempted := Some now\<rparr> else r"] by (simp add: override_of_def)
  qed
qed

text \<open>What holds of one step of the detectors holds of any sequence of them.\<close>

lemma facts_ok_steps: "facts_ok fs \<Longrightarrow> facts_ok (fold detector_step ops fs)"
  by (induction ops arbitrary: fs) (simp_all add: facts_ok_step)

lemma override_steps:
  assumes "r \<in> set (fact_rows fs)" and "user_override (lf_status r)"
  shows "\<exists>r' \<in> set (fact_rows (fold detector_step ops fs)). override_of r' = override_of r"
  using assms
proof (induction ops arbitrary: fs r)
  case (Cons op ops)
  obtain r' where r': "r' \<in> set (fact_rows (detector_step op fs))" "override_of r' = override_of r"
    using override_step [OF Cons.prems] by blast
  have "user_override (lf_status r')" using r'(2) Cons.prems(2) by (simp add: override_of_def)
  with Cons.IH [OF r'(1)] r'(2) show ?case by simp
qed auto

lemma facts_ok_key:
  "facts_ok fs \<Longrightarrow> r \<in> set (fact_rows fs) \<Longrightarrow> r' \<in> set (fact_rows fs) \<Longrightarrow>
   lf_kind r = lf_kind r' \<Longrightarrow> lf_subject r = lf_subject r' \<Longrightarrow> r = r'"
  unfolding facts_ok_def distinct_map inj_on_def by blast

section \<open>Properties\<close>

text \<open>
  the user's word on a learned fact outlives the detectors: after any sequence of detector
  writes, expiries, sweeps and labels, the row is still there with its status, a disabled
  fact is not in force and no second row of the same kind and subject is in force in its
  place, and a pinned one is still in force.
\<close>

theorem user_override_survives:
  assumes "facts_ok fs" and "r \<in> set (fact_rows fs)" and "user_override (lf_status r)"
  shows "\<exists>r' \<in> set (fact_rows (fold detector_step ops fs)). override_of r' = override_of r \<and>
    (lf_status r = ''user_pinned'' \<longrightarrow> r' \<in> set (active_facts (fold detector_step ops fs))) \<and>
    (lf_status r = ''user_disabled'' \<longrightarrow>
       (\<forall>f \<in> set (active_facts (fold detector_step ops fs)).
          \<not> (lf_kind f = lf_kind r \<and> lf_subject f = lf_subject r)))"
proof -
  let ?fs = "fold detector_step ops fs"
  have ok: "facts_ok ?fs" by (rule facts_ok_steps [OF assms(1)])
  obtain r' where r': "r' \<in> set (fact_rows ?fs)" "override_of r' = override_of r"
    using override_steps [OF assms(2,3)] by blast
  have eq: "f = r'" if "f \<in> set (fact_rows ?fs)" "lf_kind f = lf_kind r" "lf_subject f = lf_subject r" for f
    using facts_ok_key [OF ok that(1) r'(1)] that r'(2) by (simp add: override_of_def)
  have st: "lf_status r' = lf_status r" using r'(2) by (simp add: override_of_def)
  have "r' \<in> set (active_facts ?fs)" if "lf_status r = ''user_pinned''"
    using that st r'(1) by (simp add: active_facts_def in_force_def)
  moreover have "\<not> (lf_kind f = lf_kind r \<and> lf_subject f = lf_subject r)"
    if "lf_status r = ''user_disabled''" "f \<in> set (active_facts ?fs)" for f
    using that st eq [of f] by (auto simp: active_facts_def in_force_def)
  ultimately show ?thesis using r' by blast
qed

definition sample_fact :: "string \<Rightarrow> string \<Rightarrow> fact_row" where
  "sample_fact subject status = \<lparr>lf_id = 1, lf_kind = ''rejected_signal'', lf_subject = subject,
     lf_effect = Some penalty_effect, lf_evidence = [], lf_window = 30, lf_first_seen = 0,
     lf_last_reinforced = 0, lf_status = status, lf_source = ''detector'',
     lf_explanation = None, lf_attempted = None\<rparr>"

definition sample_facts :: "string \<Rightarrow> string \<Rightarrow> facts" where
  "sample_facts subject status = \<lparr>fact_rows = [sample_fact subject status], next_fact = 2\<rparr>"

lemma user_override_survives_witness:
  "\<exists>r' \<in> set (fact_rows (fold detector_step [Clear, Upsert ''rejected_signal'' ''k'' Skip [] 9]
      (sample_facts ''k'' ''user_disabled''))). override_of r' = override_of (sample_fact ''k'' ''user_disabled'')"
proof -
  have "\<exists>r' \<in> set (fact_rows (fold detector_step [Clear, Upsert ''rejected_signal'' ''k'' Skip [] 9]
      (sample_facts ''k'' ''user_disabled''))). override_of r' = override_of (sample_fact ''k'' ''user_disabled'') \<and>
    (lf_status (sample_fact ''k'' ''user_disabled'') = ''user_pinned'' \<longrightarrow>
       r' \<in> set (active_facts (fold detector_step [Clear, Upsert ''rejected_signal'' ''k'' Skip [] 9]
      (sample_facts ''k'' ''user_disabled'')))) \<and>
    (lf_status (sample_fact ''k'' ''user_disabled'') = ''user_disabled'' \<longrightarrow>
       (\<forall>f \<in> set (active_facts (fold detector_step [Clear, Upsert ''rejected_signal'' ''k'' Skip [] 9]
      (sample_facts ''k'' ''user_disabled''))).
          \<not> (lf_kind f = lf_kind (sample_fact ''k'' ''user_disabled'') \<and>
             lf_subject f = lf_subject (sample_fact ''k'' ''user_disabled''))))"
    by (rule user_override_survives) (simp_all add: sample_facts_def sample_fact_def facts_ok_def user_override_def)
  then show ?thesis by blast
qed

end
