(* ===== verification/Learn_Apply.thy ===== *)
theory Learn_Apply
  imports Learn_Store
begin

text \<open>
  Learned facts at the decision seams (\<open>learn/apply.rs\<close>) and the labeller's text
  (\<open>learn/label.rs\<close>): what one decision cycle loads from the facts in force, the bounded
  confidence penalty it may take off a proposed action, and the lines it shows the model.
  The hash maps are association tables, the hash set a list searched for membership.
\<close>

section \<open>Loading\<close>

definition SECURITY_ACTION_TYPES :: "string list" where
  "SECURITY_ACTION_TYPES = [''FirewallEnable'', ''DefenderSignatureUpdate'', ''DefenderRealtimeEnable'']"

definition is_security :: "string \<Rightarrow> bool" where
  "is_security subject = (action_type subject \<in> set SECURITY_ACTION_TYPES)"

record learned_facts =
  method_deprioritised :: "(string \<times> string) list"
  penalty_by_type :: "(string \<times> fnum) list"
  penalty_by_subject :: "(string \<times> fnum) list"
  summaries :: "string list"

definition no_facts :: learned_facts where
  "no_facts = \<lparr>method_deprioritised = [], penalty_by_type = [], penalty_by_subject = [], summaries = []\<rparr>"

definition add_summary :: "string \<Rightarrow> learned_facts \<Rightarrow> learned_facts" where
  "add_summary line f = f\<lparr>summaries := summaries f @ [line]\<rparr>"

definition load_row :: "fact_row \<Rightarrow> learned_facts \<Rightarrow> learned_facts" where
  "load_row row f = (case (kind_from_token (lf_kind row), lf_effect row) of
     (Some SelfUpdaterSuspected, _) \<Rightarrow>
       add_summary (''Not managing updates for '' @ quoted (lf_subject row) @ '' '' @ emdash @
                    '' it self-updates ('' @ lf_evidence row @ '').'') f
   | (Some MethodFailing, Some (DeprioritiseMethod m)) \<Rightarrow>
       (case split_once SUBJECT_SEP (lf_subject row) of
          Some (app, _) \<Rightarrow>
            add_summary (''Updating '' @ quoted app @ '' avoids '' @ quoted m @ '' ('' @ lf_evidence row @ '').'')
              (f\<lparr>method_deprioritised := List.insert (app, m) (method_deprioritised f)\<rparr>)
        | None \<Rightarrow> f)
   | (Some FixIneffective, Some (ConfidencePenalty amount)) \<Rightarrow>
       if is_security (lf_subject row) then f
       else add_summary (''Lower confidence in '' @ quoted (lf_subject row) @ '' fixes here '' @ emdash @ '' '' @
                         lf_evidence row @ ''.'')
              (f\<lparr>penalty_by_type := tbl_put (lf_subject row) amount (penalty_by_type f)\<rparr>)
   | (Some RejectedSignal, Some (ConfidencePenalty amount)) \<Rightarrow>
       if is_security (lf_subject row) then f
       else add_summary (''You'' @ CHR 0x27 # ''ve repeatedly rejected '' @ quoted (lf_subject row) @ '' ('' @
                         lf_evidence row @ '') '' @ emdash @ '' proposing it less readily.'')
              (f\<lparr>penalty_by_subject := tbl_put (lf_subject row) amount (penalty_by_subject f)\<rparr>)
   | _ \<Rightarrow> f)"

text \<open>\<open>None\<close> is a failed read, which leaves nothing learned.\<close>

definition load_facts :: "fact_row list option \<Rightarrow> learned_facts" where
  "load_facts rows = (case rows of None \<Rightarrow> no_facts | Some rs \<Rightarrow> fold load_row rs no_facts)"

section \<open>Consulting\<close>

definition is_method_deprioritised :: "learned_facts \<Rightarrow> string \<Rightarrow> string \<Rightarrow> bool" where
  "is_method_deprioritised f app_base m = ((app_base, m) \<in> set (method_deprioritised f))"

definition bounded :: "fnum \<Rightarrow> fnum" where
  "bounded amount = (case amount of
     Fin a \<Rightarrow> Fin (max 0 (min a MAX_CONFIDENCE_PENALTY))
   | _ \<Rightarrow> Fin 0)"

definition confidence_penalty :: "learned_facts \<Rightarrow> string \<Rightarrow> string \<Rightarrow> fnum" where
  "confidence_penalty f action_label action_key =
     (if is_security action_label then Fin 0
      else
        (let by_type = (case tbl_get (penalty_by_type f) (action_type action_label) of Some a \<Rightarrow> a | None \<Rightarrow> Fin 0);
             by_subject =
               (case tbl_get (penalty_by_subject f) action_label of
                  Some a \<Rightarrow> a
                | None \<Rightarrow> if action_key = [] then Fin 0
                          else (case tbl_get (penalty_by_subject f) action_key of Some a \<Rightarrow> a | None \<Rightarrow> Fin 0))
         in f_min (f_add f32 (bounded by_type) (bounded by_subject)) (Fin MAX_CONFIDENCE_PENALTY)))"

definition prompt_section :: "learned_facts \<Rightarrow> string option" where
  "prompt_section f =
     (if summaries f = [] then None
      else Some (CHR 0x0A # ''WHAT EIR HAS LEARNED ON THIS MACHINE (from its own history '' @ emdash @
                 '' take into account):'' @ CHR 0x0A #
                 concat (map (\<lambda>line. ''  - '' @ line @ [CHR 0x0A]) (summaries f))))"

section \<open>The labeller's text\<close>

definition MAX_EXPLANATION :: nat where "MAX_EXPLANATION = 200"

definition sanitise_explanation :: "string \<Rightarrow> string" where
  "sanitise_explanation raw =
     (let trimmed = trim (trim_matches [CHR 0x22] (trim (join '' '' (split_whitespace raw))))
      in if char_count trimmed > MAX_EXPLANATION then take_chars MAX_EXPLANATION trimmed @ ellipsis else trimmed)"

text \<open>
  One labelling attempt: the attempt is recorded first, so whatever the model answers
  (\<open>None\<close> for a failed call) the fact is not asked about again.
\<close>

definition label_one :: "string option \<Rightarrow> instant \<Rightarrow> facts \<Rightarrow> bool \<times> facts" where
  "label_one reply now fs = (case next_unlabelled fs of
     None \<Rightarrow> (False, fs)
   | Some (i, _, _, _) \<Rightarrow>
       (let fs = mark_label_attempted i now fs in
        case reply of
          None \<Rightarrow> (False, fs)
        | Some content \<Rightarrow>
            (let explanation = sanitise_explanation content in
             if explanation = [] then (False, fs) else (True, set_ai_explanation i explanation fs))))"

section \<open>Bounds\<close>

lemma bounded_range: "\<exists>a. bounded x = Fin a \<and> 0 \<le> a \<and> a \<le> MAX_CONFIDENCE_PENALTY"
  by (cases x) (auto simp: bounded_def MAX_CONFIDENCE_PENALTY_def)

lemma confidence_penalty_range:
  "\<exists>p. confidence_penalty f label key = Fin p \<and> 0 \<le> p \<and> p \<le> MAX_CONFIDENCE_PENALTY"
proof (cases "is_security label")
  case True
  then show ?thesis by (simp add: confidence_penalty_def MAX_CONFIDENCE_PENALTY_def)
next
  case False
  have "\<exists>p. f_min (f_add f32 (bounded x) (bounded y)) (Fin MAX_CONFIDENCE_PENALTY) = Fin p \<and> 0 \<le> p \<and>
      p \<le> MAX_CONFIDENCE_PENALTY" for x y
  proof -
    obtain a where a: "bounded x = Fin a" "0 \<le> a" "a \<le> MAX_CONFIDENCE_PENALTY" using bounded_range by blast
    obtain b where b: "bounded y = Fin b" "0 \<le> b" "b \<le> MAX_CONFIDENCE_PENALTY" using bounded_range by blast
    obtain r where r: "rnd f32 (a + b) = Fin r" "0 \<le> r"
      using r32.round_le [OF representable_1_32, of "a + b"] a b by (auto simp: MAX_CONFIDENCE_PENALTY_def)
    have "f_min (Fin r) (Fin MAX_CONFIDENCE_PENALTY) = Fin (min r MAX_CONFIDENCE_PENALTY)"
      by (simp add: f_min_def min_def)
    with a b r show ?thesis by (simp add: MAX_CONFIDENCE_PENALTY_def)
  qed
  with False show ?thesis by (simp add: confidence_penalty_def Let_def)
qed

text \<open>Which labels count as security actions: the debug labels do, the issue keys do not.\<close>

definition protective :: "fix_action \<Rightarrow> bool" where
  "protective a = (case a of FirewallEnable _ \<Rightarrow> True | DefenderSignatureUpdate \<Rightarrow> True
     | DefenderRealtimeEnable \<Rightarrow> True | _ \<Rightarrow> False)"

lemma action_type_debug: "action_type (debug_action esc a) = takeWhile (\<lambda>c. c \<noteq> CHR '' '') (debug_action esc a)"
  by (cases a)
    (simp_all add: action_type_def debug_action_def debug_fields_def trim_def trim_end_def trim_start.simps
      trim_rev.simps char_of_def bit_0 byte_def ws1_def ws2_def ws3_def)

lemma is_security_debug: "is_security (debug_action esc a) = protective a"
  unfolding is_security_def action_type_debug
  by (cases a) (simp_all add: SECURITY_ACTION_TYPES_def debug_action_def debug_fields_def protective_def)

lemma action_type_hd: "action_type (c # s) = w \<Longrightarrow> w \<noteq> [] \<Longrightarrow> ws_len (c # s) = 0 \<Longrightarrow> hd w = c \<or> c \<in> set '' {(''"
proof -
  assume w: "action_type (c # s) = w" "w \<noteq> []" and ws: "ws_len (c # s) = 0"
  define n where "n = (case find_index (\<lambda>c. c \<in> set '' {('') (c # s) of Some i \<Rightarrow> i | None \<Rightarrow> length (c # s))"
  have n: "w = trim (take n (c # s))" using w(1) by (simp add: action_type_def n_def)
  show ?thesis
  proof (cases n)
    case 0
    then show ?thesis using n w(2) by simp
  next
    case (Suc k)
    have "ws_len (take n (c # s)) = 0"
      using ws_len_prefix0 [of "take n (c # s)" "drop n (c # s)"] ws by simp
    then have "w = trim_end (take n (c # s))" using n by (simp add: trim_def trim_start_fix)
    then obtain q where "take n (c # s) = w @ q" using trim_end_prefix by metis
    then show ?thesis using Suc w(2) by (cases w) auto
  qed
qed

lemma not_security_key: "protective a \<Longrightarrow> \<not> is_security (dedup_key u a)"
proof
  assume a: "protective a" and sec: "is_security (dedup_key u a)"
  obtain c s where cs: "dedup_key u a = c # s" "c = CHR ''f'' \<or> c = CHR ''d''"
    using a by (cases a) (auto simp: protective_def dedup_key_def keyed_def)
  have "ws_len (c # s) = 0" using cs(2) by (intro ws_len_ascii) (auto simp: ws1_def byte_def)
  with action_type_hd [of c s "action_type (c # s)"] sec cs show False
    by (auto simp: is_security_def SECURITY_ACTION_TYPES_def)
qed

section \<open>Properties\<close>

text \<open>
  whatever the facts table holds (a negative, infinite or not-a-number amount included), the
  penalty a proposed action is given is a number between 0 and the maximum, it is 0 for every
  protective action, and 0 when nothing was learned.
\<close>

theorem confidence_penalty_bounded:
  "(\<exists>p. confidence_penalty f label key = Fin p \<and> 0 \<le> p \<and> p \<le> MAX_CONFIDENCE_PENALTY) \<and>
   (protective a \<longrightarrow> confidence_penalty f (debug_action esc a) key = Fin 0) \<and>
   confidence_penalty no_facts label key = Fin 0"
proof -
  have "confidence_penalty no_facts label key = Fin 0"
    by (simp add: confidence_penalty_def no_facts_def tbl_get_def bounded_def f_min_def rnd_def
        MAX_CONFIDENCE_PENALTY_def Let_def)
  moreover have "protective a \<Longrightarrow> confidence_penalty f (debug_action esc a) key = Fin 0"
    by (simp add: confidence_penalty_def is_security_debug)
  ultimately show ?thesis using confidence_penalty_range by blast
qed

lemma confidence_penalty_bounded_witness:
  "confidence_penalty no_facts (debug_action id DefenderRealtimeEnable) [] = Fin 0"
proof -
  have "protective DefenderRealtimeEnable" by (simp add: protective_def)
  then show ?thesis
    using confidence_penalty_bounded [of no_facts "[]" "[]" DefenderRealtimeEnable id] by blast
qed

lemma kind_token_roundtrip: "kind_from_token (kind_token k) = Some k"
  by (cases k) (simp_all add: kind_token_def kind_from_token_def)

lemma detect_rejected_replicate:
  "0 < q \<Longrightarrow> q \<le> n \<Longrightarrow> detect_rejected (replicate n s) q = [(s, n)]"
proof -
  assume q: "0 < q" "q \<le> n"
  let ?r = "detect_rejected (replicate n s) q"
  have mem: "x \<in> set ?r \<longleftrightarrow> x = (s, n)" for x
    using q by (cases x) (auto simp: detect_rejected_iff filter_replicate)
  have "distinct (map fst ?r)"
  proof -
    have "tbl_wf (aggregate Some (0 :: nat) (\<lambda>r n. n + 1) (replicate n s))" by (rule aggregate_wf)
    then show ?thesis
      by (simp add: detect_rejected_def Let_def tbl_wf_def distinct_map_filter distinct_map inj_on_def)
  qed
  then have "distinct ?r" by (simp add: distinct_map)
  moreover have "set ?r = {(s, n)}" using mem by auto
  ultimately have "length ?r = 1" using distinct_card [of ?r] by simp
  then show ?thesis using mem by (cases ?r) auto
qed

text \<open>One line the model is shown.\<close>

definition shown_to_model :: "string \<Rightarrow> learned_facts \<Rightarrow> bool" where
  "shown_to_model s f = (case prompt_section f of Some t \<Rightarrow> contains_str s t | None \<Rightarrow> False)"

definition no_rows :: facts where
  "no_rows = \<lparr>fact_rows = [], next_fact = 1\<rparr>"

lemma analyse_one_rejection:
  assumes "QUORUM \<le> n"
  shows "\<exists>row. active_facts (analyse_issues now None (Some (replicate n s)) no_rows) = [row] \<and>
    lf_kind row = kind_token RejectedSignal \<and> lf_subject row = s \<and> lf_effect row = Some penalty_effect"
proof -
  have "detect_rejected (replicate n s) QUORUM = [(s, n)]"
    using assms by (intro detect_rejected_replicate) (auto simp: QUORUM_def)
  then show ?thesis
    by (simp add: analyse_issues_def no_rows_def upsert_fact_def expire_unsupported_def active_facts_def in_force_def)
qed

lemma load_rejection:
  assumes "lf_kind row = kind_token RejectedSignal" and "lf_effect row = Some (ConfidencePenalty x)"
    and "\<not> is_security (lf_subject row)"
  shows "shown_to_model (lf_subject row) (load_facts (Some [row]))"
proof -
  define a where "a = ''You'' @ CHR 0x27 # ''ve repeatedly rejected '' @ [CHR 0x27]"
  define b where "b = CHR 0x27 # '' ('' @ lf_evidence row @ '') '' @ emdash @ '' proposing it less readily.''"
  have "summaries (load_facts (Some [row])) = [a @ lf_subject row @ b]"
    using assms kind_token_roundtrip [of RejectedSignal]
    by (simp add: load_facts_def load_row_def add_summary_def quoted_def no_facts_def a_def b_def)
  then have "prompt_section (load_facts (Some [row])) =
      Some ((CHR 0x0A # ''WHAT EIR HAS LEARNED ON THIS MACHINE (from its own history '' @ emdash @
                 '' take into account):'' @ CHR 0x0A # ''  - '' @ a) @ lf_subject row @ (b @ [CHR 0x0A]))"
    by (simp add: prompt_section_def)
  then show ?thesis by (simp only: shown_to_model_def option.case contains_str_append)
qed

text \<open>
  the exclusion of protective actions does not reach the prompt. Rejections are recorded
  under the stable issue key, and the key of a protective action is not recognised as one, so
  a protective fix the user rejected often enough is put before the model as something to
  propose less readily.
\<close>

theorem rejected_protection_reaches_prompt:
  assumes "protective a" and "QUORUM \<le> n"
  shows "is_security (debug_action esc a) \<and>
    shown_to_model (dedup_key u a)
      (load_facts (Some (active_facts (analyse_issues now None (Some (replicate n (dedup_key u a))) no_rows))))"
proof -
  obtain row where row: "active_facts (analyse_issues now None (Some (replicate n (dedup_key u a))) no_rows) = [row]"
    "lf_kind row = kind_token RejectedSignal" "lf_subject row = dedup_key u a" "lf_effect row = Some penalty_effect"
    using analyse_one_rejection [OF assms(2)] by blast
  have "shown_to_model (lf_subject row) (load_facts (Some [row]))"
    using row(2,4) not_security_key [OF assms(1)] row(3) by (intro load_rejection) (auto simp: penalty_effect_def)
  with row assms(1) show ?thesis by (simp add: is_security_debug)
qed

lemma rejected_protection_reaches_prompt_witness:
  "shown_to_model (dedup_key id (FirewallEnable ''public''))
      (load_facts (Some (active_facts (analyse_issues 0 None
         (Some (replicate 3 (dedup_key id (FirewallEnable ''public'')))) no_rows))))"
proof -
  have "protective (FirewallEnable ''public'')" "QUORUM \<le> 3" by (simp_all add: protective_def QUORUM_def)
  from rejected_protection_reaches_prompt [OF this] show ?thesis by blast
qed

end
