(* ===== verification/Explain.thy ===== *)
theory Explain
  imports Fix_Action
begin

text \<open>
  What an approval card tells the user (\<open>explain.rs\<close>): the description of an action, its
  target and whether it can be undone, derived from the action alone, and the facts of the
  file a deletion names. \<open>win\<close> chooses the build: the texts differ between Windows and Unix.
  What the file system answers is an argument; formatting a time stamp is chrono's.
\<close>

record explanation =
  ex_summary :: string
  ex_target :: string
  ex_reversible :: bool

definition SERVICE_KIND :: "bool \<Rightarrow> string" where
  "SERVICE_KIND win = (if win then ''Windows service'' else ''systemd service'')"

definition DELETE_IS_FINAL :: "bool \<Rightarrow> string" where
  "DELETE_IS_FINAL win =
     (if win then ''It is removed with force and does NOT go to the Recycle Bin, so it cannot be restored from there.''
      else ''There is no trash to restore it from.'')"

definition with_target_first_line :: "explanation \<Rightarrow> string \<Rightarrow> explanation" where
  "with_target_first_line e full =
     (case filter (\<lambda>l. trim l \<noteq> []) (lines full) of
        [] \<Rightarrow> e
      | first # _ \<Rightarrow>
          (let trimmed = trim first in
           e\<lparr>ex_target := ''PowerShell: '' @ take_chars 60 trimmed @
                          (if char_count trimmed > 60 then ellipsis else [])\<rparr>))"

definition explain_network :: "(string \<Rightarrow> string) \<Rightarrow> string \<Rightarrow> explanation" where
  "explain_network u command =
     (let other = to_lowercase u command in
      if other = ''flush_dns'' then
        \<lparr>ex_summary = ''Flushes the DNS resolver cache. Cached name lookups are cleared and rebuilt on demand '' @
           emdash @ '' safe and self-healing.'', ex_target = command, ex_reversible = True\<rparr>
      else if other = ''release_renew'' then
        \<lparr>ex_summary = ''Releases and renews the network adapter'' @ apos @
           ''s DHCP lease. Connectivity drops for a moment while a new address is obtained.'',
         ex_target = command, ex_reversible = True\<rparr>
      else if other = ''reset_tcp'' then
        \<lparr>ex_summary = ''Resets the TCP/IP stack. Requires a reboot to fully take effect and resets network tuning to defaults.'',
         ex_target = command, ex_reversible = False\<rparr>
      else if other = ''reset_winsock'' then
        \<lparr>ex_summary = ''Resets the Winsock catalog. Requires a reboot; third-party network add-ons (some VPN/firewall layers) may need reinstalling afterwards.'',
         ex_target = command, ex_reversible = False\<rparr>
      else \<lparr>ex_summary = ''Runs the network diagnostic '' @ quoted other @ ''.'', ex_target = other, ex_reversible = False\<rparr>)"

definition explain :: "(string \<Rightarrow> string) \<Rightarrow> bool \<Rightarrow> fix_action \<Rightarrow> explanation" where
  "explain u win a = (case a of
     ServiceRestart s \<Rightarrow>
       \<lparr>ex_summary = ''Restarts the '' @ SERVICE_KIND win @ '' '' @ quoted s @
          '' (stops it, then starts it again). The service is briefly unavailable while it cycles.'',
        ex_target = s, ex_reversible = True\<rparr>
   | ServiceStop s \<Rightarrow>
       \<lparr>ex_summary = ''Stops the '' @ SERVICE_KIND win @ '' '' @ quoted s @
          ''. It stays stopped until something starts it again.'', ex_target = s, ex_reversible = True\<rparr>
   | ServiceStart s \<Rightarrow>
       \<lparr>ex_summary = ''Starts the '' @ SERVICE_KIND win @ '' '' @ quoted s @ ''.'', ex_target = s, ex_reversible = True\<rparr>
   | LogCleanup path days_old \<Rightarrow>
       \<lparr>ex_summary = ''Deletes log files older than '' @ show_nat days_old @ '' days under '' @ quoted path @
          ''. Frees disk space; the removed logs cannot be recovered.'', ex_target = path, ex_reversible = False\<rparr>
   | DiskCleanup target \<Rightarrow>
       \<lparr>ex_summary = ''Clears the '' @ quoted target @
          '' area (temporary files). Frees disk space; the cleared files cannot be recovered.'',
        ex_target = target, ex_reversible = False\<rparr>
   | PowerShellDiagnostic text \<Rightarrow>
       with_target_first_line
         \<lparr>ex_summary = ''Runs a PowerShell script with SYSTEM privileges (full machine access). The exact script is shown below '' @
            emdash @ '' read it before approving.'', ex_target = ''PowerShell script'', ex_reversible = False\<rparr> text
   | TaskDisable t \<Rightarrow>
       \<lparr>ex_summary = ''Disables the scheduled task '' @ quoted t @ ''. It will not run again until re-enabled.'',
        ex_target = t, ex_reversible = True\<rparr>
   | TaskEnable t \<Rightarrow>
       \<lparr>ex_summary = ''Enables the scheduled task '' @ quoted t @ ''.'', ex_target = t, ex_reversible = True\<rparr>
   | RegistryReset k v d \<Rightarrow>
       \<lparr>ex_summary = ''Sets the registry value '' @ quoted v @ '' under '' @ quoted k @ '' to '' @ quoted d @
          '', overwriting whatever is there now. Its exact prior type and value are captured first; if that snapshot cannot be read, the reset is refused. Undo will not overwrite a value changed again after Eir'' @
          apos @ ''s reset.'',
        ex_target = k @ backslash # v, ex_reversible = True\<rparr>
   | NetworkDiagnostic command \<Rightarrow> explain_network u command
   | DriverDisable d \<Rightarrow>
       \<lparr>ex_summary = ''Disables the driver '' @ quoted d @
          ''. The hardware or feature it provides stops working until the driver is re-enabled.'',
        ex_target = d, ex_reversible = True\<rparr>
   | DriverEnable d \<Rightarrow>
       \<lparr>ex_summary = ''Enables the driver '' @ quoted d @ ''.'', ex_target = d, ex_reversible = True\<rparr>
   | SoftwareUninstall p \<Rightarrow>
       \<lparr>ex_summary = ''Uninstalls '' @ quoted p @ ''. (Blocked by policy '' @ emdash @
          '' Eir never removes software, so this will not run even if approved.)'',
        ex_target = p, ex_reversible = False\<rparr>
   | BcdEdit e v \<Rightarrow>
       \<lparr>ex_summary = ''Changes the boot configuration setting '' @ quoted e @ '' to '' @ quoted v @
          ''. This affects how Windows starts up.'', ex_target = e, ex_reversible = False\<rparr>
   | ProcessKill p \<Rightarrow>
       \<lparr>ex_summary = ''Force-closes every running process named '' @ quoted p @
          ''. Any unsaved work in those processes is lost.'', ex_target = p, ex_reversible = False\<rparr>
   | FileDelete path \<Rightarrow>
       \<lparr>ex_summary = ''Permanently deletes the file '' @ quoted path @ ''. '' @ DELETE_IS_FINAL win,
        ex_target = path, ex_reversible = False\<rparr>
   | FirewallEnable p \<Rightarrow>
       \<lparr>ex_summary = ''Turns the Windows Firewall back on for the '' @ quoted p @
          '' profile. This restores a protective default and can be turned off again.'',
        ex_target = p, ex_reversible = True\<rparr>
   | DefenderSignatureUpdate \<Rightarrow>
       \<lparr>ex_summary = ''Updates Windows Defender'' @ apos @
          ''s virus definitions to the latest available. Only refreshes definitions '' @ emdash @ '' it changes no settings.'',
        ex_target = ''Windows Defender'', ex_reversible = True\<rparr>
   | DefenderRealtimeEnable \<Rightarrow>
       \<lparr>ex_summary = ''Turns Windows Defender real-time (on-access) protection back on. Reversible, but only approve this if you did not deliberately disable it (e.g. for a different antivirus).'',
        ex_target = ''Windows Defender real-time protection'', ex_reversible = True\<rparr>
   | SfcScan \<Rightarrow>
       \<lparr>ex_summary = ''Runs System File Checker (sfc /scannow) to verify and repair protected Windows system files. It only repairs corruption from Windows'' @
          apos @ '' own cache; it takes several minutes and cannot be interrupted cleanly.'',
        ex_target = ''Protected system files'', ex_reversible = False\<rparr>
   | DismRestoreHealth \<Rightarrow>
       \<lparr>ex_summary = ''Runs DISM /Online /Cleanup-Image /RestoreHealth to repair the Windows component store (the source SFC repairs from). It can take many minutes and may download replacement files from Windows Update.'',
        ex_target = ''Windows component store'', ex_reversible = False\<rparr>
   | StartupSet name _ _ enable \<Rightarrow>
       \<lparr>ex_summary =
          (if enable
           then ''Re-enables the startup entry '' @ quoted name @
                '' so it launches again when you sign in. This is the same switch as Task Manager'' @ apos @
                ''s Startup tab '' @ emdash @ '' nothing is deleted.''
           else ''Stops the startup entry '' @ quoted name @
                '' from launching when you sign in. This is the same switch as Task Manager'' @ apos @
                ''s Startup tab '' @ emdash @ '' nothing is deleted, and it can be re-enabled anytime.''),
        ex_target = name, ex_reversible = True\<rparr>)"

section \<open>The facts of a file\<close>

text \<open>The answer of the file system to the service acting as the desktop user.\<close>

record file_meta =
  fm_dir :: bool
  fm_len :: nat
  fm_modified :: "(string \<times> nat option) option"
  fm_readonly :: bool

datatype inspection = NoUserToken | NotFound | NotLocal | Metadata file_meta

definition CACHE_DIRS :: "bool \<Rightarrow> string list" where
  "CACHE_DIRS win =
     (if win then [backslash # ''cache'', backslash # ''temp'', backslash # ''tmp'' @ [backslash],
                   backslash # ''prefetch'', ''crashdump'', ''minidump'']
      else [''/.cache/'', ''/cache/'', ''/tmp/'', ''/var/crash/'', ''crashdump'', ''minidump''])"

definition PERSONAL_DIRS :: "bool \<Rightarrow> string list" where
  "PERSONAL_DIRS win =
     (if win then map (\<lambda>d. backslash # d)
                    [''documents'', ''desktop'', ''pictures'', ''downloads'', ''videos'', ''music'', ''onedrive'']
      else [''/documents/'', ''/desktop/'', ''/pictures/'', ''/downloads/'', ''/videos/'', ''/music/''])"

text \<open>\<open>Path::extension\<close> of a path that is not a verbatim one.\<close>

definition file_name :: "bool \<Rightarrow> string \<Rightarrow> string option" where
  "file_name win p =
     (let comps = filter (\<lambda>c. c \<noteq> [] \<and> c \<noteq> ''.'')
            (split_on (\<lambda>c. c = CHR ''/'' \<or> win \<and> c = backslash) p)
      in if comps = [] \<or> last comps = ''..'' then None else Some (last comps))"

definition path_extension :: "bool \<Rightarrow> string \<Rightarrow> string option" where
  "path_extension win p = (case file_name win p of
     None \<Rightarrow> None
   | Some n \<Rightarrow> (case split_once CHR ''.'' (rev n) of
       None \<Rightarrow> None
     | Some (ext, stem) \<Rightarrow> if stem = [] then None else Some (rev ext)))"

definition classify_file :: "(string \<Rightarrow> string) \<Rightarrow> bool \<Rightarrow> string \<Rightarrow> string" where
  "classify_file u win path =
     (let lower = to_lowercase u path;
          dir_hits = list_ex (\<lambda>n. contains_str n lower);
          ext_is = (\<lambda>exts. case path_extension win lower of Some e \<Rightarrow> e \<in> set exts | None \<Rightarrow> False)
      in if dir_hits (CACHE_DIRS win) \<or> ext_is [''tmp'', ''dmp'', ''etl'', ''old'', ''bak'', ''lock''] then
           ''Looks like a regenerable cache / temp / crash file '' @ emdash @
           '' programs normally recreate these automatically, so deleting it is usually low-risk.''
         else if dir_hits (PERSONAL_DIRS win) then
           ''Looks like it lives in a personal folder (Documents/Desktop/etc.) '' @ emdash @
           '' deleting it could be permanent loss of your own data. Be sure before approving.''
         else if ext_is [''json'', ''xml'', ''ini'', ''cfg'', ''conf'', ''config'', ''db'', ''sqlite'', ''dat''] then
           ''Looks like a configuration or data file '' @ emdash @
           '' the program may lose saved state or settings. Many apps rebuild defaults on next launch, but confirm this one does.''
         else ''Could not classify this file from its path '' @ emdash @ '' review it manually before approving.'')"

text \<open>
  The size loop: dividing an \<open>f64\<close> by 1024 is exact at these magnitudes, so the value shown
  is the rounded byte count over a power of 1024, printed with one decimal, ties to even.
\<close>

fun scale_size :: "rat \<Rightarrow> string list \<Rightarrow> rat \<times> string" where
  "scale_size sz [] = (sz, [])"
| "scale_size sz [un] = (sz, un)"
| "scale_size sz (un # v # us) = (if sz \<ge> 1024 then scale_size (sz / 1024) (v # us) else (sz, un))"

definition show_one_decimal :: "rat \<Rightarrow> string" where
  "show_one_decimal q =
     (let n = nat (rne (10 * q)) in show_nat (n div 10) @ ''.'' @ show_nat (n mod 10))"

definition human_size :: "nat \<Rightarrow> string" where
  "human_size bytes =
     (let start = (case rnd f64 (of_nat bytes) of Fin q \<Rightarrow> q | _ \<Rightarrow> 0);
          (sz, un) = scale_size start [''B'', ''KB'', ''MB'', ''GB'', ''TB'']
      in if un = ''B'' then show_nat bytes @ '' B'' else show_one_decimal sz @ '' '' @ un)"

definition human_age :: "nat \<Rightarrow> string" where
  "human_age secs =
     (if secs < 60 then ''less than a minute''
      else if secs < 3600 then show_nat (secs div 60) @ '' minute(s)''
      else if secs < 86400 then show_nat (secs div 3600) @ '' hour(s)''
      else show_nat (secs div 86400) @ '' day(s)'')"

definition file_facts_as_active_user :: "(string \<Rightarrow> string) \<Rightarrow> bool \<Rightarrow> string \<Rightarrow> inspection \<Rightarrow> string" where
  "file_facts_as_active_user u win path i = (case i of
     NotLocal \<Rightarrow> ''This path is not a plain local file path. Eir refuses reparse, relative, and network paths, so nothing is previewed or deleted.''
   | Metadata m \<Rightarrow>
       if fm_dir m then ''This path is a DIRECTORY, not a file. Eir refuses to delete directories, so this action would be rejected at execution.''
       else join [newline]
         ([''Size: '' @ human_size (fm_len m)] @
          (case fm_modified m of
             None \<Rightarrow> []
           | Some (stamp, age) \<Rightarrow>
               [''Last modified: '' @ stamp @ '' UTC'' @
                (case age of None \<Rightarrow> [] | Some secs \<Rightarrow> '' ('' @ human_age secs @ '' ago)'')]) @
          (if fm_readonly m then [''Marked read-only.''] else []) @
          [classify_file u win path])
   | _ \<Rightarrow> ''This file does not currently exist (it may already be gone, or the path is wrong). Nothing would be deleted.'')"

text \<open>A network path is answered before the file system is asked.\<close>

definition file_facts :: "(string \<Rightarrow> string) \<Rightarrow> bool \<Rightarrow> (string \<Rightarrow> inspection) \<Rightarrow> string \<Rightarrow> string" where
  "file_facts u win inspect path =
     (if is_network_path path then
        ''This is a network/UNC path. Eir refuses network paths, so this action would be rejected '' @ emdash @
        '' nothing is previewed or deleted.''
      else if inspect path = NoUserToken then
        ''Eir cannot inspect this file without the active desktop user'' @ apos @
        ''s access token. Nothing is previewed or deleted.''
      else file_facts_as_active_user u win path (inspect path))"

definition target_details :: "(string \<Rightarrow> string) \<Rightarrow> bool \<Rightarrow> (string \<Rightarrow> inspection option) \<Rightarrow> fix_action \<Rightarrow> string" where
  "target_details u win inspect a = (case a of
     FileDelete path \<Rightarrow>
       (if inspect path = None \<and> \<not> is_network_path path
        then ''Eir could not inspect this file. Nothing is previewed or deleted.''
        else file_facts u win (\<lambda>p. case inspect p of Some i \<Rightarrow> i | None \<Rightarrow> NoUserToken) path)
   | PowerShellDiagnostic text \<Rightarrow> ''Script to run:'' @ newline # text
   | _ \<Rightarrow> [])"

section \<open>Properties\<close>

text \<open>The parts of an action that decide what it touches and that its card has to show.\<close>

definition named_targets :: "fix_action \<Rightarrow> string list" where
  "named_targets a = (case a of
     ServiceRestart s \<Rightarrow> [s] | ServiceStop s \<Rightarrow> [s] | ServiceStart s \<Rightarrow> [s] | LogCleanup p d \<Rightarrow> [p]
   | DiskCleanup t \<Rightarrow> [t] | TaskDisable t \<Rightarrow> [t] | TaskEnable t \<Rightarrow> [t] | RegistryReset k v d \<Rightarrow> [k, v, d]
   | DriverDisable d \<Rightarrow> [d] | DriverEnable d \<Rightarrow> [d] | SoftwareUninstall p \<Rightarrow> [p] | BcdEdit e v \<Rightarrow> [e, v]
   | ProcessKill p \<Rightarrow> [p] | FileDelete p \<Rightarrow> [p] | FirewallEnable p \<Rightarrow> [p] | StartupSet n l h e \<Rightarrow> [n]
   | _ \<Rightarrow> [])"

text \<open>The actions whose effect the service itself can take back.\<close>

definition undoable :: "(string \<Rightarrow> string) \<Rightarrow> fix_action \<Rightarrow> bool" where
  "undoable u a = (case a of
     LogCleanup _ _ \<Rightarrow> False | DiskCleanup _ \<Rightarrow> False | PowerShellDiagnostic _ \<Rightarrow> False
   | SoftwareUninstall _ \<Rightarrow> False | BcdEdit _ _ \<Rightarrow> False | ProcessKill _ \<Rightarrow> False | FileDelete _ \<Rightarrow> False
   | SfcScan \<Rightarrow> False | DismRestoreHealth \<Rightarrow> False
   | NetworkDiagnostic c \<Rightarrow> to_lowercase u c \<in> {''flush_dns'', ''release_renew''}
   | _ \<Rightarrow> True)"

lemma contains_quoted: "contains_str (quoted s) (a @ quoted s @ b)"
  by (rule contains_str_append)

lemma with_target_first_line_summary [simp]:
  "ex_summary (with_target_first_line e l) = ex_summary e"
  "ex_reversible (with_target_first_line e l) = ex_reversible e"
  by (auto simp: with_target_first_line_def Let_def split: list.split)

lemma explain_undoable: "ex_reversible (explain u win a) = undoable u a"
  by (cases a) (simp_all add: explain_def undoable_def explain_network_def Let_def)

lemma explain_names: "t \<in> set (named_targets a) \<Longrightarrow> contains_str (quoted t) (ex_summary (explain u win a))"
  unfolding explain_def named_targets_def
  by (cases a; simp only: fix_action.case set_simps insert_iff empty_iff simp_thms explanation.select_convs if_split)
    (blast intro: contains_quoted contains_str_left contains_str_prefix)+

text \<open>
  the card a user approves is complete and honest: it quotes every parameter that decides
  what the action touches, shows a script in full, calls an action reversible exactly when
  the service can take its effect back, and the preview of a network path is the same
  whatever the file system would answer, so nothing on the network is looked at before
  the user decides.
\<close>

theorem approval_card_complete:
  assumes "is_network_path p"
  shows "(\<forall>t \<in> set (named_targets a). contains_str (quoted t) (ex_summary (explain u win a))) \<and>
    ex_reversible (explain u win a) = undoable u a \<and>
    contains_str s (target_details u win inspect (PowerShellDiagnostic s)) \<and>
    target_details u win inspect (FileDelete p) = target_details u win inspect' (FileDelete p)"
proof (intro conjI ballI)
  show "contains_str s (target_details u win inspect (PowerShellDiagnostic s))"
    using contains_str_append [of s "''Script to run:'' @ [newline]" "[]"] by (simp add: target_details_def)
  show "target_details u win inspect (FileDelete p) = target_details u win inspect' (FileDelete p)"
    using assms by (simp add: target_details_def file_facts_def)
qed (rule explain_names explain_undoable, assumption?)+

lemma approval_card_complete_witness:
  "target_details id True (\<lambda>p. None) (FileDelete ''//host/share'') =
   target_details id True (\<lambda>p. Some NotFound) (FileDelete ''//host/share'')"
proof -
  have "is_network_path (CHR ''/'' # CHR ''/'' # ''host/share'')" by (rule is_network_path_unc) (simp_all add: is_sep_def)
  from approval_card_complete [OF this] show ?thesis by blast
qed

end
