(* ===== verification/Gate.thy ===== *)
theory Gate
  imports Approval_Store Prefs Policy Learn_Apply Explain
begin

text \<open>
  The decision loop's gate (\<open>main.rs\<close>): how a problem the model reports, a click of the user
  or a restart turns into an executed action. The world is the loop's state together with
  the durable store, the preference and rejection tables, the executor's queue of jobs, the
  job it runs, and the outcomes on their way back to the loop.

  Every call that can fail (a query, a transaction, a send to a worker that is gone) takes
  its answer from the record \<open>io\<close>, so a handler is a function of the world and of what
  the outside answered; \<open>now\<close> is the clock at the call.
\<close>

section \<open>State\<close>

record problem_summary =
  ps_diagnosis :: string
  ps_confidence :: fnum
  ps_action :: string
  ps_blocked :: bool
  ps_auto_executed :: bool
  ps_reason :: "string option"
  ps_at :: int

record execution_summary =
  es_action :: string
  es_success :: bool
  es_preview :: string
  es_at :: int
  es_undo :: "int option"

record svc_state =
  paused :: bool
  gaming_manual :: bool
  gaming_until :: int
  recent_problems :: "problem_summary list"
  recent_executions :: "execution_summary list"
  pending :: "pending_approval list"
  in_flight :: "string set"
  svc_status :: string
  svc_error :: "string option"
  preferences_view :: "(string \<times> pref_row) list"

record exec_job =
  ej_action :: fix_action
  ej_decision :: int
  ej_baseline :: system_state
  ej_key :: string
  ej_label :: string
  ej_diagnosis :: string
  ej_confidence :: fnum
  ej_reason :: "string option"
  ej_approval :: "int option"

record exec_outcome =
  eo_key :: string
  eo_label :: string
  eo_action :: string
  eo_success :: bool
  eo_output :: string
  eo_diagnosis :: string
  eo_confidence :: fnum
  eo_reason :: "string option"
  eo_undo :: "int option"
  eo_cleared_undo :: "int option"
  eo_refresh_pending :: bool

record world =
  svc :: svc_state
  db :: store
  pref_tbl :: pref_table
  rejected :: "rejection_row list"
  jobs :: "exec_job list"
  running :: "exec_job option"
  finished :: "exec_outcome list"
  undoing :: "(int \<times> registry_undo) list"

text \<open>The libraries the handlers call: case mapping, \<open>Debug\<close> of strings and floats, serde.\<close>

record env =
  low :: "string \<Rightarrow> string"
  esc :: "string \<Rightarrow> string"
  dbg_float :: "fnum \<Rightarrow> string"
  serde :: codec
  read_json :: "string \<Rightarrow> json option"
  show_json :: "json \<Rightarrow> string"
  on_windows :: bool

record io =
  now :: instant
  log_ok :: bool
  pref_ok :: bool
  rate_ok :: bool
  insert_ok :: bool
  send_ok :: bool
  claim_ok :: bool
  delete_ok :: bool
  reject_ok :: bool
  save_ok :: bool
  list_ok :: bool
  load_stages :: nat
  load_delete_ok :: "int \<Rightarrow> bool"
  err_text :: string
  inspected :: "string \<Rightarrow> inspection option"

definition second :: instant where "second = 1000000000"

definition unix_secs :: "instant \<Rightarrow> int" where
  "unix_secs t = t div second"

section \<open>Status\<close>

definition is_gaming_at :: "svc_state \<Rightarrow> int \<Rightarrow> bool" where
  "is_gaming_at st secs = (gaming_manual st \<or> gaming_until st > secs)"

definition resting_status :: "instant \<Rightarrow> svc_state \<Rightarrow> string" where
  "resting_status t st =
     (if paused st then ''Paused''
      else if is_gaming_at st (unix_secs t) then ''Gaming''
      else if pending st \<noteq> [] then ''PendingApproval''
      else if in_flight st \<noteq> {} then ''Executing''
      else ''Active'')"

definition rest :: "instant \<Rightarrow> svc_state \<Rightarrow> svc_state" where
  "rest t st = st\<lparr>svc_status := resting_status t st\<rparr>"

text \<open>The two activity feeds keep their last 20 entries.\<close>

definition push_capped :: "'a \<Rightarrow> 'a list \<Rightarrow> 'a list" where
  "push_capped x xs = (if length xs \<ge> 20 then drop 1 xs else xs) @ [x]"

definition push_problem ::
  "instant \<Rightarrow> string \<Rightarrow> fnum \<Rightarrow> string \<Rightarrow> bool \<Rightarrow> bool \<Rightarrow> string option \<Rightarrow> svc_state \<Rightarrow> svc_state" where
  "push_problem t diag conf act blocked auto why st =
     st\<lparr>recent_problems := push_capped
          \<lparr>ps_diagnosis = diag, ps_confidence = conf, ps_action = act, ps_blocked = blocked,
           ps_auto_executed = auto, ps_reason = why, ps_at = unix_secs t\<rparr> (recent_problems st)\<rparr>"

definition push_execution ::
  "instant \<Rightarrow> string \<Rightarrow> bool \<Rightarrow> string \<Rightarrow> int option \<Rightarrow> svc_state \<Rightarrow> svc_state" where
  "push_execution t act success output undo_id st =
     st\<lparr>recent_executions := push_capped
          \<lparr>es_action = act, es_success = success, es_preview = take_chars 120 output, es_at = unix_secs t,
           es_undo = undo_id\<rparr> (recent_executions st)\<rparr>"

section \<open>Reasons\<close>

text \<open>\<open>{:.0}\<close> of a percentage, as the standard library prints it (ties to even).\<close>

definition show_percent :: "fnum \<Rightarrow> string" where
  "show_percent c = (case f_mul f32 c 100 of
     Fin q \<Rightarrow> show_int (rne q) | NaN \<Rightarrow> ''NaN'' | PInf \<Rightarrow> ''inf'' | NInf \<Rightarrow> ''-inf'')"

definition reason_text :: "env \<Rightarrow> reason \<Rightarrow> string" where
  "reason_text E r = (case r of
     ActionDisabled n \<Rightarrow> ''Action '' @ quoted n @ '' is disabled by policy''
   | NetworkPath p \<Rightarrow> ''Refusing '' @ quoted p @ '' '' @ emdash @ '' network/UNC paths are not allowed''
   | ServiceBlocked s \<Rightarrow> ''Service '' @ quoted s @ '' is on the blocklist''
   | PathBlocked p \<Rightarrow> ''Path '' @ quoted p @ '' is on the blocklist''
   | RegistryPathBlocked k \<Rightarrow> ''Registry path '' @ quoted k @ '' is on the blocklist''
   | TaskBlocked t \<Rightarrow> ''Scheduled task '' @ quoted t @ '' is on the blocklist''
   | InvalidConfidence c \<Rightarrow> ''Invalid confidence value: '' @ dbg_float E c
   | InvalidThreshold t \<Rightarrow> ''Invalid policy confidence threshold: '' @ dbg_float E t
   | BelowThreshold c t \<Rightarrow> ''Confidence '' @ show_percent c @ ''% below threshold '' @ show_percent t @ ''%''
   | NotWhitelisted n \<Rightarrow> ''Action '' @ quoted n @ '' needs approval (not auto-executed)'')"

section \<open>Shared steps of the handlers\<close>

abbreviation key_of :: "env \<Rightarrow> fix_action \<Rightarrow> string" where
  "key_of E a \<equiv> dedup_key (low E) a"

definition on_svc :: "(svc_state \<Rightarrow> svc_state) \<Rightarrow> world \<Rightarrow> world" where
  "on_svc f w = w\<lparr>svc := f (svc w)\<rparr>"

definition rate_check :: "env \<Rightarrow> execution_policy \<Rightarrow> io \<Rightarrow> store \<Rightarrow> fix_action \<Rightarrow> bool option" where
  "rate_check E pol i d a =
     (if rate_ok i
      then Some (rate_limited (low E) (esc E) (executions d) a (rate_limit_mins (execution pol)) (now i))
      else None)"

text \<open>The semantic key of an action is busy while it runs or waits for approval.\<close>

definition busy :: "env \<Rightarrow> svc_state \<Rightarrow> fix_action \<Rightarrow> bool" where
  "busy E st a =
     (key_of E a \<in> in_flight st \<or> list_ex (\<lambda>p. key_of E (pa_action p) = key_of E a) (pending st))"

text \<open>Handing a job to the executor: the key is marked first and unmarked when the send fails.\<close>

definition send_job :: "io \<Rightarrow> exec_job \<Rightarrow> world \<Rightarrow> bool \<times> world" where
  "send_job i j w =
     (let w1 = on_svc (\<lambda>st. st\<lparr>in_flight := insert (ej_key j) (in_flight st)\<rparr>) w in
      if send_ok i then (True, w1\<lparr>jobs := jobs w1 @ [j]\<rparr>)
      else (False, on_svc (\<lambda>st. st\<lparr>in_flight := in_flight st - {ej_key j}\<rparr>) w1))"

definition insert_approval ::
  "env \<Rightarrow> io \<Rightarrow> int \<Rightarrow> fix_action \<Rightarrow> approval_info \<Rightarrow> system_state \<Rightarrow> store \<Rightarrow> (int \<times> store) option" where
  "insert_approval E i d a info base s =
     (if insert_ok i then insert_pending_approval (low E) (serde E) d a info base (now i) s else None)"

section \<open>Problems the model reports\<close>

definition adjusted_confidence :: "env \<Rightarrow> learned_facts \<Rightarrow> problem \<Rightarrow> fix_action \<Rightarrow> fnum" where
  "adjusted_confidence E lf p a =
     f_max (f_sub f32 (confidence p) (confidence_penalty lf (debug_action (esc E) a) (key_of E a))) (Fin 0)"

text \<open>
  The verdict after the user's standing preference: \<open>None\<close> when the user ignores the fix; an
  Always Approve counts only for actions whose key says what would run. Blocks stay blocks.
\<close>

definition preferred_verdict :: "env \<Rightarrow> io \<Rightarrow> pref_table \<Rightarrow> fix_action \<Rightarrow> verdict \<Rightarrow> verdict option" where
  "preferred_verdict E i prefs a v = (case v of
     RequireApproval r \<Rightarrow>
       (if \<not> pref_ok i then Some v
        else (case get_preference (key_of E a) prefs of
          Inl _ \<Rightarrow> Some v
        | Inr None \<Rightarrow> Some v
        | Inr (Some Ignore) \<Rightarrow> None
        | Inr (Some AlwaysApprove) \<Rightarrow> if can_always_approve a then Some AutoApprove else Some v))
   | _ \<Rightarrow> Some v)"

definition approval_card ::
  "env \<Rightarrow> io \<Rightarrow> string \<Rightarrow> string \<Rightarrow> fnum \<Rightarrow> fix_action \<Rightarrow> string \<Rightarrow> string \<Rightarrow> string \<Rightarrow> approval_info" where
  "approval_card E i diag cause conf a reason effects undo =
     (let e = explain (low E) (on_windows E) a in
      \<lparr>ai_id = 0, ai_diagnosis = diag, ai_root_cause = cause, ai_confidence = conf,
       ai_action = debug_action (esc E) a, ai_reason = reason, ai_side_effects = effects,
       ai_undo_instructions = undo, ai_action_summary = ex_summary e, ai_target = ex_target e,
       ai_target_details = target_details (low E) (on_windows E) (inspected i) a,
       ai_reversible = ex_reversible e, ai_created_at = unix_secs (now i)\<rparr>)"

definition queue_card :: "pending_approval \<Rightarrow> svc_state \<Rightarrow> svc_state" where
  "queue_card p st = st\<lparr>pending := pending st @ [p]\<rparr>"

definition auto_run ::
  "env \<Rightarrow> execution_policy \<Rightarrow> int \<Rightarrow> system_state \<Rightarrow> io \<Rightarrow> problem \<Rightarrow> fix_action \<Rightarrow> world \<Rightarrow> world" where
  "auto_run E pol d base i p a w =
     (case rate_check E pol i (db w) a of
        None \<Rightarrow> w
      | Some True \<Rightarrow> w
      | Some False \<Rightarrow>
          (if busy E (svc w) a then w
           else (let (sent, w') = send_job i
                   \<lparr>ej_action = a, ej_decision = d, ej_baseline = base, ej_key = key_of E a,
                    ej_label = debug_action (esc E) a, ej_diagnosis = diagnosis p,
                    ej_confidence = confidence p, ej_reason = None, ej_approval = None\<rparr> w
                 in if sent then on_svc (\<lambda>st. st\<lparr>svc_status := ''Executing''\<rparr>) w'
                    else on_svc (\<lambda>st. st\<lparr>svc_error := Some ''Executor is unavailable; the fix was not started''\<rparr>) w')))"

definition ask_user ::
  "env \<Rightarrow> int \<Rightarrow> system_state \<Rightarrow> io \<Rightarrow> problem \<Rightarrow> fix_action \<Rightarrow> string \<Rightarrow> world \<Rightarrow> world" where
  "ask_user E d base i p a reason w =
     (if busy E (svc w) a then w
      else
        (let info = approval_card E i (diagnosis p) (root_cause p) (confidence p) a reason
                      (side_effects p) (problem.undo_instructions p)
         in case insert_approval E i d a info base (db w) of
              Some (row, s) \<Rightarrow>
                on_svc (\<lambda>st. (queue_card \<lparr>pa_info = info\<lparr>ai_id := row\<rparr>, pa_action = a, pa_decision = d,
                                        pa_baseline = base\<rparr> st)\<lparr>svc_status := ''PendingApproval''\<rparr>)
                  (w\<lparr>db := s\<rparr>)
            | None \<Rightarrow>
                on_svc (push_problem (now i) (diagnosis p) (confidence p) (debug_action (esc E) a) True False
                          (Some (''could not queue for approval: '' @ err_text i))) w))"

definition route_problem ::
  "env \<Rightarrow> execution_policy \<Rightarrow> learned_facts \<Rightarrow> int \<Rightarrow> system_state \<Rightarrow> io \<times> problem \<Rightarrow> world \<Rightarrow> world" where
  "route_problem E pol lf d base ip w =
     (let (i, p) = ip in
      case parse_fix_action (read_json E) p of
        None \<Rightarrow> on_svc (push_problem (now i) (diagnosis p) (confidence p) (show_json E (proposed_fix p)) True False
                          (Some ''unrecognised fix action'')) w
      | Some a \<Rightarrow>
          (let conf = adjusted_confidence E lf p a in
           case preferred_verdict E i (pref_tbl w) a (evaluate (low E) pol a conf) of
             None \<Rightarrow> w
           | Some (Block r) \<Rightarrow>
               on_svc (push_problem (now i) (diagnosis p) conf (debug_action (esc E) a) True False
                         (Some (reason_text E r))) w
           | Some AutoApprove \<Rightarrow> auto_run E pol d base i p a w
           | Some (RequireApproval r) \<Rightarrow> ask_user E d base i p a (reason_text E r) w))"

text \<open>
  The loop over the problems of one analysis, after its audit row is written, and the tray
  status the arm settles on.
\<close>

definition tray_status :: "svc_state \<Rightarrow> bool \<Rightarrow> string" where
  "tray_status st problems_found =
     (if paused st then ''Paused'' else if pending st \<noteq> [] then ''PendingApproval''
      else if in_flight st \<noteq> {} then ''Executing'' else if problems_found then ''Warning'' else ''Active'')"

definition route_analysis ::
  "env \<Rightarrow> execution_policy \<Rightarrow> fact_row list option \<Rightarrow> system_state \<Rightarrow> io \<Rightarrow> (io \<times> problem) list \<Rightarrow> world \<Rightarrow> world" where
  "route_analysis E pol rows base i reported w =
     (let lf = load_facts rows;
          w = on_svc (\<lambda>st. if paused st then st else st\<lparr>svc_error := None\<rparr>) w
      in if \<not> log_ok i then w
         else (let (d, s) = log_decision (now i) (db w);
                   w = fold (route_problem E pol lf d base) reported (w\<lparr>db := s\<rparr>)
               in on_svc (\<lambda>st. if paused st then st else st\<lparr>svc_status := tray_status st (reported \<noteq> [])\<rparr>) w))"

section \<open>Actions the user asks for\<close>

text \<open>A disk cleanup or startup toggle: the same gate at full confidence; a click is always answered.\<close>

definition forced :: "bool \<Rightarrow> verdict \<Rightarrow> verdict option" where
  "forced force_approval v = (if v = AutoApprove \<and> force_approval then None else Some v)"

definition user_reason :: string where
  "user_reason = ''User-initiated change '' @ emdash @ '' confirm to apply''"

definition user_ask ::
  "env \<Rightarrow> int \<Rightarrow> io \<Rightarrow> string \<Rightarrow> fix_action \<Rightarrow> string \<Rightarrow> world \<Rightarrow> (string + string) \<times> world" where
  "user_ask E d i diag a reason w =
     (let info = approval_card E i diag [] (Fin 1) a reason [] [] in
      case insert_approval E i d a info default_state (db w) of
        Some (row, s) \<Rightarrow>
          (Inr ''Action queued for approval'',
           on_svc (queue_card \<lparr>pa_info = info\<lparr>ai_id := row\<rparr>, pa_action = a, pa_decision = d,
                               pa_baseline = default_state\<rparr>) (w\<lparr>db := s\<rparr>))
      | None \<Rightarrow>
          (Inl (''Action could not be queued for approval: '' @ err_text i),
           on_svc (push_problem (now i) diag (Fin 1) (debug_action (esc E) a) True False
                     (Some (''could not queue for approval: '' @ err_text i))) w))"

definition route_user_action ::
  "env \<Rightarrow> execution_policy \<Rightarrow> io \<Rightarrow> fix_action \<Rightarrow> string \<Rightarrow> string \<Rightarrow> bool \<Rightarrow> world \<Rightarrow> (string + string) \<times> world" where
  "route_user_action E pol i a diag reason_label force_approval w =
     (let label = debug_action (esc E) a in
      if busy E (svc w) a then (Inl ''Action is already queued or executing'', w)
      else if \<not> log_ok i then (Inl (''Action could not be recorded: '' @ err_text i), w)
      else
        (let (d, s) = log_decision (now i) (db w); w = w\<lparr>db := s\<rparr> in
         case forced force_approval (evaluate (low E) pol a (Fin 1)) of
           Some (Block r) \<Rightarrow>
             (Inl (reason_text E r),
              on_svc (rest (now i) \<circ> push_problem (now i) diag (Fin 1) label True False (Some (reason_text E r))) w)
         | Some AutoApprove \<Rightarrow>
             (case rate_check E pol i (db w) a of
                Some True \<Rightarrow>
                  (Inl ''Action was already completed recently'',
                   on_svc (push_problem (now i) diag (Fin 1) label True False
                     (Some (''Skipped '' @ emdash @ '' already done recently (rate-limited).''))) w)
              | None \<Rightarrow> (Inl (''Safety check failed: '' @ err_text i), w)
              | Some False \<Rightarrow>
                  (let (sent, w) = send_job i
                     \<lparr>ej_action = a, ej_decision = d, ej_baseline = default_state, ej_key = key_of E a,
                      ej_label = label, ej_diagnosis = diag, ej_confidence = Fin 1,
                      ej_reason = Some reason_label, ej_approval = None\<rparr> w
                   in (if sent then Inr ''Action queued'' else Inl ''Executor is unavailable'',
                       on_svc (rest (now i)) w)))
         | Some (RequireApproval r) \<Rightarrow>
             (let (res, w) = user_ask E d i diag a (reason_text E r) w in (res, on_svc (rest (now i)) w))
         | None \<Rightarrow>
             (let (res, w) = user_ask E d i diag a user_reason w in (res, on_svc (rest (now i)) w))))"

section \<open>The user's decision on a card\<close>

datatype preflight = Ready | Resolved string | Retry string

definition approved_action_ready :: "env \<Rightarrow> execution_policy \<Rightarrow> io \<Rightarrow> store \<Rightarrow> pending_approval \<Rightarrow> preflight" where
  "approved_action_ready E pol i s pa =
     (case evaluate (low E) pol (pa_action pa) (ai_confidence (pa_info pa)) of
        Block r \<Rightarrow> Resolved (''Blocked by current policy: '' @ reason_text E r)
      | _ \<Rightarrow>
          (case rate_check E pol i s (pa_action pa) of
             Some False \<Rightarrow> Ready
           | Some True \<Rightarrow> Resolved (''The same fix already ran, or failed repeatedly, in the last '' @
                             show_nat (rate_limit_mins (execution pol)) @ '' minutes'')
           | None \<Rightarrow> Retry (''Safety preflight failed: '' @ err_text i)))"

definition drop_card :: "int \<Rightarrow> svc_state \<Rightarrow> svc_state" where
  "drop_card i st = st\<lparr>pending := filter (\<lambda>p. ai_id (pa_info p) \<noteq> i) (pending st)\<rparr>"

definition delete_row :: "io \<Rightarrow> int \<Rightarrow> world \<Rightarrow> world" where
  "delete_row i aid w = (if delete_ok i then w\<lparr>db := delete_pending_approval aid (db w)\<rparr> else w)"

definition claim :: "env \<Rightarrow> io \<Rightarrow> int \<Rightarrow> bool \<Rightarrow> store \<Rightarrow> (unit + pending_approval option) \<times> store" where
  "claim E i aid approved s =
     (if claim_ok i then claim_pending_approval (serde E) aid approved (now i) s else (Inl (), s))"

definition approval_job :: "env \<Rightarrow> pending_approval \<Rightarrow> int \<Rightarrow> string \<Rightarrow> exec_job" where
  "approval_job E pa aid reason =
     \<lparr>ej_action = pa_action pa, ej_decision = pa_decision pa, ej_baseline = pa_baseline pa,
      ej_key = key_of E (pa_action pa), ej_label = ai_action (pa_info pa),
      ej_diagnosis = ai_diagnosis (pa_info pa), ej_confidence = ai_confidence (pa_info pa),
      ej_reason = Some reason, ej_approval = Some aid\<rparr>"

text \<open>
  A claimed and approved card: run it when the preflight passes and its key is free. A card
  that may not run any more is deleted; when the check cannot be made, or the executor is
  gone, the row stays claimed until the next start requeues it.
\<close>

definition run_approved ::
  "env \<Rightarrow> execution_policy \<Rightarrow> io \<Rightarrow> int \<Rightarrow> pending_approval \<Rightarrow> world \<Rightarrow> (string + string) \<times> world" where
  "run_approved E pol i aid pa w =
     (case approved_action_ready E pol i (db w) pa of
        Ready \<Rightarrow>
          (if key_of E (pa_action pa) \<in> in_flight (svc w)
           then (Inr ''Action is already executing'', delete_row i aid w)
           else (let (sent, w) = send_job i (approval_job E pa aid ''approved by user'') w
                 in (if sent then Inr ''Approval saved; action queued''
                     else Inl ''Executor is unavailable; approval was saved for retry'', w)))
      | Resolved reason \<Rightarrow>
          (Inl (''Action is no longer allowed by current safety policy: '' @ reason),
           on_svc (push_problem (now i) (ai_diagnosis (pa_info pa)) (ai_confidence (pa_info pa))
                     (ai_action (pa_info pa)) True False (Some reason)) (delete_row i aid w))
      | Retry reason \<Rightarrow>
          (Inl ''Approval was saved, but safety checks could not complete; it will retry after restart'',
           on_svc (\<lambda>st. st\<lparr>svc_error := Some reason\<rparr>) w))"

definition reject_card :: "env \<Rightarrow> io \<Rightarrow> int \<Rightarrow> pending_approval \<Rightarrow> world \<Rightarrow> world" where
  "reject_card E i aid pa w =
     (let w = (if reject_ok i
               then w\<lparr>rejected := record_rejection (pa_decision pa) (ai_action (pa_info pa))
                                     (key_of E (pa_action pa)) (now i) (rejected w)\<rparr>
               else w);
          w = on_svc (push_problem (now i) (ai_diagnosis (pa_info pa)) (ai_confidence (pa_info pa))
                        (ai_action (pa_info pa)) False False (Some ''rejected by user'')) w
      in delete_row i aid w)"

definition clear_error_if :: "bool \<Rightarrow> svc_state \<Rightarrow> svc_state" where
  "clear_error_if ok st = (if \<not> paused st \<and> ok then st\<lparr>svc_error := None\<rparr> else st)"

definition is_ok :: "'a + 'b \<Rightarrow> bool" where
  "is_ok r = (case r of Inl _ \<Rightarrow> False | Inr _ \<Rightarrow> True)"

definition handle_approve ::
  "env \<Rightarrow> execution_policy \<Rightarrow> io \<Rightarrow> int \<Rightarrow> bool \<Rightarrow> world \<Rightarrow> (string + string) \<times> world" where
  "handle_approve E pol i aid approved w =
     (let (got, s) = claim E i aid approved (db w);
          (res, w) =
            (case got of
               Inr (Some pa) \<Rightarrow>
                 (let w = on_svc (drop_card aid) (w\<lparr>db := s\<rparr>);
                      (res, w) = (if approved then run_approved E pol i aid pa w
                                  else (Inr ''Action rejected'', reject_card E i aid pa w))
                  in (res, on_svc (clear_error_if (is_ok res)) w))
             | Inr None \<Rightarrow> (Inl ''Approval is stale or already resolved'', w)
             | Inl _ \<Rightarrow>
                 (Inl (''Approval decision could not be saved: '' @ err_text i),
                  on_svc (\<lambda>st. st\<lparr>svc_error := Some (''Could not save approval decision: '' @ err_text i)\<rparr>) w))
      in (res, on_svc (rest (now i)) w))"

section \<open>Standing preferences\<close>

definition refresh_preferences :: "io \<Rightarrow> world \<Rightarrow> world" where
  "refresh_preferences i w =
     on_svc (\<lambda>st. st\<lparr>preferences_view := (if list_ok i then list_preferences (pref_tbl w) else [])\<rparr>) w"

definition ignore_card :: "io \<Rightarrow> int \<Rightarrow> pending_approval \<Rightarrow> world \<Rightarrow> (string + string) \<times> world" where
  "ignore_card i aid pa w =
     (let w = delete_row i aid (on_svc (drop_card aid) w);
          w = on_svc (push_problem (now i) (ai_diagnosis (pa_info pa)) (ai_confidence (pa_info pa))
                (ai_action (pa_info pa)) False False
                (Some (''ignored by user '' @ emdash @ '' will not ask again''))) w
      in (Inr ''Fix ignored; it will not ask again'', on_svc (clear_error_if True) w))"

definition run_always_approved ::
  "env \<Rightarrow> execution_policy \<Rightarrow> io \<Rightarrow> int \<Rightarrow> pending_approval \<Rightarrow> world \<Rightarrow> (string + string) \<times> world" where
  "run_always_approved E pol i aid pa w =
     (case approved_action_ready E pol i (db w) pa of
        Ready \<Rightarrow>
          (if key_of E (pa_action pa) \<in> in_flight (svc w)
           then (Inr ''Always approved; action is already executing'', delete_row i aid w)
           else (let (sent, w) = send_job i (approval_job E pa aid ''always approved by user'') w
                 in (if sent then Inr ''Always approved; action queued''
                     else Inl ''Executor is unavailable; preference was saved'', w)))
      | Resolved reason \<Rightarrow>
          (Inl (''Preference saved, but this action is no longer allowed by current safety policy: '' @ reason),
           delete_row i aid w)
      | Retry reason \<Rightarrow>
          (Inl (''Preference saved; safety checks could not complete '' @ emdash @ '' it will retry after restart''),
           on_svc (\<lambda>st. st\<lparr>svc_error := Some reason\<rparr>) w))"

definition always_approve_card ::
  "env \<Rightarrow> execution_policy \<Rightarrow> io \<Rightarrow> int \<Rightarrow> world \<Rightarrow> (string + string) \<times> world" where
  "always_approve_card E pol i aid w =
     (let (got, s) = claim E i aid True (db w);
          (res, w) =
            (case got of
               Inr (Some pa) \<Rightarrow> run_always_approved E pol i aid pa (on_svc (drop_card aid) (w\<lparr>db := s\<rparr>))
             | Inr None \<Rightarrow> (Inl ''Approval is stale or already resolved'', w)
             | Inl _ \<Rightarrow> (Inl (''Preference saved, but approval could not be claimed: '' @ err_text i), w))
      in (res, on_svc (clear_error_if (is_ok res)) w))"

definition save_preference ::
  "env \<Rightarrow> io \<Rightarrow> preference \<Rightarrow> pending_approval \<Rightarrow> world \<Rightarrow> world option" where
  "save_preference E i pref pa w =
     (let summary = (if trim (ai_action_summary (pa_info pa)) = [] then ai_action (pa_info pa)
                     else ai_action_summary (pa_info pa))
      in if \<not> save_ok i then None
         else (case set_preference (key_of E (pa_action pa)) pref summary (ai_target (pa_info pa)) (now i) (pref_tbl w) of
                 Inl _ \<Rightarrow> None
               | Inr t \<Rightarrow> Some (w\<lparr>pref_tbl := t\<rparr>)))"

definition handle_set_preference ::
  "env \<Rightarrow> execution_policy \<Rightarrow> io \<Rightarrow> int \<Rightarrow> string \<Rightarrow> world \<Rightarrow> (string + string) \<times> world" where
  "handle_set_preference E pol i aid token w =
     (let (res, w) =
        (case (from_token (trim token), find (\<lambda>p. ai_id (pa_info p) = aid) (pending (svc w))) of
           (None, _) \<Rightarrow> (Inl ''Preference must be ignore or always_approve'', w)
         | (_, None) \<Rightarrow> (Inl ''Approval is stale or already resolved'', w)
         | (Some pref, Some pa) \<Rightarrow>
             (if pref = AlwaysApprove \<and> \<not> can_always_approve (pa_action pa)
              then (Inl (''A script is written afresh each time, so it can'' @ apos @
                         ''t be approved in advance; approve this one on its own''), w)
              else (case save_preference E i pref pa w of
                  None \<Rightarrow> (Inl (''Preference could not be saved: '' @ err_text i), w)
                | Some w \<Rightarrow>
                    (let w = refresh_preferences i w in
                     case pref of
                       Ignore \<Rightarrow> ignore_card i aid pa w
                     | AlwaysApprove \<Rightarrow> always_approve_card E pol i aid w))))
      in (res, on_svc (rest (now i)) w))"

definition handle_clear_preference :: "io \<Rightarrow> string \<Rightarrow> world \<Rightarrow> (string + string) \<times> world" where
  "handle_clear_preference i key w =
     (case (if save_ok i then clear_preference key (pref_tbl w) else Inl KeyEmpty) of
        Inr (True, t) \<Rightarrow> (Inr ''Preference cleared'', refresh_preferences i (w\<lparr>pref_tbl := t\<rparr>))
      | Inr (False, t) \<Rightarrow> (Inl ''No preference found for that action'', w\<lparr>pref_tbl := t\<rparr>)
      | Inl _ \<Rightarrow> (Inl (''Preference could not be cleared: '' @ err_text i), w))"

section \<open>The executor worker\<close>

definition REPAIR_TIMEOUT_SECS :: nat where "REPAIR_TIMEOUT_SECS = 40 * 60"

definition exec_timeout_secs :: "fix_action \<Rightarrow> nat" where
  "exec_timeout_secs a = (case a of SfcScan \<Rightarrow> REPAIR_TIMEOUT_SECS | DismRestoreHealth \<Rightarrow> REPAIR_TIMEOUT_SECS
                          | _ \<Rightarrow> 10 * 60)"

text \<open>How running the action ended, and what the calls made after it answered.\<close>

datatype exec_end = Ran execution_result | Panicked | TimedOut

record exec_io =
  fin_now :: instant
  commit_ok :: bool
  commit_err :: string
  rollback :: "string + string"
  recommit_ok :: bool
  recommit_err :: string

definition failed_result :: "string \<Rightarrow> string \<Rightarrow> execution_result" where
  "failed_result label output =
     \<lparr>res_action = label, res_success = False, res_output = output, res_undo = None\<rparr>"

definition end_result :: "exec_job \<Rightarrow> exec_end \<Rightarrow> execution_result \<times> bool" where
  "end_result j e = (case e of
     Ran r \<Rightarrow> (r, False)
   | Panicked \<Rightarrow> (failed_result (ej_label j) ''execution task panicked'', True)
   | TimedOut \<Rightarrow> (failed_result (ej_label j) (''execution exceeded '' @
                   show_nat (exec_timeout_secs (ej_action j) div 60) @ ''m and was abandoned''), True))"

definition commit ::
  "env \<Rightarrow> bool \<Rightarrow> instant \<Rightarrow> exec_job \<Rightarrow> execution_result \<Rightarrow> bool \<Rightarrow> store \<Rightarrow> (persisted_execution \<times> store) option" where
  "commit E ok t j r requeue s =
     (if ok then persist_execution (low E) (ej_decision j) (ej_action j) r (ej_approval j) requeue t s else None)"

text \<open>
  After the action: one transaction records the execution, the undo and the approval's fate.
  When it fails after a registry write, the write is rolled back; the result says what
  happened to it.
\<close>

definition rolled_back :: "exec_io \<Rightarrow> execution_result \<Rightarrow> string \<Rightarrow> execution_result" where
  "rolled_back x r out =
     \<lparr>res_action = res_action r, res_success = False,
      res_output = ''Registry reset was rolled back because its undo could not be stored ('' @
        commit_err x @ ''): '' @ out,
      res_undo = None\<rparr>"

definition roll_back ::
  "env \<Rightarrow> exec_io \<Rightarrow> exec_job \<Rightarrow> execution_result \<Rightarrow> store
     \<Rightarrow> execution_result \<times> bool \<times> persisted_execution option \<times> store" where
  "roll_back E x j r s =
     (case res_undo r of
        None \<Rightarrow> (r\<lparr>res_success := False, res_output := ''Registry reset ran, but no exact undo was available ('' @
                  commit_err x @ ''); the approved action was retained for recovery''\<rparr>, False, None, s)
      | Some _ \<Rightarrow>
          (case rollback x of
             Inl e \<Rightarrow>
               (r\<lparr>res_success := False, res_undo := None,
                  res_output := ''Registry reset ran, but its undo could not be stored ('' @ commit_err x @
                    '') and automatic rollback failed ('' @ e @ ''); the approved action was retained for recovery''\<rparr>,
                False, None, s)
           | Inr out \<Rightarrow>
               (let r = rolled_back x r out;
                    requeue = (ej_approval j \<noteq> None)
                in case commit E (recommit_ok x) (fin_now x) j r requeue s of
                     Some (pe, s') \<Rightarrow> (r, requeue, Some pe, s')
                   | None \<Rightarrow> (r\<lparr>res_output := res_output r @ ''; the rollback audit could not be stored: '' @
                                recommit_err x\<rparr>, False, None, s))))"

definition record_end ::
  "env \<Rightarrow> exec_io \<Rightarrow> exec_job \<Rightarrow> exec_end \<Rightarrow> store
     \<Rightarrow> execution_result \<times> bool \<times> persisted_execution option \<times> store" where
  "record_end E x j e s =
     (let (r, synthetic) = end_result j e; requeue = (synthetic \<and> ej_approval j \<noteq> None)
      in case commit E (commit_ok x) (fin_now x) j r requeue s of
           Some (pe, s') \<Rightarrow> (r, requeue, Some pe, s')
         | None \<Rightarrow>
             (if res_success r \<and> is_registry_reset (ej_action j) then roll_back E x j r s
              else (r\<lparr>res_output := res_output r @ ''; execution audit and approval transition failed: '' @
                      commit_err x\<rparr>, False, None, s)))"

definition outcome_of :: "exec_job \<Rightarrow> execution_result \<Rightarrow> bool \<Rightarrow> persisted_execution option \<Rightarrow> exec_outcome" where
  "outcome_of j r refresh pe =
     \<lparr>eo_key = ej_key j, eo_label = ej_label j, eo_action = res_action r, eo_success = res_success r,
      eo_output = res_output r, eo_diagnosis = ej_diagnosis j, eo_confidence = ej_confidence j,
      eo_reason = ej_reason j, eo_undo = (case pe of Some c \<Rightarrow> pe_undo c | None \<Rightarrow> None),
      eo_cleared_undo = None, eo_refresh_pending = refresh\<rparr>"

definition worker_take :: "world \<Rightarrow> world" where
  "worker_take w = (case (running w, jobs w) of
     (None, j # js) \<Rightarrow> w\<lparr>jobs := js, running := Some j\<rparr>
   | _ \<Rightarrow> w)"

definition worker_finish :: "env \<Rightarrow> exec_io \<Rightarrow> exec_end \<Rightarrow> world \<Rightarrow> world" where
  "worker_finish E x e w = (case running w of
     None \<Rightarrow> w
   | Some j \<Rightarrow>
       (let (r, refresh, pe, s) = record_end E x j e (db w)
        in w\<lparr>running := None, db := s, finished := finished w @ [outcome_of j r refresh pe]\<rparr>))"

section \<open>Folding an outcome back\<close>

definition retire_undo :: "int option \<Rightarrow> execution_summary list \<Rightarrow> execution_summary list" where
  "retire_undo c xs = (case c of None \<Rightarrow> xs
     | Some cid \<Rightarrow> map (\<lambda>x. if es_undo x = Some cid then x\<lparr>es_undo := None\<rparr> else x) xs)"

definition reload_pending :: "env \<Rightarrow> io \<Rightarrow> world \<Rightarrow> world" where
  "reload_pending E i w =
     (case load_pending_approvals (low E) (serde E) (load_stages i) (load_delete_ok i) (db w) of
        (Some ps, s) \<Rightarrow> on_svc (\<lambda>st. st\<lparr>pending := ps\<rparr>) (w\<lparr>db := s\<rparr>)
      | (None, s) \<Rightarrow> w\<lparr>db := s\<rparr>)"

definition exec_done :: "env \<Rightarrow> io \<Rightarrow> world \<Rightarrow> world" where
  "exec_done E i w = (case finished w of
     [] \<Rightarrow> w
   | o1 # os \<Rightarrow>
       (let w = on_svc (\<lambda>st. st\<lparr>in_flight := in_flight st - {eo_key o1}\<rparr>) (w\<lparr>finished := os\<rparr>);
            w = (if eo_refresh_pending o1 then reload_pending E i w else w);
            w = on_svc (\<lambda>st. st\<lparr>recent_executions := retire_undo (eo_cleared_undo o1) (recent_executions st)\<rparr>) w;
            w = on_svc (push_execution (now i) (eo_action o1) (eo_success o1) (eo_output o1) (eo_undo o1)) w;
            w = on_svc (push_problem (now i) (eo_diagnosis o1) (eo_confidence o1) (eo_label o1) False True
                          (eo_reason o1)) w
        in on_svc (rest (now i)) w))"

section \<open>Registry undo\<close>

definition handle_undo :: "io \<Rightarrow> int \<Rightarrow> world \<Rightarrow> (string + string) \<times> world" where
  "handle_undo i uid w =
     (if \<not> claim_ok i then (Inl (''Undo could not start: '' @ err_text i), w)
      else (case claim_registry_undo uid (db w) of
              (Some un, s) \<Rightarrow> (Inr ''Registry undo started'', w\<lparr>db := s, undoing := undoing w @ [(uid, un)]\<rparr>)
            | (None, s) \<Rightarrow> (Inl ''Undo is missing or already claimed'', w\<lparr>db := s\<rparr>)))"

text \<open>One of the undos under way ends with the restore's answer; a failed one gives its claim back.\<close>

definition undo_outcome :: "int \<Rightarrow> registry_undo \<Rightarrow> string + string \<Rightarrow> exec_outcome" where
  "undo_outcome uid un answer =
     (let label = ''Undo registry '' @ undo_key_path un @ backslash # undo_value_name un
      in \<lparr>eo_key = [], eo_label = label, eo_action = label, eo_success = is_ok answer,
          eo_output = (case answer of Inr m \<Rightarrow> m | Inl e \<Rightarrow> e),
          eo_diagnosis = ''User-requested undo of a registry change'', eo_confidence = Fin 1,
          eo_reason = Some ''undo by user'', eo_undo = None,
          eo_cleared_undo = (if is_ok answer then Some uid else None), eo_refresh_pending = False\<rparr>)"

definition undo_finish :: "io \<Rightarrow> nat \<Rightarrow> string + string \<Rightarrow> world \<Rightarrow> world" where
  "undo_finish i n answer w =
     (if n < length (undoing w) then
        (let (uid, un) = undoing w ! n;
             s = (if \<not> is_ok answer \<and> delete_ok i then unclaim_registry_undo uid (db w) else db w)
         in w\<lparr>db := s, undoing := take n (undoing w) @ drop (Suc n) (undoing w),
              finished := finished w @ [undo_outcome uid un answer]\<rparr>)
      else w)"

section \<open>Controls\<close>

definition I64_MAX :: int where "I64_MAX = 2 ^ 63 - 1"

definition saturating_add :: "int \<Rightarrow> int \<Rightarrow> int" where
  "saturating_add a b = max (- (2 ^ 63)) (min I64_MAX (a + b))"

definition GAMING_LEASE_SECS :: int where "GAMING_LEASE_SECS = 90"

definition apply_set_gaming :: "svc_state \<Rightarrow> bool \<Rightarrow> bool \<Rightarrow> int \<Rightarrow> int \<Rightarrow> svc_state" where
  "apply_set_gaming st on manual secs lease =
     (if manual then
        (let st = st\<lparr>gaming_manual := on\<rparr> in if on then st else st\<lparr>gaming_until := 0\<rparr>)
      else st\<lparr>gaming_until := (if on then saturating_add secs lease else 0)\<rparr>)"

text \<open>The power-plan edges sent to the game-mode worker: (boost wanted, entering).\<close>

definition gaming_edges :: "bool \<Rightarrow> bool \<Rightarrow> bool \<Rightarrow> (bool \<times> bool) list" where
  "gaming_edges boost was is_now =
     (if \<not> was \<and> is_now then [(boost, True)] else if was \<and> \<not> is_now then [(False, False)] else [])"

definition handle_set_gaming ::
  "instant \<Rightarrow> bool \<Rightarrow> bool \<Rightarrow> bool \<Rightarrow> svc_state \<Rightarrow> (bool \<times> bool) list \<times> string \<times> svc_state" where
  "handle_set_gaming t boost on manual st =
     (let secs = unix_secs t;
          was = is_gaming_at st secs;
          st = apply_set_gaming st on manual secs GAMING_LEASE_SECS;
          is_now = is_gaming_at st secs
      in (gaming_edges boost was is_now,
          (if is_now then ''Game Mode enabled'' else ''Game Mode disabled''),
          rest t st))"

definition toggle_pause :: "instant \<Rightarrow> svc_state \<Rightarrow> string \<times> svc_state" where
  "toggle_pause t st =
     (let st = rest t (st\<lparr>paused := \<not> paused st\<rparr>)
      in (if paused st then ''Monitoring paused'' else ''Monitoring resumed'', st))"

definition clear_problems :: "svc_state \<Rightarrow> svc_state" where
  "clear_problems st = st\<lparr>recent_problems := []\<rparr>"

definition clear_executions :: "svc_state \<Rightarrow> svc_state" where
  "clear_executions st = st\<lparr>recent_executions := []\<rparr>"

definition refresh_status :: "instant \<Rightarrow> svc_state \<Rightarrow> svc_state" where
  "refresh_status t st = (if svc_status st \<noteq> ''Error'' then rest t st else st)"

text \<open>Whether a scheduled update cycle starts now.\<close>

definition updater_due :: "bool \<Rightarrow> int \<Rightarrow> int \<Rightarrow> bool \<Rightarrow> svc_state \<Rightarrow> int \<Rightarrow> bool" where
  "updater_due enabled interval_secs last_run updater_running st secs =
     (enabled \<and> \<not> paused st \<and> \<not> updater_running \<and> \<not> is_gaming_at st secs \<and>
      (last_run = 0 \<or> saturating_add secs (- last_run) \<ge> interval_secs))"

section \<open>Start\<close>

text \<open>
  A restart: the loop's memory and the executor's queue are gone, the tables stay. Approvals
  claimed before the crash are put back before the queue is read.
\<close>

definition fresh_svc :: svc_state where
  "fresh_svc = \<lparr>paused = False, gaming_manual = False, gaming_until = 0, recent_problems = [],
     recent_executions = [], pending = [], in_flight = {}, svc_status = ''Initializing'', svc_error = None,
     preferences_view = []\<rparr>"

definition clear_script_grant :: "env \<Rightarrow> io \<Rightarrow> world \<Rightarrow> world" where
  "clear_script_grant E i w =
     (case (if save_ok i then clear_always_approve (key_of E (PowerShellDiagnostic [])) (pref_tbl w) else Inl KeyEmpty) of
        Inr (_, t) \<Rightarrow> w\<lparr>pref_tbl := t\<rparr>
      | Inl _ \<Rightarrow> w)"

definition recovery_failed :: "string \<Rightarrow> svc_state \<Rightarrow> svc_state" where
  "recovery_failed e st =
     st\<lparr>svc_status := ''Error'', svc_error := Some (''Interrupted approvals could not be recovered: '' @ e)\<rparr>"

definition startup :: "env \<Rightarrow> io \<Rightarrow> bool \<Rightarrow> world \<Rightarrow> world" where
  "startup E i has_ai w =
     (let w = w\<lparr>svc := fresh_svc, jobs := [], running := None, finished := [], undoing := []\<rparr>;
          w = (if claim_ok i then w\<lparr>db := snd (requeue_claimed_approvals_on_startup (db w))\<rparr>
               else on_svc (recovery_failed (err_text i)) w);
          w = reload_pending E i w;
          w = clear_script_grant E i w;
          w = (if list_ok i then on_svc (\<lambda>st. st\<lparr>preferences_view := list_preferences (pref_tbl w)\<rparr>) w else w)
      in on_svc (\<lambda>st. if has_ai \<and> svc_error st = None then rest (now i) st else st) w)"

end
