(* ===== verification/Gate_Life.thy ===== *)
theory Gate_Life
  imports Gate
begin

text \<open>
  The life of an approval across the gate: the events of the decision loop as a step
  function on the world, and what each step does to the ids that wait for a decision, to the
  jobs that carry one, and to the keys in flight.
\<close>

section \<open>Ids in the store\<close>

definition ids_with :: "status \<Rightarrow> approval_row list \<Rightarrow> int set" where
  "ids_with st rows = {i. \<exists>r \<in> set rows. ar_id r = i \<and> ar_status r = st}"

definition waiting :: "store \<Rightarrow> int set" where
  "waiting s = ids_with Pending (approvals s)"

definition held :: "store \<Rightarrow> int set" where
  "held s = ids_with Approved (approvals s)"

lemma ids_with_snoc: "ids_with st (rows @ [r]) = (if ar_status r = st then insert (ar_id r) (ids_with st rows) else ids_with st rows)"
  by (auto simp: ids_with_def)

lemma ids_with_set_status:
  assumes "from \<noteq> to"
  shows "ids_with from (map (set_status i from to c) rows) = ids_with from rows - {i}"
    and "i \<in> ids_with from rows \<Longrightarrow> ids_with to (map (set_status i from to c) rows) = insert i (ids_with to rows)"
    and "st \<noteq> from \<Longrightarrow> st \<noteq> to \<Longrightarrow> ids_with st (map (set_status i from to c) rows) = ids_with st rows"
proof -
  have upd: "ar_id (set_status i from to c r) = ar_id r"
    "ar_status (set_status i from to c r) = (if ar_id r = i \<and> ar_status r = from then to else ar_status r)" for r
    by (simp_all add: set_status_def)
  show "ids_with from (map (set_status i from to c) rows) = ids_with from rows - {i}"
    using assms by (auto simp: ids_with_def upd split: if_splits)
  have "j \<in> ids_with to (map (set_status i from to c) rows) \<longleftrightarrow>
      (\<exists>r \<in> set rows. ar_id r = j \<and> (ar_id r = i \<and> ar_status r = from \<or> ar_status r = to))" for j
    by (auto simp: ids_with_def upd)
  then show "i \<in> ids_with from rows \<Longrightarrow> ids_with to (map (set_status i from to c) rows) = insert i (ids_with to rows)"
    by (auto simp: ids_with_def)
  show "st \<noteq> from \<Longrightarrow> st \<noteq> to \<Longrightarrow> ids_with st (map (set_status i from to c) rows) = ids_with st rows"
    by (auto simp: ids_with_def upd split: if_splits)
qed

lemma ids_with_drop: "ids_with st (filter (\<lambda>r. ar_id r \<noteq> i) rows) = ids_with st rows - {i}"
  by (auto simp: ids_with_def)

lemma ids_with_retire:
  "ids_with Approved (filter (\<lambda>r. ar_id r = i \<longrightarrow> ar_status r \<noteq> Approved) rows) = ids_with Approved rows - {i}"
  "ids_with Pending (filter (\<lambda>r. ar_id r = i \<longrightarrow> ar_status r \<noteq> Approved) rows) = ids_with Pending rows"
  by (auto simp: ids_with_def)

lemma ids_with_kept:
  "(\<And>r. ar_id (f r) = ar_id r \<and> ar_status (f r) = ar_status r) \<Longrightarrow> ids_with st (map f (filter P rows)) \<subseteq> ids_with st rows"
  by (auto simp: ids_with_def)

text \<open>Every id a row has is below the next one to be issued, and no id is issued twice.\<close>

definition ids_sound :: "store \<Rightarrow> bool" where
  "ids_sound s = (0 < next_approval s \<and> ids_ok (next_approval s) (approvals s))"

lemma ids_sound_range: "ids_sound s \<Longrightarrow> i \<in> ids_with st (approvals s) \<Longrightarrow> 0 < i \<and> i < next_approval s"
  unfolding ids_sound_def ids_ok_def ids_with_def by blast

lemma ids_sound_waiting: "ids_sound s \<Longrightarrow> i \<in> waiting s \<Longrightarrow> i < next_approval s"
  and ids_sound_held: "ids_sound s \<Longrightarrow> i \<in> held s \<Longrightarrow> i < next_approval s"
  by (simp_all add: waiting_def held_def ids_sound_range)

lemma waiting_not_held: "ids_sound s \<Longrightarrow> i \<in> waiting s \<Longrightarrow> i \<notin> held s"
proof
  assume s: "ids_sound s" and w: "i \<in> waiting s" and h: "i \<in> held s"
  obtain r r' where r: "r \<in> set (approvals s)" "ar_id r = i" "ar_status r = Pending"
    and r': "r' \<in> set (approvals s)" "ar_id r' = i" "ar_status r' = Approved"
    using w h by (auto simp: waiting_def held_def ids_with_def)
  have "inj_on ar_id (set (approvals s))" using s by (simp add: ids_sound_def ids_ok_def distinct_map)
  then have "r = r'" using r r' by (simp add: inj_on_def)
  with r r' show False by simp
qed

text \<open>What the operations of the store do to them.\<close>

lemma insert_life:
  assumes "insert_approval E i d a info b s = Some (n, s')"
  shows "n = next_approval s \<and> next_approval s' = next_approval s + 1 \<and>
    waiting s' = insert n (waiting s) \<and> held s' = held s \<and> (ids_sound s \<longrightarrow> ids_sound s')"
proof -
  have ins: "insert_pending_approval (low E) (serde E) d a info b (now i) s = Some (n, s')"
    using assms by (simp add: insert_approval_def split: if_splits)
  from ins show ?thesis
  proof (rule insert_Some)
    fix row assume row: "s' = s\<lparr>approvals := approvals s @ [row], next_approval := next_approval s + 1\<rparr>"
      "n = next_approval s" "ar_id row = n" "ar_status row = Pending"
    then have "ids_sound s \<longrightarrow> ids_sound s'" using ids_ok_snoc [of "next_approval s" "approvals s" row]
      by (auto simp: ids_sound_def)
    moreover have "waiting s' = insert n (waiting s)" "held s' = held s"
      using row by (simp_all add: waiting_def held_def ids_with_snoc)
    ultimately show ?thesis using row by simp
  qed
qed

lemma ids_sound_rows:
  assumes "ids_sound s" and "next_approval s' = next_approval s"
    and "approvals s' = map f (filter P (approvals s))" and "\<And>r. ar_id (f r) = ar_id r"
  shows "ids_sound s'"
  using assms by (auto simp: ids_sound_def ids_ok_def comp_def distinct_map_filter)

lemma claim_life:
  assumes "claim E i aid approved s = (res, s')"
  shows "next_approval s' = next_approval s \<and> (ids_sound s \<longrightarrow> ids_sound s') \<and>
    (case res of
       Inr (Some pa) \<Rightarrow> aid \<in> waiting s \<and> waiting s' = waiting s - {aid} \<and> ai_id (pa_info pa) = aid \<and>
         held s' = (if approved then insert aid (held s) else held s)
     | _ \<Rightarrow> s' = s)"
proof -
  have step: "ids_sound s \<longrightarrow> ids_sound (s\<lparr>approvals := map (set_status aid Pending to c) (approvals s)\<rparr>)" for to c
    using ids_sound_rows [of s _ "set_status aid Pending to c" "\<lambda>r. True"] by (simp add: set_status_def)
  show ?thesis
  proof (cases "claim_ok i")
    case False
    then show ?thesis using assms by (auto simp: claim_def)
  next
    case True
    let ?rows = "filter (\<lambda>r. ar_id r = aid \<and> ar_status r = Pending) (approvals s)"
    show ?thesis
    proof (cases ?rows)
      case Nil
      then show ?thesis using assms True by (auto simp: claim_def claim_pending_approval_def)
    next
      case (Cons r rs)
      then have r: "r \<in> set (approvals s)" "ar_id r = aid" "ar_status r = Pending"
        using list.set_intros(1) [of r rs] by (simp_all flip: Cons)
      show ?thesis
      proof (cases "parse_pending_approval (serde E) r")
        case None
        then show ?thesis using assms True Cons by (auto simp: claim_def claim_pending_approval_def)
      next
        case (Some pa)
        with assms True Cons have out: "res = Inr (Some pa)"
          "s' = s\<lparr>approvals := map (set_status aid Pending (if approved then Approved else Rejected) (Some (now i)))
             (approvals s)\<rparr>"
          by (auto simp: claim_def claim_pending_approval_def)
        have wait: "aid \<in> waiting s" using r by (auto simp: waiting_def ids_with_def)
        have "waiting s' = waiting s - {aid}"
          by (simp add: out waiting_def ids_with_set_status)
        moreover have "held s' = (if approved then insert aid (held s) else held s)"
          using wait by (simp add: out held_def waiting_def ids_with_set_status)
        moreover note wait
        ultimately show ?thesis using step out parse_Some [OF Some] r(2) by simp
      qed
    qed
  qed
qed

lemma delete_life:
  "next_approval (delete_pending_approval i s) = next_approval s"
  "ids_sound s \<Longrightarrow> ids_sound (delete_pending_approval i s)"
  "waiting (delete_pending_approval i s) = waiting s - {i}"
  "held (delete_pending_approval i s) = held s - {i}"
  by (simp_all add: delete_pending_approval_def delete_approval_row_def waiting_def held_def ids_sound_def
      ids_ok_filter ids_with_drop)

lemma log_life:
  assumes "log_decision t s = (d, s')"
  shows "next_approval s' = next_approval s \<and> waiting s' = waiting s \<and> held s' = held s \<and>
    ids_sound s' = ids_sound s"
  using assms by (auto simp: log_decision_def waiting_def held_def ids_sound_def)

lemma undo_life:
  "claim_registry_undo n s = (un, s') \<Longrightarrow>
     next_approval s' = next_approval s \<and> waiting s' = waiting s \<and> held s' = held s \<and> ids_sound s' = ids_sound s"
  "next_approval (unclaim_registry_undo n s) = next_approval s" "waiting (unclaim_registry_undo n s) = waiting s"
  "held (unclaim_registry_undo n s) = held s" "ids_sound (unclaim_registry_undo n s) = ids_sound s"
  by (auto simp: claim_registry_undo_def unclaim_registry_undo_def waiting_def held_def ids_sound_def
      split: list.splits)

lemma commit_life:
  assumes "commit E ok t j r rq s = Some (pe, s')"
  shows "next_approval s' = next_approval s \<and> (ids_sound s \<longrightarrow> ids_sound s') \<and>
    waiting s' = (case ej_approval j of Some i \<Rightarrow> if rq then insert i (waiting s) else waiting s | None \<Rightarrow> waiting s) \<and>
    (ids_sound s \<longrightarrow> held s' = (case ej_approval j of Some i \<Rightarrow> held s - {i} | None \<Rightarrow> held s)) \<and>
    (\<forall>i. ej_approval j = Some i \<longrightarrow> i \<in> held s)"
proof -
  have p: "persist_execution (low E) (ej_decision j) (ej_action j) r (ej_approval j) rq t s = Some (pe, s')"
    using assms by (simp add: commit_def split: if_splits)
  note ap = persist_approvals [OF p]
  show ?thesis
  proof (cases "ej_approval j")
    case None
    then show ?thesis using ap by (simp add: waiting_def held_def ids_sound_def)
  next
    case (Some i)
    have h: "i \<in> held s"
    proof -
      have "length (filter (\<lambda>r. ar_id r = i \<and> ar_status r = Approved) (approvals s)) = 1"
        using p Some by (auto simp: persist_execution_def Let_def split: if_splits option.splits prod.splits bool.splits)
      then obtain x where "x \<in> set (filter (\<lambda>r. ar_id r = i \<and> ar_status r = Approved) (approvals s))"
        by (metis One_nat_def length_greater_0_conv lessI list.set_sel(1))
      then show ?thesis by (auto simp: held_def ids_with_def)
    qed
    show ?thesis
    proof (cases rq)
      case True
      then have rows: "approvals s' = map (set_status i Approved Pending None) (filter (\<lambda>r. True) (approvals s))"
        using ap Some by (simp add: complete_row_def)
      have "ids_sound s \<longrightarrow> ids_sound s'"
        using ids_sound_rows [OF _ _ rows] ap by (simp add: set_status_def)
      moreover have "waiting s' = insert i (waiting s)"
        using rows h by (simp add: waiting_def held_def ids_with_set_status)
      moreover have "held s' = held s - {i}"
        using rows by (simp add: held_def ids_with_set_status)
      ultimately show ?thesis using True Some ap h by simp
    next
      case False
      then have rows: "approvals s' = filter (\<lambda>r. \<not> (ar_id r = i \<and> ar_status r = Approved)) (approvals s)"
        using ap Some by (simp add: complete_row_def)
      have "ids_sound s \<longrightarrow> ids_sound s'"
        using rows ap by (simp add: ids_sound_def ids_ok_filter)
      moreover have "waiting s' = waiting s" using rows by (simp add: waiting_def ids_with_retire)
      moreover have "held s' = held s - {i}" using rows by (simp add: held_def ids_with_retire)
      ultimately show ?thesis using False Some ap h by simp
    qed
  qed
qed

text \<open>Reading the queue only removes rows; the cards it returns are rows that still wait.\<close>

lemma rows_of_load:
  assumes "load_pending_approvals u cd n ok s = (res, s')"
  shows "\<exists>f P. approvals s' = map f (filter P (approvals s)) \<and> (\<forall>r. ar_id (f r) = ar_id r \<and> ar_status (f r) = ar_status r)"
proof -
  obtain P where P: "sanitize_active_approval_rows (filter (\<lambda>r. ar_status r \<noteq> Rejected) (approvals s)) =
      filter P (filter (\<lambda>r. ar_status r \<noteq> Rejected) (approvals s))"
    using sanitize_filter by blast
  define rows2 where "rows2 = filter P (filter (\<lambda>r. ar_status r \<noteq> Rejected) (approvals s))"
  obtain keep remove where kr: "split_duplicates u cd [] (by_precedence rows2) = (keep, remove)" by fastforce
  have filt: "rows2 = filter (\<lambda>r. ar_status r \<noteq> Rejected \<and> P r) (approvals s)"
    by (simp add: rows2_def filter_filter conj_commute)
  have rows3: "normalize_active_approval_keys u cd rows2 =
      map (rekey keep) (filter (\<lambda>r. ar_id r \<notin> set remove \<and> ar_status r \<noteq> Rejected \<and> P r) (approvals s))"
    using normalize_rekey [OF kr] by (simp add: filt filter_filter conj_commute)
  consider "n = 0" | "n = 1" | "n = 2" | "n = 3" | "n > 3" by linarith
  then show ?thesis
  proof cases
    case 1
    then have "approvals s' = map id (filter (\<lambda>r. True) (approvals s))" using assms by (simp add: load_pending_approvals_def)
    then show ?thesis by (intro exI conjI allI) (assumption, simp_all)
  next
    case 2
    then have "approvals s' = map id (filter (\<lambda>r. ar_status r \<noteq> Rejected) (approvals s))"
      using assms by (auto simp: load_pending_approvals_def)
    then show ?thesis by (intro exI conjI allI) (assumption, simp_all)
  next
    case 3
    then have "approvals s' = map id (filter (\<lambda>r. ar_status r \<noteq> Rejected \<and> P r) (approvals s))"
      using assms P filt by (auto simp: load_pending_approvals_def rows2_def)
    then show ?thesis by (intro exI conjI allI) (assumption, simp_all)
  next
    case 4
    then have "approvals s' = map (rekey keep) (filter (\<lambda>r. ar_id r \<notin> set remove \<and> ar_status r \<noteq> Rejected \<and> P r) (approvals s))"
      using assms rows3 P by (auto simp: load_pending_approvals_def rows2_def)
    then show ?thesis by (intro exI conjI allI) (assumption, simp_all)
  next
    case 5
    then obtain Q where "approvals s' = filter Q (normalize_active_approval_keys u cd rows2)"
      using assms P by (auto simp: load_pending_approvals_def Let_def rows2_def split: prod.splits)
    then have "approvals s' = map (rekey keep)
        (filter (\<lambda>r. Q (rekey keep r) \<and> ar_id r \<notin> set remove \<and> ar_status r \<noteq> Rejected \<and> P r) (approvals s))"
      unfolding rows3 by (simp add: filter_map comp_def filter_filter conj_commute)
    then show ?thesis by (intro exI conjI allI) (assumption, simp_all)
  qed
qed

end
