(* ===== verification/Gate_Steps.thy ===== *)
theory Gate_Steps
  imports Gate_Life
begin

text \<open>
  The decision loop as a machine: its events, their steps, the states reachable from a start
  on any database whose approval ids are sound, and the invariant of those states.
\<close>

section \<open>Events\<close>

datatype gate_event =
    Analysed execution_policy "fact_row list option" system_state io "(io \<times> problem) list"
  | Asked execution_policy io fix_action string string bool
  | Decided execution_policy io int bool
  | Preferred execution_policy io int string
  | Unpreferred io string
  | WorkerTakes
  | WorkerEnds exec_io exec_end
  | Folded io
  | UndoAsked io int
  | UndoEnds io nat "string + string"
  | PauseToggled io
  | GamingSet io bool bool bool
  | StatusRefreshed io
  | ProblemsCleared
  | ExecutionsCleared
  | Restarted io bool

fun step :: "env \<Rightarrow> gate_event \<Rightarrow> world \<Rightarrow> world" where
  "step E (Analysed pol rows base i reported) w = route_analysis E pol rows base i reported w"
| "step E (Asked pol i a diag label force) w = snd (route_user_action E pol i a diag label force w)"
| "step E (Decided pol i aid approved) w = snd (handle_approve E pol i aid approved w)"
| "step E (Preferred pol i aid token) w = snd (handle_set_preference E pol i aid token w)"
| "step E (Unpreferred i key) w = snd (handle_clear_preference i key w)"
| "step E WorkerTakes w = worker_take w"
| "step E (WorkerEnds x e) w = worker_finish E x e w"
| "step E (Folded i) w = exec_done E i w"
| "step E (UndoAsked i uid) w = snd (handle_undo i uid w)"
| "step E (UndoEnds i n answer) w = undo_finish i n answer w"
| "step E (PauseToggled i) w = on_svc (snd \<circ> toggle_pause (now i)) w"
| "step E (GamingSet i boost on manual) w = on_svc (\<lambda>st. snd (snd (handle_set_gaming (now i) boost on manual st))) w"
| "step E (StatusRefreshed i) w = on_svc (refresh_status (now i)) w"
| "step E ProblemsCleared w = on_svc clear_problems w"
| "step E ExecutionsCleared w = on_svc clear_executions w"
| "step E (Restarted i has_ai) w = startup E i has_ai w"

section \<open>The invariant\<close>

definition exec_jobs :: "world \<Rightarrow> exec_job list" where
  "exec_jobs w = (case running w of None \<Rightarrow> [] | Some j \<Rightarrow> [j]) @ jobs w"

definition done_keys :: "world \<Rightarrow> string list" where
  "done_keys w = filter (\<lambda>k. k \<noteq> []) (map eo_key (finished w))"

definition job_ids :: "world \<Rightarrow> int list" where
  "job_ids w = List.map_filter ej_approval (exec_jobs w)"

definition card_ids :: "world \<Rightarrow> int set" where
  "card_ids w = (\<lambda>p. ai_id (pa_info p)) ` set (pending (svc w))"

definition job_keyed :: "env \<Rightarrow> exec_job \<Rightarrow> bool" where
  "job_keyed E j = (ej_key j = key_of E (ej_action j))"

text \<open>A key is in flight exactly while one job or one unfolded outcome carries it.\<close>

definition flight_ok :: "env \<Rightarrow> world \<Rightarrow> bool" where
  "flight_ok E w =
     (distinct (map ej_key (exec_jobs w) @ done_keys w) \<and>
      set (map ej_key (exec_jobs w) @ done_keys w) = in_flight (svc w) \<and>
      list_all (job_keyed E) (exec_jobs w))"

text \<open>An approval that has a job has one job, no row that waits and no card on the user's screen.\<close>

definition claims_ok :: "world \<Rightarrow> bool" where
  "claims_ok w =
     (ids_sound (db w) \<and> distinct (job_ids w) \<and>
      (\<forall>i \<in> set (job_ids w). i < next_approval (db w) \<and> i \<notin> waiting (db w) \<and> i \<notin> card_ids w) \<and>
      (\<forall>i \<in> card_ids w. i < next_approval (db w)))"

definition feeds_ok :: "world \<Rightarrow> bool" where
  "feeds_ok w = (length (recent_problems (svc w)) \<le> 20 \<and> length (recent_executions (svc w)) \<le> 20)"

definition gate_inv :: "env \<Rightarrow> world \<Rightarrow> bool" where
  "gate_inv E w = (flight_ok E w \<and> claims_ok w \<and> feeds_ok w)"

section \<open>Frames\<close>

lemma on_svc_simps [simp]:
  "svc (on_svc f w) = f (svc w)" "db (on_svc f w) = db w" "jobs (on_svc f w) = jobs w"
  "running (on_svc f w) = running w" "finished (on_svc f w) = finished w" "pref_tbl (on_svc f w) = pref_tbl w"
  "undoing (on_svc f w) = undoing w" "rejected (on_svc f w) = rejected w"
  by (simp_all add: on_svc_def)

lemma length_push_capped [simp]: "length xs \<le> 20 \<Longrightarrow> length (push_capped x xs) \<le> 20"
  by (auto simp: push_capped_def)

text \<open>What a change of the loop's state has to leave alone for the invariant to stand.\<close>

definition calm :: "(svc_state \<Rightarrow> svc_state) \<Rightarrow> bool" where
  "calm f = (\<forall>st. in_flight (f st) = in_flight st \<and> set (pending (f st)) \<subseteq> set (pending st) \<and>
     (length (recent_problems st) \<le> 20 \<longrightarrow> length (recent_problems (f st)) \<le> 20) \<and>
     (length (recent_executions st) \<le> 20 \<longrightarrow> length (recent_executions (f st)) \<le> 20))"

named_theorems calm_intros \<open>the changes of the loop's state that keep the invariant\<close>

lemma calm_comp [calm_intros]: "calm f \<Longrightarrow> calm g \<Longrightarrow> calm (f \<circ> g)"
  by (force simp: calm_def)

lemma calm_push_problem [calm_intros]: "calm (push_problem t d c a b e r)"
  by (simp add: calm_def push_problem_def)

lemma calm_push_execution [calm_intros]: "calm (push_execution t a s out u)"
  by (simp add: calm_def push_execution_def)

lemma calm_rest [calm_intros]: "calm (rest t)"
  by (simp add: calm_def rest_def)

lemma calm_drop_card [calm_intros]: "calm (drop_card i)"
  by (auto simp: calm_def drop_card_def)

lemma calm_clear_error [calm_intros]: "calm (clear_error_if b)"
  by (simp add: calm_def clear_error_if_def)

lemma calm_status [calm_intros]: "calm (\<lambda>st. st\<lparr>svc_status := f st\<rparr>)" "calm (\<lambda>st. st\<lparr>svc_error := g st\<rparr>)"
  "calm (\<lambda>st. st\<lparr>preferences_view := h st\<rparr>)"
  by (simp_all add: calm_def)

lemma calm_id [calm_intros]: "calm (\<lambda>st. st)"
  by (simp add: calm_def)

lemma calm_if [calm_intros]: "calm f \<Longrightarrow> calm g \<Longrightarrow> calm (\<lambda>st. if P st then f st else g st)"
  by (simp add: calm_def)

lemma calm_controls [calm_intros]:
  "calm (snd \<circ> toggle_pause t)" "calm (refresh_status t)" "calm clear_problems" "calm clear_executions"
  "calm (\<lambda>st. snd (snd (handle_set_gaming t boost on manual st)))"
  by (auto simp: calm_def toggle_pause_def refresh_status_def clear_problems_def clear_executions_def
      handle_set_gaming_def apply_set_gaming_def rest_def Let_def)

lemma calm_recovery [calm_intros]: "calm (recovery_failed e)"
  by (simp add: calm_def recovery_failed_def)

lemma calm_retire [calm_intros]: "calm (\<lambda>st. st\<lparr>recent_executions := retire_undo c (recent_executions st)\<rparr>)"
  by (auto simp: calm_def retire_undo_def split: option.split)

lemma exec_jobs_frame [simp]: "exec_jobs (on_svc f w) = exec_jobs w" "done_keys (on_svc f w) = done_keys w"
  "exec_jobs (w\<lparr>db := s\<rparr>) = exec_jobs w" "done_keys (w\<lparr>db := s\<rparr>) = done_keys w"
  by (simp_all add: exec_jobs_def done_keys_def)

lemma job_ids_frame [simp]: "job_ids (on_svc f w) = job_ids w" "job_ids (w\<lparr>db := s\<rparr>) = job_ids w"
  by (simp_all add: job_ids_def)

lemma card_ids_db [simp]: "card_ids (w\<lparr>db := s\<rparr>) = card_ids w"
  by (simp add: card_ids_def)

lemma card_ids_calm: "calm f \<Longrightarrow> card_ids (on_svc f w) \<subseteq> card_ids w"
  by (auto simp: calm_def card_ids_def)

lemma flight_cong:
  "exec_jobs w' = exec_jobs w \<Longrightarrow> done_keys w' = done_keys w \<Longrightarrow> in_flight (svc w') = in_flight (svc w) \<Longrightarrow>
   flight_ok E w' = flight_ok E w"
  by (simp only: flight_ok_def)

lemma inv_calm: "gate_inv E w \<Longrightarrow> calm f \<Longrightarrow> gate_inv E (on_svc f w)"
proof -
  assume inv: "gate_inv E w" and f: "calm f"
  have "flight_ok E (on_svc f w)" using inv f flight_cong [of "on_svc f w" w E] by (simp add: gate_inv_def calm_def)
  moreover have "feeds_ok (on_svc f w)" using inv f by (simp add: gate_inv_def feeds_ok_def calm_def)
  moreover have "claims_ok (on_svc f w)"
    using inv card_ids_calm [OF f, of w] by (auto simp: gate_inv_def claims_ok_def)
  ultimately show ?thesis by (simp add: gate_inv_def)
qed

text \<open>A change of the store that issues no job's id again and keeps the ids sound.\<close>

definition store_calm :: "world \<Rightarrow> store \<Rightarrow> bool" where
  "store_calm w s =
     (ids_sound s \<and> next_approval s = next_approval (db w) \<and> waiting s \<inter> set (job_ids w) = {})"

lemma inv_store: "gate_inv E w \<Longrightarrow> store_calm w s \<Longrightarrow> gate_inv E (w\<lparr>db := s\<rparr>)"
  using flight_cong [of "w\<lparr>db := s\<rparr>" w E]
  by (auto simp: gate_inv_def claims_ok_def feeds_ok_def store_calm_def)

lemma inv_sound: "gate_inv E w \<Longrightarrow> ids_sound (db w)"
  by (simp add: gate_inv_def claims_ok_def)

lemma store_calm_subset:
  "gate_inv E w \<Longrightarrow> ids_sound s \<Longrightarrow> next_approval s = next_approval (db w) \<Longrightarrow> waiting s \<subseteq> waiting (db w) \<Longrightarrow>
   store_calm w s"
  by (auto simp: gate_inv_def claims_ok_def store_calm_def)

section \<open>Every step keeps the invariant\<close>

lemma key_nonempty: "dedup_key u a \<noteq> []"
  by (cases a) (simp_all add: dedup_key_def keyed_def)

lemma inv_send:
  assumes "gate_inv E w" and "job_keyed E j" and "ej_key j \<notin> in_flight (svc w)"
    and "\<forall>i. ej_approval j = Some i \<longrightarrow>
      i \<notin> set (job_ids w) \<and> i < next_approval (db w) \<and> i \<notin> waiting (db w) \<and> i \<notin> card_ids w"
    and "send_job i j w = (sent, w')"
  shows "gate_inv E w'"
proof (cases "send_ok i")
  case False
  then have w': "w' = on_svc (\<lambda>st. st\<lparr>in_flight := in_flight st - {ej_key j}\<rparr>)
      (on_svc (\<lambda>st. st\<lparr>in_flight := insert (ej_key j) (in_flight st)\<rparr>) w)"
    using assms(5) by (simp add: send_job_def Let_def)
  have "in_flight (svc w') = in_flight (svc w)" using w' assms(3) by auto
  then have "flight_ok E w'" using assms(1) flight_cong [of w' w E] w' by (simp add: gate_inv_def)
  moreover have "claims_ok w'" "feeds_ok w'"
    using assms(1) w' by (simp_all add: gate_inv_def claims_ok_def feeds_ok_def card_ids_def)
  ultimately show ?thesis by (simp add: gate_inv_def)
next
  case True
  then have w': "w' = (on_svc (\<lambda>st. st\<lparr>in_flight := insert (ej_key j) (in_flight st)\<rparr>) w)\<lparr>jobs := jobs w @ [j]\<rparr>"
    using assms(5) by (simp add: send_job_def Let_def)
  have ex: "exec_jobs w' = exec_jobs w @ [j]" "done_keys w' = done_keys w" "card_ids w' = card_ids w" "db w' = db w"
    by (auto simp: w' exec_jobs_def done_keys_def card_ids_def split: option.split)
  have fl: "in_flight (svc w') = insert (ej_key j) (in_flight (svc w))" by (simp add: w')
  have "flight_ok E w'"
    using assms(1-3) unfolding gate_inv_def flight_ok_def ex fl by auto
  moreover have "job_ids w' = job_ids w @ (case ej_approval j of Some i \<Rightarrow> [i] | None \<Rightarrow> [])"
    by (auto simp: job_ids_def ex map_filter_def split: option.split)
  then have "claims_ok w'"
    using assms(1,4) unfolding gate_inv_def claims_ok_def ex by (auto split: option.splits)
  moreover have "feeds_ok w'" using assms(1) by (simp add: gate_inv_def feeds_ok_def w')
  ultimately show ?thesis by (simp add: gate_inv_def)
qed

lemma inv_log: "gate_inv E w \<Longrightarrow> log_decision t (db w) = (d, s) \<Longrightarrow> gate_inv E (w\<lparr>db := s\<rparr>)"
  using log_life [of t "db w" d s] by (intro inv_store store_calm_subset) (auto dest: inv_sound)

lemma inv_delete_row: "gate_inv E w \<Longrightarrow> gate_inv E (delete_row i n w)"
  by (auto simp: delete_row_def delete_life inv_sound intro!: inv_store store_calm_subset)

lemma not_busy_free: "\<not> busy E st a \<Longrightarrow> key_of E a \<notin> in_flight st"
  by (simp add: busy_def)

lemma inv_queue_card:
  assumes "gate_inv E w" and "insert_approval E i d a info b (db w) = Some (n, s)" and "ai_id (pa_info p) = n"
  shows "gate_inv E (on_svc (queue_card p) (w\<lparr>db := s\<rparr>))"
proof -
  note ins = insert_life [OF assms(2)]
  have s: "ids_sound s" using ins inv_sound [OF assms(1)] by blast
  have "flight_ok E (on_svc (queue_card p) (w\<lparr>db := s\<rparr>))"
    using assms(1) flight_cong [of "on_svc (queue_card p) (w\<lparr>db := s\<rparr>)" w E] by (simp add: gate_inv_def queue_card_def)
  moreover have "feeds_ok (on_svc (queue_card p) (w\<lparr>db := s\<rparr>))"
    using assms(1) by (simp add: gate_inv_def feeds_ok_def queue_card_def)
  moreover have "card_ids (on_svc (queue_card p) (w\<lparr>db := s\<rparr>)) = insert n (card_ids w)"
    using assms(3) by (simp add: card_ids_def queue_card_def)
  then have "claims_ok (on_svc (queue_card p) (w\<lparr>db := s\<rparr>))"
    using assms(1) ins s by (fastforce simp: gate_inv_def claims_ok_def)
  ultimately show ?thesis by (simp add: gate_inv_def)
qed

lemma inv_auto_run: "gate_inv E w \<Longrightarrow> gate_inv E (auto_run E pol d base i p a w)"
proof -
  assume inv: "gate_inv E w"
  define j where "j = \<lparr>ej_action = a, ej_decision = d, ej_baseline = base, ej_key = key_of E a,
                    ej_label = debug_action (esc E) a, ej_diagnosis = diagnosis p,
                    ej_confidence = confidence p, ej_reason = None, ej_approval = None\<rparr>"
  obtain sent w' where sj: "send_job i j w = (sent, w')" by fastforce
  have "\<not> busy E (svc w) a \<Longrightarrow> gate_inv E w'"
    using inv_send [OF inv, of j i sent w'] sj not_busy_free by (simp add: j_def job_keyed_def)
  then show ?thesis
    using inv sj by (auto simp: auto_run_def Let_def simp flip: j_def split: option.split bool.split
        intro!: inv_calm calm_intros)
qed

lemma inv_ask_user: "gate_inv E w \<Longrightarrow> gate_inv E (ask_user E d base i p a reason w)"
proof (cases "busy E (svc w) a")
  case False
  assume inv: "gate_inv E w"
  define info where "info = approval_card E i (diagnosis p) (root_cause p) (confidence p) a reason
                      (side_effects p) (problem.undo_instructions p)"
  show ?thesis
  proof (cases "insert_approval E i d a info base (db w)")
    case None
    then show ?thesis using inv False
      by (simp add: ask_user_def inv_calm calm_intros flip: info_def)
  next
    case (Some rs)
    obtain row s where rs: "rs = (row, s)" by (cases rs)
    define card where "card = \<lparr>pa_info = info\<lparr>ai_id := row\<rparr>, pa_action = a, pa_decision = d, pa_baseline = base\<rparr>"
    have "gate_inv E (on_svc (queue_card card) (w\<lparr>db := s\<rparr>))"
      using inv_queue_card [OF inv Some [unfolded rs], of card] by (simp add: card_def)
    then have "gate_inv E (on_svc (\<lambda>st. st\<lparr>svc_status := ''PendingApproval''\<rparr>) (on_svc (queue_card card) (w\<lparr>db := s\<rparr>)))"
      by (rule inv_calm) (rule calm_intros)
    then show ?thesis using False Some
      by (simp add: ask_user_def rs card_def on_svc_def flip: info_def)
  qed
qed (simp add: ask_user_def)

lemma inv_route_problem: "gate_inv E w \<Longrightarrow> gate_inv E (route_problem E pol lf d base ip w)"
  by (auto simp: route_problem_def Let_def split: prod.split option.split verdict.split
      intro!: inv_calm calm_intros inv_auto_run inv_ask_user)

lemma inv_route_analysis: "gate_inv E w \<Longrightarrow> gate_inv E (route_analysis E pol rows base i reported w)"
proof -
  assume inv: "gate_inv E w"
  have fold: "gate_inv E v \<Longrightarrow> gate_inv E (fold (route_problem E pol lf d base) ps v)" for lf d ps v
    by (induction ps arbitrary: v) (simp_all add: inv_route_problem)
  have "gate_inv E (on_svc (\<lambda>st. if paused st then st else st\<lparr>svc_error := None\<rparr>) w)"
    using inv by (intro inv_calm calm_intros)
  then show ?thesis
    by (auto simp: route_analysis_def Let_def split: prod.split simp del: on_svc_simps
        intro!: inv_calm calm_intros fold inv_log)
qed

lemma inv_user_ask: "gate_inv E w \<Longrightarrow> user_ask E d i diag a reason w = (res, w') \<Longrightarrow> gate_inv E w'"
proof -
  assume inv: "gate_inv E w" and u: "user_ask E d i diag a reason w = (res, w')"
  define info where "info = approval_card E i diag [] (Fin 1) a reason [] []"
  show ?thesis
  proof (cases "insert_approval E i d a info default_state (db w)")
    case None
    with u have "w' = on_svc (push_problem (now i) diag (Fin 1) (debug_action (esc E) a) True False
                     (Some (''could not queue for approval: '' @ err_text i))) w"
      by (simp add: user_ask_def Let_def flip: info_def)
    then show ?thesis using inv by (simp add: inv_calm calm_intros)
  next
    case (Some rs)
    obtain row s where rs: "rs = (row, s)" by (cases rs)
    define card where "card = \<lparr>pa_info = info\<lparr>ai_id := row\<rparr>, pa_action = a, pa_decision = d, pa_baseline = default_state\<rparr>"
    have "w' = on_svc (queue_card card) (w\<lparr>db := s\<rparr>)"
      using u Some rs by (simp add: user_ask_def Let_def card_def flip: info_def)
    then show ?thesis using inv_queue_card [OF inv Some [unfolded rs], of card] by (simp add: card_def)
  qed
qed

lemma inv_route_user_action: "gate_inv E w \<Longrightarrow> gate_inv E (snd (route_user_action E pol i a diag label force w))"
proof (cases "busy E (svc w) a \<or> \<not> log_ok i")
  case False
  assume inv: "gate_inv E w"
  obtain d s where ds: "log_decision (now i) (db w) = (d, s)" by fastforce
  define v where "v = w\<lparr>db := s\<rparr>"
  have v: "gate_inv E v" using inv_log [OF inv ds] by (simp add: v_def)
  have free: "key_of E a \<notin> in_flight (svc v)" using False by (simp add: v_def busy_def)
  define j where "j = \<lparr>ej_action = a, ej_decision = d, ej_baseline = default_state, ej_key = key_of E a,
                      ej_label = debug_action (esc E) a, ej_diagnosis = diag, ej_confidence = Fin 1,
                      ej_reason = Some label, ej_approval = None\<rparr>"
  obtain sent x where sj: "send_job i j v = (sent, x)" by fastforce
  have x: "gate_inv E (on_svc (rest (now i)) x)"
    using inv_send [OF v, of j i sent x] sj free by (intro inv_calm calm_intros) (simp add: j_def job_keyed_def)
  have ask: "gate_inv E (on_svc (rest (now i)) y)" if "user_ask E d i diag a r v = (res, y)" for r res y
    using inv_user_ask [OF v that] by (rule inv_calm) (rule calm_intros)
  have go: "\<not> busy E (svc w) a" "log_ok i" using False by auto
  show ?thesis
  proof (cases "forced force (evaluate (low E) pol a (Fin 1))")
    case None
    obtain res y where y: "user_ask E d i diag a user_reason v = (res, y)" by fastforce
    then show ?thesis using ask [OF y] go None by (simp add: route_user_action_def ds flip: v_def)
  next
    case (Some verdict)
    show ?thesis
    proof (cases verdict)
      case (Block r)
      then show ?thesis using go Some v
        by (simp add: route_user_action_def ds inv_calm calm_intros flip: v_def)
    next
      case (RequireApproval r)
      obtain res y where y: "user_ask E d i diag a (reason_text E r) v = (res, y)" by fastforce
      then show ?thesis using ask [OF y] go Some RequireApproval by (simp add: route_user_action_def ds flip: v_def)
    next
      case AutoApprove
      then show ?thesis using go Some v x sj [unfolded j_def]
        by (simp add: route_user_action_def Let_def ds inv_calm calm_intros split: option.split bool.split flip: v_def)
    qed
  qed
qed (auto simp: route_user_action_def Let_def)

text \<open>A claim that succeeds takes the id from the queue, from the screen and from every other job.\<close>

lemma inv_claimed:
  assumes "gate_inv E w" and "claim E i aid approved (db w) = (Inr (Some pa), s)"
  defines "v \<equiv> on_svc (drop_card aid) (w\<lparr>db := s\<rparr>)"
  shows "gate_inv E v \<and> aid \<notin> set (job_ids v) \<and> aid < next_approval (db v) \<and> aid \<notin> waiting (db v) \<and> aid \<notin> card_ids v"
proof -
  note c = claim_life [OF assms(2), simplified]
  have inv: "gate_inv E v"
    unfolding v_def using c assms(1)
    by (intro inv_calm inv_store calm_intros store_calm_subset) (auto dest: inv_sound)
  have "aid \<notin> set (job_ids w)" using c assms(1) by (auto simp: gate_inv_def claims_ok_def)
  moreover have "aid < next_approval (db w)" using c ids_sound_waiting [OF inv_sound [OF assms(1)]] by blast
  moreover have "aid \<notin> card_ids v" by (auto simp: v_def card_ids_def drop_card_def)
  ultimately show ?thesis using c inv by (simp add: v_def)
qed

lemma inv_run_approved:
  assumes "gate_inv E w" and "aid \<notin> set (job_ids w)" "aid < next_approval (db w)" "aid \<notin> waiting (db w)" "aid \<notin> card_ids w"
  shows "gate_inv E (snd (run_approved E pol i aid pa w))" and "gate_inv E (snd (run_always_approved E pol i aid pa w))"
proof -
  have sent: "gate_inv E w'" if "key_of E (pa_action pa) \<notin> in_flight (svc w)"
    "send_job i (approval_job E pa aid reason) w = (sent, w')" for reason sent w'
    using inv_send [OF assms(1) _ _ _ that(2)] that(1) assms(2-5) by (simp add: approval_job_def job_keyed_def)
  show "gate_inv E (snd (run_approved E pol i aid pa w))" "gate_inv E (snd (run_always_approved E pol i aid pa w))"
    using assms(1) by (auto simp: run_approved_def run_always_approved_def split: preflight.split prod.split
        intro!: inv_calm calm_intros inv_delete_row dest: sent)
qed

lemma gate_inv_other [simp]:
  "gate_inv E (w\<lparr>rejected := rs\<rparr>) = gate_inv E w" "gate_inv E (w\<lparr>pref_tbl := t\<rparr>) = gate_inv E w"
  "gate_inv E (w\<lparr>undoing := us\<rparr>) = gate_inv E w"
  by (simp_all add: gate_inv_def flight_ok_def claims_ok_def feeds_ok_def exec_jobs_def done_keys_def job_ids_def
      card_ids_def)

lemma inv_reject: "gate_inv E w \<Longrightarrow> gate_inv E (reject_card E i aid pa w)"
  by (auto simp: reject_card_def Let_def intro!: inv_delete_row inv_calm calm_intros)

lemma inv_handle_approve: "gate_inv E w \<Longrightarrow> gate_inv E (snd (handle_approve E pol i aid approved w))"
proof -
  assume inv: "gate_inv E w"
  obtain got s where c: "claim E i aid approved (db w) = (got, s)" by fastforce
  show ?thesis
  proof (cases "\<exists>pa. got = Inr (Some pa)")
    case True
    then obtain pa where got: "got = Inr (Some pa)" by blast
    define v where "v = on_svc (drop_card aid) (w\<lparr>db := s\<rparr>)"
    note cl = inv_claimed [OF inv c [unfolded got], folded v_def]
    have ra: "gate_inv E x" if "run_approved E pol i aid pa v = (res, x)" for res x
      using inv_run_approved(1) [of E v aid pol i pa] cl that by simp
    have "gate_inv E (reject_card E i aid pa v)" using cl by (simp add: inv_reject)
    then show ?thesis using cl
      by (auto simp: handle_approve_def Let_def c got simp flip: v_def split: prod.split
          intro!: inv_calm calm_intros dest: ra)
  next
    case False
    then show ?thesis using inv
      by (auto simp: handle_approve_def Let_def c split: sum.split option.split prod.split intro!: inv_calm calm_intros)
  qed
qed

lemma inv_refresh_preferences: "gate_inv E w \<Longrightarrow> gate_inv E (refresh_preferences i w)"
  by (simp add: refresh_preferences_def inv_calm calm_intros)

lemma inv_ignore_card: "gate_inv E w \<Longrightarrow> gate_inv E (snd (ignore_card i aid pa w))"
  by (simp add: ignore_card_def Let_def inv_calm inv_delete_row calm_intros)

lemma inv_always_approve: "gate_inv E w \<Longrightarrow> gate_inv E (snd (always_approve_card E pol i aid w))"
proof -
  assume inv: "gate_inv E w"
  obtain got s where c: "claim E i aid True (db w) = (got, s)" by fastforce
  show ?thesis
  proof (cases "\<exists>pa. got = Inr (Some pa)")
    case True
    then obtain pa where got: "got = Inr (Some pa)" by blast
    define v where "v = on_svc (drop_card aid) (w\<lparr>db := s\<rparr>)"
    note cl = inv_claimed [OF inv c [unfolded got], folded v_def]
    have "gate_inv E x" if "run_always_approved E pol i aid pa v = (res, x)" for res x
      using inv_run_approved(2) [of E v aid pol i pa] cl that by simp
    then show ?thesis
      by (auto simp: always_approve_card_def Let_def c got simp flip: v_def split: prod.split intro!: inv_calm calm_intros)
  next
    case False
    then show ?thesis using inv
      by (auto simp: always_approve_card_def Let_def c split: sum.split option.split intro!: inv_calm calm_intros)
  qed
qed

lemma inv_save_preference: "gate_inv E w \<Longrightarrow> save_preference E i pref pa w = Some w' \<Longrightarrow> gate_inv E w'"
  by (auto simp: save_preference_def Let_def split: if_splits sum.splits)

lemma inv_set_preference: "gate_inv E w \<Longrightarrow> gate_inv E (snd (handle_set_preference E pol i aid token w))"
proof -
  assume inv: "gate_inv E w"
  have ig: "gate_inv E x" if "ignore_card i aid pa (refresh_preferences i v) = (res, x)" "gate_inv E v" for v pa res x
    using inv_ignore_card [OF inv_refresh_preferences [OF that(2), of i]] that(1) by (metis snd_conv)
  have al: "gate_inv E x" if "always_approve_card E pol i aid (refresh_preferences i v) = (res, x)" "gate_inv E v" for v res x
    using inv_always_approve [OF inv_refresh_preferences [OF that(2), of i]] that(1) by (metis snd_conv)
  show ?thesis using inv
    by (auto simp: handle_set_preference_def Let_def split: option.split prod.split preference.split
        intro!: inv_calm calm_intros dest: inv_save_preference [OF inv] ig al)
qed

lemma inv_clear_preference: "gate_inv E w \<Longrightarrow> gate_inv E (snd (handle_clear_preference i key w))"
  by (auto simp: handle_clear_preference_def split: sum.split bool.split intro!: inv_refresh_preferences)

lemma inv_worker_take: "gate_inv E w \<Longrightarrow> gate_inv E (worker_take w)"
proof -
  assume inv: "gate_inv E w"
  have "exec_jobs (worker_take w) = exec_jobs w" "done_keys (worker_take w) = done_keys w"
    "svc (worker_take w) = svc w" "db (worker_take w) = db w"
    by (auto simp: worker_take_def exec_jobs_def done_keys_def split: option.split list.split)
  then show ?thesis
    using inv by (simp add: gate_inv_def flight_ok_def claims_ok_def feeds_ok_def job_ids_def card_ids_def)
qed

lemma roll_back_cases:
  assumes "roll_back E x j r s = (r', refresh, pe, s')"
  obtains (kept) "s' = s" and "\<not> refresh" and "pe = None" and "\<not> res_success r'"
  | (committed) c r2 where "commit E (recommit_ok x) (fin_now x) j r2 refresh s = Some (c, s')" and "pe = Some c"
      and "refresh = (ej_approval j \<noteq> None)" and "r' = r2" and "\<not> res_success r'"
proof (cases "res_undo r")
  case None
  with assms have "s' = s" "\<not> refresh" "pe = None" "\<not> res_success r'" by (auto simp: roll_back_def)
  then show ?thesis by (rule kept)
next
  case (Some un)
  show ?thesis
  proof (cases "rollback x")
    case (Inl e)
    with assms Some have "s' = s" "\<not> refresh" "pe = None" "\<not> res_success r'" by (auto simp: roll_back_def)
    then show ?thesis by (rule kept)
  next
    case (Inr out)
    define r2 where "r2 = rolled_back x r out"
    have fails: "\<not> res_success r2" "\<not> res_success (r2\<lparr>res_output := t\<rparr>)" for t by (simp_all add: r2_def rolled_back_def)
    show ?thesis
    proof (cases "commit E (recommit_ok x) (fin_now x) j r2 (ej_approval j \<noteq> None) s")
      case None
      with assms Some Inr have "s' = s" "\<not> refresh" "pe = None" "\<not> res_success r'"
        using fails by (auto simp: roll_back_def Let_def simp flip: r2_def)
      then show ?thesis by (rule kept)
    next
      case (Some cs)
      obtain c t where cs: "cs = (c, t)" by (cases cs)
      with assms Some Inr \<open>res_undo r = Some un\<close> have eq: "r' = r2" "refresh = (ej_approval j \<noteq> None)" "pe = Some c" "s' = t"
        by (auto simp: roll_back_def Let_def simp flip: r2_def)
      with Some cs show ?thesis using fails by (intro committed) auto
    qed
  qed
qed

lemma record_end_cases:
  assumes "record_end E x j e s = (r, refresh, pe, s')"
  obtains (kept) "s' = s" and "\<not> refresh" and "pe = None" and
      "\<not> (res_success r \<and> is_registry_reset (ej_action j))"
  | (committed) ok c r2 where "commit E ok (fin_now x) j r2 refresh s = Some (c, s')" and "pe = Some c" and "r = r2" and "refresh \<longrightarrow> \<not> res_success r"
proof -
  obtain r0 syn where er: "end_result j e = (r0, syn)" by fastforce
  define rq where "rq = (syn \<and> ej_approval j \<noteq> None)"
  show ?thesis
  proof (cases "commit E (commit_ok x) (fin_now x) j r0 rq s")
    case (Some cs)
    obtain c s2 where cs: "cs = (c, s2)" by (cases cs)
    with Some assms er have "r = r0" "refresh = rq" "pe = Some c" "s' = s2"
      by (auto simp: record_end_def Let_def rq_def)
    moreover have "syn \<longrightarrow> \<not> res_success r0"
      using er by (auto simp: end_result_def failed_result_def split: exec_end.splits)
    ultimately have "refresh \<longrightarrow> \<not> res_success r" by (simp add: rq_def)
    with Some cs committed \<open>r = r0\<close> \<open>refresh = rq\<close> \<open>pe = Some c\<close> \<open>s' = s2\<close> show ?thesis by blast
  next
    case None
    show ?thesis
    proof (cases "res_success r0 \<and> is_registry_reset (ej_action j)")
      case True
      then have "roll_back E x j r0 s = (r, refresh, pe, s')"
        using assms er None by (simp add: record_end_def rq_def)
      then show ?thesis using kept committed by (cases rule: roll_back_cases) auto
    next
      case False
      then have "s' = s" "\<not> refresh" "pe = None" "res_success r = res_success r0"
        using assms er None by (auto simp: record_end_def Let_def rq_def)
      with False show ?thesis using kept by blast
    qed
  qed
qed

text \<open>Ending a job touches no id but its own.\<close>

lemma record_end_life:
  assumes "record_end E x j e s = (r, refresh, pe, s')" and "ids_sound s"
  shows "ids_sound s' \<and> next_approval s' = next_approval s \<and>
    waiting s' \<subseteq> waiting s \<union> (case ej_approval j of Some i \<Rightarrow> {i} | None \<Rightarrow> {}) \<and>
    held s' \<subseteq> held s"
  using assms(1)
proof (cases rule: record_end_cases)
  case kept
  then show ?thesis using assms(2) by simp
next
  case (committed ok c r2)
  from commit_life [OF committed(1)] show ?thesis using assms(2) by (auto split: option.splits if_splits)
qed

lemma inv_worker_finish: "gate_inv E w \<Longrightarrow> gate_inv E (worker_finish E x e w)"
proof (cases "running w")
  case (Some j)
  assume inv: "gate_inv E w"
  obtain r refresh pe s where re: "record_end E x j e (db w) = (r, refresh, pe, s)" by (metis prod_cases4)
  note life = record_end_life [OF re inv_sound [OF inv]]
  define v where "v = w\<lparr>running := None, db := s, finished := finished w @ [outcome_of j r refresh pe]\<rparr>"
  have v: "worker_finish E x e w = v" by (simp add: worker_finish_def Some re v_def)
  have ex: "exec_jobs w = j # exec_jobs v" "svc v = svc w" "db v = s" "card_ids v = card_ids w"
    by (simp_all add: exec_jobs_def Some v_def card_ids_def)
  have "ej_key j \<noteq> []"
    using inv key_nonempty by (auto simp: gate_inv_def flight_ok_def ex job_keyed_def)
  then have dk: "done_keys v = done_keys w @ [ej_key j]" by (simp add: done_keys_def v_def outcome_of_def)
  have "flight_ok E v" using inv by (auto simp: gate_inv_def flight_ok_def ex dk)
  moreover have "feeds_ok v" using inv by (simp add: gate_inv_def feeds_ok_def ex)
  moreover have ji: "job_ids w = (case ej_approval j of Some i \<Rightarrow> [i] | None \<Rightarrow> []) @ job_ids v"
    by (simp add: job_ids_def ex map_filter_def split: option.split)
  then have "claims_ok v"
    using inv life by (fastforce simp: gate_inv_def claims_ok_def ex split: option.splits)
  ultimately show ?thesis by (simp add: gate_inv_def v)
qed (simp add: worker_finish_def)

lemma mem_map_filter: "p \<in> set (List.map_filter f xs) \<longleftrightarrow> (\<exists>x \<in> set xs. f x = Some p)"
  by (induction xs) (auto simp: map_filter_simps split: option.splits)

lemma sweep_subset: "sweep_duplicates u seen ps = (keep, gone) \<Longrightarrow> set keep \<subseteq> set ps"
proof (induction ps arbitrary: seen keep gone)
  case (Cons p ps)
  obtain k g where one: "sweep_duplicates u seen ps = (k, g)" by fastforce
  obtain k' g' where two: "sweep_duplicates u (dedup_key u (pa_action p) # seen) ps = (k', g')" by fastforce
  show ?case
    using Cons.prems Cons.IH [OF one] Cons.IH [OF two] one two by (auto simp: Let_def split: if_splits)
qed simp

text \<open>Reloading the queue: the cards are rows that wait, and no id starts to wait.\<close>

lemma load_life:
  assumes "load_pending_approvals u cd n ok s = (res, s')" and "ids_sound s"
  shows "ids_sound s' \<and> next_approval s' = next_approval s \<and> waiting s' \<subseteq> waiting s \<and> held s' \<subseteq> held s \<and>
    (\<forall>ps. res = Some ps \<longrightarrow> (\<lambda>p. ai_id (pa_info p)) ` set ps \<subseteq> waiting s)"
proof -
  obtain f P where fp: "approvals s' = map f (filter P (approvals s))"
    "\<And>r. ar_id (f r) = ar_id r \<and> ar_status (f r) = ar_status r"
    using rows_of_load [OF assms(1)] by blast
  have next_eq: "next_approval s' = next_approval s"
    using assms(1) by (auto simp: load_pending_approvals_def Let_def split: if_splits prod.splits)
  have "ids_sound s'" using ids_sound_rows [OF assms(2) next_eq fp(1)] fp(2) by simp
  moreover have "waiting s' \<subseteq> waiting s" "held s' \<subseteq> held s"
    unfolding waiting_def held_def fp(1) by (rule ids_with_kept; use fp(2) in blast)+
  moreover have "(\<lambda>p. ai_id (pa_info p)) ` set ps \<subseteq> waiting s" if res: "res = Some ps" for ps
  proof -
    obtain rows where r3: "rows = normalize_active_approval_keys u cd
        (sanitize_active_approval_rows (filter (\<lambda>r. ar_status r \<noteq> Rejected) (approvals s)))" by blast
    define todo where "todo = sort_key ar_id (filter (\<lambda>r. ar_status r = Pending) rows)"
    obtain keep gone where sw: "sweep_duplicates u [] (rev (List.map_filter (parse_pending_approval cd) todo)) = (keep, gone)"
      by fastforce
    have "n \<noteq> 0 \<and> n \<noteq> 1 \<and> n \<noteq> 2 \<and> n \<noteq> 3"
      by (intro conjI notI; use assms(1) res in \<open>simp add: load_pending_approvals_def Let_def\<close>)
    then have "ps = rev keep"
      using assms(1) res sw by (simp add: load_pending_approvals_def Let_def todo_def r3)
    then have "set ps \<subseteq> set (List.map_filter (parse_pending_approval cd) todo)" using sweep_subset [OF sw] by simp
    moreover have "ai_id (pa_info p) \<in> ids_with Pending rows"
      if p: "p \<in> set (List.map_filter (parse_pending_approval cd) todo)" for p
    proof -
      obtain x where "x \<in> set todo" "parse_pending_approval cd x = Some p" using p unfolding mem_map_filter by blast
      with parse_Some [of cd x p] show ?thesis by (auto simp: todo_def ids_with_def)
    qed
    moreover have "ids_with Pending rows \<subseteq> waiting s"
    proof -
      have "load_pending_approvals u cd 3 ok s = (None, s\<lparr>approvals := rows\<rparr>)"
        by (simp add: load_pending_approvals_def Let_def r3)
      from rows_of_load [OF this] obtain g Q where "approvals (s\<lparr>approvals := rows\<rparr>) = map g (filter Q (approvals s))"
        and g: "\<forall>r. ar_id (g r) = ar_id r \<and> ar_status (g r) = ar_status r" by blast
      then have gQ: "rows = map g (filter Q (approvals s))" by simp
      show ?thesis unfolding waiting_def gQ using g by (intro ids_with_kept) blast
    qed
    ultimately show ?thesis by blast
  qed
  ultimately show ?thesis using next_eq by blast
qed

lemma inv_reload: "gate_inv E w \<Longrightarrow> gate_inv E (reload_pending E i w)"
proof -
  assume inv: "gate_inv E w"
  obtain res s where ld: "load_pending_approvals (low E) (serde E) (load_stages i) (load_delete_ok i) (db w) = (res, s)"
    by fastforce
  note life = load_life [OF ld inv_sound [OF inv]]
  have st: "gate_inv E (w\<lparr>db := s\<rparr>)" using inv life by (intro inv_store store_calm_subset) auto
  show ?thesis
  proof (cases res)
    case None
    then show ?thesis using st by (simp add: reload_pending_def ld)
  next
    case (Some ps)
    define v where "v = on_svc (\<lambda>st. st\<lparr>pending := ps\<rparr>) (w\<lparr>db := s\<rparr>)"
    have cards: "card_ids v \<subseteq> waiting (db w)" using life Some by (auto simp: v_def card_ids_def)
    have "flight_ok E v" using inv flight_cong [of v w E] by (simp add: gate_inv_def v_def)
    moreover have "feeds_ok v" using inv by (simp add: gate_inv_def feeds_ok_def v_def)
    moreover have "claims_ok v"
    proof -
      have "i < next_approval s" if "i \<in> card_ids v" for i
        using that cards life ids_sound_waiting [OF inv_sound [OF inv]] by auto
      moreover have "i \<notin> card_ids v" if "i \<in> set (job_ids w)" for i
        using that cards inv by (auto simp: gate_inv_def claims_ok_def)
      ultimately show ?thesis using st by (auto simp: gate_inv_def claims_ok_def v_def)
    qed
    ultimately show ?thesis by (simp add: reload_pending_def ld Some gate_inv_def v_def)
  qed
qed

lemma inv_pop:
  assumes "gate_inv E w" and "finished w = o1 # os"
  shows "gate_inv E (on_svc (\<lambda>st. st\<lparr>in_flight := in_flight st - {eo_key o1}\<rparr>) (w\<lparr>finished := os\<rparr>))"
proof -
  define v where "v = on_svc (\<lambda>st. st\<lparr>in_flight := in_flight st - {eo_key o1}\<rparr>) (w\<lparr>finished := os\<rparr>)"
  have ex: "exec_jobs v = exec_jobs w" "card_ids v = card_ids w" "db v = db w" "job_ids v = job_ids w"
    by (simp_all add: v_def exec_jobs_def card_ids_def job_ids_def)
  have fl: "in_flight (svc v) = in_flight (svc w) - {eo_key o1}" by (simp add: v_def)
  have dk: "done_keys w = (if eo_key o1 = [] then [] else [eo_key o1]) @ done_keys v"
    using assms(2) by (simp add: done_keys_def v_def)
  have ne: "[] \<notin> in_flight (svc w)"
  proof
    assume "[] \<in> in_flight (svc w)"
    moreover have "[] \<notin> set (done_keys w)" by (simp add: done_keys_def)
    moreover have "in_flight (svc w) = ej_key ` set (exec_jobs w) \<union> set (done_keys w)"
      using assms(1) by (simp add: gate_inv_def flight_ok_def)
    ultimately obtain j where "j \<in> set (exec_jobs w)" "ej_key j = []" by auto
    then show False using assms(1) key_nonempty
      by (metis flight_ok_def gate_inv_def job_keyed_def list_all_iff)
  qed
  have "flight_ok E v"
    using assms(1) ne unfolding gate_inv_def flight_ok_def ex fl dk by (cases "eo_key o1 = []") auto
  moreover have "claims_ok v" using assms(1) by (simp add: gate_inv_def claims_ok_def ex)
  moreover have "feeds_ok v" using assms(1) by (simp add: gate_inv_def feeds_ok_def v_def)
  ultimately show ?thesis by (simp add: gate_inv_def v_def)
qed

lemma inv_exec_done: "gate_inv E w \<Longrightarrow> gate_inv E (exec_done E i w)"
proof (cases "finished w")
  case (Cons o1 os)
  assume inv: "gate_inv E w"
  define v where "v = on_svc (\<lambda>st. st\<lparr>in_flight := in_flight st - {eo_key o1}\<rparr>) (w\<lparr>finished := os\<rparr>)"
  have "gate_inv E v" using inv_pop [OF inv Cons] by (simp add: v_def)
  then have "gate_inv E (if eo_refresh_pending o1 then reload_pending E i v else v)" by (simp add: inv_reload)
  then show ?thesis
    by (simp add: exec_done_def Cons Let_def flip: v_def) (intro conjI impI inv_calm calm_intros; simp)
qed (simp add: exec_done_def)

lemma inv_handle_undo: "gate_inv E w \<Longrightarrow> gate_inv E (snd (handle_undo i uid w))"
proof -
  assume inv: "gate_inv E w"
  obtain un s where c: "claim_registry_undo uid (db w) = (un, s)" by fastforce
  have "gate_inv E (w\<lparr>db := s\<rparr>)"
    using inv undo_life(1) [OF c] by (intro inv_store store_calm_subset) (auto dest: inv_sound)
  moreover have "w\<lparr>db := s, undoing := us\<rparr> = (w\<lparr>db := s\<rparr>)\<lparr>undoing := us\<rparr>" for us by simp
  ultimately show ?thesis using inv by (auto simp: handle_undo_def c split: option.split simp del: world.update_convs)
qed

lemma inv_finished_undo:
  assumes "gate_inv E w" and "eo_key u = []"
  shows "gate_inv E (w\<lparr>undoing := us, finished := finished w @ [u]\<rparr>)"
proof -
  define v where "v = w\<lparr>undoing := us, finished := finished w @ [u]\<rparr>"
  have "exec_jobs v = exec_jobs w" "done_keys v = done_keys w" "svc v = svc w" "db v = db w" "card_ids v = card_ids w"
    "job_ids v = job_ids w"
    using assms(2) by (simp_all add: v_def exec_jobs_def done_keys_def card_ids_def job_ids_def)
  then show ?thesis using assms(1) flight_cong [of v w E]
    by (simp add: gate_inv_def claims_ok_def feeds_ok_def flip: v_def)
qed

lemma inv_undo_finish: "gate_inv E w \<Longrightarrow> gate_inv E (undo_finish i n answer w)"
proof -
  assume inv: "gate_inv E w"
  obtain uid un where u: "undoing w ! n = (uid, un)" by fastforce
  define s where "s = (if \<not> is_ok answer \<and> delete_ok i then unclaim_registry_undo uid (db w) else db w)"
  have "gate_inv E (w\<lparr>db := s\<rparr>)"
    using inv by (intro inv_store store_calm_subset) (auto simp: s_def undo_life inv_sound)
  from inv_finished_undo [OF this] show ?thesis using inv
    by (simp add: undo_finish_def u s_def undo_outcome_def Let_def)
qed

section \<open>Start and reachability\<close>

lemma startup_inv: "ids_sound (db w) \<Longrightarrow> gate_inv E (startup E i has_ai w)"
proof -
  assume s: "ids_sound (db w)"
  define v where "v = w\<lparr>svc := fresh_svc, jobs := [], running := None, finished := [], undoing := []\<rparr>"
  have v: "gate_inv E v"
    using s by (simp add: v_def gate_inv_def flight_ok_def claims_ok_def feeds_ok_def exec_jobs_def done_keys_def
        job_ids_def card_ids_def fresh_svc_def map_filter_def)
  define d where "d = snd (requeue_claimed_approvals_on_startup (db v))"
  have "ids_sound d"
    using ids_sound_rows [OF s, of d "\<lambda>r. if ar_status r = Approved then r\<lparr>ar_status := Pending, ar_claimed := None\<rparr> else r"
        "\<lambda>r. True"]
    by (simp add: d_def v_def requeue_claimed_approvals_on_startup_def)
  moreover have "next_approval d = next_approval (db v)" "job_ids v = []"
    by (simp_all add: d_def requeue_claimed_approvals_on_startup_def v_def job_ids_def exec_jobs_def map_filter_def)
  ultimately have "gate_inv E (v\<lparr>db := d\<rparr>)" using v by (intro inv_store) (auto simp: store_calm_def)
  then have "gate_inv E (if claim_ok i then v\<lparr>db := d\<rparr> else on_svc (recovery_failed (err_text i)) v)"
    using v by (simp add: inv_calm calm_intros)
  then have x: "gate_inv E (reload_pending E i (if claim_ok i then v\<lparr>db := d\<rparr>
      else on_svc (recovery_failed (err_text i)) v))" by (rule inv_reload)
  have "gate_inv E (clear_script_grant E i y)" if "gate_inv E y" for y
    using that by (auto simp: clear_script_grant_def split: sum.split prod.split)
  from this [OF x] show ?thesis
    unfolding startup_def Let_def v_def [symmetric] d_def [symmetric]
    by (intro inv_calm calm_intros) (simp add: inv_calm calm_intros)
qed

lemma inv_step: "gate_inv E w \<Longrightarrow> gate_inv E (step E ev w)"
  by (cases ev) (simp_all add: inv_route_analysis inv_route_user_action inv_handle_approve inv_set_preference
      inv_clear_preference inv_worker_take inv_worker_finish inv_exec_done inv_handle_undo inv_undo_finish
      inv_calm calm_intros startup_inv inv_sound)

text \<open>The states of the service: a start on any sound database, then any events in any order.\<close>

inductive reachable :: "env \<Rightarrow> world \<Rightarrow> bool" for E where
  started: "ids_sound (db w) \<Longrightarrow> reachable E (startup E i has_ai w)"
| stepped: "reachable E w \<Longrightarrow> reachable E (step E ev w)"

inductive_cases reachableE: "reachable E w"

lemma reachable_inv: "reachable E w \<Longrightarrow> gate_inv E w"
  by (induction rule: reachable.induct) (simp_all add: startup_inv inv_step)

end
