(* ===== verification/Gate_Props.thy ===== *)
theory Gate_Props
  imports Gate_Steps
begin

text \<open>
  What the gate promises: why a job is in the executor's queue at all, that learning and
  clicks never loosen the policy, that an approval is spent at most once, that a registry
  write reported as done can be undone, and that the loop always comes to rest.
\<close>

section \<open>Why a job runs\<close>

text \<open>What has to hold when a job without an approval is queued.\<close>

definition gate_open :: "env \<Rightarrow> execution_policy \<Rightarrow> io \<Rightarrow> pref_table \<Rightarrow> store \<Rightarrow> fix_action \<Rightarrow> fnum \<Rightarrow> bool" where
  "gate_open E pol i prefs s a conf =
     (rate_check E pol i s a = Some False \<and>
      (evaluate (low E) pol a conf = AutoApprove \<or>
       (\<exists>r. evaluate (low E) pol a conf = RequireApproval r) \<and> pref_ok i \<and> can_always_approve a \<and>
       get_preference (key_of E a) prefs = Inr (Some AlwaysApprove)))"

lemma jobs_send: "jobs (snd (send_job i j w)) = (if send_ok i then jobs w @ [j] else jobs w)"
  by (simp add: send_job_def Let_def)

lemma preferred_auto:
  "preferred_verdict E i prefs a v = Some AutoApprove \<Longrightarrow>
     v = AutoApprove \<or> (\<exists>r. v = RequireApproval r) \<and> pref_ok i \<and> can_always_approve a \<and>
       get_preference (key_of E a) prefs = Inr (Some AlwaysApprove)"
  by (auto simp: preferred_verdict_def split: verdict.splits if_splits sum.splits option.splits preference.splits)

lemma preferred_block: "preferred_verdict E i prefs a (Block r) = Some (Block r)"
  by (simp add: preferred_verdict_def)

lemma jobs_auto_run:
  "jobs (auto_run E pol d base i p a w) = jobs w \<or>
   (\<exists>j. jobs (auto_run E pol d base i p a w) = jobs w @ [j] \<and> ej_action j = a \<and> ej_approval j = None \<and>
      rate_check E pol i (db w) a = Some False \<and> \<not> busy E (svc w) a)"
proof (cases "rate_check E pol i (db w) a = Some False \<and> \<not> busy E (svc w) a")
  case False
  then show ?thesis by (auto simp: auto_run_def split: option.split bool.split)
next
  case True
  define j where "j = \<lparr>ej_action = a, ej_decision = d, ej_baseline = base, ej_key = key_of E a,
                    ej_label = debug_action (esc E) a, ej_diagnosis = diagnosis p,
                    ej_confidence = confidence p, ej_reason = None, ej_approval = None\<rparr>"
  obtain sent v where sj: "send_job i j w = (sent, v)" by fastforce
  have "jobs (auto_run E pol d base i p a w) = jobs v"
    using True sj [unfolded j_def] by (simp add: auto_run_def)
  moreover have "jobs v = jobs w \<or> jobs v = jobs w @ [j]" using jobs_send [of i j w] sj by (simp split: if_splits)
  ultimately show ?thesis using True by (auto simp: j_def)
qed

lemma jobs_ask_user: "jobs (ask_user E d base i p a r w) = jobs w"
  by (auto simp: ask_user_def Let_def split: option.split prod.split)

lemma jobs_route_problem:
  "jobs (route_problem E pol lf d base (i, p) w) = jobs w \<or>
   (\<exists>j a. parse_fix_action (read_json E) p = Some a \<and>
      jobs (route_problem E pol lf d base (i, p) w) = jobs w @ [j] \<and> ej_action j = a \<and> ej_approval j = None \<and>
      gate_open E pol i (pref_tbl w) (db w) a (adjusted_confidence E lf p a) \<and> \<not> busy E (svc w) a)"
proof (cases "parse_fix_action (read_json E) p")
  case None
  then show ?thesis by (simp add: route_problem_def)
next
  case (Some a)
  define v where "v = preferred_verdict E i (pref_tbl w) a (evaluate (low E) pol a (adjusted_confidence E lf p a))"
  show ?thesis
  proof (cases "v = Some AutoApprove")
    case True
    have "route_problem E pol lf d base (i, p) w = auto_run E pol d base i p a w"
      using Some True by (simp add: route_problem_def Let_def flip: v_def)
    moreover note preferred_auto [OF True [unfolded v_def]]
    ultimately show ?thesis
      using jobs_auto_run [of E pol d base i p a w] Some unfolding gate_open_def by auto
  next
    case False
    then show ?thesis
      by (auto simp: route_problem_def Let_def Some jobs_ask_user simp flip: v_def split: option.split verdict.split)
  qed
qed

section \<open>Properties\<close>


lemma adjusted_le:
  assumes "confidence p = Fin c" and "is_f32 (Fin c)" and "0 \<le> c"
  shows "\<exists>q. adjusted_confidence E lf p a = Fin q \<and> 0 \<le> q \<and> q \<le> c"
proof -
  obtain pen where pen: "confidence_penalty lf (debug_action (esc E) a) (key_of E a) = Fin pen" "0 \<le> pen"
    using confidence_penalty_range by blast
  show ?thesis
  proof (cases "pen \<le> c")
    case True
    have "representable f32 c" using assms(2) by (simp add: representable_def)
    then obtain r where "rnd f32 (c - pen) = Fin r" "0 \<le> r" "r \<le> c"
      using r32.round_le [of c "c - pen"] True pen by auto
    then show ?thesis using assms(1) pen by (auto simp: adjusted_confidence_def f_sub_def f_max_def)
  next
    case False
    then have neg: "c - pen < 0" by simp
    then have "f_lt (rnd f32 (c - pen)) (Fin 0) \<or> rnd f32 (c - pen) = Fin 0"
      using round_pos_nonneg [of "pen - c" f32] by (auto simp: rnd_def Let_def)
    then show ?thesis using assms(1,3) pen neg
      by (auto simp: adjusted_confidence_def f_sub_def f_max_def rnd_def Let_def)
  qed
qed

lemma permission_conf:
  assumes "\<And>c. y = Fin c \<Longrightarrow> 0 < c \<Longrightarrow> c \<le> 1 \<Longrightarrow> \<exists>d. x = Fin d \<and> c \<le> d \<and> d \<le> 1"
  shows "permission (evaluate u pol a y) \<le> permission (evaluate u pol a x)"
proof (cases "permission (evaluate u pol a y) = 0")
  case False
  then obtain c t where y: "y = Fin c" "c \<le> 1" "0 < t" "t \<le> 1" "t \<le> c" "confidence_threshold (execution pol) = Fin t"
    and open_: "action_type_name a \<notin> set (bl_actions (blocklist pol))" "blocked_reason u pol a = None"
    unfolding evaluate_permission by (auto split: if_splits)
  then obtain d where "x = Fin d" "c \<le> d" "d \<le> 1" using assms [of c] by auto
  with y open_ have "\<exists>c t. x = Fin c \<and> confidence_threshold (execution pol) = Fin t \<and> c \<le> 1 \<and> 0 < t \<and> t \<le> 1 \<and> t \<le> c"
    by auto
  with open_ have "permission (evaluate u pol a x) = (if action_type_name a \<in> set (whitelist_actions pol) then 2 else 1)"
    unfolding evaluate_permission by simp
  moreover have "permission (evaluate u pol a y) \<le> (if action_type_name a \<in> set (whitelist_actions pol) then 2 else 1)"
    unfolding evaluate_permission by simp
  ultimately show ?thesis by simp
qed auto

lemma representable_2_32: "representable f32 2"
  by (simp add: representable_def rnd_def round_pos_def ulp_def f32_def expo_def pow2_def
      bit_len.simps rne_def quotient_of_number)

lemma adjusted_inside:
  assumes "is_f32 (confidence p)" and "\<And>q. confidence p = Fin q \<Longrightarrow> q \<le> 1 \<or> 100 < q"
    and adj: "adjusted_confidence E lf p a = Fin c" and "0 < c" and "c \<le> 1"
  shows "\<exists>d. confidence p = Fin d \<and> c \<le> d \<and> d \<le> 1"
proof -
  obtain pen where pen: "confidence_penalty lf (debug_action (esc E) a) (key_of E a) = Fin pen" "0 \<le> pen"
    "pen \<le> MAX_CONFIDENCE_PENALTY" using confidence_penalty_range by blast
  have adj': "f_max (f_sub f32 (confidence p) (Fin pen)) (Fin 0) = Fin c"
    using adj pen(1) by (simp add: adjusted_confidence_def)
  obtain d where d: "confidence p = Fin d"
    using adj' assms(4) by (cases "confidence p") (auto simp: f_sub_def f_max_def)
  consider "d < 0" | "0 \<le> d" "d \<le> 1" | "100 < d" using assms(2) [OF d] by linarith
  then show ?thesis
  proof cases
    case 1
    then have "d - pen < 0" using pen by simp
    then have "\<not> f_lt (Fin 0) (rnd f32 (d - pen))"
      using round_pos_nonneg [of "pen - d" f32] by (auto simp: rnd_def Let_def)
    then have "c \<le> 0" using adj' d by (cases "rnd f32 (d - pen)") (auto simp: f_sub_def f_max_def split: if_splits)
    then show ?thesis using assms(4) by simp
  next
    case 2
    obtain q where "adjusted_confidence E lf p a = Fin q" "q \<le> d"
      using adjusted_le [OF d _ 2(1), of E lf a] assms(1) d by auto
    then show ?thesis using 2 adj d by simp
  next
    case 3
    then have "2 \<le> d - pen" using pen by (simp add: MAX_CONFIDENCE_PENALTY_def)
    then have "f_le (Fin 2) (rnd f32 (d - pen))" using r32.round_ge [OF representable_2_32] by simp
    then show ?thesis using adj' d assms(5) by (cases "rnd f32 (d - pen)") (auto simp: f_sub_def f_max_def split: if_splits)
  qed
qed

text \<open>
  C8: what the service has learned can only make it do less: for every confidence the reader of
  the model's answers can produce, the verdict after the learned penalty never allows more
  than the verdict at the confidence the model gave.
\<close>

theorem learning_never_loosens:
  assumes "is_f32 (confidence p)" and "confidence p = confidence_from_value parse_f32 v"
    and "\<And>s x. parse_f32 s = Some x \<Longrightarrow> is_f32 x"
  shows "permission (evaluate u pol a (adjusted_confidence E lf p a)) \<le> permission (evaluate u pol a (confidence p))"
  using assms(1) confidence_shape [of parse_f32 v, OF assms(3)] assms(2)
  by (intro permission_conf adjusted_inside) auto

definition sample_problem :: "fnum \<Rightarrow> json \<Rightarrow> problem" where
  "sample_problem c fix = \<lparr>diagnosis = [], root_cause = [], confidence = c, proposed_fix = fix,
     reasoning = [], side_effects = [], undo_instructions = []\<rparr>"

definition sample_codec :: codec where
  "sample_codec = \<lparr>enc_action = (\<lambda>_. []), dec_action = (\<lambda>_. Some SfcScan), enc_info = (\<lambda>_. []),
     dec_info = (\<lambda>_. None), enc_state = (\<lambda>_. []), dec_state = (\<lambda>_. None)\<rparr>"

definition sample_env :: env where
  "sample_env = \<lparr>low = id, esc = id, dbg_float = (\<lambda>_. []), serde = sample_codec, read_json = (\<lambda>_. None),
     show_json = (\<lambda>_. []), on_windows = True\<rparr>"

lemma learning_never_loosens_witness:
  "permission (evaluate id sample_policy SfcScan (adjusted_confidence sample_env no_facts (sample_problem (Fin 1) JNull) SfcScan)) \<le>
   permission (evaluate id sample_policy SfcScan (Fin 1))"
proof -
  have "confidence_from_value (\<lambda>_. Some (Fin 1)) (JStr []) = Fin 1"
    by (simp add: confidence_from_value_def)
  then show ?thesis
    using learning_never_loosens [of "sample_problem (Fin 1) JNull" "\<lambda>_. Some (Fin 1)" "JStr []" id sample_policy SfcScan
        sample_env no_facts] representable_1_32
    by (simp add: sample_problem_def representable_def)
qed

lemma jobs_user_ask: "jobs (snd (user_ask E d i diag a r w)) = jobs w"
  by (simp add: user_ask_def Let_def split: option.split prod.split)

lemma forced_auto: "forced force v = Some AutoApprove \<Longrightarrow> v = AutoApprove \<and> \<not> force"
  by (auto simp: forced_def split: if_splits)

lemma jobs_user_ask_pair: "user_ask E d i diag a r w = (res, w') \<Longrightarrow> jobs w' = jobs w"
  using jobs_user_ask [of E d i diag a r w] by simp

lemma jobs_user_action:
  assumes "forced force (evaluate (low E) pol a (Fin 1)) \<noteq> Some AutoApprove"
  shows "jobs (snd (route_user_action E pol i a diag label force w)) = jobs w"
  using assms by (auto simp: route_user_action_def Let_def split: prod.split option.split verdict.split
      dest!: jobs_user_ask_pair)

text \<open>
  C29: a disk cleanup or startup toggle the user clicks goes through the same gate: it queues at
  most one job, only when the policy auto-approves the action at full confidence and the rate
  limiter passes it, and a click that has to be confirmed queues none.
\<close>

theorem user_click_gated:
  "jobs (snd (route_user_action E pol i a diag label force w)) = jobs w \<or>
   (\<not> force \<and> evaluate (low E) pol a (Fin 1) = AutoApprove \<and> \<not> busy E (svc w) a \<and>
    rate_check E pol i (snd (log_decision (now i) (db w))) a = Some False \<and>
    (\<exists>j. jobs (snd (route_user_action E pol i a diag label force w)) = jobs w @ [j] \<and> ej_action j = a))"
proof (cases "forced force (evaluate (low E) pol a (Fin 1)) = Some AutoApprove")
  case False
  then show ?thesis using jobs_user_action by blast
next
  case True
  obtain d s where ds: "log_decision (now i) (db w) = (d, s)" by fastforce
  define j where "j = \<lparr>ej_action = a, ej_decision = d, ej_baseline = default_state, ej_key = key_of E a,
                      ej_label = debug_action (esc E) a, ej_diagnosis = diag, ej_confidence = Fin 1,
                      ej_reason = Some label, ej_approval = None\<rparr>"
  obtain sent x where sj: "send_job i j (w\<lparr>db := s\<rparr>) = (sent, x)" by fastforce
  have jx: "jobs x = jobs w \<or> jobs x = jobs w @ [j]"
    using jobs_send [of i j "w\<lparr>db := s\<rparr>"] sj by (simp split: if_splits)
  show ?thesis
  proof (cases "\<not> busy E (svc w) a \<and> log_ok i \<and> rate_check E pol i s a = Some False")
    case True': True
    then have "jobs (snd (route_user_action E pol i a diag label force w)) = jobs x"
      using True sj [unfolded j_def] ds by (simp add: route_user_action_def Let_def)
    then show ?thesis using jx forced_auto [OF True] True' ds by (auto simp: j_def)
  next
    case False
    then have "jobs (snd (route_user_action E pol i a diag label force w)) = jobs w"
      using True ds by (auto simp: route_user_action_def Let_def split: option.split bool.split)
    then show ?thesis by blast
  qed
qed

text \<open>
  C2: in every state the service can reach, by any events in any order with any failures, an
  issue has at most one job, and an approval has at most one job, which no row that waits and
  no card on the screen can start again; a key is marked in flight only while a job or an
  unfolded outcome carries it, so the status never hangs on Executing; the feeds stay at 20.
\<close>

theorem one_job_per_issue_and_approval:
  assumes "reachable E w"
  shows "distinct (map ej_key (exec_jobs w)) \<and> distinct (job_ids w) \<and>
    (\<forall>i \<in> set (job_ids w). i \<notin> waiting (db w) \<and> i \<notin> card_ids w) \<and>
    in_flight (svc w) = ej_key ` set (exec_jobs w) \<union> set (done_keys w) \<and>
    (\<forall>j \<in> set (exec_jobs w). ej_key j = dedup_key (low E) (ej_action j)) \<and>
    length (recent_problems (svc w)) \<le> 20 \<and> length (recent_executions (svc w)) \<le> 20"
proof -
  have keyed: "\<forall>j \<in> set (exec_jobs w). ej_key j = dedup_key (low E) (ej_action j)"
    using reachable_inv [OF assms] by (simp add: gate_inv_def flight_ok_def list_all_iff job_keyed_def)
  have "in_flight (svc w) = ej_key ` set (exec_jobs w) \<union> set (done_keys w)"
    "distinct (map ej_key (exec_jobs w))"
    using reachable_inv [OF assms] by (simp_all add: gate_inv_def flight_ok_def)
  with keyed reachable_inv [OF assms] show ?thesis by (simp add: gate_inv_def claims_ok_def feeds_ok_def)
qed

definition empty_world :: world where
  "empty_world = \<lparr>svc = fresh_svc, db = empty_store, pref_tbl = [], rejected = [], jobs = [], running = None,
     finished = [], undoing = []\<rparr>"

definition sample_io :: io where
  "sample_io = \<lparr>now = 0, log_ok = True, pref_ok = True, rate_ok = True, insert_ok = True, send_ok = True,
     claim_ok = True, delete_ok = True, reject_ok = True, save_ok = True, list_ok = True, load_stages = 4,
     load_delete_ok = (\<lambda>_. True), err_text = [], inspected = (\<lambda>_. None)\<rparr>"

lemma empty_sound: "ids_sound (db empty_world)"
  by (simp add: empty_world_def empty_store_def ids_sound_def ids_ok_def)

lemma one_job_per_issue_and_approval_witness:
  "distinct (job_ids (step sample_env WorkerTakes (startup sample_env sample_io True empty_world)))"
  using one_job_per_issue_and_approval [OF reachable.stepped [OF reachable.started [OF empty_sound]]] by blast

lemma jobs_delete_row [simp]: "jobs (delete_row i n w) = jobs w"
  by (simp add: delete_row_def)

lemma jobs_run_approved:
  "jobs (snd (run_approved E pol i aid pa w)) = jobs w \<or>
   jobs (snd (run_approved E pol i aid pa w)) = jobs w @ [approval_job E pa aid ''approved by user''] \<and>
     approved_action_ready E pol i (db w) pa = Ready \<and> key_of E (pa_action pa) \<notin> in_flight (svc w)"
proof -
  obtain sent v where sj: "send_job i (approval_job E pa aid ''approved by user'') w = (sent, v)" by fastforce
  have "jobs v = jobs w \<or> jobs v = jobs w @ [approval_job E pa aid ''approved by user'']"
    using jobs_send [of i "approval_job E pa aid ''approved by user''" w] sj by (simp split: if_splits)
  then show ?thesis
    by (auto simp: run_approved_def Let_def sj split: preflight.split)
qed

lemma jobs_reject [simp]: "jobs (reject_card E i aid pa w) = jobs w"
  by (simp add: reject_card_def Let_def)

lemma ready_means:
  "approved_action_ready E pol i s pa = Ready \<Longrightarrow>
     permission (evaluate (low E) pol (pa_action pa) (ai_confidence (pa_info pa))) \<noteq> 0 \<and>
     rate_check E pol i s (pa_action pa) = Some False"
  by (auto simp: approved_action_ready_def split: verdict.splits option.splits bool.splits)

text \<open>
  C10: deciding on a card starts at most one job, only when the user approved, the claim took the
  row out of the waiting ones, the policy of this moment does not block the action, the rate
  limiter passed it, and its key was free; the job carries the card's id. A card that is
  rejected, stale, unreadable, or whose checks cannot be made starts nothing.
\<close>

theorem approval_spent_once:
  "jobs (snd (handle_approve E pol i aid approved w)) = jobs w \<or>
   (approved \<and> aid \<in> waiting (db w) \<and>
    (\<exists>pa s. claim E i aid True (db w) = (Inr (Some pa), s) \<and> aid \<notin> waiting s \<and>
       permission (evaluate (low E) pol (pa_action pa) (ai_confidence (pa_info pa))) \<noteq> 0 \<and>
       rate_check E pol i s (pa_action pa) = Some False \<and> key_of E (pa_action pa) \<notin> in_flight (svc w) \<and>
       jobs (snd (handle_approve E pol i aid approved w)) = jobs w @ [approval_job E pa aid ''approved by user'']))"
proof -
  obtain got s where c: "claim E i aid approved (db w) = (got, s)" by fastforce
  show ?thesis
  proof (cases "approved \<and> (\<exists>pa. got = Inr (Some pa))")
    case True
    then obtain pa where got: "got = Inr (Some pa)" and ap: "approved" by blast
    define v where "v = on_svc (drop_card aid) (w\<lparr>db := s\<rparr>)"
    have v: "jobs v = jobs w" "db v = s" "in_flight (svc v) = in_flight (svc w)" by (simp_all add: v_def drop_card_def)
    obtain res x where rx: "run_approved E pol i aid pa v = (res, x)" by fastforce
    have c': "claim E i aid True (db w) = (Inr (Some pa), s)" using c ap got by simp
    have "jobs (snd (handle_approve E pol i aid approved w)) = jobs x"
      using ap rx by (simp add: handle_approve_def Let_def c' flip: v_def)
    then show ?thesis
      using jobs_run_approved [of E pol i aid pa v] rx v ap c got claim_life [OF c] ready_means [of E pol i s pa] by auto
  next
    case False
    then show ?thesis
      by (auto simp: handle_approve_def Let_def c split: sum.split option.split)
  qed
qed

lemma commit_undo:
  assumes "commit E ok t j r rq s = Some (c, s')" and "res_success r" and "is_registry_reset (ej_action j)"
  shows "\<exists>n un. pe_undo c = Some n \<and> undo_exact un \<and> res_undo r = Some un \<and>
    (\<exists>row \<in> set (undos s'). ud_id row = n \<and> ud_undo row = un \<and> \<not> ud_undone row)"
  using assms by (auto simp: commit_def persist_execution_def undo_required_def Let_def
      split: if_splits option.splits)


definition sample_undo :: registry_undo where
  "sample_undo = \<lparr>undo_key_path = [], undo_value_name = [], prior_existed = False, prior_kind = None,
     prior_data = None, applied_kind = Some KDWord, applied_data = Some []\<rparr>"

definition sample_job :: "fix_action \<Rightarrow> exec_job" where
  "sample_job a = \<lparr>ej_action = a, ej_decision = 1, ej_baseline = default_state, ej_key = dedup_key id a,
     ej_label = [], ej_diagnosis = [], ej_confidence = Fin 1, ej_reason = None, ej_approval = None\<rparr>"

definition sample_exec_io :: exec_io where
  "sample_exec_io = \<lparr>fin_now = 0, commit_ok = True, commit_err = [], rollback = Inl [], recommit_ok = True,
     recommit_err = []\<rparr>"

definition sample_success :: execution_result where
  "sample_success = \<lparr>res_action = [], res_success = True, res_output = [], res_undo = Some sample_undo\<rparr>"



definition sample_row :: "status \<Rightarrow> approval_row" where
  "sample_row st = \<lparr>ar_id = 1, ar_created = 0, ar_decision = 1, ar_action_json = [], ar_info_json = [],
     ar_baseline_json = [], ar_key = None, ar_status = st, ar_claimed = None\<rparr>"

definition sample_store :: "status \<Rightarrow> store" where
  "sample_store st = empty_store\<lparr>approvals := [sample_row st], next_approval := 2\<rparr>"

lemma sample_store_held: "1 \<in> held (sample_store Approved)" "ids_sound (sample_store st)"
  by (simp_all add: sample_store_def sample_row_def held_def ids_with_def ids_sound_def ids_ok_def)


definition round :: "env \<Rightarrow> io \<times> exec_io \<times> exec_end \<Rightarrow> world \<Rightarrow> world" where
  "round E t w = (case t of (i, x, e) \<Rightarrow> exec_done E i (worker_finish E x e (worker_take w)))"

definition backlog :: "world \<Rightarrow> nat" where
  "backlog w = length (exec_jobs w) + length (finished w)"

lemma queues_reload [simp]: "exec_jobs (reload_pending E i w) = exec_jobs w" "finished (reload_pending E i w) = finished w"
  by (auto simp: reload_pending_def split: prod.split option.split)

lemma exec_jobs_finished [simp]: "exec_jobs (w\<lparr>finished := os\<rparr>) = exec_jobs w"
  by (simp add: exec_jobs_def)

lemma exec_done_backlog: "exec_jobs (exec_done E i w) = exec_jobs w" "finished (exec_done E i w) = tl (finished w)"
  by (auto simp: exec_done_def Let_def split: list.split)

lemma worker_backlog:
  "exec_jobs w \<noteq> [] \<Longrightarrow> exec_jobs (worker_finish E x e (worker_take w)) = tl (exec_jobs w) \<and>
     length (finished (worker_finish E x e (worker_take w))) = Suc (length (finished w))"
  "exec_jobs w = [] \<Longrightarrow> worker_finish E x e (worker_take w) = w"
proof -
  show "exec_jobs w = [] \<Longrightarrow> worker_finish E x e (worker_take w) = w"
    by (simp add: exec_jobs_def worker_take_def worker_finish_def split: option.splits)
  assume ne: "exec_jobs w \<noteq> []"
  define v where "v = worker_take w"
  obtain j js where v: "running v = Some j" "jobs v = js" "exec_jobs w = j # js" "finished v = finished w"
    using ne by (auto simp: v_def worker_take_def exec_jobs_def neq_Nil_conv split: option.splits list.splits)
  obtain r rf pe s where re: "record_end E x j e (db v) = (r, rf, pe, s)" by (metis prod_cases4)
  show "exec_jobs (worker_finish E x e (worker_take w)) = tl (exec_jobs w) \<and>
     length (finished (worker_finish E x e (worker_take w))) = Suc (length (finished w))"
    using v re by (simp add: worker_finish_def exec_jobs_def flip: v_def)
qed

lemma round_backlog: "backlog (round E t w) = backlog w - 1"
proof -
  obtain i x e where t: "t = (i, x, e)" by (cases t) auto
  show ?thesis
  proof (cases "exec_jobs w = []")
    case True
    then show ?thesis by (simp add: t round_def backlog_def exec_done_backlog worker_backlog)
  next
    case False
    then show ?thesis using worker_backlog(1) [OF False, of E x e]
      by (cases "exec_jobs w") (simp_all add: t round_def backlog_def exec_done_backlog)
  qed
qed

lemma round_reachable: "reachable E w \<Longrightarrow> reachable E (round E t w)"
proof -
  assume "reachable E w"
  then have "reachable E (step E (Folded (fst t)) (step E (WorkerEnds (fst (snd t)) (snd (snd t))) (step E WorkerTakes w)))"
    by (intro reachable.stepped)
  then show ?thesis by (cases t) (simp add: round_def)
qed

lemma clear_script_frame [simp]:
  "exec_jobs (clear_script_grant E i w) = exec_jobs w" "finished (clear_script_grant E i w) = finished w"
  "svc (clear_script_grant E i w) = svc w" "db (clear_script_grant E i w) = db w"
  by (auto simp: clear_script_grant_def exec_jobs_def split: sum.split prod.split)

lemma exec_jobs_reset [simp]:
  "exec_jobs (w\<lparr>svc := a, jobs := [], running := None, finished := b, undoing := c\<rparr>) = []"
  by (simp add: exec_jobs_def)

lemma startup_quiet [simp]: "exec_jobs (startup E i has_ai w) = []" "finished (startup E i has_ai w) = []"
  by (simp_all add: startup_def Let_def)

text \<open>
  C22: the executor never leaves the loop busy: from every reachable state, whatever each action
  does (returns, fails, panics or runs into its timeout) and whatever the store answers, as
  many rounds of the worker and the loop as there are jobs and outcomes empty both queues and
  leave no key in flight.
\<close>

theorem executor_drains:
  assumes "reachable E w" and "backlog w \<le> length ts"
  shows "in_flight (svc (fold (round E) ts w)) = {} \<and> exec_jobs (fold (round E) ts w) = [] \<and>
    finished (fold (round E) ts w) = []"
  using assms
proof (induction ts arbitrary: w)
  case Nil
  then have "exec_jobs w = []" "finished w = []" by (simp_all add: backlog_def)
  moreover have "in_flight (svc w) = set (map ej_key (exec_jobs w) @ done_keys w)"
    using reachable_inv [OF Nil(1)] by (simp add: gate_inv_def flight_ok_def)
  ultimately show ?case by (simp add: done_keys_def)
next
  case (Cons t ts)
  have "backlog (round E t w) \<le> length ts" using Cons.prems(2) by (simp add: round_backlog)
  with Cons.IH [OF round_reachable [OF Cons.prems(1)]] show ?case by simp
qed

lemma executor_drains_witness:
  "in_flight (svc (fold (round sample_env) [] (startup sample_env sample_io True empty_world))) = {}"
proof -
  have "backlog (startup sample_env sample_io True empty_world) \<le> length []"
    by (simp add: backlog_def)
  then show ?thesis using executor_drains [OF reachable.started [OF empty_sound]] by blast
qed



end
