(* ===== verification/Approval_Life.thy ===== *)
theory Approval_Life
  imports Gate_Props
begin

text \<open>
  The contract of the approval queue, as one small machine per approval id, and the proof that
  the gate refines it: whatever event the loop handles, an id moves along the machine's
  transitions or stays where it is.
\<close>

section \<open>The abstract machine\<close>

text \<open>An id was never issued or is done with, waits for the user, is claimed, or has a job.\<close>

datatype life = Absent | Waiting | Claimed | Running

text \<open>Only an id that was not issued yet may start to wait out of nothing.\<close>

fun life_step :: "bool \<Rightarrow> life \<Rightarrow> life \<Rightarrow> bool" where
  "life_step unissued Absent b = (b = Absent \<or> b = Waiting \<and> unissued)"
| "life_step unissued Waiting b = True"
| "life_step unissued Claimed b = (b = Claimed \<or> b = Absent)"
| "life_step unissued Running b = True"

definition life_of :: "world \<Rightarrow> int \<Rightarrow> life" where
  "life_of w i =
     (if i \<in> set (job_ids w) then Running else if i \<in> waiting (db w) then Waiting
      else if i \<in> held (db w) then Claimed else Absent)"

text \<open>
  The transitions of the machine read on the world: what may become a job waited before, what
  starts to wait is new or had a job, what is claimed now was claimed, waited or had a job.
\<close>

definition moves :: "world \<Rightarrow> world \<Rightarrow> bool" where
  "moves w v =
     (set (job_ids v) \<subseteq> set (job_ids w) \<union> waiting (db w) \<and>
      waiting (db v) \<subseteq> waiting (db w) \<union> set (job_ids w) \<union> {i. next_approval (db w) \<le> i} \<and>
      held (db v) \<subseteq> held (db w) \<union> waiting (db w) \<union> set (job_ids w) \<and>
      next_approval (db w) \<le> next_approval (db v))"

lemma moves_life:
  assumes "moves w v" and "ids_sound (db w)"
  shows "life_step (next_approval (db w) \<le> i) (life_of w i) (life_of v i)"
  using assms(1) ids_sound_held [OF assms(2), of i]
  by (cases "life_of w i") (auto simp: life_of_def moves_def split: if_splits)

text \<open>Events that only add cards.\<close>

definition only_adds :: "world \<Rightarrow> world \<Rightarrow> bool" where
  "only_adds w v =
     (set (job_ids v) = set (job_ids w) \<and> waiting (db v) \<subseteq> waiting (db w) \<union> {i. next_approval (db w) \<le> i} \<and>
      held (db v) = held (db w) \<and> next_approval (db w) \<le> next_approval (db v))"

lemma only_adds_moves: "only_adds w v \<Longrightarrow> moves w v"
  by (auto simp: only_adds_def moves_def)

lemma only_adds_refl [simp]: "only_adds w w"
  by (simp add: only_adds_def)

lemma only_adds_trans: "only_adds u w \<Longrightarrow> only_adds w v \<Longrightarrow> only_adds u v"
  by (force simp: only_adds_def)

lemma only_adds_svc [simp]: "only_adds w (on_svc f v) = only_adds w v" "only_adds (on_svc f w) v = only_adds w v"
  by (simp_all add: only_adds_def)

lemma moves_svc [simp]: "moves w (on_svc f v) = moves w v" "moves (on_svc f w) v = moves w v"
  by (simp_all add: moves_def)

lemma exec_jobs_other [simp]:
  "exec_jobs (w\<lparr>pref_tbl := t\<rparr>) = exec_jobs w" "exec_jobs (w\<lparr>rejected := r\<rparr>) = exec_jobs w"
  "exec_jobs (w\<lparr>undoing := us\<rparr>) = exec_jobs w"
  by (simp_all add: exec_jobs_def)

lemma job_ids_cong: "exec_jobs v = exec_jobs w \<Longrightarrow> job_ids v = job_ids w"
  by (simp add: job_ids_def)

lemma only_adds_same: "exec_jobs v = exec_jobs w \<Longrightarrow> db v = db w \<Longrightarrow> only_adds w v"
  using job_ids_cong [of v w] by (simp add: only_adds_def)

lemma exec_jobs_send:
  "send_job i j w = (sent, v) \<Longrightarrow> exec_jobs v = (if sent then exec_jobs w @ [j] else exec_jobs w) \<and> db v = db w"
  by (auto simp: send_job_def Let_def exec_jobs_def split: if_splits)

lemma job_ids_snoc: "exec_jobs v = exec_jobs w @ [j] \<Longrightarrow>
  set (job_ids v) = set (job_ids w) \<union> (case ej_approval j of Some i \<Rightarrow> {i} | None \<Rightarrow> {})"
  by (simp add: job_ids_def map_filter_def split: option.split)

lemma only_adds_send:
  assumes "send_job i j w = (sent, v)" and "ej_approval j = None"
  shows "only_adds w v"
  using exec_jobs_send [OF assms(1)] job_ids_snoc [of v w j] job_ids_cong [of v w] assms(2)
  by (cases sent) (simp_all add: only_adds_def)

lemma only_adds_insert:
  assumes "insert_approval E i d a info b (db w) = Some (n, s)"
  shows "only_adds w (w\<lparr>db := s\<rparr>)"
  using insert_life [OF assms] by (auto simp: only_adds_def)

lemma only_adds_log: "log_decision t (db w) = (d, s) \<Longrightarrow> only_adds w (w\<lparr>db := s\<rparr>)"
  using log_life by (simp add: only_adds_def)

lemma only_adds_route_problem: "only_adds w (route_problem E pol lf d base ip w)"
proof -
  have run: "only_adds w (auto_run E pol d base i p a w)" for i p a
    by (auto simp: auto_run_def Let_def split: option.split bool.split prod.split intro: only_adds_send)
  have ask: "only_adds w (ask_user E d base i p a r w)" for i p a r
    by (auto simp: ask_user_def Let_def split: option.split prod.split intro: only_adds_insert)
  show ?thesis
    by (auto simp: route_problem_def Let_def run ask split: prod.split option.split verdict.split)
qed

lemma only_adds_analysis: "only_adds w (route_analysis E pol rows base i reported w)"
proof -
  have fold: "only_adds v (fold (route_problem E pol lf d base) ps v)" for lf d ps v
    by (induction ps arbitrary: v) (auto intro: only_adds_trans only_adds_route_problem)
  define x where "x = on_svc (\<lambda>st. if paused st then st else st\<lparr>svc_error := None\<rparr>) w"
  have x: "only_adds w x" by (simp add: x_def)
  obtain d s where ds: "log_decision (now i) (db x) = (d, s)" by fastforce
  have "only_adds w (fold (route_problem E pol (load_facts rows) d base) reported (x\<lparr>db := s\<rparr>))"
    by (rule only_adds_trans [OF only_adds_trans [OF x only_adds_log [OF ds]] fold])
  then show ?thesis using x ds by (simp add: route_analysis_def Let_def flip: x_def)
qed

lemma only_adds_user_action: "only_adds w (snd (route_user_action E pol i a diag label force w))"
proof -
  obtain d s where ds: "log_decision (now i) (db w) = (d, s)" by fastforce
  note logged = only_adds_log [OF ds]
  have ask: "only_adds w y" if "user_ask E d i diag a r (w\<lparr>db := s\<rparr>) = (res, y)" for r res y
  proof -
    have "only_adds (w\<lparr>db := s\<rparr>) y"
      using that only_adds_insert [of E i d a _ default_state "w\<lparr>db := s\<rparr>"]
      by (auto simp: user_ask_def Let_def split: option.splits)
    then show ?thesis by (rule only_adds_trans [OF logged])
  qed
  have send: "only_adds w y" if "send_job i j (w\<lparr>db := s\<rparr>) = (b, y)" "ej_approval j = None" for j b y
    by (rule only_adds_trans [OF logged only_adds_send [OF that]])
  show ?thesis
    by (auto simp: route_user_action_def Let_def ds logged split: option.split verdict.split bool.split prod.split
        intro: ask send)
qed

text \<open>Deciding on a card: the claim, then a job, a deletion or nothing.\<close>

definition claimed_from :: "int \<Rightarrow> world \<Rightarrow> world \<Rightarrow> bool" where
  "claimed_from aid w v =
     (set (job_ids v) \<subseteq> set (job_ids w) \<union> {aid} \<and> waiting (db v) \<subseteq> waiting (db w) \<and>
      held (db v) \<subseteq> held (db w) \<union> {aid} \<and> next_approval (db v) = next_approval (db w))"

lemma claimed_moves: "claimed_from aid w v \<Longrightarrow> aid \<in> waiting (db w) \<Longrightarrow> moves w v"
  by (auto simp: claimed_from_def moves_def)

lemma claimed_svc [simp]: "claimed_from aid w (on_svc f v) = claimed_from aid w v"
  by (simp add: claimed_from_def)

lemma claimed_delete: "claimed_from aid w v \<Longrightarrow> claimed_from aid w (delete_row i n v)"
  by (auto simp: claimed_from_def delete_row_def delete_life)

lemma claimed_send:
  assumes "claimed_from aid w v" and "send_job i j v = (sent, x)" and "ej_approval j = Some aid"
  shows "claimed_from aid w x"
  using assms exec_jobs_send [OF assms(2)] job_ids_snoc [of x v j] job_ids_cong [of x v]
  by (cases sent) (auto simp: claimed_from_def)

lemma claimed_run:
  assumes "claimed_from aid w v"
  shows "claimed_from aid w (snd (run_approved E pol i aid pa v))"
    and "claimed_from aid w (snd (run_always_approved E pol i aid pa v))"
  using assms claimed_send [OF assms, of i "approval_job E pa aid _"]
  by (auto simp: run_approved_def run_always_approved_def approval_job_def split: preflight.split prod.split
      intro: claimed_delete)

lemma claimed_rejected [simp]: "claimed_from aid w (v\<lparr>rejected := rs\<rparr>) = claimed_from aid w v"
  by (simp add: claimed_from_def job_ids_def)

lemma claimed_reject: "claimed_from aid w v \<Longrightarrow> claimed_from aid w (reject_card E i aid pa v)"
  by (simp add: reject_card_def Let_def claimed_delete)

lemma claim_claims:
  assumes "claim E i aid approved (db w) = (Inr (Some pa), s)"
  shows "claimed_from aid w (on_svc (drop_card aid) (w\<lparr>db := s\<rparr>)) \<and> aid \<in> waiting (db w)"
  using claim_life [OF assms] by (auto simp: claimed_from_def)

lemma moves_refl [simp]: "moves w w"
  by (auto simp: moves_def)

lemma moves_approve: "moves w (snd (handle_approve E pol i aid approved w))"
proof -
  obtain got s where c: "claim E i aid approved (db w) = (got, s)" by fastforce
  show ?thesis
  proof (cases "\<exists>pa. got = Inr (Some pa)")
    case True
    then obtain pa where got: "got = Inr (Some pa)" by blast
    define v where "v = on_svc (drop_card aid) (w\<lparr>db := s\<rparr>)"
    have cl: "claimed_from aid w v" "aid \<in> waiting (db w)"
      using claim_claims [OF c [unfolded got]] by (simp_all add: v_def)
    have "moves w x" if "run_approved E pol i aid pa v = (res, x)" for res x
      using claimed_run(1) [OF cl(1), of E pol i pa] that claimed_moves [OF _ cl(2)] by simp
    moreover have "moves w (reject_card E i aid pa v)"
      by (rule claimed_moves [OF claimed_reject [OF cl(1)] cl(2)])
    ultimately show ?thesis
      by (auto simp: handle_approve_def Let_def c got simp flip: v_def split: prod.split)
  next
    case False
    then show ?thesis by (auto simp: handle_approve_def Let_def c split: sum.split option.split)
  qed
qed

text \<open>A store change that only takes ids away.\<close>

lemma moves_shrink:
  assumes "exec_jobs v = exec_jobs w" and "next_approval (db v) = next_approval (db w)"
    and "waiting (db v) \<subseteq> waiting (db w)" and "held (db v) \<subseteq> held (db w)"
  shows "moves w v"
  using assms job_ids_cong [OF assms(1)] by (auto simp: moves_def)

lemma moves_other: "exec_jobs v = exec_jobs w \<Longrightarrow> db v = db w \<Longrightarrow> moves w v"
  by (rule moves_shrink) simp_all

lemma moves_always: "exec_jobs v = exec_jobs w \<Longrightarrow> db v = db w \<Longrightarrow> moves w (snd (always_approve_card E pol i aid v))"
proof -
  assume v: "exec_jobs v = exec_jobs w" "db v = db w"
  have same: "moves v x = moves w x" for x using v by (simp add: moves_def job_ids_def)
  obtain got s where c: "claim E i aid True (db v) = (got, s)" by fastforce
  have "moves v (snd (always_approve_card E pol i aid v))"
  proof (cases "\<exists>pa. got = Inr (Some pa)")
    case True
    then obtain pa where got: "got = Inr (Some pa)" by blast
    define y where "y = on_svc (drop_card aid) (v\<lparr>db := s\<rparr>)"
    have cl: "claimed_from aid v y" "aid \<in> waiting (db v)"
      using claim_claims [OF c [unfolded got]] by (simp_all add: y_def)
    have "moves v x" if "run_always_approved E pol i aid pa y = (res, x)" for res x
      using claimed_run(2) [OF cl(1), of E pol i pa] that claimed_moves [OF _ cl(2)] by simp
    then show ?thesis
      by (auto simp: always_approve_card_def Let_def c got simp flip: y_def split: prod.split)
  next
    case False
    then show ?thesis by (auto simp: always_approve_card_def Let_def c split: sum.split option.split)
  qed
  then show ?thesis by (simp add: same)
qed

lemma delete_row_frame [simp]: "exec_jobs (delete_row i n w) = exec_jobs w"
  by (simp add: delete_row_def)

lemma moves_delete: "exec_jobs v = exec_jobs w \<Longrightarrow> db v = db w \<Longrightarrow> moves w (delete_row i n v)"
  by (rule moves_shrink) (auto simp: delete_row_def delete_life)

lemma moves_set_preference: "moves w (snd (handle_set_preference E pol i aid token w))"
proof -
  have frame: "exec_jobs (refresh_preferences i v) = exec_jobs w \<and> db (refresh_preferences i v) = db w"
    if "save_preference E i pref pa w = Some v" for pref pa v
    using that by (auto simp: save_preference_def refresh_preferences_def Let_def split: if_splits sum.splits)
  have ig: "moves w x" if "save_preference E i pref pa w = Some v"
    "ignore_card i aid pa (refresh_preferences i v) = (res, x)" for pref pa v res x
    using frame [OF that(1)] that(2) moves_delete [of "on_svc (drop_card aid) (refresh_preferences i v)" w i aid]
    by (auto simp: ignore_card_def Let_def)
  have al: "moves w x" if "save_preference E i pref pa w = Some v"
    "always_approve_card E pol i aid (refresh_preferences i v) = (res, x)" for pref pa v res x
    using frame [OF that(1)] that(2) moves_always [of "refresh_preferences i v" w E pol i aid] by simp
  show ?thesis
    by (auto simp: handle_set_preference_def Let_def split: option.split prod.split preference.split intro: ig al)
qed

lemma moves_clear_preference: "moves w (snd (handle_clear_preference i key w))"
  by (auto simp: handle_clear_preference_def refresh_preferences_def split: sum.split bool.split intro: moves_other)

lemma moves_take: "moves w (worker_take w)"
  by (rule moves_other) (auto simp: worker_take_def exec_jobs_def split: option.split list.split)

lemma moves_finish: "ids_sound (db w) \<Longrightarrow> moves w (worker_finish E x e w)"
proof (cases "running w")
  case (Some j)
  assume s: "ids_sound (db w)"
  obtain r refresh pe s' where re: "record_end E x j e (db w) = (r, refresh, pe, s')" by (metis prod_cases4)
  note life = record_end_life [OF re s]
  define v where "v = worker_finish E x e w"
  have ex: "exec_jobs w = j # exec_jobs v" "db v = s'"
    by (simp_all add: v_def worker_finish_def Some re exec_jobs_def)
  have ids: "set (job_ids w) = (case ej_approval j of Some i \<Rightarrow> {i} | None \<Rightarrow> {}) \<union> set (job_ids v)"
    by (simp add: job_ids_def ex map_filter_def split: option.split)
  have "moves w v" using life ids by (auto simp: moves_def ex split: option.splits)
  then show ?thesis by (simp add: v_def)
qed (simp add: worker_finish_def)

lemma moves_reload: "ids_sound (db w) \<Longrightarrow> moves w (reload_pending E i w)"
proof -
  assume s: "ids_sound (db w)"
  obtain res s' where ld: "load_pending_approvals (low E) (serde E) (load_stages i) (load_delete_ok i) (db w) = (res, s')"
    by fastforce
  have "db (reload_pending E i w) = s'" by (simp add: reload_pending_def ld split: option.split)
  then show ?thesis using load_life [OF ld s] by (intro moves_shrink) auto
qed

lemma moves_done: "ids_sound (db w) \<Longrightarrow> moves w (exec_done E i w)"
proof (cases "finished w")
  case (Cons o1 os)
  assume s: "ids_sound (db w)"
  define v where "v = on_svc (\<lambda>st. st\<lparr>in_flight := in_flight st - {eo_key o1}\<rparr>) (w\<lparr>finished := os\<rparr>)"
  have v: "exec_jobs v = exec_jobs w" "db v = db w" by (simp_all add: v_def)
  have "moves v (reload_pending E i v)" using s v by (intro moves_reload) simp
  then have "moves w (reload_pending E i v)" using v by (simp add: moves_def job_ids_def)
  then show ?thesis using moves_other [OF v] by (simp add: exec_done_def Cons Let_def flip: v_def)
qed (simp add: exec_done_def)

lemma moves_undo: "moves w (snd (handle_undo i uid w))" "moves w (undo_finish i n answer w)"
proof -
  obtain un s where c: "claim_registry_undo uid (db w) = (un, s)" by fastforce
  show "moves w (snd (handle_undo i uid w))"
    using undo_life(1) [OF c] by (auto simp: handle_undo_def c exec_jobs_def split: option.split intro!: moves_shrink)
  show "moves w (undo_finish i n answer w)"
  proof (rule moves_shrink)
    show "exec_jobs (undo_finish i n answer w) = exec_jobs w"
      by (simp add: undo_finish_def exec_jobs_def split: prod.split)
  qed (auto simp: undo_finish_def undo_life split: prod.split)
qed

lemma step_moves: "ids_sound (db w) \<Longrightarrow> \<forall>i b. ev \<noteq> Restarted i b \<Longrightarrow> moves w (step E ev w)"
proof (cases ev)
  case (Restarted i b)
  then show "\<forall>i b. ev \<noteq> Restarted i b \<Longrightarrow> moves w (step E ev w)" by blast
qed (simp_all add: only_adds_moves only_adds_analysis only_adds_user_action moves_approve moves_set_preference
      moves_clear_preference moves_take moves_finish moves_done moves_undo)

section \<open>Properties\<close>



end
