(* ===== verification/Updater_Plan.thy ===== *)
theory Updater_Plan
  imports Updater_Names
begin

text \<open>
  The gate of AI-found installers (\<open>updater/plan.rs\<close>): which URL may be downloaded for which
  app, which switches reach the installer, and the validation of a whole proposed plan. The
  \<open>url\<close> crate is the parameter \<open>parse\<close>, which gives the parts the code reads of a URL.
\<close>

section \<open>Plans and URLs\<close>

datatype installer_kind = Exe | Msi | Zip | SevenZ | Tar | TarGz

definition is_archive :: "installer_kind \<Rightarrow> bool" where
  "is_archive k = (k \<in> {Zip, SevenZ, Tar, TarGz})"

record install_plan_raw =
  rp_installer_url :: string
  rp_releases_url :: string
  rp_archive_path :: string
  rp_version :: string
  rp_args :: "string list"
  rp_sha256 :: "string option"
  rp_publisher :: string

record install_plan =
  ip_name :: string
  ip_current :: string
  ip_url :: string
  ip_host :: string
  ip_releases :: "string option"
  ip_archive_path :: "string option"
  ip_version :: string
  ip_kind :: installer_kind
  ip_args :: "string list"
  ip_sha256 :: "string option"
  ip_publisher :: "string option"

record url =
  ur_scheme :: string
  ur_username :: string
  ur_password :: "string option"
  ur_port :: "nat option"
  ur_host :: "string option"
  ur_path :: string
  ur_segments :: "string list"

section \<open>IP addresses\<close>

text \<open>
  \<open>IpAddr::from_str\<close>: four decimal numbers up to 255 without leading zeros, or the IPv6 forms:
  groups of one to four hexadecimal digits, eight of them or fewer around one double colon, the
  last two possibly written as an IPv4 address.
\<close>

definition ipv4_octet :: "string \<Rightarrow> bool" where
  "ipv4_octet s =
     (s \<noteq> [] \<and> length s \<le> 3 \<and> list_all is_ascii_digit s \<and> digits_val 0 s \<le> 255 \<and>
      (length s = 1 \<or> hd s \<noteq> CHR ''0''))"

definition is_ipv4 :: "string \<Rightarrow> bool" where
  "is_ipv4 s = (let ps = split_on (\<lambda>c. c = CHR ''.'') s in length ps = 4 \<and> list_all ipv4_octet ps)"

definition ipv6_group :: "string \<Rightarrow> bool" where
  "ipv6_group s = (s \<noteq> [] \<and> length s \<le> 4 \<and> list_all is_ascii_hexdigit s)"

text \<open>How many 16-bit groups a colon-separated text holds, when \<open>v4\<close> allows an IPv4 tail.\<close>

definition ipv6_groups :: "bool \<Rightarrow> string \<Rightarrow> nat option" where
  "ipv6_groups v4 s =
     (if s = [] then Some 0
      else (let ps = split_on (\<lambda>c. c = CHR '':'') s in
            if list_all ipv6_group ps then Some (length ps)
            else if v4 \<and> list_all ipv6_group (butlast ps) \<and> is_ipv4 (last ps) then Some (length ps + 1)
            else None))"

fun split_double_colon :: "string \<Rightarrow> (string \<times> string) option" where
  "split_double_colon [] = None"
| "split_double_colon (c # s) =
     (if starts_with ''::'' (c # s) then Some ([], tl s)
      else map_option (\<lambda>(h, t). (c # h, t)) (split_double_colon s))"

definition is_ipv6 :: "string \<Rightarrow> bool" where
  "is_ipv6 s = (case split_double_colon s of
     None \<Rightarrow> ipv6_groups True s = Some 8
   | Some (h, t) \<Rightarrow>
       (case (ipv6_groups False h, ipv6_groups True t) of
          (Some m, Some n) \<Rightarrow> m + n \<le> 7
        | _ \<Rightarrow> False))"

definition is_ip_addr :: "string \<Rightarrow> bool" where
  "is_ip_addr s = (is_ipv4 s \<or> is_ipv6 s)"

section \<open>Hosts\<close>

definition TRUSTED_HOSTS :: "string list" where
  "TRUSTED_HOSTS =
     [''github.com'', ''objects.githubusercontent.com'', ''release-assets.githubusercontent.com'']"

definition MULTI_SUFFIXES :: "string list" where
  "MULTI_SUFFIXES =
     [''co.uk'', ''org.uk'', ''com.au'', ''co.nz'', ''co.jp'', ''com.br'', ''co.in'', ''co.za'', ''com.tr'']"

definition brand_label :: "string \<Rightarrow> string option" where
  "brand_label host =
     (let labels = filter (\<lambda>l. l \<noteq> []) (split_on (\<lambda>c. c = CHR ''.'') host); n = length labels in
      if n < 2 then None
      else (let last2 = labels ! (n - 2) @ ''.'' @ labels ! (n - 1);
                suffix_labels = (if last2 \<in> set MULTI_SUFFIXES then 2 else 1)
            in if suffix_labels + 1 \<le> n then Some (labels ! (n - (suffix_labels + 1))) else None))"

definition host_trusted :: "(string \<Rightarrow> string) \<Rightarrow> string \<Rightarrow> bool" where
  "host_trusted u host = (to_lowercase u host \<in> set TRUSTED_HOSTS)"

definition alnum_token :: "string \<Rightarrow> string" where
  "alnum_token s = map ascii_lower (filter is_ascii_alphanumeric s)"

definition first_token :: "string \<Rightarrow> string" where
  "first_token name = (case split_whitespace name of [] \<Rightarrow> [] | w # _ \<Rightarrow> alnum_token w)"

definition host_matches_name :: "string \<Rightarrow> string \<Rightarrow> bool" where
  "host_matches_name host name = (case brand_label host of
     None \<Rightarrow> False
   | Some b \<Rightarrow>
       (let brand = alnum_token b; full = alnum_token name; first = first_token name in
        \<not> length brand < 4 \<and>
        (length full \<ge> 4 \<and> brand = full \<or> length first \<ge> 4 \<and> brand = first)))"

definition host_acceptable :: "(string \<Rightarrow> string) \<Rightarrow> string \<Rightarrow> string \<Rightarrow> bool" where
  "host_acceptable u host name = (host_trusted u host \<or> host_matches_name host name)"

definition relates :: "string \<Rightarrow> string \<Rightarrow> bool" where
  "relates name seg =
     (let app = alnum_token name; first = first_token name in
      seg \<noteq> [] \<and>
      (length app \<ge> 3 \<and> (contains_str app seg \<or> contains_str seg app) \<or>
       length first \<ge> 3 \<and> (contains_str first seg \<or> contains_str seg first)))"

definition github_repo_correlates :: "url \<Rightarrow> string \<Rightarrow> bool" where
  "github_repo_correlates v name =
     (let seg = (\<lambda>i. if i < length (ur_segments v) then alnum_token (ur_segments v ! i) else [])
      in relates name (seg 0) \<or> relates name (seg 1))"

text \<open>The host as the gates see it: lower case, a single trailing dot removed, brackets off for the IP test.\<close>

definition clean_host :: "(string \<Rightarrow> string) \<Rightarrow> string \<Rightarrow> string" where
  "clean_host u host = strip_suffix_or ''.'' (to_lowercase u host)"

definition bare_ip :: "string \<Rightarrow> string" where
  "bare_ip host = (case strip_prefix ''['' host of
     None \<Rightarrow> host
   | Some h \<Rightarrow> (case strip_suffix '']'' h of Some b \<Rightarrow> b | None \<Rightarrow> host))"

definition is_idn :: "string \<Rightarrow> bool" where
  "is_idn host = (starts_with ''xn--'' host \<or> contains_str ''.xn--'' host)"

definition url_acceptable :: "(string \<Rightarrow> string) \<Rightarrow> url \<Rightarrow> string \<Rightarrow> string + unit" where
  "url_acceptable u v name =
     (if ur_scheme v \<noteq> ''https'' then Inl ''not https''
      else if ur_username v \<noteq> [] \<or> ur_password v \<noteq> None then Inl ''embeds credentials''
      else if ur_port v \<noteq> None then Inl ''non-default port''
      else (case ur_host v of
              None \<Rightarrow> Inl ''no host''
            | Some h \<Rightarrow>
                (let host = clean_host u h in
                 if is_ip_addr (bare_ip host) then Inl ''raw IP host''
                 else if is_idn host then Inl ''punycode/IDN host''
                 else if \<not> host_acceptable u host name then Inl ''untrusted host''
                 else if host = ''github.com'' \<and> \<not> github_repo_correlates v name
                   then Inl ''github repo does not correlate with the app''
                 else Inr ())))"

section \<open>Arguments\<close>

definition is_hex64 :: "string \<Rightarrow> bool" where
  "is_hex64 s = (length s = 64 \<and> list_all is_ascii_hexdigit s)"

definition ALLOW_EXE :: "string list" where
  "ALLOW_EXE = [''/S'', ''/silent'', ''/verysilent'', ''/quiet'', ''/q'', ''/norestart'', ''/passive'',
     ''/suppressmsgboxes'']"

definition ALLOW_MSI :: "string list" where
  "ALLOW_MSI = [''/qn'', ''/quiet'', ''/norestart'', ''/passive'', ''REBOOT=ReallySuppress'']"

definition ALLOW_ARCHIVE :: "string list" where
  "ALLOW_ARCHIVE = ALLOW_EXE @ [''/qn'', ''REBOOT=ReallySuppress'']"

definition allowed_args :: "installer_kind \<Rightarrow> string list" where
  "allowed_args k = (case k of Exe \<Rightarrow> ALLOW_EXE | Msi \<Rightarrow> ALLOW_MSI | _ \<Rightarrow> ALLOW_ARCHIVE)"

definition shell_meta :: "char \<Rightarrow> bool" where
  "shell_meta c = (c \<in> {CHR '' '', CHR 0x09, CHR 0x27, CHR 0x22, CHR '';'', CHR ''&'', CHR ''|'', CHR ''>'',
                        CHR ''<'', CHR ''$'', CHR 0x60, CHR 0x0A, CHR 0x0D})"

definition add_arg :: "installer_kind \<Rightarrow> string \<Rightarrow> string list \<Rightarrow> string list" where
  "add_arg k a out =
     (let t = trim a in
      if t = [] \<or> list_ex shell_meta t then out
      else if list_ex (\<lambda>x. eq_ignore_ascii_case x t) (allowed_args k) \<and>
              \<not> list_ex (\<lambda>x. eq_ignore_ascii_case x t) out then out @ [t]
      else out)"

definition sanitise_args :: "installer_kind \<Rightarrow> string list \<Rightarrow> string list" where
  "sanitise_args k raw = fold (add_arg k) raw []"

section \<open>The plan\<close>

definition is_null :: "string \<Rightarrow> bool" where
  "is_null s = (s = [] \<or> eq_ignore_ascii_case s ''null'')"

definition kind_of_path :: "string \<Rightarrow> installer_kind option" where
  "kind_of_path path =
     (if ends_with ''.msi'' path then Some Msi
      else if ends_with ''.exe'' path then Some Exe
      else if ends_with ''.tar.gz'' path \<or> ends_with ''.tgz'' path then Some TarGz
      else if ends_with ''.tar'' path then Some Tar
      else if ends_with ''.7z'' path then Some SevenZ
      else if ends_with ''.zip'' path then Some Zip
      else None)"

definition plan_sha256 :: "(string \<Rightarrow> string) \<Rightarrow> string option \<Rightarrow> string + string option" where
  "plan_sha256 u raw = (case map_option (\<lambda>s. to_lowercase u (trim s)) raw of
     None \<Rightarrow> Inr None
   | Some s \<Rightarrow>
       if s = [] \<or> s = ''null'' then Inr None
       else if is_hex64 s then Inr (Some s)
       else Inl ''provided sha256 is not 64 hex characters'')"

definition safe_archive_path :: "(string \<Rightarrow> string) \<Rightarrow> string \<Rightarrow> bool" where
  "safe_archive_path u p =
     (\<not> starts_with ''/'' p \<and> \<not> contains_str '':'' p \<and>
      \<not> list_ex (\<lambda>part. part = [] \<or> part = ''.'' \<or> part = ''..'') (split_on (\<lambda>c. c = CHR ''/'') p) \<and>
      (ends_with ''.exe'' (to_lowercase u p) \<or> ends_with ''.msi'' (to_lowercase u p)))"

definition plan_archive_path ::
  "(string \<Rightarrow> string) \<Rightarrow> installer_kind \<Rightarrow> string \<Rightarrow> string + string option" where
  "plan_archive_path u k raw =
     (let p = replace_char CHR 0x5C ''/'' (trim raw) in
      if is_null p then Inr None
      else if \<not> is_archive k \<or> \<not> safe_archive_path u p
        then Inl ''archive installer path is not a safe relative .exe/.msi path''
      else Inr (Some p))"

definition gate_error :: "string \<Rightarrow> url \<Rightarrow> string \<Rightarrow> string \<Rightarrow> string" where
  "gate_error reason v host name =
     (if reason = ''not https'' then ''installer URL is not https''
      else if reason = ''embeds credentials'' then ''installer URL embeds credentials''
      else if reason = ''non-default port'' then ''installer URL uses a non-default port''
      else if reason = ''no host'' then ''installer URL has no host''
      else if reason = ''raw IP host'' then ''installer URL host is a raw IP''
      else if reason = ''punycode/IDN host'' then ''installer URL host is punycode/IDN''
      else if reason = ''untrusted host'' then
        ''host '' @ apos @ host @ apos @ '' is not a trusted release host or the app'' @ apos @ ''s vendor domain''
      else ''github repo in '' @ apos @ ur_path v @ apos @ '' does not correlate with app '' @ apos @ name @ apos)"

definition default_args :: "installer_kind \<Rightarrow> string list \<Rightarrow> string list" where
  "default_args k args = (if k = Msi \<and> args = [] then [''/qn'', ''/norestart''] else args)"

text \<open>
  The tests on the URL are the ones of \<open>url_acceptable\<close>, in the same order, with their own
  messages; the rest of the plan follows.
\<close>

definition validate_plan ::
  "(string \<Rightarrow> string) \<Rightarrow> (string \<Rightarrow> url option) \<Rightarrow> install_plan_raw \<Rightarrow> string \<Rightarrow> string \<Rightarrow> string + install_plan" where
  "validate_plan u parse raw name current =
     (let url_str = trim (rp_installer_url raw) in
      if is_null url_str then Inl ''no direct installer URL''
      else (case parse url_str of
         None \<Rightarrow> Inl ''installer URL is not valid''
       | Some v \<Rightarrow>
         (let host = (case ur_host v of Some h \<Rightarrow> clean_host u h | None \<Rightarrow> []) in
          case url_acceptable u v name of
            Inl reason \<Rightarrow> Inl (gate_error reason v host name)
          | Inr _ \<Rightarrow>
            (case kind_of_path (to_lowercase u (ur_path v)) of
               None \<Rightarrow> Inl ''installer URL does not end in .exe, .msi, .zip, .7z, .tar, or .tar.gz''
             | Some k \<Rightarrow>
               (case plan_sha256 u (rp_sha256 raw) of
                  Inl e \<Rightarrow> Inl e
                | Inr sha \<Rightarrow>
                  (let version = trim (rp_version raw) in
                   if is_null version then Inl ''plan has no expected version''
                   else (case plan_archive_path u k (rp_archive_path raw) of
                      Inl e \<Rightarrow> Inl e
                    | Inr path \<Rightarrow>
                      Inr \<lparr>ip_name = name, ip_current = current, ip_url = url_str, ip_host = host,
                           ip_releases = (let r = trim (rp_releases_url raw)
                                          in if starts_with ''https://'' r then Some r else None),
                           ip_archive_path = path, ip_version = version, ip_kind = k,
                           ip_args = default_args k (sanitise_args k (rp_args raw)),
                           ip_sha256 = sha,
                           ip_publisher = (let p = trim (rp_publisher raw)
                                           in if is_null p then None else Some p)\<rparr>)))))))"

definition plan_runnable :: "install_plan \<Rightarrow> bool" where
  "plan_runnable p = (ip_kind p \<noteq> Exe \<or> ip_args p \<noteq> [])"

section \<open>What a validated plan promises\<close>

definition arg_ok :: "installer_kind \<Rightarrow> string \<Rightarrow> bool" where
  "arg_ok k t = (\<not> list_ex shell_meta t \<and> (\<exists>x \<in> set (allowed_args k). eq_ignore_ascii_case x t))"

lemma add_arg_new:
  assumes "t \<in> set (add_arg k a out)"
  shows "t \<in> set out \<or> t = trim a \<and> arg_ok k t"
  using assms by (simp add: add_arg_def Let_def arg_ok_def list_ex_iff split: if_splits) blast

lemma sanitise_args_new:
  assumes "t \<in> set (sanitise_args k raw)"
  shows "arg_ok k t \<and> (\<exists>a \<in> set raw. t = trim a)"
proof -
  have "t \<in> set out \<or> arg_ok k t \<and> (\<exists>a \<in> set raw. t = trim a)" if "t \<in> set (fold (add_arg k) raw out)" for out
    using that
  proof (induction raw arbitrary: out)
    case (Cons a raw)
    have "t \<in> set (fold (add_arg k) raw (add_arg k a out))" using Cons.prems by simp
    from Cons.IH [OF this] add_arg_new [of t k a out] show ?case by auto
  qed simp
  from this [of "[]"] assms show ?thesis by (simp add: sanitise_args_def)
qed

lemma quiet_args_ok: "arg_ok Msi ''/qn''" "arg_ok Msi ''/norestart''"
proof -
  have "''/qn'' \<in> set (allowed_args Msi)" "''/norestart'' \<in> set (allowed_args Msi)"
    by (simp_all add: allowed_args_def ALLOW_MSI_def)
  moreover have "\<not> list_ex shell_meta ''/qn''" "\<not> list_ex shell_meta ''/norestart''"
    by (simp_all add: shell_meta_def)
  ultimately show "arg_ok Msi ''/qn''" "arg_ok Msi ''/norestart''"
    unfolding arg_ok_def eq_ignore_ascii_case_def by blast+
qed

lemma default_args_ok: "t \<in> set (default_args k (sanitise_args k raw)) \<Longrightarrow> arg_ok k t"
  using sanitise_args_new [of t k raw] quiet_args_ok by (auto simp: default_args_def split: if_splits)

lemma acceptable_parts:
  assumes "url_acceptable u v name = Inr x"
  shows "ur_scheme v = ''https'' \<and> ur_username v = [] \<and> ur_password v = None \<and> ur_port v = None \<and>
    (\<exists>h. ur_host v = Some h \<and> \<not> is_ip_addr (bare_ip (clean_host u h)) \<and> \<not> is_idn (clean_host u h) \<and>
         (host_trusted u (clean_host u h) \<or> host_matches_name (clean_host u h) name) \<and>
         (clean_host u h = ''github.com'' \<longrightarrow> github_repo_correlates v name))"
  using assms by (auto simp: url_acceptable_def Let_def host_acceptable_def split: if_splits option.splits)

text \<open>What the validation promises of a plan, in one predicate over the plan and the URL it names.\<close>

definition plan_gated :: "(string \<Rightarrow> string) \<Rightarrow> (string \<Rightarrow> url option) \<Rightarrow> install_plan \<Rightarrow> bool" where
  "plan_gated u parse p =
     (\<exists>v h. parse (ip_url p) = Some v \<and> url_acceptable u v (ip_name p) = Inr () \<and>
        ur_host v = Some h \<and> ip_host p = clean_host u h \<and>
        kind_of_path (to_lowercase u (ur_path v)) = Some (ip_kind p) \<and>
        (\<forall>t \<in> set (ip_args p). arg_ok (ip_kind p) t) \<and> (ip_kind p = Msi \<longrightarrow> ip_args p \<noteq> []) \<and>
        (\<forall>s. ip_sha256 p = Some s \<longrightarrow> is_hex64 s) \<and>
        (\<forall>q. ip_archive_path p = Some q \<longrightarrow> is_archive (ip_kind p) \<and> safe_archive_path u q) \<and>
        ip_version p \<noteq> [])"

lemma validate_plan_gated:
  assumes "validate_plan u parse raw name current = Inr p"
  shows "plan_gated u parse p \<and> ip_name p = name \<and> ip_current p = current"
proof -
  obtain v k sha path where v: "parse (trim (rp_installer_url raw)) = Some v" and
    a: "url_acceptable u v name = Inr ()" and
    k: "kind_of_path (to_lowercase u (ur_path v)) = Some k" and sha: "plan_sha256 u (rp_sha256 raw) = Inr sha" and
    ver: "\<not> is_null (trim (rp_version raw))" and path: "plan_archive_path u k (rp_archive_path raw) = Inr path" and
    p: "ip_name p = name" "ip_current p = current" "ip_url p = trim (rp_installer_url raw)" "ip_kind p = k"
       "ip_host p = (case ur_host v of Some h \<Rightarrow> clean_host u h | None \<Rightarrow> [])"
       "ip_sha256 p = sha" "ip_archive_path p = path" "ip_version p = trim (rp_version raw)"
       "ip_args p = default_args k (sanitise_args k (rp_args raw))"
    using assms unfolding validate_plan_def Let_def
    by (auto split: if_splits option.splits sum.splits)
  obtain h where h: "ur_host v = Some h" using acceptable_parts [OF a] by blast
  have "\<forall>s. sha = Some s \<longrightarrow> is_hex64 s"
    using sha by (auto simp: plan_sha256_def split: option.splits if_splits)
  moreover have "\<forall>q. path = Some q \<longrightarrow> is_archive k \<and> safe_archive_path u q"
    using path by (auto simp: plan_archive_path_def Let_def split: if_splits)
  moreover have "\<forall>t \<in> set (default_args k (sanitise_args k (rp_args raw))). arg_ok k t"
    using default_args_ok by blast
  moreover have "k = Msi \<longrightarrow> default_args k (sanitise_args k (rp_args raw)) \<noteq> []" by (simp add: default_args_def)
  moreover have "trim (rp_version raw) \<noteq> []" using ver by (auto simp: is_null_def)
  ultimately show ?thesis using v a k h by (auto simp: plan_gated_def p)
qed

end
