(* ===== verification/Updater_Domain.thy ===== *)
theory Updater_Domain
  imports Floats Updater_Names
begin

text \<open>
  The updater's decision types and its pure decision logic: \<open>updater/domain.rs\<close>, the
  diagnostician's reply parsing (\<open>updater/diagnose.rs\<close>) and the process guard the kill remedy
  is checked with (\<open>executor/process.rs\<close>). The model proposes a step; these functions decide
  which step may be taken.
\<close>

section \<open>Methods and outcomes\<close>

datatype upd_method = Winget | Choco | Scoop | MsStore | Native

instantiation upd_method :: enum
begin

definition "enum_class.enum = [Winget, Choco, Scoop, MsStore, Native]"
definition "enum_class.enum_all P = (P Winget \<and> P Choco \<and> P Scoop \<and> P MsStore \<and> P Native)"
definition "enum_class.enum_ex P = (P Winget \<or> P Choco \<or> P Scoop \<or> P MsStore \<or> P Native)"

instance proof
  show univ: "(UNIV :: upd_method set) = set enum_class.enum"
    by (auto simp: enum_upd_method_def intro: upd_method.exhaust)
  show "distinct (enum_class.enum :: upd_method list)" by (simp add: enum_upd_method_def)
  show "enum_class.enum_all P = Ball UNIV P" for P :: "upd_method \<Rightarrow> bool"
    unfolding univ by (simp add: enum_upd_method_def enum_all_upd_method_def)
  show "enum_class.enum_ex P = Bex UNIV P" for P :: "upd_method \<Rightarrow> bool"
    unfolding univ by (simp add: enum_upd_method_def enum_ex_upd_method_def)
qed

end

fun as_str :: "upd_method \<Rightarrow> string" where
  "as_str Winget = ''winget''"
| "as_str Choco = ''choco''"
| "as_str Scoop = ''scoop''"
| "as_str MsStore = ''msstore''"
| "as_str Native = ''native''"

definition from_token :: "string \<Rightarrow> upd_method option" where
  "from_token s =
     (let t = to_ascii_lowercase (trim s) in
      if t = ''winget'' then Some Winget
      else if t \<in> {''choco'', ''chocolatey''} then Some Choco
      else if t = ''scoop'' then Some Scoop
      else if t \<in> {''msstore'', ''store'', ''ms_store''} then Some MsStore
      else if t = ''native'' then Some Native
      else None)"

definition supports_force :: "upd_method \<Rightarrow> bool" where
  "supports_force m = (m = Winget \<or> m = Choco)"

definition has_manager_lock :: "upd_method \<Rightarrow> bool" where
  "has_manager_lock m = (m = Choco \<or> m = Scoop)"

datatype error_category =
  NotFound | NetworkTransient | HashMismatch | SignatureRejected | InstallerFailed | VerifyFailed
| PermissionDenied | LockHeld | NeedsForce | NeedsReboot | AlreadyCurrent | Blocked | Unknown

definition is_terminal :: "error_category \<Rightarrow> bool" where
  "is_terminal c = (c = HashMismatch \<or> c = SignatureRejected)"

datatype verification = Verified | Mismatch | Unverified | NotChecked

record attempt_outcome =
  ao_method :: upd_method
  ao_success :: bool
  ao_verification :: verification
  ao_category :: "error_category option"
  ao_exit_code :: "int option"
  ao_installed :: "string option"
  ao_detail :: string
  ao_signature :: "string option"
  ao_sha256 :: "string option"
  ao_cost :: fnum

definition failed_outcome :: "upd_method \<Rightarrow> error_category \<Rightarrow> string \<Rightarrow> attempt_outcome" where
  "failed_outcome m c detail =
     \<lparr>ao_method = m, ao_success = False, ao_verification = NotChecked, ao_category = Some c,
      ao_exit_code = None, ao_installed = None, ao_detail = detail, ao_signature = None,
      ao_sha256 = None, ao_cost = Fin 0\<rparr>"

record update_candidate =
  uc_id :: string
  uc_name :: string
  uc_current :: string
  uc_available :: string
  uc_package :: "string option"
  uc_guidance :: "string option"
  uc_methods :: "upd_method list"

datatype remedy = Force | KillProcess string | ClearManagerLock | RetryAfterReboot

datatype proposed_step = Switch upd_method | Retry upd_method remedy | Stop string

datatype next_step = SwitchTo upd_method | RetryWith upd_method remedy | GiveUp string

record step_context =
  sc_failed :: error_category
  sc_tried :: "upd_method list"
  sc_available :: "upd_method list"
  sc_error :: string

section \<open>The process guard\<close>

definition PROTECTED_WINDOWS :: "string list" where
  "PROTECTED_WINDOWS =
     [''System'', ''Idle'', ''lsass'', ''winlogon'', ''csrss'', ''smss'', ''wininit'', ''services'',
      ''svchost'', ''ntoskrnl'', ''eir-svc'', ''MsMpEng'']"

definition PROTECTED_UNIX :: "string list" where
  "PROTECTED_UNIX =
     [''systemd'', ''init'', ''sshd'', ''dbus-daemon'', ''systemd-journal'', ''systemd-logind'',
      ''tailscaled'', ''eir-svc'', ''cron'', ''auditd'']"

definition has_wildcard :: "string \<Rightarrow> bool" where
  "has_wildcard s = list_ex (\<lambda>c. c \<in> {CHR ''*'', CHR ''?'', CHR ''['', CHR '']''}) s"

text \<open>Accepting a name, per platform; \<open>u\<close> is the case mapping of \<open>to_lowercase\<close>.\<close>

definition kill_target_windows :: "(string \<Rightarrow> string) \<Rightarrow> string \<Rightarrow> bool" where
  "kill_target_windows u name =
     (\<not> has_wildcard name \<and>
      (let lower = strip_suffix_or ''.exe'' (to_lowercase u name)
       in \<not> list_ex (\<lambda>p. eq_ignore_ascii_case p lower) PROTECTED_WINDOWS))"

definition kill_target_unix :: "string \<Rightarrow> bool" where
  "kill_target_unix name =
     (\<not> has_wildcard name \<and> name \<noteq> [] \<and> length name \<le> 255 \<and>
      \<not> list_ex (\<lambda>c. c = CHR ''/'' \<or> c = CHR 0x00) name \<and> name \<notin> set PROTECTED_UNIX)"

definition validate_kill_target :: "bool \<Rightarrow> (string \<Rightarrow> string) \<Rightarrow> string \<Rightarrow> bool" where
  "validate_kill_target win u name =
     (if win then kill_target_windows u name else kill_target_unix name)"

text \<open>The name the Windows executor looks processes up by: a trailing extension \<open>exe\<close> removed.\<close>

definition process_query_name :: "string \<Rightarrow> string" where
  "process_query_name name =
     (let ps = split_on (\<lambda>c. c = CHR ''.'') name in
      if 2 \<le> length ps \<and> eq_ignore_ascii_case (last ps) ''exe'' then join ''.'' (butlast ps) else name)"

section \<open>The next step\<close>

definition deterministic_next :: "step_context \<Rightarrow> next_step" where
  "deterministic_next ctx =
     (if is_terminal (sc_failed ctx) then GiveUp ''integrity check failed''
      else if sc_failed ctx = NeedsReboot then GiveUp ''reboot required''
      else if sc_failed ctx = AlreadyCurrent then GiveUp ''already current''
      else (case find (\<lambda>m. m \<notin> set (sc_tried ctx)) (sc_available ctx) of
              Some m \<Rightarrow> SwitchTo m
            | None \<Rightarrow> GiveUp ''all available methods tried''))"

text \<open>
  The words of the captured error. The code splits at every white-space character and at the
  listed separators and compares each piece with a non-empty stem, so dropping the empty
  pieces, as \<open>split_whitespace\<close> does, changes nothing.
\<close>

definition error_separator :: "char \<Rightarrow> bool" where
  "error_separator c = (c \<in> {CHR 0x5C, CHR ''/'', CHR 0x22, CHR 0x27, CHR '':'', CHR '','', CHR '';'',
                             CHR ''('', CHR '')''})"

definition error_tokens :: "string \<Rightarrow> string list" where
  "error_tokens text =
     map (strip_suffix_or ''.exe'')
       (concat (map (split_on error_separator) (split_whitespace (to_ascii_lowercase text))))"

definition process_stem :: "string \<Rightarrow> string" where
  "process_stem name = strip_suffix_or ''.exe'' (to_ascii_lowercase (trim name))"

fun remedy_ok :: "bool \<Rightarrow> (string \<Rightarrow> string) \<Rightarrow> remedy \<Rightarrow> upd_method \<Rightarrow> step_context \<Rightarrow> bool" where
  "remedy_ok win u Force m ctx = (sc_failed ctx = NeedsForce \<and> supports_force m)"
| "remedy_ok win u ClearManagerLock m ctx = (sc_failed ctx = LockHeld \<and> has_manager_lock m)"
| "remedy_ok win u RetryAfterReboot m ctx = (sc_failed ctx = NeedsReboot)"
| "remedy_ok win u (KillProcess name) m ctx =
     (sc_failed ctx = LockHeld \<and> validate_kill_target win u name \<and>
      (let stem = process_stem name in
       \<not> length stem < 5 \<and> stem \<in> set (error_tokens (sc_error ctx))))"

definition validate_next_step :: "bool \<Rightarrow> (string \<Rightarrow> string) \<Rightarrow> proposed_step \<Rightarrow> step_context \<Rightarrow> next_step" where
  "validate_next_step win u proposed ctx =
     (if is_terminal (sc_failed ctx) then GiveUp ''integrity check failed''
      else if sc_failed ctx = AlreadyCurrent \<or>
              sc_failed ctx = NeedsReboot \<and>
                (case proposed of Retry _ RetryAfterReboot \<Rightarrow> False | _ \<Rightarrow> True)
        then deterministic_next ctx
      else (case proposed of
              Stop reason \<Rightarrow>
                (let r = trim reason in GiveUp (if r = [] then ''AI advised giving up'' else r))
            | Switch m \<Rightarrow>
                if m \<in> set (sc_available ctx) \<and> m \<notin> set (sc_tried ctx) then SwitchTo m
                else deterministic_next ctx
            | Retry m r \<Rightarrow>
                if m \<in> set (sc_available ctx) \<and> remedy_ok win u r m ctx then RetryWith m r
                else deterministic_next ctx))"

section \<open>Classifying a failure\<close>

definition has_all :: "string list \<Rightarrow> string \<Rightarrow> bool" where
  "has_all needles o1 = list_all (\<lambda>n. contains_str n o1) needles"

definition has_some :: "string list \<Rightarrow> string \<Rightarrow> bool" where
  "has_some needles o1 = list_ex (\<lambda>n. contains_str n o1) needles"

definition hash_needles :: "string list" where
  "hash_needles = [''sha-256 mismatch'', ''sha256 mismatch'', ''hash mismatch'']"

definition signature_needles :: "string list" where
  "signature_needles = [''reject'', ''unsigned'', ''untrusted'', ''not signed'']"

definition lock_needles :: "string list" where
  "lock_needles = [''being used by another process'', ''another installation is already in progress'', ''0x80070652'']"

definition access_needles :: "string list" where
  "access_needles = [''access is denied'', ''access denied'']"

definition network_needles :: "string list" where
  "network_needles = [''timed out'', ''could not be resolved'', ''connection'', ''download failed'', ''network'']"

definition current_needles :: "string list" where
  "current_needles = [''no applicable upgrade'', ''no available upgrade'', ''already up to date'',
     ''already installed'', ''no newer version'']"

definition unknown_app_needles :: "string list" where
  "unknown_app_needles = [''no installed package found'', ''no package found'', ''not found'', ''could not find'']"

definition classify_error :: "upd_method \<Rightarrow> int option \<Rightarrow> string \<Rightarrow> error_category" where
  "classify_error m exit_code output =
     (let o1 = to_ascii_lowercase output in
      if has_some hash_needles o1 then HashMismatch
      else if contains_str ''signature'' o1 \<and> has_some signature_needles o1 then SignatureRejected
      else if has_all [''has been modified'', ''--force''] o1 then NeedsForce
      else if exit_code = Some 3010 \<or> contains_str ''pending reboot'' o1 \<or> has_all [''restart'', ''required''] o1
        then NeedsReboot
      else if has_some lock_needles o1 \<or>
              contains_str ''lock'' o1 \<and> has_some [''held'', ''could not acquire''] o1 then LockHeld
      else if has_some access_needles o1 \<or> exit_code = Some 5 \<or> exit_code = Some 740 then PermissionDenied
      else if has_some network_needles o1 then NetworkTransient
      else if has_some current_needles o1 then AlreadyCurrent
      else if has_some unknown_app_needles o1 then NotFound
      else (case exit_code of
              Some c \<Rightarrow> if c \<noteq> 0 \<and> c \<noteq> 3010 then InstallerFailed else Unknown
            | None \<Rightarrow> Unknown))"

section \<open>The model's proposal\<close>

text \<open>A reply as \<open>serde\<close> reads it: action, method, remedy kind and name, reason.\<close>

record raw_step =
  rs_action :: string
  rs_method :: string
  rs_remedy :: "(string \<times> string) option"
  rs_reason :: string

definition to_remedy :: "string \<times> string \<Rightarrow> remedy option" where
  "to_remedy r =
     (let kind = to_ascii_lowercase (trim (fst r)) in
      if kind = ''force'' then Some Force
      else if kind \<in> {''kill_process'', ''killprocess''} then Some (KillProcess (trim (snd r)))
      else if kind \<in> {''clear_manager_lock'', ''clearmanagerlock''} then Some ClearManagerLock
      else if kind \<in> {''retry_after_reboot'', ''retryafterreboot''} then Some RetryAfterReboot
      else None)"

definition to_proposed :: "raw_step \<Rightarrow> proposed_step" where
  "to_proposed raw =
     (let action = to_ascii_lowercase (trim (rs_action raw)) in
      if action \<in> {''give_up'', ''giveup'', ''stop''} then Stop (rs_reason raw)
      else if action = ''retry'' then
        (case (from_token (rs_method raw), Option.bind (rs_remedy raw) to_remedy) of
           (Some m, Some r) \<Rightarrow> Retry m r
         | _ \<Rightarrow> Stop ''AI retry proposal was incomplete'')
      else (case from_token (rs_method raw) of
              Some m \<Rightarrow> Switch m
            | None \<Rightarrow> Stop ''AI proposed an unknown method''))"

text \<open>\<open>read\<close> finds the JSON object in a reply and deserialises it.\<close>

definition parse_step :: "(string \<Rightarrow> raw_step option) \<Rightarrow> string \<Rightarrow> proposed_step" where
  "parse_step read content = (case read content of
     Some raw \<Rightarrow> to_proposed raw
   | None \<Rightarrow> Stop ''could not parse the AI's next-step reply'')"

text \<open>
  The step after a failure as the diagnostician gives it, with its cost: \<open>reply\<close> is the
  model's text and the call's price, \<open>None\<close> when the call failed.
\<close>

definition diagnose ::
  "bool \<Rightarrow> (string \<Rightarrow> string) \<Rightarrow> (string \<Rightarrow> raw_step option) \<Rightarrow> (string \<times> fnum option) option
     \<Rightarrow> attempt_outcome \<Rightarrow> upd_method list \<Rightarrow> upd_method list \<Rightarrow> next_step \<times> fnum" where
  "diagnose win u read reply last_try tried available =
     (let ctx = \<lparr>sc_failed = (case ao_category last_try of Some c \<Rightarrow> c | None \<Rightarrow> Unknown),
                 sc_tried = tried, sc_available = available, sc_error = ao_detail last_try\<rparr>
      in case reply of
           None \<Rightarrow> (deterministic_next ctx, Fin 0)
         | Some (content, usage) \<Rightarrow>
             (validate_next_step win u (parse_step read content) ctx,
              case usage of Some c \<Rightarrow> c | None \<Rightarrow> Fin 0))"

section \<open>Lemmas\<close>

lemma from_token_as_str [simp]: "from_token (as_str m) = Some m"
  proof -
  have "trim (as_str m) = as_str m"
    by (cases m) (simp_all add: trim_eq_self ws1_def ws2_def ws3_def byte_def)
  then show ?thesis
    by (cases m) (simp_all add: from_token_def to_ascii_lowercase_def ascii_lower_def is_ascii_upper_def byte_def)
qed

lemma find_untried:
  assumes "find (\<lambda>m. m \<notin> set tried) ms = Some m"
  shows "m \<in> set ms \<and> m \<notin> set tried"
  using assms by (auto simp: find_Some_iff)

text \<open>What the deterministic ladder may answer.\<close>

lemma deterministic_switch:
  assumes "deterministic_next ctx = SwitchTo m"
  shows "m \<in> set (sc_available ctx) \<and> m \<notin> set (sc_tried ctx) \<and>
    \<not> is_terminal (sc_failed ctx) \<and> sc_failed ctx \<notin> {NeedsReboot, AlreadyCurrent}"
  using assms find_untried [of "sc_tried ctx" "sc_available ctx" m]
  by (auto simp: deterministic_next_def split: if_splits option.splits)

lemma deterministic_no_retry [simp]: "deterministic_next ctx \<noteq> RetryWith m r"
  by (auto simp: deterministic_next_def split: option.split)

lemma deterministic_terminal: "is_terminal (sc_failed ctx) \<Longrightarrow> deterministic_next ctx = GiveUp ''integrity check failed''"
  by (simp add: deterministic_next_def)

lemma validate_switch:
  assumes "validate_next_step win u p ctx = SwitchTo m"
  shows "m \<in> set (sc_available ctx) \<and> m \<notin> set (sc_tried ctx) \<and> \<not> is_terminal (sc_failed ctx) \<and>
    sc_failed ctx \<notin> {NeedsReboot, AlreadyCurrent}"
  using assms deterministic_switch [of ctx m]
  by (auto simp: validate_next_step_def Let_def split: if_splits proposed_step.splits remedy.splits)

lemma validate_retry:
  assumes "validate_next_step win u p ctx = RetryWith m r"
  shows "p = Retry m r \<and> m \<in> set (sc_available ctx) \<and> remedy_ok win u r m ctx \<and>
    \<not> is_terminal (sc_failed ctx) \<and> sc_failed ctx \<noteq> AlreadyCurrent"
  using assms
  by (auto simp: validate_next_step_def Let_def split: if_splits proposed_step.splits)

lemma remedy_cause:
  assumes "remedy_ok win u r m ctx"
  shows "sc_failed ctx \<in> {NeedsForce, LockHeld, NeedsReboot}"
  using assms by (cases r) auto

end
