(* ===== verification/Updater_Config.thy ===== *)
theory Updater_Config
  imports Updater_Names Tables "HOL-Library.Char_ord" "HOL-Library.List_Lexorder"
begin

text \<open>
  The updater's settings (\<open>updater/config.rs\<close>): bounding what is read from disk or sent by the
  UI, the notes per app with the guidance that has worked, and the ignore list. A
  \<open>BTreeMap\<close> is a table whose iteration is its entries sorted by key.
\<close>

section \<open>Limits\<close>

definition MAX_APP_NOTES :: nat where "MAX_APP_NOTES = 500"
definition MAX_APP_NOTE_CHARS :: nat where "MAX_APP_NOTE_CHARS = 2000"
definition MAX_APP_ID_CHARS :: nat where "MAX_APP_ID_CHARS = 200"
definition MAX_IGNORED_APPS :: nat where "MAX_IGNORED_APPS = 500"
definition MAX_SCHEDULE_INTERVAL_SECS :: nat where "MAX_SCHEDULE_INTERVAL_SECS = 365 * 24 * 3600"
definition MAX_ATTEMPTS_PER_APP :: nat where "MAX_ATTEMPTS_PER_APP = 10"
definition MAX_APPS_PER_RUN :: nat where "MAX_APPS_PER_RUN = 100"
definition MAX_INSTALLER_MB :: nat where "MAX_INSTALLER_MB = 4096"

definition clamp :: "nat \<Rightarrow> nat \<Rightarrow> nat \<Rightarrow> nat" where
  "clamp lo hi x = (if x < lo then lo else if hi < x then hi else x)"

lemma clamp_bounds: "lo \<le> hi \<Longrightarrow> lo \<le> clamp lo hi x \<and> clamp lo hi x \<le> hi"
  by (simp add: clamp_def)

text \<open>\<open>char::is_control\<close> over UTF-8: the C0 controls, DEL, and the C1 controls after byte C2.\<close>

fun has_control :: "string \<Rightarrow> bool" where
  "has_control [] = False"
| "has_control [c] = (byte c < 32 \<or> byte c = 127)"
| "has_control (c # d # s) =
     (byte c < 32 \<or> byte c = 127 \<or> byte c = 0xC2 \<and> 128 \<le> byte d \<and> byte d < 160 \<or> has_control (d # s))"

definition valid_app_id :: "string \<Rightarrow> bool" where
  "valid_app_id i = (let i = trim i in i \<noteq> [] \<and> char_count i \<le> MAX_APP_ID_CHARS \<and> \<not> has_control i)"

section \<open>The settings\<close>

datatype signature_policy = RequireValid | RequirePublisherMatch | AllowUnsigned

fun policy_str :: "signature_policy \<Rightarrow> string" where
  "policy_str RequireValid = ''require_valid''"
| "policy_str RequirePublisherMatch = ''require_publisher_match''"
| "policy_str AllowUnsigned = ''allow_unsigned''"

definition policy_from_token :: "string \<Rightarrow> signature_policy" where
  "policy_from_token s =
     (let t = to_ascii_lowercase (trim s) in
      if t = ''require_publisher_match'' then RequirePublisherMatch
      else if t = ''allow_unsigned'' then AllowUnsigned
      else RequireValid)"

type_synonym app_notes = "(string \<times> string) list"

record updater_config =
  uf_enabled :: bool
  uf_interval :: nat
  uf_methods :: "string list"
  uf_native :: bool
  uf_policy :: signature_policy
  uf_max_attempts :: nat
  uf_max_apps :: nat
  uf_max_mb :: nat
  uf_bootstrap :: bool
  uf_ignored :: "string list"
  uf_notes :: app_notes
  uf_learned :: app_notes

definition default_config :: updater_config where
  "default_config =
     \<lparr>uf_enabled = False, uf_interval = 24 * 3600, uf_methods = [''winget'', ''choco'', ''msstore''],
      uf_native = True, uf_policy = RequireValid, uf_max_attempts = 3, uf_max_apps = 20, uf_max_mb = 256,
      uf_bootstrap = True, uf_ignored = [], uf_notes = [], uf_learned = []\<rparr>"

record settings_update =
  su_enabled :: bool
  su_interval :: nat
  su_methods :: "string list"
  su_native :: bool
  su_policy :: string

record settings_view =
  sv_enabled :: bool
  sv_interval :: nat
  sv_methods :: "string list"
  sv_native :: bool
  sv_policy :: string
  sv_ignored :: "string list"

section \<open>Bounding\<close>

definition manager_tokens :: "string list" where
  "manager_tokens = [''winget'', ''choco'', ''scoop'', ''msstore'']"

definition add_method :: "string \<Rightarrow> string list \<Rightarrow> string list" where
  "add_method m safe =
     (let m = to_ascii_lowercase (trim m) in
      if m \<in> set manager_tokens \<and> m \<notin> set safe then safe @ [m] else safe)"

definition sanitize_methods :: "string list \<Rightarrow> string list" where
  "sanitize_methods ms = fold add_method ms []"

text \<open>\<open>u\<close> is the case mapping of \<open>to_lowercase\<close>; once the cap is reached the rest is dropped.\<close>

definition add_ignored :: "(string \<Rightarrow> string) \<Rightarrow> string \<Rightarrow> string list \<Rightarrow> string list" where
  "add_ignored u i safe =
     (let i = to_lowercase u (trim i) in
      if length safe \<ge> MAX_IGNORED_APPS then safe
      else if valid_app_id i \<and> i \<notin> set safe then safe @ [i] else safe)"

definition sanitize_ignored :: "(string \<Rightarrow> string) \<Rightarrow> string list \<Rightarrow> string list" where
  "sanitize_ignored u is = fold (add_ignored u) is []"

definition add_note :: "(string \<Rightarrow> string) \<Rightarrow> string \<times> string \<Rightarrow> app_notes \<Rightarrow> app_notes" where
  "add_note u kv safe =
     (let i = to_lowercase u (trim (fst kv)); note = trim (snd kv) in
      if length safe \<ge> MAX_APP_NOTES then safe
      else if valid_app_id i \<and> note \<noteq> [] \<and> char_count note \<le> MAX_APP_NOTE_CHARS then tbl_put i note safe
      else safe)"

definition sanitize_notes :: "(string \<Rightarrow> string) \<Rightarrow> app_notes \<Rightarrow> app_notes" where
  "sanitize_notes u t = fold (add_note u) (sort_key fst t) []"

definition sanitize :: "(string \<Rightarrow> string) \<Rightarrow> updater_config \<Rightarrow> updater_config" where
  "sanitize u c =
     (let ns = sanitize_notes u (uf_notes c) in
      c\<lparr>uf_interval := clamp 300 MAX_SCHEDULE_INTERVAL_SECS (uf_interval c),
        uf_max_attempts := clamp 1 MAX_ATTEMPTS_PER_APP (uf_max_attempts c),
        uf_max_apps := clamp 1 MAX_APPS_PER_RUN (uf_max_apps c),
        uf_max_mb := clamp 1 MAX_INSTALLER_MB (uf_max_mb c),
        uf_methods := sanitize_methods (uf_methods c),
        uf_ignored := sanitize_ignored u (uf_ignored c),
        uf_notes := ns,
        uf_learned := filter (\<lambda>(i, note). tbl_get ns i = Some note) (sanitize_notes u (uf_learned c))\<rparr>)"

definition to_view :: "updater_config \<Rightarrow> settings_view" where
  "to_view c =
     \<lparr>sv_enabled = uf_enabled c, sv_interval = uf_interval c, sv_methods = uf_methods c,
      sv_native = uf_native c, sv_policy = policy_str (uf_policy c), sv_ignored = uf_ignored c\<rparr>"

definition apply_view :: "settings_update \<Rightarrow> updater_config \<Rightarrow> updater_config" where
  "apply_view s c =
     (let methods = sanitize_methods (su_methods s) in
      c\<lparr>uf_enabled := su_enabled s,
        uf_interval := clamp 300 MAX_SCHEDULE_INTERVAL_SECS (su_interval s),
        uf_methods := (if su_methods s \<noteq> [] \<and> methods \<noteq> [] then methods else uf_methods c),
        uf_native := su_native s,
        uf_policy := policy_from_token (su_policy s)\<rparr>)"

section \<open>Notes and the ignore list\<close>

definition set_app_note ::
  "(string \<Rightarrow> string) \<Rightarrow> string \<Rightarrow> string \<Rightarrow> updater_config \<Rightarrow> (string + bool) \<times> updater_config" where
  "set_app_note u i note c =
     (let key = to_lowercase u (trim i); note = trim note in
      if \<not> valid_app_id key then (Inl ''invalid app id'', c)
      else if char_count note > MAX_APP_NOTE_CHARS then (Inl ''app note is too long'', c)
      else if note = [] then
        (Inr (tbl_get (uf_notes c) key \<noteq> None \<or> tbl_get (uf_learned c) key \<noteq> None),
         c\<lparr>uf_notes := tbl_del key (uf_notes c), uf_learned := tbl_del key (uf_learned c)\<rparr>)
      else if tbl_get (uf_notes c) key = None \<and> length (uf_notes c) \<ge> MAX_APP_NOTES
        then (Inl ''app note limit reached'', c)
      else if tbl_get (uf_notes c) key = Some note then (Inr False, c)
      else (Inr True,
            c\<lparr>uf_notes := tbl_put key note (uf_notes c), uf_learned := tbl_del key (uf_learned c)\<rparr>))"

definition set_learned_guidance ::
  "(string \<Rightarrow> string) \<Rightarrow> string \<Rightarrow> string \<Rightarrow> updater_config \<Rightarrow> (string + bool) \<times> updater_config" where
  "set_learned_guidance u i note c =
     (let key = to_lowercase u (trim i); note = trim note in
      if \<not> valid_app_id key then (Inl ''invalid app id'', c)
      else if note = [] \<or> char_count note > MAX_APP_NOTE_CHARS then (Inl ''invalid learned guidance'', c)
      else if tbl_get (uf_notes c) key = None \<and> length (uf_notes c) \<ge> MAX_APP_NOTES
        then (Inl ''app note limit reached'', c)
      else (Inr (tbl_get (uf_notes c) key \<noteq> Some note \<or> tbl_get (uf_learned c) key \<noteq> Some note),
            c\<lparr>uf_notes := tbl_put key note (uf_notes c), uf_learned := tbl_put key note (uf_learned c)\<rparr>))"

definition compact_id :: "string \<Rightarrow> string" where
  "compact_id i = map ascii_lower (filter is_ascii_alphanumeric i)"

definition close_name :: "string \<Rightarrow> string \<Rightarrow> bool" where
  "close_name compact learned =
     (length learned \<ge> 4 \<and> (contains_str learned compact \<or> contains_str compact learned))"

text \<open>\<open>max_by_key\<close> keeps the last of the longest entries, in key order.\<close>

fun longest :: "(string \<times> string) list \<Rightarrow> (string \<times> string) option" where
  "longest [] = None"
| "longest (x # xs) = (case longest xs of
     None \<Rightarrow> Some x
   | Some y \<Rightarrow> if length (compact_id (fst y)) < length (compact_id (fst x)) then Some x else Some y)"

definition guidance_for :: "(string \<Rightarrow> string) \<Rightarrow> updater_config \<Rightarrow> string \<Rightarrow> string option" where
  "guidance_for u c i =
     (let key = to_lowercase u (trim i) in
      case tbl_get (uf_notes c) key of
        Some note \<Rightarrow> Some note
      | None \<Rightarrow> map_option snd (longest
          (filter (\<lambda>(j, note). close_name (compact_id key) (compact_id j)) (sort_key fst (uf_learned c)))))"

definition set_app_ignored ::
  "(string \<Rightarrow> string) \<Rightarrow> string \<Rightarrow> bool \<Rightarrow> updater_config \<Rightarrow> (string + bool) \<times> updater_config" where
  "set_app_ignored u i ignored c =
     (let key = to_lowercase u (trim i) in
      if \<not> valid_app_id key then (Inl ''invalid app id'', c)
      else if ignored then
        (if list_ex (\<lambda>e. eq_ignore_ascii_case e key) (uf_ignored c) then (Inr False, c)
         else if length (uf_ignored c) \<ge> MAX_IGNORED_APPS then (Inl ''ignore list limit reached'', c)
         else (Inr True, c\<lparr>uf_ignored := uf_ignored c @ [key]\<rparr>))
      else
        (let kept = filter (\<lambda>e. \<not> eq_ignore_ascii_case e key) (uf_ignored c)
         in (Inr (length kept \<noteq> length (uf_ignored c)), c\<lparr>uf_ignored := kept\<rparr>)))"

definition note_views :: "updater_config \<Rightarrow> (string \<times> string) list" where
  "note_views c = filter (\<lambda>(i, note). valid_app_id i) (sort_key fst (uf_notes c))"

section \<open>The invariant\<close>

definition notes_ok :: "app_notes \<Rightarrow> bool" where
  "notes_ok t =
     (tbl_wf t \<and> length t \<le> MAX_APP_NOTES \<and>
      (\<forall>(i, note) \<in> set t. valid_app_id i \<and> note \<noteq> [] \<and> char_count note \<le> MAX_APP_NOTE_CHARS))"

definition learned_within :: "app_notes \<Rightarrow> app_notes \<Rightarrow> bool" where
  "learned_within learned ns = (\<forall>i note. tbl_get learned i = Some note \<longrightarrow> tbl_get ns i = Some note)"

definition config_ok :: "updater_config \<Rightarrow> bool" where
  "config_ok c =
     (300 \<le> uf_interval c \<and> uf_interval c \<le> MAX_SCHEDULE_INTERVAL_SECS \<and>
      1 \<le> uf_max_attempts c \<and> uf_max_attempts c \<le> MAX_ATTEMPTS_PER_APP \<and>
      1 \<le> uf_max_apps c \<and> uf_max_apps c \<le> MAX_APPS_PER_RUN \<and>
      1 \<le> uf_max_mb c \<and> uf_max_mb c \<le> MAX_INSTALLER_MB \<and>
      set (uf_methods c) \<subseteq> set manager_tokens \<and> distinct (uf_methods c) \<and>
      length (uf_ignored c) \<le> MAX_IGNORED_APPS \<and> list_all valid_app_id (uf_ignored c) \<and>
      distinct (uf_ignored c) \<and>
      notes_ok (uf_notes c) \<and> notes_ok (uf_learned c) \<and> learned_within (uf_learned c) (uf_notes c))"

lemma fold_keeps: "P s \<Longrightarrow> (\<And>x s. P s \<Longrightarrow> P (f x s)) \<Longrightarrow> P (fold f xs s)"
  by (induction xs arbitrary: s) auto

lemma sanitize_methods_ok: "set (sanitize_methods ms) \<subseteq> set manager_tokens \<and> distinct (sanitize_methods ms)"
  unfolding sanitize_methods_def by (rule fold_keeps) (auto simp: add_method_def Let_def)

lemma sanitize_ignored_ok:
  "length (sanitize_ignored u is) \<le> MAX_IGNORED_APPS \<and> list_all valid_app_id (sanitize_ignored u is) \<and>
   distinct (sanitize_ignored u is)"
  unfolding sanitize_ignored_def by (rule fold_keeps) (auto simp: add_ignored_def Let_def)

text \<open>A bounded, valid note keeps the notes bounded and valid.\<close>

lemma notes_ok_put:
  assumes "notes_ok t" and "valid_app_id k" "v \<noteq> []" "char_count v \<le> MAX_APP_NOTE_CHARS"
    and "tbl_get t k = None \<Longrightarrow> length t < MAX_APP_NOTES"
  shows "notes_ok (tbl_put k v t)"
proof -
  have "set (tbl_put k v t) \<subseteq> insert (k, v) (set t)"
    by (induction k v t rule: tbl_put.induct) auto
  then show ?thesis
    using assms length_tbl_put [of k v t] tbl_wf_put [of t k v]
    by (fastforce simp: notes_ok_def tbl_get_def)
qed

lemma notes_ok_filter: "notes_ok t \<Longrightarrow> notes_ok (filter P t)"
  using order_trans [OF length_filter_le [of P t]]
  by (auto simp: notes_ok_def tbl_wf_def distinct_map_filter)

lemma notes_ok_del: "notes_ok t \<Longrightarrow> notes_ok (tbl_del k t)"
  by (simp add: tbl_del_def notes_ok_filter)

lemma sanitize_notes_ok: "notes_ok (sanitize_notes u t)"
  unfolding sanitize_notes_def
proof (rule fold_keeps)
  show "notes_ok []" by (simp add: notes_ok_def tbl_wf_def)
  show "notes_ok (add_note u kv s)" if "notes_ok s" for kv s
    using that by (auto simp: add_note_def Let_def intro!: notes_ok_put)
qed

lemma tbl_get_filter:
  assumes "tbl_wf t" and "tbl_get (filter (\<lambda>(i, note). P i note) t) k = Some v"
  shows "tbl_get t k = Some v \<and> P k v"
proof -
  have "(k, v) \<in> set (filter (\<lambda>(i, note). P i note) t)" using assms(2) map_of_SomeD by (fastforce simp: tbl_get_def)
  then show ?thesis using assms(1) by (auto simp: tbl_get_def tbl_wf_def)
qed

lemma learned_within_length:
  assumes "notes_ok ns" and "notes_ok t" and "learned_within t ns"
  shows "length t \<le> length ns"
proof -
  have "fst ` set t \<subseteq> fst ` set ns"
    using assms by (force simp: learned_within_def tbl_get_def notes_ok_def tbl_wf_def map_of_eq_Some_iff)
  then have "card (fst ` set t) \<le> card (fst ` set ns)" by (rule card_mono [rotated]) simp
  moreover have "card (fst ` set x) = length x" if "notes_ok x" for x
    using that distinct_card [of "map fst x"] by (simp add: notes_ok_def tbl_wf_def)
  ultimately show ?thesis using assms by simp
qed

lemma learned_within_put:
  assumes "learned_within t ns"
  shows "learned_within (tbl_put k v t) (tbl_put k v ns)" and "learned_within (tbl_del k t) (tbl_put k v ns)"
    and "learned_within (tbl_del k t) (tbl_del k ns)"
  using assms by (auto simp: learned_within_def tbl_get_def map_of_tbl_put map_of_tbl_del)

lemma config_ok_sanitize: "config_ok (sanitize u c)"
proof -
  let ?ns = "sanitize_notes u (uf_notes c)" and ?l = "sanitize_notes u (uf_learned c)"
  have "learned_within (filter (\<lambda>(i, note). tbl_get ?ns i = Some note) ?l) ?ns"
    unfolding learned_within_def
  proof (intro allI impI)
    fix i v assume got: "tbl_get (filter (\<lambda>(i, note). tbl_get ?ns i = Some note) ?l) i = Some v"
    have "tbl_wf ?l" using sanitize_notes_ok [of u "uf_learned c"] by (simp only: notes_ok_def)
    from tbl_get_filter [where P = "\<lambda>i note. tbl_get ?ns i = Some note", OF this got]
    show "tbl_get ?ns i = Some v" by (rule conjunct2)
  qed
  moreover have "notes_ok (filter (\<lambda>(i, note). tbl_get ?ns i = Some note) ?l)"
    by (rule notes_ok_filter [OF sanitize_notes_ok])
  moreover have le: "(300 :: nat) \<le> MAX_SCHEDULE_INTERVAL_SECS" "1 \<le> MAX_ATTEMPTS_PER_APP" "1 \<le> MAX_APPS_PER_RUN"
    "1 \<le> MAX_INSTALLER_MB"
    by (simp_all add: MAX_SCHEDULE_INTERVAL_SECS_def MAX_ATTEMPTS_PER_APP_def MAX_APPS_PER_RUN_def MAX_INSTALLER_MB_def)
  moreover have "uf_interval (sanitize u c) = clamp 300 MAX_SCHEDULE_INTERVAL_SECS (uf_interval c)"
    "uf_max_attempts (sanitize u c) = clamp 1 MAX_ATTEMPTS_PER_APP (uf_max_attempts c)"
    "uf_max_apps (sanitize u c) = clamp 1 MAX_APPS_PER_RUN (uf_max_apps c)"
    "uf_max_mb (sanitize u c) = clamp 1 MAX_INSTALLER_MB (uf_max_mb c)"
    "uf_methods (sanitize u c) = sanitize_methods (uf_methods c)"
    "uf_ignored (sanitize u c) = sanitize_ignored u (uf_ignored c)" "uf_notes (sanitize u c) = ?ns"
    "uf_learned (sanitize u c) = filter (\<lambda>(i, note). tbl_get ?ns i = Some note) ?l"
    by (simp_all add: sanitize_def Let_def)
  ultimately show ?thesis
    unfolding config_ok_def
    by (simp only: clamp_bounds [OF le(1)] clamp_bounds [OF le(2)] clamp_bounds [OF le(3)]
        clamp_bounds [OF le(4)] sanitize_methods_ok sanitize_ignored_ok sanitize_notes_ok simp_thms)
qed

lemma config_ok_apply: "config_ok c \<Longrightarrow> config_ok (apply_view s c)"
  using sanitize_methods_ok [of "su_methods s"] clamp_bounds [of 300 MAX_SCHEDULE_INTERVAL_SECS "su_interval s"]
  by (auto simp: config_ok_def apply_view_def Let_def MAX_SCHEDULE_INTERVAL_SECS_def)

lemma config_ok_note: "config_ok c \<Longrightarrow> config_ok (snd (set_app_note u i note c))"
  by (auto simp: config_ok_def set_app_note_def Let_def learned_within_put notes_ok_del intro!: notes_ok_put)

lemma config_ok_guidance:
  assumes "config_ok c"
  shows "config_ok (snd (set_learned_guidance u i note c))"
proof -
  let ?k = "to_lowercase u (trim i)"
  have ok: "notes_ok (uf_notes c)" "notes_ok (uf_learned c)" "learned_within (uf_learned c) (uf_notes c)"
    using assms by (simp_all add: config_ok_def)
  have room: "length (uf_learned c) < MAX_APP_NOTES"
    if "tbl_get (uf_learned c) ?k = None" "tbl_get (uf_notes c) ?k = None \<longrightarrow> length (uf_notes c) < MAX_APP_NOTES"
  proof (cases "tbl_get (uf_notes c) ?k")
    case None
    then show ?thesis using that learned_within_length [OF ok] by simp
  next
    case (Some v)
    have "learned_within (uf_learned c) (tbl_del ?k (uf_notes c))"
      using ok(3) that(1) by (auto simp: learned_within_def tbl_get_def map_of_tbl_del)
    then have "length (uf_learned c) \<le> length (tbl_del ?k (uf_notes c))"
      by (rule learned_within_length [OF notes_ok_del [OF ok(1)] ok(2)])
    also have "\<dots> < length (uf_notes c)"
      using Some by (auto simp: tbl_del_def tbl_get_def length_filter_less dest!: map_of_SomeD)
    finally show ?thesis using ok(1) by (simp add: notes_ok_def)
  qed
  show ?thesis
    using assms room
    by (auto simp: config_ok_def set_learned_guidance_def Let_def learned_within_put not_le intro!: notes_ok_put)
qed

lemma config_ok_ignored: "config_ok c \<Longrightarrow> config_ok (snd (set_app_ignored u i on c))"
  using order_trans [OF length_filter_le [of "\<lambda>e. \<not> eq_ignore_ascii_case e (to_lowercase u (trim i))" "uf_ignored c"]]
  by (auto simp: config_ok_def set_app_ignored_def Let_def list_ex_iff list_all_iff eq_ignore_ascii_case_def)

text \<open>
  The updater's settings are always within their limits: whatever was on disk, what is loaded
  satisfies the invariant, and every change from the UI or from learned guidance keeps it. The
  schedule, the attempts, the apps per run and the download size are bounded, the methods are
  known managers without repetition, and guidance counts as learned only while it is the note
  in force.
\<close>

theorem updater_settings_bounded:
  assumes "config_ok c"
  shows "config_ok (sanitize u d) \<and> config_ok (apply_view s c) \<and> config_ok (snd (set_app_note u i note c)) \<and>
    config_ok (snd (set_learned_guidance u i note c)) \<and> config_ok (snd (set_app_ignored u i on c))"
  using config_ok_sanitize config_ok_apply [OF assms] config_ok_note [OF assms] config_ok_guidance [OF assms]
    config_ok_ignored [OF assms] by simp

lemma default_config_ok: "config_ok default_config"
  by (simp add: config_ok_def default_config_def notes_ok_def tbl_wf_def learned_within_def tbl_get_def
      manager_tokens_def MAX_SCHEDULE_INTERVAL_SECS_def MAX_ATTEMPTS_PER_APP_def MAX_APPS_PER_RUN_def
      MAX_INSTALLER_MB_def)

lemma updater_settings_bounded_witness:
  "config_ok (snd (set_app_ignored id ''vlc'' True default_config))"
  using updater_settings_bounded [OF default_config_ok] by blast

section \<open>Guidance of other apps\<close>

text \<open>
  The close-name test is symmetric containment with a length bound on the learned name only, so
  the guidance of one app also answers for another whose short name happens to occur in it.
\<close>

definition chrome_config :: updater_config where
  "chrome_config =
     default_config\<lparr>uf_notes := [(''google chrome'', ''use the MSI'')],
                    uf_learned := [(''google chrome'', ''use the MSI'')]\<rparr>"

lemma guidance_of_unrelated_app: "guidance_for id chrome_config ''go'' = Some ''use the MSI''"
proof -
  have key: "to_lowercase id (trim ''go'') = ''go''"
  proof -
    have "trim ''go'' = ''go''" by (simp add: trim_eq_self ws1_def ws2_def ws3_def byte_def)
    then show ?thesis
      by (simp add: byte_def to_lowercase_def is_ascii_def to_ascii_lowercase_def ascii_lower_def is_ascii_upper_def)
  qed
  have "close_name (compact_id ''go'') (compact_id ''google chrome'')"
    by (simp add: close_name_def compact_id_def byte_def ascii_lower_def is_ascii_upper_def is_ascii_lower_def
        is_ascii_digit_def is_ascii_alphanumeric_def starts_with_def)
  then show ?thesis
    by (simp add: guidance_for_def key Let_def chrome_config_def default_config_def tbl_get_def)
qed

end
