(* ===== verification/Updater_Download.thy ===== *)
theory Updater_Download
  imports Updater_Plan Updater_Domain Updater_Config
begin

text \<open>
  Fetching an installer (\<open>updater/download.rs\<close>): the redirects it may follow, the caps on what
  it reads, picking the one installer out of an archive, and the hash and signature gates. The
  network, the archive readers and PowerShell's signature report are data: what the server
  answers, the entries an archive lists, the text of the report. A file is known by its SHA-256.
\<close>

section \<open>Errors\<close>

definition and_then :: "'e + 'a \<Rightarrow> ('a \<Rightarrow> 'e + 'b) \<Rightarrow> 'e + 'b" where
  "and_then r f = (case r of Inl e \<Rightarrow> Inl e | Inr x \<Rightarrow> f x)"

definition map_err :: "('e \<Rightarrow> 'f) \<Rightarrow> 'e + 'a \<Rightarrow> 'f + 'a" where
  "map_err f r = (case r of Inl e \<Rightarrow> Inl (f e) | Inr x \<Rightarrow> Inr x)"

lemma map_err_Inr [simp]: "map_err f r = Inr x \<longleftrightarrow> r = Inr x"
  by (auto simp: map_err_def split: sum.splits)

lemma and_then_Inr [simp]: "and_then r f = Inr y \<longleftrightarrow> (\<exists>x. r = Inr x \<and> f x = Inr y)"
  by (auto simp: and_then_def split: sum.splits)

lemma and_then_Inl: "and_then r f = Inl e \<longleftrightarrow> r = Inl e \<or> (\<exists>x. r = Inr x \<and> f x = Inl e)"
  by (auto simp: and_then_def split: sum.splits)

section \<open>Signatures\<close>

record signature =
  sg_status :: string
  sg_subject :: string
  sg_cn :: string

definition sig_valid :: "signature \<Rightarrow> bool" where
  "sig_valid s = eq_ignore_ascii_case (sg_status s) ''Valid''"

definition sig_display :: "signature \<Rightarrow> string" where
  "sig_display s =
     (if sig_valid s then (if sg_cn s = [] then ''signed'' else ''signed: '' @ sg_cn s)
      else if eq_ignore_ascii_case (sg_status s) ''NotSigned'' \<or> sg_status s = [] then ''unsigned''
      else ''untrusted ('' @ sg_status s @ '')'')"

fun find_map :: "('a \<Rightarrow> 'b option) \<Rightarrow> 'a list \<Rightarrow> 'b option" where
  "find_map f [] = None"
| "find_map f (x # xs) = (case f x of Some y \<Rightarrow> Some y | None \<Rightarrow> find_map f xs)"

text \<open>The signature read from the report \<open>status|subject\<close>.\<close>

definition read_signature :: "string \<Rightarrow> signature" where
  "read_signature out =
     (let raw = trim out;
          (status, subject) = (case split_once (CHR ''|'') raw of
              Some (a, b) \<Rightarrow> (trim a, trim b)
            | None \<Rightarrow> (raw, []));
          cn = (case find_map (\<lambda>p. strip_prefix ''CN='' (trim p)) (split_on (\<lambda>c. c = CHR '','') subject) of
                  Some c \<Rightarrow> c | None \<Rightarrow> [])
      in \<lparr>sg_status = status, sg_subject = subject, sg_cn = cn\<rparr>)"

definition signature_gate :: "signature \<Rightarrow> signature_policy \<Rightarrow> string option \<Rightarrow> string + unit" where
  "signature_gate s policy publisher = (case policy of
     AllowUnsigned \<Rightarrow> Inr ()
   | RequireValid \<Rightarrow>
       if sig_valid s then Inr () else Inl (''signature rejected: installer is '' @ sig_display s)
   | RequirePublisherMatch \<Rightarrow>
       if \<not> sig_valid s then Inl (''signature rejected: installer is '' @ sig_display s)
       else (case map_option trim publisher of
               None \<Rightarrow> Inl ''signature rejected: publisher match required but no expected publisher is known''
             | Some p \<Rightarrow>
                 if p = [] then Inl ''signature rejected: publisher match required but no expected publisher is known''
                 else if eq_ignore_ascii_case (sg_cn s) p then Inr ()
                 else Inl (''signature rejected: signer '' @ apos @ (if sg_cn s = [] then sg_subject s else sg_cn s) @
                           apos @ '' does not match expected publisher '' @ apos @ p @ apos)))"

section \<open>The download\<close>

text \<open>
  One request: the parsed URL, the redirects the server asks for, the transport's error if it
  fails, and the answer: HTTP status, headers, the sizes of the chunks and the content's hash.
\<close>

record fetch =
  ft_url :: url
  ft_hops :: "url list"
  ft_error :: "string option"
  ft_success :: bool
  ft_status :: string
  ft_type :: "string option"
  ft_length :: "nat option"
  ft_chunks :: "nat list"
  ft_broken :: "string option"
  ft_sha :: string

definition response_check :: "(string \<Rightarrow> string) \<Rightarrow> string option \<Rightarrow> nat option \<Rightarrow> nat \<Rightarrow> string + unit" where
  "response_check u ctype len max_bytes =
     (let html = (case ctype of None \<Rightarrow> None
                  | Some c \<Rightarrow> let c = to_lowercase u c in
                      if contains_str ''text/html'' c \<or> contains_str ''application/xhtml'' c then Some c else None)
      in case html of
           Some c \<Rightarrow> Inl (''download is a web page, not an installer ('' @ c @ '')'')
         | None \<Rightarrow>
             (case len of
                Some n \<Rightarrow> if max_bytes < n then Inl (''installer is too large ('' @ show_nat n @ '' bytes)'') else Inr ()
              | None \<Rightarrow> Inr ()))"

definition verify_downloaded_hash :: "string option \<Rightarrow> string \<Rightarrow> string + unit" where
  "verify_downloaded_hash expected got = (case expected of
     Some e \<Rightarrow>
       if \<not> eq_ignore_ascii_case e got
       then Inl (''download SHA-256 mismatch (expected '' @ e @ '', got '' @ got @ '') '' @ emdash @ '' aborted'')
       else Inr ()
   | None \<Rightarrow> Inr ())"

text \<open>Reading the body chunk by chunk; the cap is on what really arrives.\<close>

fun read_chunks :: "nat \<Rightarrow> nat \<Rightarrow> nat list \<Rightarrow> string + unit" where
  "read_chunks max_bytes got [] = Inr ()"
| "read_chunks max_bytes got (n # ns) =
     (if max_bytes < got + n then Inl (''installer exceeded the '' @ show_nat max_bytes @ ''-byte cap'')
      else read_chunks max_bytes (got + n) ns)"

definition stream_body :: "(string \<Rightarrow> string) \<Rightarrow> nat \<Rightarrow> fetch \<Rightarrow> string + string" where
  "stream_body u max_bytes f =
     (if \<not> ft_success f then Inl (''download failed: HTTP '' @ ft_status f)
      else and_then (response_check u (ft_type f) (ft_length f) max_bytes) (\<lambda>_.
           and_then (read_chunks max_bytes 0 (ft_chunks f)) (\<lambda>_.
           (case ft_broken f of Some e \<Rightarrow> Inl e | None \<Rightarrow> Inr (ft_sha f)))))"

text \<open>The redirect policy: \<open>n\<close> URLs were visited before.\<close>

fun follow :: "(string \<Rightarrow> string) \<Rightarrow> string \<Rightarrow> nat \<Rightarrow> url list \<Rightarrow> string + unit" where
  "follow u name n [] = Inr ()"
| "follow u name n (v # vs) =
     (if 5 \<le> n then Inl ''too many redirects''
      else (case url_acceptable u v name of
              Inl r \<Rightarrow> Inl (''blocked redirect ('' @ r @ '')'')
            | Inr _ \<Rightarrow> follow u name (n + 1) vs))"

definition final_url :: "fetch \<Rightarrow> url" where
  "final_url f = last (ft_url f # ft_hops f)"

text \<open>\<open>show_err\<close> is the transport's rendering of an error.\<close>

definition stream_download ::
  "(string \<Rightarrow> string) \<Rightarrow> (string \<Rightarrow> string) \<Rightarrow> string \<Rightarrow> nat \<Rightarrow> fetch \<Rightarrow> string + string" where
  "stream_download u show_err name max_bytes f =
     (case follow u name 1 (ft_hops f) of
        Inl e \<Rightarrow> Inl (''download request failed: '' @ show_err e)
      | Inr _ \<Rightarrow>
          (case ft_error f of
             Some e \<Rightarrow> Inl (''download request failed: '' @ show_err e)
           | None \<Rightarrow>
               (case url_acceptable u (final_url f) name of
                  Inl r \<Rightarrow> Inl (''download landed on an unacceptable URL ('' @ r @ '')'')
                | Inr _ \<Rightarrow> stream_body u max_bytes f)))"

section \<open>Archives\<close>

definition MAX_ARCHIVE_ENTRIES :: nat where "MAX_ARCHIVE_ENTRIES = 10000"

text \<open>
  An entry as the archive's reader reports it: its name (\<open>None\<close> when it is not UTF-8), whether
  it is a regular file, whether the ZIP reader finds it inside the archive, the declared size
  and what reading it gives.
\<close>

record arc_entry =
  ae_name :: "string option"
  ae_file :: bool
  ae_enclosed :: bool
  ae_size :: nat
  ae_chunks :: "nat list"
  ae_sha :: string

record arc_candidate =
  ac_index :: nat
  ac_name :: string
  ac_kind :: installer_kind
  ac_size :: nat

definition arc_candidate_of :: "(string \<Rightarrow> string) \<Rightarrow> nat \<Rightarrow> string \<Rightarrow> nat \<Rightarrow> arc_candidate option" where
  "arc_candidate_of u i name sz =
     (let n = replace_char CHR 0x5C ''/'' name in
      if starts_with ''/'' n \<or> contains_str '':'' n \<or>
         list_ex (\<lambda>part. part = [] \<or> part = ''.'' \<or> part = ''..'') (split_on (\<lambda>c. c = CHR ''/'') n)
      then None
      else (let lower = to_lowercase u n in
            if ends_with ''.msi'' lower then Some \<lparr>ac_index = i, ac_name = n, ac_kind = Msi, ac_size = sz\<rparr>
            else if ends_with ''.exe'' lower then Some \<lparr>ac_index = i, ac_name = n, ac_kind = Exe, ac_size = sz\<rparr>
            else None))"

definition select_candidate ::
  "arc_candidate list \<Rightarrow> string option \<Rightarrow> string \<Rightarrow> nat \<Rightarrow> string + arc_candidate" where
  "select_candidate cs requested archive max_bytes =
     and_then
       (case requested of
          Some r \<Rightarrow>
            (let r = replace_char CHR 0x5C ''/'' r in
             case filter (\<lambda>c. eq_ignore_ascii_case (ac_name c) r) cs of
               [] \<Rightarrow> Inl (''installer not found in '' @ archive @ '': no entry named '' @ apos @ r @ apos)
             | [c] \<Rightarrow> Inr c
             | _ \<Rightarrow> Inl (archive @ '' contains multiple matches for '' @ apos @ r @ apos))
        | None \<Rightarrow>
            (case cs of
               [] \<Rightarrow> Inl (''installer not found in '' @ archive @ '': no .exe or .msi entry'')
             | [c] \<Rightarrow> Inr c
             | _ \<Rightarrow> Inl (archive @ '' contains multiple .exe/.msi files; no exact installer path was provided'')))
       (\<lambda>c. if max_bytes < ac_size c
            then Inl (''installer inside '' @ archive @ '' is too large ('' @ show_nat (ac_size c) @ '' bytes)'')
            else Inr c)"

definition write_installer :: "installer_kind \<Rightarrow> nat \<Rightarrow> arc_entry \<Rightarrow> string + (installer_kind \<times> string)" where
  "write_installer k max_bytes e =
     (if k \<noteq> Msi \<and> k \<noteq> Exe then Inl ''nested archives are not supported''
      else and_then (read_chunks max_bytes 0 (ae_chunks e)) (\<lambda>_. Inr (k, ae_sha e)))"

fun zip_candidates :: "(string \<Rightarrow> string) \<Rightarrow> nat \<Rightarrow> arc_entry list \<Rightarrow> arc_candidate list" where
  "zip_candidates u i [] = []"
| "zip_candidates u i (e # es) =
     (case (if ae_file e \<and> ae_enclosed e then Option.bind (ae_name e) (\<lambda>n. arc_candidate_of u i n (ae_size e)) else None) of
        Some c \<Rightarrow> c # zip_candidates u (Suc i) es
      | None \<Rightarrow> zip_candidates u (Suc i) es)"

definition extract_zip ::
  "(string \<Rightarrow> string) \<Rightarrow> arc_entry list \<Rightarrow> string option \<Rightarrow> nat \<Rightarrow> string + (installer_kind \<times> string)" where
  "extract_zip u es requested max_bytes =
     (if MAX_ARCHIVE_ENTRIES < length es
      then Inl (''ZIP contains too many entries ('' @ show_nat (length es) @ '')'')
      else and_then (select_candidate (zip_candidates u 0 es) requested ''ZIP'' max_bytes)
             (\<lambda>c. map_err (\<lambda>e. ''could not extract ZIP installer: '' @ e)
                     (write_installer (ac_kind c) max_bytes (es ! ac_index c))))"

text \<open>
  TAR and 7z add up the declared sizes of the files and stop above the cap; sums saturate at
  the largest 64-bit number.
\<close>

definition sat_add :: "nat \<Rightarrow> nat \<Rightarrow> nat" where
  "sat_add a b = min (a + b) (2 ^ 64 - 1)"

fun capped_candidates ::
  "(string \<Rightarrow> string) \<Rightarrow> string \<Rightarrow> bool \<Rightarrow> nat \<Rightarrow> nat \<Rightarrow> nat \<Rightarrow> arc_entry list \<Rightarrow> string + arc_candidate list" where
  "capped_candidates u label counted max_bytes i used [] = Inr []"
| "capped_candidates u label counted max_bytes i used (e # es) =
     (if counted \<and> MAX_ARCHIVE_ENTRIES \<le> i then Inl (label @ '' contains too many entries'')
      else if \<not> ae_file e then capped_candidates u label counted max_bytes (Suc i) used es
      else (let used = sat_add used (ae_size e) in
            if max_bytes < used
            then Inl (label @ '' expanded contents exceed the '' @ show_nat max_bytes @ ''-byte cap'')
            else and_then (capped_candidates u label counted max_bytes (Suc i) used es) (\<lambda>cs.
                   Inr (case Option.bind (ae_name e) (\<lambda>n. arc_candidate_of u i n (ae_size e)) of
                          Some c \<Rightarrow> c # cs | None \<Rightarrow> cs))))"

definition extract_tar ::
  "(string \<Rightarrow> string) \<Rightarrow> bool \<Rightarrow> arc_entry list \<Rightarrow> string option \<Rightarrow> nat \<Rightarrow> string + (installer_kind \<times> string)" where
  "extract_tar u gzip es requested max_bytes =
     (let label = (if gzip then ''TAR.GZ'' else ''TAR'') in
      and_then (capped_candidates u label True max_bytes 0 0 es) (\<lambda>cs.
      and_then (select_candidate cs requested label max_bytes) (\<lambda>c.
        map_err (\<lambda>e. ''could not extract '' @ label @ '' installer: '' @ e)
          (write_installer (ac_kind c) max_bytes (es ! ac_index c)))))"

definition extract_7z ::
  "(string \<Rightarrow> string) \<Rightarrow> (string \<Rightarrow> string) \<Rightarrow> arc_entry list \<Rightarrow> string option \<Rightarrow> nat \<Rightarrow> string + (installer_kind \<times> string)" where
  "extract_7z show_err u es requested max_bytes =
     (if MAX_ARCHIVE_ENTRIES < length es
      then Inl (''7z contains too many entries ('' @ show_nat (length es) @ '')'')
      else and_then (capped_candidates u ''7z'' False max_bytes 0 0 es) (\<lambda>cs.
           and_then (select_candidate cs requested ''7z'' max_bytes) (\<lambda>c.
             (case find (\<lambda>e. case ae_name e of
                            Some n \<Rightarrow> eq_ignore_ascii_case (replace_char CHR 0x5C ''/'' n) (ac_name c)
                          | None \<Rightarrow> False) es of
                Some e \<Rightarrow> map_err (\<lambda>e. ''could not extract 7z installer: '' @ show_err e)
                            (write_installer (ac_kind c) max_bytes e)
              | None \<Rightarrow> Inl ''installer disappeared while reading 7z''))))"

section \<open>Download and check\<close>

record staged =
  st_kind :: installer_kind
  st_sha256 :: string
  st_signature :: signature

text \<open>What surrounds one download: the answer, the archive's entries, the signature report of a file.\<close>

record download_env =
  de_low :: "string \<Rightarrow> string"
  de_show :: "string \<Rightarrow> string"
  de_stage :: "string option"
  de_fetch :: fetch
  de_open :: "string + arc_entry list"
  de_report :: "string \<Rightarrow> string"

definition unpack :: "download_env \<Rightarrow> install_plan \<Rightarrow> nat \<Rightarrow> string \<Rightarrow> string + (installer_kind \<times> string)" where
  "unpack E p max_bytes artifact =
     (if \<not> is_archive (ip_kind p) then Inr (ip_kind p, artifact)
      else and_then (de_open E) (\<lambda>es. (case ip_kind p of
             Zip \<Rightarrow> extract_zip (de_low E) es (ip_archive_path p) max_bytes
           | SevenZ \<Rightarrow> extract_7z (de_show E) (de_low E) es (ip_archive_path p) max_bytes
           | TarGz \<Rightarrow> extract_tar (de_low E) True es (ip_archive_path p) max_bytes
           | _ \<Rightarrow> extract_tar (de_low E) False es (ip_archive_path p) max_bytes)))"

definition download_and_check ::
  "download_env \<Rightarrow> install_plan \<Rightarrow> nat \<Rightarrow> signature_policy \<Rightarrow> string + staged" where
  "download_and_check E p max_bytes policy =
     (case de_stage E of
        Some e \<Rightarrow> Inl (''could not create staging dir: '' @ e)
      | None \<Rightarrow>
          and_then (stream_download (de_low E) (de_show E) (ip_name p) max_bytes (de_fetch E)) (\<lambda>artifact.
          and_then (verify_downloaded_hash (ip_sha256 p) artifact) (\<lambda>_.
          and_then (unpack E p max_bytes artifact) (\<lambda>(k, sha).
            (let s = read_signature (de_report E sha) in
             and_then (signature_gate s policy (ip_publisher p)) (\<lambda>_.
               Inr \<lparr>st_kind = k, st_sha256 = sha, st_signature = s\<rparr>))))))"

section \<open>What passes the gates\<close>

lemma follow_ok:
  "follow u name n vs = Inr () \<longleftrightarrow> (vs = [] \<or> n + length vs \<le> 5) \<and> (\<forall>v \<in> set vs. url_acceptable u v name = Inr ())"
proof (induction vs arbitrary: n)
  case (Cons v vs)
  show ?case
  proof (cases "url_acceptable u v name")
    case (Inl r)
    then show ?thesis by simp
  next
    case (Inr x)
    then show ?thesis using Cons [of "n + 1"] by (cases "vs = []") auto
  qed
qed simp

lemma read_chunks_ok: "read_chunks m got ns = Inr () \<longleftrightarrow> ns = [] \<or> got + sum_list ns \<le> m"
proof (induction ns arbitrary: got)
  case (Cons n ns)
  show ?case
  proof (cases "m < got + n")
    case True
    then show ?thesis by simp
  next
    case False
    then show ?thesis using Cons [of "got + n"] by (cases "ns = []") (simp_all add: add.assoc)
  qed
qed simp

lemma stream_body_ok:
  assumes "stream_body u m f = Inr sha"
  shows "(ft_chunks f = [] \<or> sum_list (ft_chunks f) \<le> m) \<and> sha = ft_sha f"
  using assms by (simp add: stream_body_def read_chunks_ok split: if_splits option.splits)

lemma stream_download_ok:
  assumes "stream_download u show_err name m f = Inr sha"
  shows "length (ft_hops f) \<le> 4 \<and> (\<forall>v \<in> set (ft_hops f). url_acceptable u v name = Inr ()) \<and>
    url_acceptable u (final_url f) name = Inr () \<and> (ft_chunks f = [] \<or> sum_list (ft_chunks f) \<le> m) \<and> sha = ft_sha f"
proof -
  have hops: "follow u name 1 (ft_hops f) = Inr ()" and final: "url_acceptable u (final_url f) name = Inr ()"
    and body: "stream_body u m f = Inr sha"
    using assms by (auto simp: stream_download_def split: sum.splits option.splits)
  have "ft_hops f = [] \<or> 1 + length (ft_hops f) \<le> 5" "\<forall>v \<in> set (ft_hops f). url_acceptable u v name = Inr ()"
    using hops by (simp_all add: follow_ok)
  then show ?thesis using final stream_body_ok [OF body] by auto
qed

lemma selected:
  assumes "select_candidate cs requested archive m = Inr c"
  shows "c \<in> set cs \<and> ac_size c \<le> m"
proof (cases requested)
  case None
  then show ?thesis
    using assms by (auto simp: select_candidate_def split: list.splits if_splits)
next
  case (Some r)
  let ?P = "\<lambda>c. eq_ignore_ascii_case (ac_name c) (replace_char CHR 0x5C ''/'' r)"
  have "filter ?P cs = [c] \<and> ac_size c \<le> m"
    using assms Some by (auto simp: select_candidate_def Let_def split: list.splits if_splits)
  then have "c \<in> set (filter ?P cs)" and "ac_size c \<le> m" by simp_all
  then show ?thesis by simp
qed

text \<open>A candidate is named by a relative path without upward steps and is an \<open>.exe\<close> or \<open>.msi\<close>.\<close>

definition candidate_ok :: "(string \<Rightarrow> string) \<Rightarrow> arc_candidate \<Rightarrow> bool" where
  "candidate_ok u c = (ac_kind c \<in> {Exe, Msi} \<and> safe_archive_path u (ac_name c))"

lemma arc_candidate_ok: "arc_candidate_of u i n sz = Some c \<Longrightarrow> candidate_ok u c"
  by (auto simp: arc_candidate_of_def Let_def candidate_ok_def safe_archive_path_def split: if_splits)

lemma zip_candidates_ok: "c \<in> set (zip_candidates u i es) \<Longrightarrow> candidate_ok u c"
  by (induction es arbitrary: i)
    (auto split: option.splits if_splits Option.bind_splits dest: arc_candidate_ok)

lemma capped_candidates_ok:
  assumes "capped_candidates u label counted m i used es = Inr cs" and "c \<in> set cs"
  shows "candidate_ok u c"
  using assms
proof (induction es arbitrary: i used cs)
  case (Cons e es)
  show ?case
  proof (cases "ae_file e")
    case False
    then show ?thesis using Cons by (simp split: if_splits)
  next
    case True
    then obtain ds where ds: "capped_candidates u label counted m (Suc i) (sat_add used (ae_size e)) es = Inr ds"
      and cs: "cs = (case Option.bind (ae_name e) (\<lambda>n. arc_candidate_of u i n (ae_size e)) of
        Some c \<Rightarrow> c # ds | None \<Rightarrow> ds)"
      using Cons.prems(1) by (auto simp: Let_def split: if_splits)
    have "candidate_ok u d" if "Option.bind (ae_name e) (\<lambda>n. arc_candidate_of u i n (ae_size e)) = Some d" for d
      using that arc_candidate_ok by (cases "ae_name e") auto
    then show ?thesis using Cons.IH [OF ds] Cons.prems(2) by (auto simp: cs split: option.splits)
  qed
qed simp

lemma written:
  assumes "write_installer k m e = Inr (k', sha)"
  shows "k' = k \<and> k \<in> {Exe, Msi} \<and> sha = ae_sha e \<and> (ae_chunks e = [] \<or> sum_list (ae_chunks e) \<le> m)"
  using assms by (auto simp: write_installer_def read_chunks_ok split: if_splits)

lemma unpacked_kind:
  assumes "unpack E p m artifact = Inr (k, sha)"
  shows "k \<in> {Exe, Msi}"
proof -
  have w: "k \<in> {Exe, Msi}" if "write_installer k' m e = Inr (k, sha)" for k' e using written [OF that] by auto
  show ?thesis
    using assms w
    by (cases "ip_kind p")
      (auto simp: unpack_def is_archive_def extract_zip_def extract_tar_def extract_7z_def Let_def
        split: if_splits option.splits)
qed

text \<open>What a staged installer went through.\<close>

lemma staged_gated:
  assumes "download_and_check E p m policy = Inr s"
  shows "length (ft_hops (de_fetch E)) \<le> 4 \<and>
    (\<forall>v \<in> set (final_url (de_fetch E) # ft_hops (de_fetch E)). url_acceptable (de_low E) v (ip_name p) = Inr ()) \<and>
    (\<forall>h. ip_sha256 p = Some h \<longrightarrow> eq_ignore_ascii_case h (ft_sha (de_fetch E))) \<and>
    st_kind s \<in> {Exe, Msi} \<and> (\<not> is_archive (ip_kind p) \<longrightarrow> st_kind s = ip_kind p \<and> st_sha256 s = ft_sha (de_fetch E)) \<and>
    st_signature s = read_signature (de_report E (st_sha256 s)) \<and>
    signature_gate (st_signature s) policy (ip_publisher p) = Inr ()"
proof -
  obtain a k sha where got: "stream_download (de_low E) (de_show E) (ip_name p) m (de_fetch E) = Inr a"
    and hash: "verify_downloaded_hash (ip_sha256 p) a = Inr ()"
    and unp: "unpack E p m a = Inr (k, sha)"
    and sig: "signature_gate (read_signature (de_report E sha)) policy (ip_publisher p) = Inr ()"
    and s: "s = \<lparr>st_kind = k, st_sha256 = sha, st_signature = read_signature (de_report E sha)\<rparr>"
    using assms by (auto simp: download_and_check_def Let_def split: option.splits prod.splits)
  have a: "a = ft_sha (de_fetch E)" using stream_download_ok [OF got] by blast
  have "\<forall>h. ip_sha256 p = Some h \<longrightarrow> eq_ignore_ascii_case h (ft_sha (de_fetch E))"
    using hash by (auto simp: verify_downloaded_hash_def a split: if_splits)
  moreover have "\<not> is_archive (ip_kind p) \<longrightarrow> k = ip_kind p \<and> sha = ft_sha (de_fetch E)"
    using unp by (auto simp: unpack_def a)
  ultimately show ?thesis
    using stream_download_ok [OF got] unpacked_kind [OF unp] sig by (auto simp: s)
qed

end
