(* ===== verification/Updater_Version.thy ===== *)
theory Updater_Version
  imports Updater_Domain "HOL-Library.List_Lexorder"
begin

text \<open>
  Comparing versions (\<open>updater/version.rs\<close>): dotted numbers compared component by component, the
  guard against marketing versions, the strictly-newer test an update is offered on and the
  verdict after installing. The \<open>semver\<close> crate is the parameter \<open>sem\<close>: the order of two texts
  that are both SemVer, \<open>None\<close> when one is not.
\<close>

datatype ordering = Less | Equal | Greater

type_synonym semver = "string \<Rightarrow> string \<Rightarrow> ordering option"

definition normalize_version :: "string \<Rightarrow> string" where
  "normalize_version v = trim (trim_start_matches ''vV'' (trim v))"

definition numeric_head :: "string \<Rightarrow> string list" where
  "numeric_head s =
     filter (\<lambda>p. p \<noteq> []) (split_on (\<lambda>c. c = CHR ''.'')
       (takeWhile (\<lambda>c. is_ascii_digit c \<or> c = CHR ''.'') (normalize_version s)))"

fun all_some :: "'a option list \<Rightarrow> 'a list option" where
  "all_some [] = Some []"
| "all_some (x # xs) = (case (x, all_some xs) of (Some y, Some ys) \<Rightarrow> Some (y # ys) | _ \<Rightarrow> None)"

text \<open>A component above the 64-bit maximum makes the whole version unparseable.\<close>

definition numeric_components :: "string \<Rightarrow> nat list option" where
  "numeric_components s = (case all_some (map (parse_digits (2 ^ 64 - 1)) (numeric_head s)) of
     None \<Rightarrow> None
   | Some [] \<Rightarrow> None
   | Some ns \<Rightarrow> Some ns)"

definition compare_nats :: "nat list \<Rightarrow> nat list \<Rightarrow> ordering" where
  "compare_nats x y = (if x < y then Less else if x = y then Equal else Greater)"

definition resized :: "nat \<Rightarrow> nat list \<Rightarrow> nat list" where
  "resized n x = x @ replicate (n - length x) 0"

definition padded_cmp :: "nat list \<Rightarrow> nat list \<Rightarrow> ordering" where
  "padded_cmp x y = (let n = max (length x) (length y) in compare_nats (resized n x) (resized n y))"

definition version_cmp :: "semver \<Rightarrow> string \<Rightarrow> string \<Rightarrow> ordering option" where
  "version_cmp sem a b =
     (let a = normalize_version a; b = normalize_version b in
      case sem a b of
        Some c \<Rightarrow> Some c
      | None \<Rightarrow>
          (case (numeric_components a, numeric_components b) of
             (Some x, Some y) \<Rightarrow> Some (padded_cmp x y)
           | _ \<Rightarrow> None))"

text \<open>The first component where two versions differ, and whether \<open>latest\<close> wins there.\<close>

fun divergence :: "nat list \<Rightarrow> nat list \<Rightarrow> (nat \<times> bool) option" where
  "divergence l [] = None"
| "divergence l (c # cs) =
     (let li = (case l of [] \<Rightarrow> 0 | x # _ \<Rightarrow> x) in
      if li \<noteq> c then Some (0, li > c) else map_option (\<lambda>(i, w). (Suc i, w)) (divergence (tl l) cs))"

definition is_marketing_truncation :: "string \<Rightarrow> string \<Rightarrow> bool" where
  "is_marketing_truncation latest current =
     (case (numeric_components latest, numeric_components current) of
        (Some l, Some c) \<Rightarrow>
          \<not> length c < length l + 2 \<and>
          (case divergence l c of
             None \<Rightarrow> False
           | Some (index, latest_wins) \<Rightarrow>
               latest_wins \<and> index \<noteq> 0 \<and> list_ex (\<lambda>part. part \<noteq> 0) (drop (length l) c))
      | _ \<Rightarrow> False)"

definition is_newer :: "semver \<Rightarrow> string \<Rightarrow> string \<Rightarrow> bool" where
  "is_newer sem latest current =
     (if trim latest = [] then False
      else if is_marketing_truncation latest current then False
      else (case version_cmp sem latest current of
              Some Greater \<Rightarrow> True
            | Some _ \<Rightarrow> False
            | None \<Rightarrow> normalize_version latest \<noteq> normalize_version current))"

definition classify_version :: "semver \<Rightarrow> string \<Rightarrow> string \<Rightarrow> verification" where
  "classify_version sem found expected =
     (if trim found = [] \<or> eq_ignore_ascii_case found ''unknown'' then Unverified
      else (case version_cmp sem found expected of
              Some Less \<Rightarrow> Mismatch
            | Some _ \<Rightarrow> Verified
            | None \<Rightarrow> if normalize_version found = normalize_version expected then Verified else Unverified))"

section \<open>Comparing\<close>

text \<open>What is relied on in \<open>semver\<close>: its order is antisymmetric and a text equals itself.\<close>

definition flip_order :: "ordering \<Rightarrow> ordering" where
  "flip_order c = (case c of Less \<Rightarrow> Greater | Equal \<Rightarrow> Equal | Greater \<Rightarrow> Less)"

definition semver_ok :: "semver \<Rightarrow> bool" where
  "semver_ok sem = (\<forall>a b. sem b a = map_option flip_order (sem a b))"

lemma compare_nats_flip: "compare_nats y x = flip_order (compare_nats x y)"
  by (auto simp: compare_nats_def flip_order_def)

lemma padded_cmp_flip: "padded_cmp y x = flip_order (padded_cmp x y)"
  unfolding padded_cmp_def Let_def max.commute [of "length y" "length x"] by (rule compare_nats_flip)

lemma version_cmp_flip:
  assumes "semver_ok sem"
  shows "version_cmp sem b a = map_option flip_order (version_cmp sem a b)"
proof -
  let ?a = "normalize_version a" and ?b = "normalize_version b"
  have s: "sem ?b ?a = map_option flip_order (sem ?a ?b)" using assms unfolding semver_ok_def by blast
  have v: "version_cmp sem c d = (case sem (normalize_version c) (normalize_version d) of
      Some r \<Rightarrow> Some r
    | None \<Rightarrow> (case (numeric_components (normalize_version c), numeric_components (normalize_version d)) of
        (Some x, Some y) \<Rightarrow> Some (padded_cmp x y) | _ \<Rightarrow> None))" for c d
    by (simp add: version_cmp_def Let_def)
  show ?thesis
  proof (cases "sem ?a ?b")
    case (Some r)
    then show ?thesis by (simp add: v s)
  next
    case None
    show ?thesis
      by (cases "numeric_components ?a"; cases "numeric_components ?b"; simp add: v s None; (rule padded_cmp_flip)?)
  qed
qed

lemma newer_order:
  assumes "is_newer sem latest current"
  shows "version_cmp sem latest current = Some Greater \<or>
    version_cmp sem latest current = None \<and> normalize_version latest \<noteq> normalize_version current"
proof (cases "version_cmp sem latest current")
  case None
  then show ?thesis using assms by (simp add: is_newer_def split: if_splits)
next
  case (Some c)
  then show ?thesis using assms by (cases c) (simp_all add: is_newer_def split: if_splits)
qed

text \<open>
  An offered update is not confirmed by a machine that did not change: when a version counts as
  newer than the installed one, finding the installed one again after the attempt is a mismatch
  or stays unverified, and never verifies the update. Nor is the reverse offered afterwards:
  where the versions compare, the installed one is not newer than the offer.
\<close>

theorem unmoved_version_never_verifies:
  assumes "semver_ok sem" and "is_newer sem latest current"
  shows "classify_version sem current latest \<in> {Mismatch, Unverified} \<and>
    (version_cmp sem latest current \<noteq> None \<longrightarrow> \<not> is_newer sem current latest)"
  using newer_order [OF assms(2)]
proof
  assume "version_cmp sem latest current = Some Greater"
  then have "version_cmp sem current latest = Some Less"
    using version_cmp_flip [OF assms(1), of current latest] by (simp add: flip_order_def)
  then show ?thesis by (simp add: classify_version_def is_newer_def)
next
  assume none: "version_cmp sem latest current = None \<and> normalize_version latest \<noteq> normalize_version current"
  then have "version_cmp sem current latest = None"
    using version_cmp_flip [OF assms(1), of current latest] by simp
  then show ?thesis using none by (auto simp: classify_version_def)
qed

text \<open>A machine where nothing is SemVer, and two dotted versions.\<close>

lemma unmoved_version_never_verifies_witness:
  "classify_version (\<lambda>a b. None) ''1.9'' ''1.10'' \<in> {Mismatch, Unverified}"
proof -
  have t: "trim ''1.9'' = ''1.9''" "trim ''1.10'' = ''1.10''"
    by (simp_all add: trim_eq_self ws1_def ws2_def ws3_def byte_def)
  have "numeric_components ''1.9'' = Some [1, 9]" "numeric_components ''1.10'' = Some [1, 10]"
    by (simp_all add: numeric_components_def numeric_head_def normalize_version_def t trim_start_matches_def
        is_ascii_digit_def byte_def parse_digits_def digits_val_def)
  then have "is_newer (\<lambda>a b. None) ''1.10'' ''1.9''"
    by (simp add: is_newer_def t is_marketing_truncation_def version_cmp_def normalize_version_def
        trim_start_matches_def compare_nats_def resized_def padded_cmp_def)
  moreover have "semver_ok (\<lambda>a b. None)" by (simp add: semver_ok_def)
  ultimately show ?thesis using unmoved_version_never_verifies by blast
qed

end
