(* ===== verification/Updater_Native.thy ===== *)
theory Updater_Native
  imports Updater_Download Updater_Version
begin

text \<open>
  The native method (\<open>updater/methods/native.rs\<close>, \<open>updater/verify.rs\<close>): ask the model for an
  installer, validate its plan, fetch and check the file, run it and read the version back. The
  prompts are not modelled: the model's replies are arbitrary texts. What is observed besides
  the outcome is the list of installers launched.
\<close>

section \<open>Planning\<close>

definition link_wrappers :: string where
  "link_wrappers = [CHR 0x60, CHR 0x22, CHR 0x27, CHR ''('', CHR '')'', CHR ''['', CHR '']'', CHR 0x7B, CHR 0x7D,
     CHR ''<'', CHR ''>'', CHR '','', CHR '';'']"

definition repo_char :: "char \<Rightarrow> bool" where
  "repo_char c = (is_ascii_alphanumeric c \<or> c = CHR ''-'' \<or> c = CHR ''_'' \<or> c = CHR ''.'')"

definition canonical_github_latest :: "(string \<Rightarrow> url option) \<Rightarrow> string \<Rightarrow> string option" where
  "canonical_github_latest parse value =
     (case parse (trim_matches link_wrappers (trim value)) of
        None \<Rightarrow> None
      | Some v \<Rightarrow>
          (let segs = take 2 (ur_segments v) in
           if ur_scheme v \<noteq> ''https'' \<or>
              \<not> (case ur_host v of Some h \<Rightarrow> eq_ignore_ascii_case h ''github.com'' | None \<Rightarrow> False) then None
           else if length segs \<noteq> 2 \<or> list_ex (\<lambda>part. part = [] \<or> \<not> list_all repo_char part) segs then None
           else Some (''https://github.com/'' @ segs ! 0 @ ''/'' @ segs ! 1 @ ''/releases/latest'')))"

definition github_latest_in :: "(string \<Rightarrow> url option) \<Rightarrow> string \<Rightarrow> string option" where
  "github_latest_in parse text = find_map (canonical_github_latest parse) (split_whitespace text)"

definition plan_reaches_target :: "semver \<Rightarrow> install_plan \<Rightarrow> string \<Rightarrow> bool" where
  "plan_reaches_target sem p target =
     (trim target = [] \<or> classify_version sem (ip_version p) target = Verified)"

definition https_only :: "string \<Rightarrow> string option" where
  "https_only s = (let r = trim s in if starts_with ''https://'' r then Some r else None)"

definition or_else :: "'a option \<Rightarrow> 'a option \<Rightarrow> 'a option" where
  "or_else x y = (case x of Some a \<Rightarrow> Some a | None \<Rightarrow> y)"

text \<open>
  The surroundings of one native attempt: the \<open>url\<close> and \<open>semver\<close> crates, the JSON reader, the
  model's replies with their price, what downloading from a URL gives, the hash read again
  before the launch, the installer's exit code, and the installed versions read afterwards.
\<close>

record native_env =
  ne_parse :: "string \<Rightarrow> url option"
  ne_sem :: semver
  ne_read :: "string \<Rightarrow> string + install_plan_raw"
  ne_reply :: "nat \<Rightarrow> string + (string \<times> fnum option)"
  ne_low :: "string \<Rightarrow> string"
  ne_down :: "string \<Rightarrow> download_env"
  ne_rehash :: "string + string"
  ne_exit :: int
  ne_installed :: "nat \<Rightarrow> string option"

definition plan_from_response ::
  "native_env \<Rightarrow> string \<Rightarrow> string \<Rightarrow> string \<Rightarrow> install_plan option \<times> string option \<times> string option" where
  "plan_from_response E content name current =
     (case ne_read E content of
        Inl e \<Rightarrow> (None, None, Some (''could not parse install plan: '' @ e))
      | Inr raw \<Rightarrow>
          (let raw = (case canonical_github_latest (ne_parse E) (rp_releases_url raw) of
                        Some latest \<Rightarrow> raw\<lparr>rp_releases_url := latest\<rparr>
                      | None \<Rightarrow> raw);
               releases = https_only (rp_releases_url raw)
           in case validate_plan (ne_low E) (ne_parse E) raw name current of
                Inr p \<Rightarrow> (Some p, or_else (ip_releases p) releases, None)
              | Inl e \<Rightarrow> (None, releases, Some e)))"

definition usage_cost :: "fnum option \<Rightarrow> fnum" where
  "usage_cost c = (case c of Some x \<Rightarrow> x | None \<Rightarrow> Fin 0)"

text \<open>A plan below the target version counts as none.\<close>

definition only_reaching ::
  "native_env \<Rightarrow> string \<Rightarrow> install_plan option \<times> string option \<Rightarrow> install_plan option \<times> string option" where
  "only_reaching E target pr =
     (case fst pr of
        Some p \<Rightarrow>
          if plan_reaches_target (ne_sem E) p target then pr
          else (None, Some (''AI returned an installer below target version '' @ target))
      | None \<Rightarrow> pr)"

definition manual_reason :: "install_plan option \<Rightarrow> string option \<Rightarrow> string option \<Rightarrow> string option" where
  "manual_reason p reason releases =
     (case (p, reason, releases) of
        (None, Some r, Some link) \<Rightarrow> Some (r @ '' '' @ emdash @ '' manual download: '' @ link)
      | (None, None, Some link) \<Rightarrow> Some (''no direct installer '' @ emdash @ '' manual download: '' @ link)
      | (_, r, _) \<Rightarrow> r)"

definition make_plan ::
  "native_env \<Rightarrow> string \<Rightarrow> string \<Rightarrow> string \<Rightarrow> string option \<Rightarrow> install_plan option \<times> fnum \<times> string option" where
  "make_plan E name current target note1 =
     (case ne_reply E 0 of
        Inl e \<Rightarrow> (None, Fin 0, Some e)
      | Inr (content, usage) \<Rightarrow>
          (let cost = usage_cost usage;
               (p, releases, reason) = plan_from_response E content name current;
               latest = or_else (Option.bind releases (canonical_github_latest (ne_parse E)))
                          (or_else (Option.bind p (\<lambda>q. canonical_github_latest (ne_parse E) (ip_url q)))
                             (Option.bind note1 (github_latest_in (ne_parse E))));
               (p, reason) = only_reaching E target (p, reason);
               (p, cost, releases, reason) =
                 (case (p, latest) of
                    (None, Some link) \<Rightarrow>
                      (case ne_reply E 1 of
                         Inl e \<Rightarrow> (p, cost, releases, Some (''latest GitHub re-check failed: '' @ e))
                       | Inr (content, usage) \<Rightarrow>
                           (let (q, rel, why) = plan_from_response E content name current;
                                (q, why) = only_reaching E target (q, why)
                            in (q, f_add f64 cost (usage_cost usage), or_else rel (Some link), why)))
                  | _ \<Rightarrow> (p, cost, releases, reason))
           in (p, cost, manual_reason p reason releases)))"

section \<open>Installing\<close>

record launch =
  la_kind :: installer_kind
  la_args :: "string list"
  la_sha256 :: string

definition install_ok :: "int \<Rightarrow> bool" where
  "install_ok code = (code = 0 \<or> code = 3010)"

text \<open>The exit code, or -4 when the staged file changed, -3 when it could not be started.\<close>

definition run_installer :: "native_env \<Rightarrow> staged \<Rightarrow> string list \<Rightarrow> int \<times> launch list" where
  "run_installer E s args =
     (case ne_rehash E of
        Inl e \<Rightarrow> (-3, [])
      | Inr h \<Rightarrow>
          if \<not> eq_ignore_ascii_case h (st_sha256 s) then (-4, [])
          else if st_kind s \<noteq> Exe \<and> st_kind s \<noteq> Msi then (-3, [])
          else (ne_exit E, [\<lparr>la_kind = st_kind s, la_args = args, la_sha256 = st_sha256 s\<rparr>]))"

text \<open>Two reads at most: a verdict other than a mismatch is final, a mismatch is read once more.\<close>

definition verify_read :: "semver \<Rightarrow> string option \<Rightarrow> string \<Rightarrow> (verification \<times> string) option" where
  "verify_read sem found expected = map_option (\<lambda>f. (classify_version sem f expected, f)) found"

definition verify_app :: "semver \<Rightarrow> (nat \<Rightarrow> string option) \<Rightarrow> string \<Rightarrow> verification \<times> string" where
  "verify_app sem reads expected =
     (let first = verify_read sem (reads 0) expected;
          last1 = (case first of Some r \<Rightarrow> r | None \<Rightarrow> (Unverified, []))
      in if first \<noteq> None \<and> fst last1 \<noteq> Mismatch then last1
         else (case verify_read sem (reads 1) expected of Some r \<Rightarrow> r | None \<Rightarrow> last1))"

definition tampered_detail :: string where
  "tampered_detail = ''staged installer changed before launch '' @ emdash @ '' aborted (possible tampering)''"

definition exit_detail :: "int \<Rightarrow> string" where
  "exit_detail code =
     (if code = -4 then tampered_detail
      else if code = -2 then ''installer timed out and was stopped''
      else if code = -3 then ''installer could not be launched''
      else ''installer exited with code '' @ show_int code)"

definition after_launch :: "native_env \<Rightarrow> install_plan \<Rightarrow> int \<Rightarrow> attempt_outcome \<Rightarrow> attempt_outcome" where
  "after_launch E p code x =
     (let x = x\<lparr>ao_exit_code := Some code\<rparr> in
      if install_ok code then
        (let (v, found) = verify_app (ne_sem E) (ne_installed E) (ip_version p);
             x = x\<lparr>ao_verification := v, ao_installed := (if found = [] then None else Some found),
                   ao_success := (v \<noteq> Mismatch)\<rparr>
         in if v \<noteq> Mismatch
            then x\<lparr>ao_category := None,
                   ao_detail := ''installed'' @ (if code = 3010 then '' (reboot required)'' else [])\<rparr>
            else x\<lparr>ao_category := Some VerifyFailed,
                   ao_detail := ''installer ran but the new version was not detected''\<rparr>)
      else x\<lparr>ao_category := Some (if code = -4 then HashMismatch else InstallerFailed),
             ao_detail := exit_detail code\<rparr>)"

definition update_native ::
  "native_env \<Rightarrow> update_candidate \<Rightarrow> signature_policy \<Rightarrow> nat \<Rightarrow> attempt_outcome \<times> launch list" where
  "update_native E cand policy max_bytes =
     (let (planned, cost, reason) = make_plan E (uc_name cand) (uc_current cand) (uc_available cand) (uc_guidance cand);
          x = (failed_outcome Native Unknown [])\<lparr>ao_cost := cost\<rparr>
      in case planned of
           None \<Rightarrow>
             (x\<lparr>ao_category := Some NotFound,
                ao_detail := (case reason of Some r \<Rightarrow> r | None \<Rightarrow> ''no direct installer found'')\<rparr>, [])
         | Some p \<Rightarrow>
             if \<not> plan_runnable p
             then (x\<lparr>ao_category := Some NotFound,
                     ao_detail := ''no silent-install switch known '' @ emdash @ '' manual install only''\<rparr>, [])
             else (case download_and_check (ne_down E (ip_url p)) p max_bytes policy of
                Inl e \<Rightarrow> (x\<lparr>ao_category := Some (classify_error Native None e), ao_detail := e\<rparr>, [])
              | Inr s \<Rightarrow>
                  (let x = x\<lparr>ao_signature := Some (sig_display (st_signature s)), ao_sha256 := Some (st_sha256 s)\<rparr>;
                       args = default_args (st_kind s) (sanitise_args (st_kind s) (ip_args p))
                   in if st_kind s = Exe \<and> args = []
                      then (x\<lparr>ao_category := Some NotFound,
                              ao_detail := ''archive installer has no known silent-install switch''\<rparr>, [])
                      else (let (code, launched) = run_installer E s args
                            in (after_launch E p code x, launched)))))"

section \<open>What reaches the launch\<close>

definition plan_good :: "native_env \<Rightarrow> string \<Rightarrow> string \<Rightarrow> install_plan \<Rightarrow> bool" where
  "plan_good E name target p =
     (plan_gated (ne_low E) (ne_parse E) p \<and> ip_name p = name \<and> plan_reaches_target (ne_sem E) p target)"

lemma response_gated:
  assumes "plan_from_response E content name current = (Some p, releases, reason)"
  shows "plan_gated (ne_low E) (ne_parse E) p \<and> ip_name p = name"
proof -
  obtain raw where "validate_plan (ne_low E) (ne_parse E) raw name current = Inr p"
    using assms by (auto simp: plan_from_response_def Let_def split: sum.splits)
  from validate_plan_gated [OF this] show ?thesis by simp
qed

lemma only_reaching_some:
  assumes "only_reaching E target pr = (Some p, reason)"
  shows "fst pr = Some p \<and> plan_reaches_target (ne_sem E) p target"
  using assms by (auto simp: only_reaching_def split: option.splits if_splits)

lemma checked_good:
  assumes "plan_from_response E content name current = (q, releases, why)"
    and "only_reaching E target (q, why) = (Some p, reason)"
  shows "plan_good E name target p"
  using only_reaching_some [OF assms(2)] response_gated [of E content name current p releases why] assms(1)
  by (simp add: plan_good_def)

lemma make_plan_good:
  assumes "make_plan E name current target n = (Some p, cost, reason)"
  shows "plan_good E name target p"
proof -
  obtain content usage where r: "ne_reply E 0 = Inr (content, usage)"
    using assms by (auto simp: make_plan_def split: sum.splits)
  obtain q rel why where q: "plan_from_response E content name current = (q, rel, why)" by (metis prod_cases3)
  obtain q' why' where q': "only_reaching E target (q, why) = (q', why')" by fastforce
  show ?thesis
  proof (cases q')
    case (Some x)
    then have "p = x" using assms by (simp add: make_plan_def r q q' Let_def)
    then show ?thesis using checked_good [OF q] q' Some by simp
  next
    case None
    show ?thesis
    proof (cases "ne_reply E 1")
      case (Inl e)
      then show ?thesis using assms None
        by (simp add: make_plan_def r q q' Let_def del: One_nat_def split: option.splits)
    next
      case (Inr cu)
      obtain content2 usage2 where cu: "ne_reply E 1 = Inr (content2, usage2)" using Inr by (cases cu) simp
      obtain q2 rel2 why2 where q2: "plan_from_response E content2 name current = (q2, rel2, why2)"
        by (metis prod_cases3)
      obtain q3 why3 where q3: "only_reaching E target (q2, why2) = (q3, why3)" by fastforce
      have "q3 = Some p" using assms None
        by (simp add: make_plan_def r q q' cu q2 q3 Let_def del: One_nat_def split: option.splits)
      then show ?thesis using checked_good [OF q2] q3 by simp
    qed
  qed
qed

text \<open>
  C13:
  An installer is launched only through every gate: its plan was validated for this app and
  reaches the target version; every redirect and the final URL passed the URL gate, at most
  four of them; a published hash equals the download's; the signature policy accepted the
  file's signature; the file's hash was read again and is the checked one; and the switches are
  allowed ones, at least one of them.
\<close>

theorem launch_only_through_the_gates:
  assumes "(x, launched) = update_native E cand policy max_bytes" and "l \<in> set launched"
  shows "\<exists>(p :: install_plan) (s :: staged) h. plan_gated (ne_low E) (ne_parse E) p \<and> ip_name p = uc_name cand \<and>
      plan_reaches_target (ne_sem E) p (uc_available cand) \<and>
      (let d = ne_down E (ip_url p); f = de_fetch d in
        length (ft_hops f) \<le> 4 \<and>
        (\<forall>v \<in> set (final_url f # ft_hops f). url_acceptable (de_low d) v (ip_name p) = Inr ()) \<and>
        (\<forall>k. ip_sha256 p = Some k \<longrightarrow> eq_ignore_ascii_case k (ft_sha f)) \<and>
        st_signature s = read_signature (de_report d (st_sha256 s))) \<and>
      signature_gate (st_signature s) policy (ip_publisher p) = Inr () \<and>
      ne_rehash E = Inr h \<and> eq_ignore_ascii_case h (la_sha256 l) \<and> la_sha256 l = st_sha256 s \<and>
      la_kind l \<in> {Exe, Msi} \<and> la_args l \<noteq> [] \<and> (\<forall>t \<in> set (la_args l). arg_ok (la_kind l) t)"
proof -
  obtain planned cost reason where m: "make_plan E (uc_name cand) (uc_current cand) (uc_available cand)
      (uc_guidance cand) = (planned, cost, reason)" by (metis prod_cases3)
  obtain p s where p: "planned = Some p" and d: "download_and_check (ne_down E (ip_url p)) p max_bytes policy = Inr s"
    and l: "l \<in> set (snd (run_installer E s (default_args (st_kind s) (sanitise_args (st_kind s) (ip_args p)))))"
    and some: "\<not> (st_kind s = Exe \<and> default_args (st_kind s) (sanitise_args (st_kind s) (ip_args p)) = [])"
    using assms by (auto simp: update_native_def m Let_def split: option.splits if_splits sum.splits prod.splits)
  obtain h where h: "ne_rehash E = Inr h" "eq_ignore_ascii_case h (st_sha256 s)" "st_kind s \<in> {Exe, Msi}"
    "l = \<lparr>la_kind = st_kind s, la_args = default_args (st_kind s) (sanitise_args (st_kind s) (ip_args p)),
          la_sha256 = st_sha256 s\<rparr>"
    using l by (auto simp: run_installer_def split: sum.splits if_splits)
  have args: "la_args l \<noteq> []" "\<forall>t \<in> set (la_args l). arg_ok (la_kind l) t"
    using h(3,4) some default_args_ok by (auto simp: default_args_def)
  have good: "plan_good E (uc_name cand) (uc_available cand) p" using make_plan_good m p by simp
  show ?thesis
    apply (rule exI [of _ p], rule exI [of _ s], rule exI [of _ h])
    using staged_gated [OF d] h args good by (auto simp: plan_good_def Let_def)
qed

section \<open>Integrity failures end the healing\<close>

lemma lower_append:
  "to_ascii_lowercase (xs @ ys) = to_ascii_lowercase xs @ to_ascii_lowercase ys"
  by (simp add: to_ascii_lowercase_def)

lemma contains_lower:
  "contains_str (to_ascii_lowercase needle) (to_ascii_lowercase (xs @ needle @ ys))"
  by (simp add: lower_append contains_str_append contains_str_prefix)

lemma hash_rejection_terminal:
  assumes "verify_downloaded_hash k got = Inl e"
  shows "is_terminal (classify_error m code e)"
proof -
  obtain v where e: "e = ''download '' @ ''SHA-256 mismatch'' @
      '' (expected '' @ v @ '', got '' @ got @ '') '' @ emdash @ '' aborted''"
    using assms by (auto simp: verify_downloaded_hash_def split: option.splits if_splits)
  have "contains_str (to_ascii_lowercase ''SHA-256 mismatch'') (to_ascii_lowercase e)"
    unfolding e by (rule contains_lower)
  moreover have "to_ascii_lowercase ''SHA-256 mismatch'' = ''sha-256 mismatch''" by code_simp
  ultimately have "has_some hash_needles (to_ascii_lowercase e)" by (simp add: has_some_def hash_needles_def)
  then show ?thesis by (simp add: classify_error_def is_terminal_def Let_def)
qed

lemma signature_rejection_text:
  assumes "signature_gate s policy publisher = Inl e"
  shows "\<exists>t. e = ''signature rejected: '' @ t"
  using assms by (auto simp: signature_gate_def split: signature_policy.splits option.splits if_splits)

lemma signature_rejection_terminal:
  assumes "signature_gate s policy publisher = Inl e"
  shows "is_terminal (classify_error m code e)"
proof -
  obtain t where e: "e = ''signature rejected: '' @ t" using signature_rejection_text [OF assms] by blast
  have "contains_str (to_ascii_lowercase ''signature'') (to_ascii_lowercase ([] @ ''signature'' @ '' rejected: '' @ t))"
    by (rule contains_lower)
  moreover have "contains_str (to_ascii_lowercase ''reject'')
      (to_ascii_lowercase (''signature '' @ ''reject'' @ ''ed: '' @ t))"
    by (rule contains_lower)
  moreover have "to_ascii_lowercase ''signature'' = ''signature''" "to_ascii_lowercase ''reject'' = ''reject''"
    by code_simp+
  ultimately have "contains_str ''signature'' (to_ascii_lowercase e)"
    "has_some signature_needles (to_ascii_lowercase e)"
    by (simp_all add: e has_some_def signature_needles_def)
  then show ?thesis by (simp add: classify_error_def is_terminal_def Let_def)
qed

lemma terminal_gives_up:
  assumes "is_terminal (sc_failed ctx)"
  shows "\<exists>r. validate_next_step win u proposed ctx = GiveUp r"
  using assms by (simp add: validate_next_step_def)

text \<open>
  An installer whose hash or signature was refused is never tried again by other means: the
  refusal's text is classified as an integrity failure, whatever the method and exit code, and
  whatever the model then proposes the validated next step is to give up; a staged file that
  changed before the launch ends as a hash mismatch too, and nothing was launched.
\<close>

theorem integrity_rejections_end_healing:
  assumes "verify_downloaded_hash k got = Inl e \<or> signature_gate s policy publisher = Inl e"
  shows "(\<exists>r. validate_next_step win u proposed (ctx\<lparr>sc_failed := classify_error m code e\<rparr>) = GiveUp r) \<and>
    (\<forall>E st args h p x. ne_rehash E = Inr h \<longrightarrow> \<not> eq_ignore_ascii_case h (st_sha256 st) \<longrightarrow>
       (let (c, launched) = run_installer E st args
        in launched = [] \<and> ao_category (after_launch E p c x) = Some HashMismatch \<and> \<not> install_ok c))"
proof -
  have "is_terminal (classify_error m code e)"
    using assms hash_rejection_terminal signature_rejection_terminal by blast
  then show ?thesis
    using terminal_gives_up by (simp add: run_installer_def after_launch_def install_ok_def Let_def)
qed

section \<open>The gates at a concrete app\<close>

definition krita_url :: url where
  "krita_url = \<lparr>ur_scheme = ''https'', ur_username = [], ur_password = None, ur_port = None,
     ur_host = Some ''download.krita.org'', ur_path = ''/krita-5.msi'', ur_segments = [''krita-5.msi'']\<rparr>"

definition krita_raw :: install_plan_raw where
  "krita_raw = \<lparr>rp_installer_url = ''https://download.krita.org/krita-5.msi'', rp_releases_url = [],
     rp_archive_path = [], rp_version = ''5.2'', rp_args = [''/quiet''], rp_sha256 = None, rp_publisher = []\<rparr>"

definition krita_env :: native_env where
  "krita_env = \<lparr>ne_parse = (\<lambda>s. if s = [] then None else Some krita_url), ne_sem = (\<lambda>a b. None),
     ne_read = (\<lambda>s. Inr krita_raw), ne_reply = (\<lambda>n. Inr ([], None)), ne_low = (\<lambda>s. s),
     ne_down = (\<lambda>s. \<lparr>de_low = (\<lambda>s. s), de_show = (\<lambda>s. s), de_stage = None,
       de_fetch = \<lparr>ft_url = krita_url, ft_hops = [], ft_error = None, ft_success = True, ft_status = ''200'',
         ft_type = None, ft_length = Some 10, ft_chunks = [4, 6], ft_broken = None, ft_sha = ''ab''\<rparr>,
       de_open = Inr [], de_report = (\<lambda>s. ''Valid|CN=Krita'')\<rparr>),
     ne_rehash = Inr ''ab'', ne_exit = 0, ne_installed = (\<lambda>n. Some ''5.2'')\<rparr>"

definition krita_cand :: update_candidate where
  "krita_cand = \<lparr>uc_id = ''x'', uc_name = ''krita'', uc_current = ''5.1'', uc_available = ''5.2'', uc_package = None,
     uc_guidance = None, uc_methods = [Native]\<rparr>"

lemma krita_version: "classify_version (\<lambda>a b. None) ''5.2'' ''5.2'' = Verified"
proof -
  have t: "trim ''5.2'' = ''5.2''" by code_simp
  have "numeric_components ''5.2'' = Some [5, 2]"
    by (simp add: numeric_components_def numeric_head_def normalize_version_def t trim_start_matches_def
        is_ascii_digit_def byte_def parse_digits_def digits_val_def)
  then show ?thesis
    by (simp add: classify_version_def t version_cmp_def normalize_version_def eq_ignore_ascii_case_def
        trim_start_matches_def compare_nats_def resized_def padded_cmp_def to_ascii_lowercase_def)
qed

definition krita_plan :: install_plan where
  "krita_plan = \<lparr>ip_name = ''krita'', ip_current = ''5.1'', ip_url = ''https://download.krita.org/krita-5.msi'',
     ip_host = ''download.krita.org'', ip_releases = None, ip_archive_path = None, ip_version = ''5.2'', ip_kind = Msi,
     ip_args = [''/quiet''], ip_sha256 = None, ip_publisher = None\<rparr>"

lemma krita_answer: "plan_from_response krita_env [] ''krita'' ''5.1'' = (Some krita_plan, None, None)"
  by code_simp

lemma krita_planned: "make_plan krita_env ''krita'' ''5.1'' ''5.2'' None = (Some krita_plan, Fin 0, None)"
proof -
  have "only_reaching krita_env ''5.2'' (Some krita_plan, None) = (Some krita_plan, None)"
    by (simp add: only_reaching_def plan_reaches_target_def krita_plan_def krita_env_def krita_version)
  moreover have "ne_reply krita_env 0 = Inr ([], None)" by (simp add: krita_env_def)
  moreover have "canonical_github_latest (ne_parse krita_env) (ip_url krita_plan) = None" by code_simp
  ultimately show ?thesis
    by (simp add: make_plan_def krita_answer usage_cost_def or_else_def manual_reason_def)
qed

lemma krita_staged:
  "download_and_check (ne_down krita_env (ip_url krita_plan)) krita_plan 100 RequireValid =
     Inr \<lparr>st_kind = Msi, st_sha256 = ''ab'',
          st_signature = \<lparr>sg_status = ''Valid'', sg_subject = ''CN=Krita'', sg_cn = ''Krita''\<rparr>\<rparr>"
  by code_simp

lemma krita_args: "default_args Msi (sanitise_args Msi (ip_args krita_plan)) = [''/quiet'']"
  by code_simp

lemma krita_launched:
  "snd (update_native krita_env krita_cand RequireValid 100) =
     [\<lparr>la_kind = Msi, la_args = [''/quiet''], la_sha256 = ''ab''\<rparr>]"
proof -
  have "run_installer krita_env \<lparr>st_kind = Msi, st_sha256 = ''ab'',
      st_signature = \<lparr>sg_status = ''Valid'', sg_subject = ''CN=Krita'', sg_cn = ''Krita''\<rparr>\<rparr> [''/quiet''] =
      (0, [\<lparr>la_kind = Msi, la_args = [''/quiet''], la_sha256 = ''ab''\<rparr>])"
    by code_simp
  moreover have "plan_runnable krita_plan" by code_simp
  ultimately show ?thesis
    by (simp add: update_native_def krita_cand_def krita_planned krita_staged krita_args)
qed

theorem launch_only_through_the_gates_witness:
  "\<exists>(p :: install_plan) (s :: staged) h. plan_gated (ne_low krita_env) (ne_parse krita_env) p \<and> ip_name p = ''krita'' \<and>
     signature_gate (st_signature s) RequireValid (ip_publisher p) = Inr () \<and> ne_rehash krita_env = Inr h \<and>
     eq_ignore_ascii_case h ''ab''"
proof -
  define l where "l = \<lparr>la_kind = Msi, la_args = [''/quiet''], la_sha256 = ''ab''\<rparr>"
  have run: "(fst (update_native krita_env krita_cand RequireValid 100), [l]) =
      update_native krita_env krita_cand RequireValid 100"
    using krita_launched unfolding l_def by (metis prod.collapse)
  have "l \<in> set [l]" "la_sha256 l = ''ab''" "uc_name krita_cand = ''krita''" by (simp_all add: l_def krita_cand_def)
  with launch_only_through_the_gates [OF run] show ?thesis by metis
qed

lemma unsigned_rejected:
  "signature_gate (read_signature ''NotSigned|'') RequireValid None =
     Inl ''signature rejected: installer is unsigned''"
  by code_simp

theorem integrity_rejections_end_healing_witness:
  "\<exists>r. validate_next_step True (\<lambda>s. s) (Switch Choco)
     (\<lparr>sc_failed = Unknown, sc_tried = [Winget], sc_available = [Winget, Choco], sc_error = []\<rparr>
        \<lparr>sc_failed := classify_error Native None ''signature rejected: installer is unsigned''\<rparr>) = GiveUp r"
  using integrity_rejections_end_healing [OF disjI2 [OF unsigned_rejected]] by blast

end
