(* ===== verification/Updater_Managers.thy ===== *)
theory Updater_Managers
  imports Updater_Native
begin

text \<open>
  The package managers (\<open>updater/winget_parse.rs\<close>, \<open>updater/methods/winget.rs\<close>, \<open>choco.rs\<close>,
  \<open>msstore.rs\<close>, \<open>scoop.rs\<close> and \<open>checked_output\<close> of \<open>updater/proc.rs\<close>): reading their tables, and
  the commands one update attempt runs. What a command prints is an argument of the model.
\<close>

section \<open>Characters and lines\<close>

text \<open>The characters of a UTF-8 string, each as its bytes.\<close>

function chars :: "string \<Rightarrow> string list" where
  "chars [] = []"
| "chars (c # cs) = (c # takeWhile is_cont cs) # chars (dropWhile is_cont cs)"
  by pat_completeness auto
termination by (relation "measure length") (auto simp: le_imp_less_Suc length_dropWhile_le)

fun str_find :: "string \<Rightarrow> string \<Rightarrow> nat option" where
  "str_find p [] = (if p = [] then Some 0 else None)"
| "str_find p (c # cs) = (if starts_with p (c # cs) then Some 0 else map_option Suc (str_find p cs))"

text \<open>The text after the last carriage return of a line.\<close>

definition after_cr :: "string \<Rightarrow> string" where
  "after_cr line = last (split_on (\<lambda>c. c = CHR 0x0D) line)"

function strip_ellipses :: "string \<Rightarrow> string" where
  "strip_ellipses s = (if ends_with ellipsis s then strip_ellipses (take (length s - 3) s) else s)"
  by pat_completeness auto
termination by (relation "measure length") (auto simp: ends_with_iff ellipsis_def)

declare strip_ellipses.simps [simp del]

section \<open>The table of winget\<close>

record app_update =
  au_id :: string
  au_name :: string
  au_current :: string
  au_available :: string

definition WINGET_COLUMNS :: "string list" where
  "WINGET_COLUMNS = [''Name'', ''Id'', ''Version'', ''Available'', ''Source'']"

type_synonym offsets = "(string \<times> nat) list"

definition is_header :: "string \<Rightarrow> bool" where
  "is_header l = (contains_str ''Id'' l \<and> contains_str ''Version'' l)"

definition label_offset :: "string \<Rightarrow> string \<Rightarrow> (string \<times> nat) option" where
  "label_offset h label = map_option (\<lambda>b. (label, char_count (take b h))) (str_find label h)"

definition header_offsets :: "string \<Rightarrow> offsets" where
  "header_offsets text =
     (case find is_header (map after_cr (lines text)) of
        None \<Rightarrow> []
      | Some h \<Rightarrow> sort_key snd (List.map_filter (label_offset h) WINGET_COLUMNS))"

definition header_present :: "string \<Rightarrow> bool" where
  "header_present text =
     list_all (\<lambda>required. list_ex (\<lambda>(label, n). label = required) (header_offsets text))
       [''Name'', ''Id'', ''Version'', ''Available'']"

text \<open>The characters a column covers: from its start to the next column's, within the row.\<close>

definition column_range :: "offsets \<Rightarrow> nat \<Rightarrow> string \<Rightarrow> (nat \<times> nat) option" where
  "column_range offs len label =
     (case find_index (\<lambda>(l, n). l = label) offs of
        None \<Rightarrow> None
      | Some i \<Rightarrow>
          (let start = snd (offs ! i) in
           if len \<le> start then None
           else Some (start, if Suc i < length offs then min (snd (offs ! Suc i)) len else len)))"

definition column :: "offsets \<Rightarrow> string list \<Rightarrow> string \<Rightarrow> string" where
  "column offs row label = (case column_range offs (length row) label of
     None \<Rightarrow> []
   | Some (a, b) \<Rightarrow> trim (concat (take (b - a) (drop a row))))"

text \<open>The footer ends the table; \<open>u\<close> is the case mapping of \<open>to_lowercase\<close>.\<close>

definition is_footer :: "(string \<Rightarrow> string) \<Rightarrow> string \<Rightarrow> bool" where
  "is_footer u t =
     (let lower = to_lowercase u t in
      (t \<noteq> [] \<and> is_ascii_digit (hd t)) \<and> contains_str ''available'' lower \<or>
      starts_with ''the following packages'' lower)"

fun table_rows :: "(string \<Rightarrow> string) \<Rightarrow> bool \<Rightarrow> string list \<Rightarrow> string list list" where
  "table_rows u in_table [] = []"
| "table_rows u in_table (raw # ls) =
     (let line = after_cr raw; t = trim line in
      if \<not> in_table then table_rows u (contains_str ''-----'' t) ls
      else if t = [] then table_rows u True ls
      else if is_footer u t then []
      else chars line # table_rows u True ls)"

definition winget_table :: "(string \<Rightarrow> string) \<Rightarrow> string \<Rightarrow> offsets \<times> string list list" where
  "winget_table u text = (header_offsets text, table_rows u False (lines text))"

definition upgrade_row :: "offsets \<Rightarrow> string list \<Rightarrow> app_update option" where
  "upgrade_row offs row =
     (let i = trim_end_matches ''.'' (strip_ellipses (column offs row ''Id''));
          available = column offs row ''Available''
      in if i = [] \<or> available = [] then None
         else Some \<lparr>au_id = i, au_name = column offs row ''Name'', au_current = column offs row ''Version'',
                    au_available = available\<rparr>)"

definition parse_upgrades :: "(string \<Rightarrow> string) \<Rightarrow> string \<Rightarrow> app_update list" where
  "parse_upgrades u text = (let (offs, rows) = winget_table u text in List.map_filter (upgrade_row offs) rows)"

definition noise_words :: "string list" where
  "noise_words = [''driver'', ''redistributable'', ''runtime'', ''microsoft visual c++'',
     ''windows subsystem for linux'', ''windows sdk'', ''update for'', ''security update'', ''hotfix'',
     ''maintenance service'', ''microsoft .net'', ''directx'', ''realtek'', ''intel(r)'', ''host app'',
     ''web experience'', ''microsoft 365'', ''microsoft office'', ''visual studio installer'', ''onedrive'',
     ''teams machine-wide'']"

definition is_noise :: "(string \<Rightarrow> string) \<Rightarrow> string \<Rightarrow> bool" where
  "is_noise u name =
     (let n = to_lowercase u name in
      list_ex (\<lambda>s. contains_str s n) noise_words \<or> list_ex (\<lambda>t. t = ''eir'') (split_whitespace n))"

definition is_winget_catalog_id :: "string \<Rightarrow> bool" where
  "is_winget_catalog_id i =
     (let i = strip_ellipses i in
      CHR ''.'' \<in> set i \<and> CHR 0x5C \<notin> set i \<and> CHR ''/'' \<notin> set i \<and> CHR '' '' \<notin> set i)"

definition msix_prefix :: string where "msix_prefix = ''MSIX'' @ [CHR 0x5C]"
definition arp_user_prefix :: string where "arp_user_prefix = ''ARP'' @ [CHR 0x5C] @ ''User'' @ [CHR 0x5C]"

text \<open>\<open>id.get(..9)\<close> is a prefix of nine bytes, when that is a boundary of characters.\<close>

definition is_user_arp :: "string \<Rightarrow> bool" where
  "is_user_arp i = (9 \<le> length i \<and> is_char_boundary i 9 \<and> eq_ignore_ascii_case (take 9 i) arp_user_prefix)"

definition is_source :: "string \<Rightarrow> string \<Rightarrow> bool" where
  "is_source full source = (5 \<le> length source \<and> starts_with source full)"

definition unmanaged_row ::
  "(string \<Rightarrow> string) \<Rightarrow> string set \<Rightarrow> offsets \<Rightarrow> string list \<Rightarrow> (string \<times> string) option" where
  "unmanaged_row u managed offs row =
     (let i = column offs row ''Id''; name = column offs row ''Name''; version = column offs row ''Version'';
          source = to_lowercase u (strip_ellipses (column offs row ''Source''))
      in if starts_with msix_prefix i \<or> is_user_arp i then None
         else if name = [] \<or> version = [] \<or> is_noise u name then None
         else if is_source ''msstore'' source \<or> is_source ''winget'' source \<and> is_winget_catalog_id i then None
         else if app_id u name \<in> managed then None
         else Some (clean_app_name name, version))"

definition parse_unmanaged :: "(string \<Rightarrow> string) \<Rightarrow> string \<Rightarrow> string set \<Rightarrow> (string \<times> string) list" where
  "parse_unmanaged u text managed =
     (let (offs, rows) = winget_table u text in List.map_filter (unmanaged_row u managed offs) rows)"

section \<open>Listings\<close>

definition checked_output :: "string \<Rightarrow> int \<Rightarrow> string \<Rightarrow> string + string" where
  "checked_output action code out =
     (if code = 0 then Inr out
      else (let detail = take_chars 300 (trim out) in
            Inl (if detail = [] then action @ '' failed (exit '' @ show_int code @ '')''
                 else action @ '' failed (exit '' @ show_int code @ ''): '' @ detail)))"

definition parse_update_listing :: "(string \<Rightarrow> string) \<Rightarrow> string \<Rightarrow> string \<Rightarrow> string + app_update list" where
  "parse_update_listing u action out =
     (if contains_str ''---'' out \<and> \<not> header_present out
      then Inl (action @ '' returned a table whose header could not be parsed (possibly localized)'')
      else Inr (parse_upgrades u out))"

definition listed_updates :: "(string \<Rightarrow> string) \<Rightarrow> string \<Rightarrow> int \<times> string \<Rightarrow> string + app_update list" where
  "listed_updates u action r =
     and_then (checked_output action (fst r) (snd r)) (\<lambda>out. parse_update_listing u action out)"

text \<open>Chocolatey: name, current, available and pinned, separated by bars.\<close>

definition choco_line :: "string \<Rightarrow> (string \<times> string \<times> string) option" where
  "choco_line l =
     (let parts = split_on (\<lambda>c. c = CHR ''|'') (trim l) in
      if length parts < 3 \<or> parts ! 0 = [] \<or> parts ! 2 = [] then None
      else if 3 < length parts \<and> eq_ignore_ascii_case (parts ! 3) ''true'' then None
      else Some (parts ! 0, parts ! 1, parts ! 2))"

definition parse_outdated :: "string \<Rightarrow> (string \<times> string \<times> string) list" where
  "parse_outdated text = List.map_filter choco_line (lines text)"

definition outdated_ok :: "int \<Rightarrow> bool" where
  "outdated_ok code = (code = 0 \<or> code = 2)"

text \<open>\<open>None\<close> stands for no Chocolatey on the machine.\<close>

definition choco_list_outdated :: "(int \<times> string) option \<Rightarrow> string + (string \<times> string \<times> string) list" where
  "choco_list_outdated r = (case r of
     None \<Rightarrow> Inl ''Chocolatey is not installed''
   | Some (code, out) \<Rightarrow>
       (case (if outdated_ok code then Inr out else checked_output ''Chocolatey update listing'' code out) of
          Inl e \<Rightarrow> Inl e
        | Inr out \<Rightarrow> Inr (parse_outdated out)))"

section \<open>Reading an installed version back\<close>

text \<open>The versions by app identity, and the identities listed with different versions.\<close>

definition note_version ::
  "(string \<Rightarrow> string) \<Rightarrow> semver \<Rightarrow> string \<times> string \<Rightarrow> (string \<times> string) list \<times> string set
     \<Rightarrow> (string \<times> string) list \<times> string set" where
  "note_version u sem nv st =
     (let (installed, ambiguous) = st; (n, v) = nv; key = app_id u n in
      if n = [] \<or> v = [] \<or> key \<in> ambiguous then st
      else (case map_of installed key of
              None \<Rightarrow> (installed @ [(key, v)], ambiguous)
            | Some old \<Rightarrow>
                if eq_ignore_ascii_case v old \<or> version_cmp sem v old = Some Equal then st
                else (filter (\<lambda>(k, w). k \<noteq> key) installed, insert key ambiguous)))"

definition versions_by_name ::
  "(string \<Rightarrow> string) \<Rightarrow> semver \<Rightarrow> (string \<times> string) list \<Rightarrow> (string \<times> string) list \<times> string set" where
  "versions_by_name u sem rows = fold (note_version u sem) rows ([], {})"

definition installed_version_by_name ::
  "(string \<Rightarrow> string) \<Rightarrow> semver \<Rightarrow> string \<Rightarrow> string \<Rightarrow> string option" where
  "installed_version_by_name u sem text name =
     (let (offs, rows) = winget_table u text;
          named = map (\<lambda>r. (column offs r ''Name'', column offs r ''Version'')) rows
      in map_option snd (match_installed_entry u (fst (versions_by_name u sem named)) name))"

definition winget_installed_version :: "(string \<Rightarrow> string) \<Rightarrow> string \<Rightarrow> string option" where
  "winget_installed_version u text =
     (let (offs, rows) = winget_table u text in
      case rows of
        [] \<Rightarrow> None
      | r # _ \<Rightarrow> (let v = column offs r ''Version'' in if v = [] then None else Some v))"

section \<open>The text winget prints\<close>

definition bar_glyphs :: "string list" where
  "bar_glyphs = [''-'', [CHR 0x5C], ''|'', ''/''] @
     map (\<lambda>n. [CHR 0xE2, CHR 0x96, char_of (n :: nat)])
       [0x91, 0x92, 0x93, 0x88, 0x8F, 0x8E, 0x8D, 0x8C, 0x8B, 0x8A, 0x89, 0xA0, 0xA1, 0xAC] @
     map (\<lambda>n. [CHR 0xC3, char_of (n :: nat)]) [0x94, 0xBB, 0x86, 0xAA, 0xA6, 0xB4]"

definition is_bar_token :: "string \<Rightarrow> bool" where
  "is_bar_token tok = (tok \<noteq> [] \<and> list_all (\<lambda>c. c \<in> set bar_glyphs) (chars tok))"

definition is_byte_count_token :: "string \<Rightarrow> bool" where
  "is_byte_count_token tok =
     (list_ex (eq_ignore_ascii_case tok) [''KB'', ''MB'', ''GB'', ''TB'', ''B'', ''%''] \<or>
      list_all (\<lambda>c. is_ascii_digit c \<or> c = CHR ''.'' \<or> c = CHR '','') tok)"

definition is_progress_noise :: "string \<Rightarrow> bool" where
  "is_progress_noise line =
     (let ts = split_whitespace line in
      ts \<noteq> [] \<and> list_all (\<lambda>t. is_bar_token t \<or> is_byte_count_token t) ts)"

definition is_winget_chatter :: "(string \<Rightarrow> string) \<Rightarrow> string \<Rightarrow> bool" where
  "is_winget_chatter u line =
     (let low = to_lowercase u line in
      starts_with ''Found '' line \<or> starts_with ''downloading '' low \<or>
      starts_with ''starting package install'' low \<or> starts_with ''successfully verified'' low \<or>
      contains_str ''licensed to you by its owner'' low \<or> contains_str ''microsoft is not responsible'' low)"

definition middle_dot :: string where "middle_dot = [CHR '' '', CHR 0xC2, CHR 0xB7, CHR '' '']"

definition shortened :: "string \<Rightarrow> string" where
  "shortened s = (if 300 < char_count s then take_chars 299 s @ ellipsis else s)"

definition add_line :: "(string \<Rightarrow> string) \<Rightarrow> string \<Rightarrow> string list \<Rightarrow> string list" where
  "add_line u raw ls =
     (let seg = trim raw; collapsed = join '' '' (split_whitespace seg) in
      if seg = [] \<or> is_progress_noise seg \<or> is_winget_chatter u seg then ls
      else if ls \<noteq> [] \<and> last ls = collapsed then ls else ls @ [collapsed])"

definition clean_winget_output :: "(string \<Rightarrow> string) \<Rightarrow> string \<Rightarrow> string" where
  "clean_winget_output u raw =
     shortened (join middle_dot (fold (add_line u) (split_on (\<lambda>c. c = CHR 0x0D \<or> c = newline) raw) []))"

definition clean_choco_output :: "string \<Rightarrow> string" where
  "clean_choco_output raw =
     (let ls = filter (\<lambda>l. l \<noteq> [] \<and> \<not> starts_with ''Chocolatey v'' l \<and> \<not> contains_str ''validations performed'' l)
                 (map trim (lines raw))
      in shortened (join middle_dot (rev (take 4 (rev ls)))))"

section \<open>The commands of one winget update\<close>

definition upgrade_args :: "string \<Rightarrow> bool \<Rightarrow> bool \<Rightarrow> bool \<Rightarrow> string list" where
  "upgrade_args i force exact machine =
     [''upgrade'', ''--id'', i] @ (if exact then [''--exact''] else []) @
     (if machine then [''--scope'', ''machine''] else []) @
     [''--silent'', ''--accept-package-agreements'', ''--accept-source-agreements'', ''--disable-interactivity''] @
     (if force then [''--force''] else [])"

definition listed_machine_wide :: "(string \<Rightarrow> string) \<Rightarrow> string \<Rightarrow> string \<Rightarrow> bool" where
  "listed_machine_wide u out i =
     (let (offs, rows) = winget_table u out in list_ex (\<lambda>r. eq_ignore_ascii_case (column offs r ''Id'') i) rows)"

definition no_package_found :: "(string \<Rightarrow> string) \<Rightarrow> string \<Rightarrow> bool" where
  "no_package_found u out =
     (let l = to_lowercase u out in contains_str ''no package found'' l \<or> contains_str ''no installed package'' l)"

definition portable_modified :: "(string \<Rightarrow> string) \<Rightarrow> string \<Rightarrow> bool" where
  "portable_modified u out =
     (let l = to_lowercase u out in contains_str ''has been modified'' l \<and> contains_str ''--force'' l)"

text \<open>
  The machine as one attempt sees it: whether the service runs as LocalSystem, whether winget
  was found for it, what the machine-wide listing prints, what the n-th upgrade command gives
  in the service's or the user's context, and the version read back after it.
\<close>

record winget_env =
  wi_low :: "string \<Rightarrow> string"
  wi_sem :: semver
  wi_system :: bool
  wi_found :: bool
  wi_probe :: "int \<times> string"
  wi_run :: "nat \<Rightarrow> bool \<Rightarrow> string list \<Rightarrow> int \<times> string"
  wi_installed :: "nat \<Rightarrow> string option"

definition installed_machine_wide :: "winget_env \<Rightarrow> string \<Rightarrow> bool" where
  "installed_machine_wide E i = (fst (wi_probe E) = 0 \<and> listed_machine_wide (wi_low E) (snd (wi_probe E)) i)"

text \<open>An upgrade command: whether it runs in the service's context, and its arguments.\<close>

type_synonym command = "bool \<times> string list"

definition run_upgrade :: "winget_env \<Rightarrow> nat \<Rightarrow> command \<Rightarrow> int \<times> string" where
  "run_upgrade E n cmd =
     (if fst cmd \<and> \<not> wi_found E then (-1, ''could not find winget for a machine-wide upgrade'')
      else wi_run E n (fst cmd) (snd cmd))"

text \<open>One more command after the ones run so far, each with its exit code and output.\<close>

type_synonym run_log = "(command \<times> int \<times> string) list"

definition also_run :: "winget_env \<Rightarrow> command \<Rightarrow> run_log \<Rightarrow> run_log" where
  "also_run E cmd runs = runs @ [(cmd, run_upgrade E (length runs) cmd)]"

definition last_code :: "run_log \<Rightarrow> int" where "last_code runs = fst (snd (last runs))"
definition last_output :: "run_log \<Rightarrow> string" where "last_output runs = snd (snd (last runs))"

text \<open>The service's winget could not start, or could not see the package.\<close>

definition falls_back :: "winget_env \<Rightarrow> run_log \<Rightarrow> bool" where
  "falls_back E runs =
     (last_code runs \<noteq> 0 \<and> (last_code runs = -1 \<or> no_package_found (wi_low E) (last_output runs)))"

definition winget_runs :: "winget_env \<Rightarrow> string \<Rightarrow> bool \<Rightarrow> run_log" where
  "winget_runs E i force =
     (let machine = wi_system E \<and> installed_machine_wide E i;
          r1 = also_run E (machine, upgrade_args i force True machine) [];
          back = machine \<and> falls_back E r1;
          service = machine \<and> \<not> back;
          r2 = (if back then also_run E (False, upgrade_args i force True False) r1 else r1);
          r3 = (if \<not> force \<and> last_code r2 \<noteq> 0 \<and> portable_modified (wi_low E) (last_output r2)
                then also_run E (service, upgrade_args i True True service) r2 else r2);
          r4 = (if last_code r3 \<noteq> 0 \<and> no_package_found (wi_low E) (last_output r3)
                then also_run E (service, upgrade_args i force False service) r3 else r3)
      in r4)"

section \<open>One attempt per manager\<close>

text \<open>What a verdict makes of an attempt whose command succeeded.\<close>

definition verified_outcome ::
  "semver \<Rightarrow> (nat \<Rightarrow> string option) \<Rightarrow> string \<Rightarrow> attempt_outcome \<Rightarrow> attempt_outcome" where
  "verified_outcome sem reads available x =
     (let (v, found) = verify_app sem reads available; ok = (v \<noteq> Mismatch) in
      x\<lparr>ao_verification := v, ao_installed := (if found = [] then None else Some found), ao_success := ok,
        ao_category := (if ok then None else Some VerifyFailed)\<rparr>)"

definition package_of :: "update_candidate \<Rightarrow> string option" where
  "package_of cand = (case uc_package cand of
     None \<Rightarrow> None
   | Some i \<Rightarrow> if trim i = [] then None else Some (trim i))"

definition attempt_winget :: "winget_env \<Rightarrow> update_candidate \<Rightarrow> bool \<Rightarrow> attempt_outcome \<times> run_log" where
  "attempt_winget E cand force = (case package_of cand of
     None \<Rightarrow> (failed_outcome Winget NotFound ''no winget package id for this app'', [])
   | Some i \<Rightarrow>
       (let runs = winget_runs E i force; code = last_code runs; out = last_output runs;
            clean = clean_winget_output (wi_low E) out;
            x = (failed_outcome Winget Unknown [])\<lparr>ao_exit_code := Some code\<rparr>
        in (if code = 0 then
              (let x = verified_outcome (wi_sem E) (wi_installed E) (uc_available cand) x in
               x\<lparr>ao_detail := (if clean \<noteq> [] then clean else if ao_success x then ''updated''
                               else ''winget reported success but the version did not move'')\<rparr>)
            else x\<lparr>ao_category := Some (classify_error Winget (Some code) out),
                   ao_detail := (if clean = [] then ''winget exited with code '' @ show_int code else clean)\<rparr>, runs)))"

definition attempt_msstore :: "winget_env \<Rightarrow> update_candidate \<Rightarrow> attempt_outcome \<times> run_log" where
  "attempt_msstore E cand = (case package_of cand of
     None \<Rightarrow> (failed_outcome MsStore NotFound ''no Store product id for this app'', [])
   | Some i \<Rightarrow>
       (let cmd = (False, [''upgrade'', ''--id'', i, ''--exact'', ''--source'', ''msstore'', ''--silent'',
                           ''--accept-package-agreements'', ''--accept-source-agreements'', ''--disable-interactivity'']);
            (code, out) = wi_run E 0 False (snd cmd);
            clean = clean_winget_output (wi_low E) out;
            x = (failed_outcome MsStore Unknown [])\<lparr>ao_exit_code := Some code\<rparr>
        in (if code = 0 then
              (verified_outcome (wi_sem E) (wi_installed E) (uc_available cand) x)
                \<lparr>ao_detail := (if clean = [] then ''updated via Microsoft Store'' else clean)\<rparr>
            else x\<lparr>ao_category := Some (classify_error MsStore (Some code) out),
                   ao_detail := (if clean = [] then ''Store update exited with code '' @ show_int code else clean)\<rparr>,
            [(cmd, code, out)])))"

definition choco_ok :: "int \<Rightarrow> bool" where
  "choco_ok code = (code = 0 \<or> code = 3010 \<or> code = 1641)"

definition choco_args :: "string \<Rightarrow> bool \<Rightarrow> string list" where
  "choco_args pkg force =
     [''upgrade'', pkg, ''-y'', ''--no-progress'', ''--no-color''] @ (if force then [''--force''] else [])"

definition attempt_choco ::
  "(string list \<Rightarrow> int \<times> string) option \<Rightarrow> semver \<Rightarrow> (nat \<Rightarrow> string option) \<Rightarrow> update_candidate \<Rightarrow> bool
     \<Rightarrow> attempt_outcome" where
  "attempt_choco choco sem reads cand force = (case choco of
     None \<Rightarrow> failed_outcome Choco NotFound ''Chocolatey is not installed''
   | Some run \<Rightarrow>
       (let pkg = (case uc_package cand of Some s \<Rightarrow> if trim s = [] then uc_name cand else s | None \<Rightarrow> uc_name cand);
            (code, out) = run (choco_args pkg force);
            x = (failed_outcome Choco Unknown [])\<lparr>ao_exit_code := Some code\<rparr>
        in if choco_ok code then
             (verified_outcome sem reads (uc_available cand) x)
               \<lparr>ao_detail := ''choco upgraded '' @ pkg @
                  (if code = 3010 \<or> code = 1641 then '' (reboot required)'' else [])\<rparr>
           else x\<lparr>ao_category := Some (classify_error Choco (Some code) out), ao_detail := clean_choco_output out\<rparr>))"

definition DISABLED_REASON :: string where
  "DISABLED_REASON =
     ''Scoop is disabled in the SYSTEM service because its user-owned shim cannot be run safely''"

definition scoop_list_outdated :: "string + (string \<times> string \<times> string) list" where
  "scoop_list_outdated = Inl DISABLED_REASON"

definition attempt_scoop :: "update_candidate \<Rightarrow> attempt_outcome" where
  "attempt_scoop cand = failed_outcome Scoop Blocked DISABLED_REASON"

section \<open>What the managers' attempts promise\<close>

lemma also_run_ends [simp]: "last_code (also_run E cmd runs) = fst (run_upgrade E (length runs) cmd)"
    "last_output (also_run E cmd runs) = snd (run_upgrade E (length runs) cmd)" "also_run E cmd runs \<noteq> []"
    "length (also_run E cmd runs) = Suc (length runs)"
  by (simp_all add: also_run_def last_code_def last_output_def)

lemma set_also_run: "r \<in> set (also_run E cmd runs) \<longleftrightarrow> r \<in> set runs \<or> r = (cmd, run_upgrade E (length runs) cmd)"
  by (auto simp: also_run_def)

text \<open>A failed run whose output has a property, and the runs such a command may follow.\<close>

definition some_failed :: "(string \<Rightarrow> bool) \<Rightarrow> run_log \<Rightarrow> bool" where
  "some_failed P runs = (\<exists>r \<in> set runs. fst (snd r) \<noteq> 0 \<and> P (snd (snd r)))"

definition justified_command :: "winget_env \<Rightarrow> string \<Rightarrow> bool \<Rightarrow> run_log \<Rightarrow> command \<Rightarrow> bool" where
  "justified_command E i force before cmd =
     (\<exists>f exact. snd cmd = upgrade_args i f exact (fst cmd) \<and>
        (fst cmd \<longrightarrow> wi_system E \<and> installed_machine_wide E i) \<and>
        (f \<longrightarrow> force \<or> some_failed (portable_modified (wi_low E)) before) \<and>
        (\<not> exact \<longrightarrow> some_failed (no_package_found (wi_low E)) before))"

text \<open>Every command of a log is justified by the ones run before it.\<close>

definition log_ok :: "winget_env \<Rightarrow> string \<Rightarrow> bool \<Rightarrow> run_log \<Rightarrow> bool" where
  "log_ok E i force runs = (\<forall>k < length runs. justified_command E i force (take k runs) (fst (runs ! k)))"

lemma log_ok_Nil [simp]: "log_ok E i force []"
  by (simp add: log_ok_def)

lemma log_ok_also:
  assumes "log_ok E i force runs" and "justified_command E i force runs cmd"
  shows "log_ok E i force (also_run E cmd runs)"
  using assms by (auto simp: log_ok_def also_run_def nth_append less_Suc_eq)

lemma last_failed:
  assumes "runs \<noteq> []" and "last_code runs \<noteq> 0" and "P (last_output runs)"
  shows "some_failed P runs"
  using assms by (auto simp: some_failed_def last_code_def last_output_def intro!: bexI [of _ "last runs"])

lemma plain_justified:
  assumes "m \<longrightarrow> wi_system E \<and> installed_machine_wide E i"
  shows "justified_command E i force before (m, upgrade_args i force True m)"
  unfolding justified_command_def by (rule exI [of _ force], rule exI [of _ True]) (use assms in simp)

lemma forced_justified:
  assumes "m \<longrightarrow> wi_system E \<and> installed_machine_wide E i"
    and "some_failed (portable_modified (wi_low E)) before"
  shows "justified_command E i force before (m, upgrade_args i True True m)"
  unfolding justified_command_def by (rule exI [of _ True], rule exI [of _ True]) (use assms in simp)

lemma loose_justified:
  assumes "m \<longrightarrow> wi_system E \<and> installed_machine_wide E i"
    and "some_failed (no_package_found (wi_low E)) before"
  shows "justified_command E i force before (m, upgrade_args i force False m)"
  unfolding justified_command_def by (rule exI [of _ force], rule exI [of _ False]) (use assms in simp)

lemma log_ok_runs:
  "log_ok E i force (winget_runs E i force) \<and> 1 \<le> length (winget_runs E i force) \<and> length (winget_runs E i force) \<le> 4"
proof -
  define machine where "machine = (wi_system E \<and> installed_machine_wide E i)"
  define r1 where "r1 = also_run E (machine, upgrade_args i force True machine) []"
  define retried where "retried = (machine \<and> falls_back E r1)"
  define service where "service = (machine \<and> \<not> retried)"
  define r2 where "r2 = (if retried then also_run E (False, upgrade_args i force True False) r1 else r1)"
  define r3 where "r3 = (if \<not> force \<and> last_code r2 \<noteq> 0 \<and> portable_modified (wi_low E) (last_output r2)
    then also_run E (service, upgrade_args i True True service) r2 else r2)"
  define r4 where "r4 = (if last_code r3 \<noteq> 0 \<and> no_package_found (wi_low E) (last_output r3)
    then also_run E (service, upgrade_args i force False service) r3 else r3)"
  note parts = machine_def r1_def retried_def service_def r2_def r3_def r4_def
  have runs: "winget_runs E i force = r4" unfolding winget_runs_def Let_def parts by (rule refl)
  have m: "machine \<longrightarrow> wi_system E \<and> installed_machine_wide E i"
    "service \<longrightarrow> wi_system E \<and> installed_machine_wide E i" by (simp_all add: machine_def service_def)
  have 1: "log_ok E i force r1 \<and> length r1 = 1"
    unfolding r1_def by (simp add: log_ok_also plain_justified m)
  then have 2: "log_ok E i force r2 \<and> 1 \<le> length r2 \<and> length r2 \<le> 2 \<and> r2 \<noteq> []"
    unfolding r2_def by (auto simp: log_ok_also plain_justified)
  then have 3: "log_ok E i force r3 \<and> 1 \<le> length r3 \<and> length r3 \<le> 3 \<and> r3 \<noteq> []"
    unfolding r3_def by (auto simp: log_ok_also forced_justified m last_failed)
  then show ?thesis
    unfolding runs r4_def by (auto simp: log_ok_also loose_justified m last_failed)
qed

text \<open>
  An update through winget runs one to four commands, each justified by the machine and by the
  commands before it: a command runs in the service's own context only as LocalSystem, only for
  a package winget lists as machine-wide, and only with the machine scope; the force flag is
  given only when the diagnostician asked for it or an earlier run failed at the portable guard;
  and the id is matched loosely only after a run that found no package.
\<close>

theorem winget_commands_justified:
  "log_ok E i force (winget_runs E i force) \<and>
   (\<forall>x runs cand. (x, runs) = attempt_winget E cand force \<longrightarrow> length runs \<le> 4 \<and>
      (\<forall>i. package_of cand = Some i \<longrightarrow> log_ok E i force runs) \<and>
      (\<forall>cmd code out. (cmd, code, out) \<in> set runs \<longrightarrow> fst cmd \<longrightarrow>
         wi_system E \<and> (\<exists>a b. snd cmd = a @ [''--scope'', ''machine''] @ b)))"
proof -
  have scope: "wi_system E \<and> (\<exists>a b. snd cmd = a @ [''--scope'', ''machine''] @ b)"
    if "(cmd, code, out) \<in> set (winget_runs E j force)" "fst cmd" for cmd code out j
  proof -
    obtain k where k: "k < length (winget_runs E j force)" "winget_runs E j force ! k = (cmd, code, out)"
      using \<open>(cmd, code, out) \<in> set (winget_runs E j force)\<close> by (auto simp: in_set_conv_nth)
    then have "justified_command E j force (take k (winget_runs E j force)) cmd"
      using log_ok_runs [of E j force] by (fastforce simp: log_ok_def)
    then obtain f exact where args: "snd cmd = upgrade_args j f exact True" "wi_system E"
      using \<open>fst cmd\<close> by (auto simp: justified_command_def)
    then have "snd cmd = ([''upgrade'', ''--id'', j] @ (if exact then [''--exact''] else [])) @ [''--scope'', ''machine''] @
        ([''--silent'', ''--accept-package-agreements'', ''--accept-source-agreements'', ''--disable-interactivity''] @
         (if f then [''--force''] else []))"
      by (simp add: upgrade_args_def)
    then show ?thesis using args(2) by blast
  qed
  show ?thesis
    using log_ok_runs [of E] scope by (auto simp: attempt_winget_def Let_def split: option.splits)
qed

text \<open>
  A package manager's attempt counts as a success only when its command ended well and the
  version read back is not below the offered one; then no failure is recorded, and otherwise
  one always is. Scoop never runs at all.
\<close>

theorem manager_success_verified:
  assumes "x = fst (attempt_winget E cand force) \<and> m = Winget \<or> x = fst (attempt_msstore E cand) \<and> m = MsStore \<or>
    x = attempt_choco choco (wi_sem E) (wi_installed E) cand force \<and> m = Choco \<or> x = attempt_scoop cand \<and> m = Scoop"
  shows "ao_method x = m \<and> (ao_success x \<longleftrightarrow> ao_category x = None) \<and>
    (ao_success x \<longrightarrow> (\<exists>c. ao_exit_code x = Some c \<and> (c = 0 \<or> m = Choco \<and> choco_ok c)) \<and>
       ao_verification x = fst (verify_app (wi_sem E) (wi_installed E) (uc_available cand)) \<and>
       ao_verification x \<noteq> Mismatch) \<and>
    (m = Scoop \<longrightarrow> ao_category x = Some Blocked \<and> ao_exit_code x = None)"
proof -
  obtain v found where v: "verify_app (wi_sem E) (wi_installed E) (uc_available cand) = (v, found)" by fastforce
  show ?thesis
    using assms
    by (elim disjE conjE)
      (auto simp: attempt_winget_def attempt_msstore_def attempt_choco_def attempt_scoop_def failed_outcome_def
        verified_outcome_def v choco_ok_def Let_def split: option.splits prod.splits if_splits)
qed

section \<open>The managers at concrete inputs\<close>

definition lost_env :: winget_env where
  "lost_env = \<lparr>wi_low = (\<lambda>s. s), wi_sem = (\<lambda>a b. None), wi_system = False, wi_found = True, wi_probe = (1, []),
     wi_run = (\<lambda>n service args. if n = 0 then (1, ''No package found matching input criteria.'') else (0, ''ok'')),
     wi_installed = (\<lambda>n. None)\<rparr>"

definition lost_cand :: update_candidate where
  "lost_cand = \<lparr>uc_id = ''x'', uc_name = ''x'', uc_current = ''1'', uc_available = ''2'', uc_package = Some ''A.B'',
     uc_guidance = None, uc_methods = [Winget]\<rparr>"

lemma lost_runs:
  "map (snd \<circ> fst) (snd (attempt_winget lost_env lost_cand False)) =
     [upgrade_args ''A.B'' False True False, upgrade_args ''A.B'' False False False]"
  "ao_success (fst (attempt_winget lost_env lost_cand False))"
  by code_simp+

theorem winget_commands_justified_witness:
  "length (snd (attempt_winget lost_env lost_cand False)) \<le> 4 \<and>
   log_ok lost_env ''A.B'' False (snd (attempt_winget lost_env lost_cand False)) \<and>
   map (snd \<circ> fst) (snd (attempt_winget lost_env lost_cand False)) =
     [upgrade_args ''A.B'' False True False, upgrade_args ''A.B'' False False False]"
proof -
  have "package_of lost_cand = Some ''A.B''" by code_simp
  moreover have "(fst (attempt_winget lost_env lost_cand False), snd (attempt_winget lost_env lost_cand False)) =
      attempt_winget lost_env lost_cand False" by simp
  ultimately show ?thesis using winget_commands_justified [of lost_env "''A.B''" False] lost_runs(1) by blast
qed

theorem manager_success_verified_witness:
  "ao_verification (fst (attempt_winget lost_env lost_cand False)) \<noteq> Mismatch \<and>
   ao_category (fst (attempt_winget lost_env lost_cand False)) = None"
  using manager_success_verified [of "fst (attempt_winget lost_env lost_cand False)" lost_env lost_cand False Winget None]
    lost_runs(2) by blast

section \<open>Reading the table\<close>

text \<open>
  Cutting a column out of a row never goes out of range, whatever winget printed: with the
  offsets of any header the range lies within the row and is not reversed, although labels may
  be missing, repeated inside other words or out of order.
\<close>

theorem winget_columns_in_range:
  "case column_range (header_offsets text) len label of
     None \<Rightarrow> label \<notin> fst ` set (header_offsets text) \<or>
       (\<exists>start. (label, start) \<in> set (header_offsets text) \<and> len \<le> start)
   | Some (a, b) \<Rightarrow> (label, a) \<in> set (header_offsets text) \<and> a < len \<and> a \<le> b \<and> b \<le> len"
proof -
  have sorted: "sorted (map snd (header_offsets text))"
    by (simp add: header_offsets_def split: option.split)
  show ?thesis
  proof (cases "find_index (\<lambda>(l, n). l = label) (header_offsets text)")
    case None
    then have "label \<notin> fst ` set (header_offsets text)" by (auto simp: find_index_None)
    then show ?thesis by (simp add: column_range_def None)
  next
    case (Some i)
    then have i: "i < length (header_offsets text)" "fst (header_offsets text ! i) = label"
      using find_index_Some [OF Some] by (auto simp: case_prod_beta)
    then have mem: "(label, snd (header_offsets text ! i)) \<in> set (header_offsets text)"
      by (metis nth_mem prod.collapse)
    have "snd (header_offsets text ! i) \<le> snd (header_offsets text ! Suc i)" if "Suc i < length (header_offsets text)"
      using sorted_nth_mono [OF sorted, of i "Suc i"] that by simp
    then show ?thesis using mem by (auto simp: column_range_def Some Let_def)
  qed
qed

text \<open>An identity listed with two different versions gives no version.\<close>

lemma versions_disjoint:
  "k \<in> snd (versions_by_name u sem rows) \<Longrightarrow> map_of (fst (versions_by_name u sem rows)) k = None"
proof -
  define ok where "ok st = (\<forall>k \<in> snd st. map_of (fst st) k = None)" for st :: "(string \<times> string) list \<times> string set"
  have "ok (note_version u sem nv st)" if "ok st" for nv st
    using that
    by (cases st; cases nv)
      (auto simp: ok_def note_version_def Let_def map_of_eq_None_iff image_iff split: option.splits)
  then have "ok (fold (note_version u sem) rows st)" if "ok st" for st
    using that by (induction rows arbitrary: st) auto
  moreover have "ok ([], {})" by (simp add: ok_def)
  ultimately show "k \<in> snd (versions_by_name u sem rows) \<Longrightarrow> map_of (fst (versions_by_name u sem rows)) k = None"
    unfolding versions_by_name_def ok_def by blast
qed

end
