(* ===== verification/Updater_Heal.thy ===== *)
theory Updater_Heal
  imports Updater_Domain Learn_Apply "HOL-Library.Multiset"
begin

text \<open>
  The self-healing loop of one app (\<open>updater/orchestrator.rs\<close>): try a method, let the
  diagnostician choose the next step after a failure, until one succeeds, the failure ends the
  ladder or the attempts are used up.
\<close>

section \<open>The loop's surroundings\<close>

text \<open>
  What happens outside: whether a model is configured, the result of the n-th run of a method
  (with or without its force flag), of killing a process before it, and of the diagnostician's
  call after it.
\<close>

record heal_env =
  he_ai :: bool
  he_windows :: bool
  he_low :: "string \<Rightarrow> string"
  he_run :: "nat \<Rightarrow> upd_method \<Rightarrow> bool \<Rightarrow> attempt_outcome"
  he_kill :: "nat \<Rightarrow> string \<Rightarrow> string + string"
  he_read :: "string \<Rightarrow> raw_step option"
  he_reply :: "nat \<Rightarrow> (string \<times> fnum option) option"

text \<open>An adapter reports on the method it was called for.\<close>

definition adapters_ok :: "heal_env \<Rightarrow> bool" where
  "adapters_ok E = (\<forall>n m f. ao_method (he_run E n m f) = m)"

section \<open>One attempt\<close>

definition forces :: "upd_method \<Rightarrow> remedy option \<Rightarrow> bool" where
  "forces m r = (r = Some Force \<or> r = Some ClearManagerLock \<and> supports_force m)"

definition dispatch :: "heal_env \<Rightarrow> nat \<Rightarrow> upd_method \<Rightarrow> remedy option \<Rightarrow> attempt_outcome" where
  "dispatch E n m r =
     (let run = (if m = Native \<and> \<not> he_ai E
                 then failed_outcome Native NotFound ''no AI provider configured for native installs''
                 else he_run E n m (forces m r))
      in case r of
           Some (KillProcess name) \<Rightarrow>
             (case he_kill E n name of
                Inl e \<Rightarrow> failed_outcome m LockHeld (''Lock-holder remedy was refused or failed: '' @ e)
              | Inr _ \<Rightarrow> run)
         | _ \<Rightarrow> run)"

definition stops_healing :: "error_category option \<Rightarrow> bool" where
  "stops_healing c = (case c of None \<Rightarrow> False
     | Some c \<Rightarrow> is_terminal c \<or> c \<in> {AlreadyCurrent, NeedsReboot})"

definition next_method :: "upd_method list \<Rightarrow> upd_method list \<Rightarrow> attempt_outcome \<Rightarrow> upd_method option" where
  "next_method order tried o1 =
     (if ao_success o1 then None else if stops_healing (ao_category o1) then None
      else find (\<lambda>m. m \<notin> set tried) order)"

definition decide_next ::
  "heal_env \<Rightarrow> nat \<Rightarrow> attempt_outcome \<Rightarrow> upd_method list \<Rightarrow> upd_method list \<Rightarrow> next_step \<times> fnum" where
  "decide_next E n o1 tried order =
     (if he_ai E then diagnose (he_windows E) (he_low E) (he_read E) (he_reply E n) o1 tried order
      else (case next_method order tried o1 of
              Some m \<Rightarrow> (SwitchTo m, Fin 0)
            | None \<Rightarrow> (GiveUp ''all available methods tried'', Fin 0)))"

section \<open>The loop\<close>

fun resume :: "next_step \<Rightarrow> (upd_method \<times> remedy option) option" where
  "resume (SwitchTo m) = Some (m, None)"
| "resume (RetryWith _ RetryAfterReboot) = None"
| "resume (RetryWith m r) = Some (m, Some r)"
| "resume (GiveUp _) = None"

function heal_loop ::
  "heal_env \<Rightarrow> nat \<Rightarrow> upd_method list \<Rightarrow> attempt_outcome list \<Rightarrow> upd_method list
     \<Rightarrow> (upd_method \<times> remedy option) option \<Rightarrow> attempt_outcome list" where
  "heal_loop E mx order attempts tried current = (case current of
     None \<Rightarrow> attempts
   | Some (m, r) \<Rightarrow>
       if mx \<le> length attempts then attempts
       else
         (let outcome = dispatch E (length attempts) m r;
              tried = tried @ [m]
          in if ao_success outcome \<or> stops_healing (ao_category outcome) \<or> mx \<le> length attempts + 1
             then attempts @ [outcome]
             else (let (next, dcost) = decide_next E (length attempts) outcome tried order
                   in heal_loop E mx order
                        (attempts @ [outcome\<lparr>ao_cost := f_add f64 (ao_cost outcome) dcost\<rparr>]) tried (resume next))))"
  by pat_completeness auto
termination
  by (relation "measure (\<lambda>(E, mx, order, attempts, tried, current). mx - length attempts)") auto

declare heal_loop.simps [simp del]

text \<open>The order to try: the candidate's methods that are usable, those known to fail last.\<close>

definition heal_order :: "update_candidate \<Rightarrow> upd_method list \<Rightarrow> learned_facts \<Rightarrow> upd_method list" where
  "heal_order cand available lf =
     (let base = base_id (uc_id cand) in
      sort_key (\<lambda>m. is_method_deprioritised lf base (as_str m))
        (filter (\<lambda>m. m \<in> set available) (uc_methods cand)))"

definition heal ::
  "heal_env \<Rightarrow> nat \<Rightarrow> update_candidate \<Rightarrow> upd_method list \<Rightarrow> learned_facts \<Rightarrow> attempt_outcome list" where
  "heal E max_attempts cand available lf =
     (let order = heal_order cand available lf
      in heal_loop E (max max_attempts 1) order [] []
           (case order of [] \<Rightarrow> None | m # _ \<Rightarrow> Some (m, None)))"

section \<open>What a run of the loop looks like\<close>

text \<open>
  A reference description of the loop's result: each attempt is a dispatch, only the last may
  end the ladder, and every later attempt was allowed by the one before it.
\<close>

definition ends :: "attempt_outcome \<Rightarrow> bool" where
  "ends x = (ao_success x \<or> stops_healing (ao_category x))"

definition allowed_after :: "upd_method list \<Rightarrow> attempt_outcome list \<Rightarrow> attempt_outcome \<Rightarrow> bool" where
  "allowed_after order before x =
     (ao_method x \<in> set order \<and>
      (before = [] \<or>
       \<not> ends (last before) \<and>
       (ao_method x \<notin> ao_method ` set before \<or>
        ao_category (last before) = Some NeedsForce \<and> supports_force (ao_method x) \<or>
        ao_category (last before) = Some LockHeld)))"

inductive ladder :: "upd_method list \<Rightarrow> attempt_outcome list \<Rightarrow> bool" for order where
  none: "ladder order []"
| attempt: "ladder order xs \<Longrightarrow> allowed_after order xs x \<Longrightarrow> ladder order (xs @ [x])"

inductive_cases ladder_snocE: "ladder order (xs @ [x])"
inductive_simps ladder_nil [simp]: "ladder order []"

lemma ladder_snoc [simp]: "ladder order (xs @ [x]) \<longleftrightarrow> ladder order xs \<and> allowed_after order xs x"
  by (auto elim: ladder_snocE intro: ladder.attempt)

lemma ladder_append: "ladder order (xs @ ys) \<Longrightarrow> ladder order xs"
  by (induction ys rule: rev_induct) (simp_all flip: append_assoc)

lemma ladder_nth:
  assumes "ladder order xs" and "i < length xs"
  shows "allowed_after order (take i xs) (xs ! i)"
proof -
  have "xs = (take i xs @ [xs ! i]) @ drop (Suc i) xs" using id_take_nth_drop [OF assms(2)] by simp
  then have "ladder order (take i xs @ [xs ! i])" using ladder_append assms(1) by metis
  then show ?thesis by simp
qed

section \<open>The loop makes a ladder\<close>

lemma dispatch_method: "adapters_ok E \<Longrightarrow> ao_method (dispatch E n m r) = m"
  by (auto simp: dispatch_def Let_def adapters_ok_def failed_outcome_def split: option.split remedy.split sum.split)

lemma decided:
  assumes "decide_next E n x tried order = (next, c)" and "resume next = Some (m, r)" and "\<not> ends x"
  shows "m \<in> set order \<and> (m \<notin> set tried \<or> ao_category x = Some NeedsForce \<and> supports_force m \<or>
           ao_category x = Some LockHeld)"
proof (cases "he_ai E")
  case False
  then show ?thesis
    using assms find_untried [of tried order m]
    by (auto simp: decide_next_def next_method_def split: option.splits if_splits)
next
  case True
  define ctx where "ctx = \<lparr>sc_failed = (case ao_category x of Some c \<Rightarrow> c | None \<Rightarrow> Unknown),
      sc_tried = tried, sc_available = order, sc_error = ao_detail x\<rparr>"
  have sel [simp]: "sc_available ctx = order" "sc_tried ctx = tried" by (simp_all add: ctx_def)
  have cause: "ao_category x = Some k" if "sc_failed ctx = k" "k \<noteq> Unknown" for k
    using that by (auto simp: ctx_def split: option.splits)
  from True assms(1) consider "next = deterministic_next ctx"
    | p where "next = validate_next_step (he_windows E) (he_low E) p ctx"
    by (auto simp: decide_next_def diagnose_def Let_def ctx_def split: option.splits)
  then show ?thesis
  proof cases
    case 1
    show ?thesis
    proof (cases "next")
      case (SwitchTo m')
      have "m' = m" using assms(2) by (simp add: SwitchTo)
      moreover have "deterministic_next ctx = SwitchTo m'" using 1 SwitchTo by simp
      ultimately show ?thesis using deterministic_switch [of ctx m'] by simp
    next
      case (RetryWith m' r')
      with 1 show ?thesis by (metis deterministic_no_retry)
    next
      case (GiveUp g)
      with assms(2) show ?thesis by simp
    qed
  next
    case (2 p)
    show ?thesis
    proof (cases "next")
      case (SwitchTo m')
      have "m' = m" using assms(2) by (simp add: SwitchTo)
      moreover have "validate_next_step (he_windows E) (he_low E) p ctx = SwitchTo m'" using 2 SwitchTo by simp
      ultimately show ?thesis using validate_switch [of "he_windows E" "he_low E" p ctx m'] by simp
    next
      case (RetryWith m' r')
      have "validate_next_step (he_windows E) (he_low E) p ctx = RetryWith m' r'" using 2 RetryWith by simp
      then have "m' \<in> set order" "remedy_ok (he_windows E) (he_low E) r' m' ctx"
        using validate_retry [of "he_windows E" "he_low E" p ctx m' r'] by simp_all
      moreover have "m = m'" "r' \<noteq> RetryAfterReboot" using assms(2) RetryWith by (cases r'; simp)+
      ultimately show ?thesis using cause by (cases r') (auto simp: supports_force_def)
    next
      case (GiveUp g)
      with assms(2) show ?thesis by simp
    qed
  qed
qed

text \<open>What the loop keeps: the attempts so far are a ladder and the next one may follow.\<close>

definition loop_ok :: "upd_method list \<Rightarrow> attempt_outcome list \<Rightarrow> (upd_method \<times> remedy option) option \<Rightarrow> bool" where
  "loop_ok order attempts current =
     (ladder order attempts \<and>
      (case current of None \<Rightarrow> True
       | Some (m, r) \<Rightarrow> \<forall>x. ao_method x = m \<longrightarrow> allowed_after order attempts x))"

lemma allowed_cost [simp]: "allowed_after order before (x\<lparr>ao_cost := c\<rparr>) = allowed_after order before x"
  by (simp add: allowed_after_def)

lemma loop_ok_next:
  assumes "loop_ok order attempts (Some (m, r))" and "ao_method x = m" and "\<not> ends x"
    and "decide_next E n x (map ao_method attempts @ [m]) order = (next, c)"
  shows "loop_ok order (attempts @ [x\<lparr>ao_cost := k\<rparr>]) (resume next)"
proof (cases "resume next")
  case None
  then show ?thesis using assms(1,2) by (simp add: loop_ok_def)
next
  case (Some mr)
  obtain m' r' where mr: "mr = (m', r')" by fastforce
  show ?thesis
    using assms(1-3) decided [OF assms(4) Some [unfolded mr] assms(3)] Some mr
    by (auto simp: loop_ok_def allowed_after_def ends_def)
qed

lemma heal_loop_ladder:
  assumes "adapters_ok E" and "loop_ok order attempts current"
  shows "ladder order (heal_loop E mx order attempts (map ao_method attempts) current)"
  using assms(2)
proof (induction "mx - length attempts" arbitrary: attempts current rule: less_induct)
  case less
  show ?case
  proof (cases current)
    case None
    then show ?thesis using less.prems by (simp add: heal_loop.simps loop_ok_def)
  next
    case (Some mr)
    obtain m r where mr: "current = Some (m, r)" using Some by (cases mr) simp
    define x where "x = dispatch E (length attempts) m r"
    have m: "ao_method x = m" using dispatch_method assms(1) by (simp add: x_def)
    obtain next_s c where d: "decide_next E (length attempts) x (map ao_method attempts @ [m]) order = (next_s, c)"
      by fastforce
    let ?y = "x\<lparr>ao_cost := f_add f64 (ao_cost x) c\<rparr>"
    have ok: "ladder order attempts" "allowed_after order attempts x"
      using less.prems m by (simp_all add: mr loop_ok_def)
    consider "mx \<le> length attempts" | "length attempts < mx" "ends x \<or> mx \<le> length attempts + 1"
      | "length attempts + 1 < mx" "\<not> ends x" by linarith
    then show ?thesis
    proof cases
      case 1
      then show ?thesis using ok by (simp add: heal_loop.simps mr)
    next
      case 2
      then have "heal_loop E mx order attempts (map ao_method attempts) current = attempts @ [x]"
        by (auto simp: heal_loop.simps [of _ _ _ attempts] mr Let_def ends_def simp flip: x_def)
      then show ?thesis using ok by simp
    next
      case 3
      then have "heal_loop E mx order attempts (map ao_method attempts) current =
          heal_loop E mx order (attempts @ [?y]) (map ao_method (attempts @ [?y])) (resume next_s)"
        using d m by (simp add: heal_loop.simps [of _ _ _ attempts] mr Let_def ends_def flip: x_def)
      moreover have "ladder order \<dots>"
        using 3 loop_ok_next [OF less.prems [unfolded mr] m _ d]
        by (intro less.hyps) auto
      ultimately show ?thesis by simp
    qed
  qed
qed

lemma heal_order_mem: "m \<in> set (heal_order cand available lf) \<longleftrightarrow> m \<in> set (uc_methods cand) \<and> m \<in> set available"
  by (auto simp: heal_order_def Let_def)

lemma heal_order_set: "set (heal_order cand available lf) = set (uc_methods cand) \<inter> set available"
  using heal_order_mem by auto

lemma heal_ladder:
  assumes "adapters_ok E"
  shows "ladder (heal_order cand available lf) (heal E k cand available lf)"
  using heal_loop_ladder [OF assms, of _ "[]"]
  by (auto simp: heal_def Let_def loop_ok_def allowed_after_def split: list.split)


section \<open>The loop is bounded\<close>

lemma heal_loop_length:
  assumes "length attempts \<le> mx"
  shows "length (heal_loop E mx order attempts tried current) \<le> mx"
  using assms
proof (induction "mx - length attempts" arbitrary: attempts tried current rule: less_induct)
  case less
  then show ?case
    by (subst heal_loop.simps) (auto simp: Let_def split: option.split prod.split)
qed

lemma heal_loop_extends: "length attempts \<le> length (heal_loop E mx order attempts tried current)"
proof (induction "mx - length attempts" arbitrary: attempts tried current rule: less_induct)
  case less
  show ?case
    using less [of "attempts @ [_]"]
    by (subst heal_loop.simps) (auto simp: Let_def Suc_le_eq intro!: less_imp_le split: option.split prod.split)
qed

lemma heal_nonempty: "heal E k cand available lf = [] \<longleftrightarrow> heal_order cand available lf = []"
proof (cases "heal_order cand available lf")
  case Nil
  then show ?thesis by (simp add: heal_def heal_loop.simps)
next
  case (Cons m ms)
  obtain n c where "decide_next E 0 (dispatch E 0 m None) [m] (m # ms) = (n, c)" by fastforce
  then have "heal E k cand available lf \<noteq> []"
    using heal_loop_extends [of "[(dispatch E 0 m None)\<lparr>ao_cost := f_add f64 (ao_cost (dispatch E 0 m None)) c\<rparr>]"]
    by (auto simp: heal_def Cons heal_loop.simps [of _ _ _ "[]"] Let_def)
      (metis One_nat_def length_0_conv length_Cons list.size(3) not_one_le_zero)
  then show ?thesis by (simp add: Cons)
qed

section \<open>Without a model\<close>

text \<open>The plain fallback ladder: the methods in order, each once.\<close>

fun plain_ladder :: "heal_env \<Rightarrow> nat \<Rightarrow> nat \<Rightarrow> upd_method list \<Rightarrow> attempt_outcome list" where
  "plain_ladder E mx n [] = []"
| "plain_ladder E mx n (m # ms) =
     (let x = dispatch E n m None in
      if ends x \<or> mx \<le> n + 1 then [x]
      else x\<lparr>ao_cost := f_add f64 (ao_cost x) (Fin 0)\<rparr> # plain_ladder E mx (n + 1) ms)"

lemma find_rest:
  assumes "distinct (pre @ m # ms)"
  shows "find (\<lambda>x. x \<notin> set (pre @ [m])) (pre @ m # ms) = (case ms of [] \<Rightarrow> None | m' # _ \<Rightarrow> Some m')"
proof -
  have "find (\<lambda>x. x \<notin> set (pre @ [m])) (pre @ m # ms) = find (\<lambda>x. x \<notin> set (pre @ [m])) ms"
    by (induction pre) (auto simp: find_None_iff find_dropWhile dropWhile_append2)
  then show ?thesis using assms by (auto split: list.split)
qed

lemma heal_loop_plain:
  assumes "\<not> he_ai E" and "distinct (pre @ ms)" and "length attempts < mx"
  shows "heal_loop E mx (pre @ ms) attempts pre (case ms of [] \<Rightarrow> None | m # _ \<Rightarrow> Some (m, None)) =
    attempts @ plain_ladder E mx (length attempts) ms"
  using assms(2,3)
proof (induction ms arbitrary: pre attempts)
  case Nil
  then show ?case by (simp add: heal_loop.simps)
next
  case (Cons m ms)
  define x where "x = dispatch E (length attempts) m None"
  show ?case
  proof (cases "ends x \<or> mx \<le> length attempts + 1")
    case True
    then show ?thesis using Cons.prems(2)
      by (auto simp: heal_loop.simps [of _ _ _ attempts] Let_def ends_def simp flip: x_def)
  next
    case False
    let ?y = "x\<lparr>ao_cost := f_add f64 (ao_cost x) (Fin 0)\<rparr>"
    have "next_method (pre @ m # ms) (pre @ [m]) x = (case ms of [] \<Rightarrow> None | m' # _ \<Rightarrow> Some m')"
      using False find_rest [OF Cons.prems(1)] by (simp add: next_method_def ends_def)
    then have "heal_loop E mx (pre @ m # ms) attempts pre (Some (m, None)) =
        heal_loop E mx ((pre @ [m]) @ ms) (attempts @ [?y]) (pre @ [m]) (case ms of [] \<Rightarrow> None | m' # _ \<Rightarrow> Some (m', None))"
      using False Cons.prems(2) assms(1)
      by (auto simp: heal_loop.simps [of _ _ _ attempts] Let_def ends_def decide_next_def
          simp flip: x_def split: list.split)
    also have "\<dots> = attempts @ ?y # plain_ladder E mx (length attempts + 1) ms"
      using Cons.IH [of "pre @ [m]" "attempts @ [?y]"] Cons.prems(1) False by simp
    finally show ?thesis using False by (simp add: Let_def flip: x_def)
  qed
qed

text \<open>
  C36:
  The healing loop always ends, whatever the methods and the model answer: it makes at most the
  configured number of attempts (at least one), and none only when no listed method is usable.
\<close>

theorem heal_terminates:
  "length (heal E k cand available lf) \<le> max k 1 \<and>
   (heal E k cand available lf = [] \<longleftrightarrow> set (uc_methods cand) \<inter> set available = {})"
proof
  show "length (heal E k cand available lf) \<le> max k 1"
    unfolding heal_def Let_def by (rule heal_loop_length) simp
  have "heal_order cand available lf = [] \<longleftrightarrow> set (uc_methods cand) \<inter> set available = {}"
    by (metis heal_order_set set_empty)
  then show "heal E k cand available lf = [] \<longleftrightarrow> set (uc_methods cand) \<inter> set available = {}"
    by (simp only: heal_nonempty)
qed

text \<open>
  Without a model the loop is the plain fallback ladder: the usable methods, those learned to
  fail last and otherwise in the configured order, each tried once until one ends it.
\<close>

theorem heal_without_ai:
  assumes "\<not> he_ai E" and "distinct (uc_methods cand)"
  shows "heal E k cand available lf = plain_ladder E (max k 1) 0 (heal_order cand available lf) \<and>
    mset (heal_order cand available lf) = mset (filter (\<lambda>m. m \<in> set available) (uc_methods cand)) \<and>
    sorted (map (\<lambda>m. is_method_deprioritised lf (base_id (uc_id cand)) (as_str m)) (heal_order cand available lf))"
proof -
  have "distinct (heal_order cand available lf)" using assms(2) by (simp add: heal_order_def Let_def)
  then have "heal E k cand available lf = plain_ladder E (max k 1) 0 (heal_order cand available lf)"
    using heal_loop_plain [OF assms(1), of "[]" "heal_order cand available lf" "[]" "max k 1"]
    by (simp add: heal_def Let_def)
  then show ?thesis by (simp add: heal_order_def Let_def)
qed

section \<open>Concrete runs\<close>

definition sample_run :: "nat \<Rightarrow> upd_method \<Rightarrow> bool \<Rightarrow> attempt_outcome" where
  "sample_run n m f =
     (if m = Winget then failed_outcome m NotFound ''no package found''
      else (failed_outcome m Unknown [])\<lparr>ao_success := True, ao_category := None\<rparr>)"

definition sample_heal_env :: heal_env where
  "sample_heal_env =
     \<lparr>he_ai = False, he_windows = True, he_low = id, he_run = sample_run, he_kill = (\<lambda>n s. Inr []),
      he_read = (\<lambda>s. None), he_reply = (\<lambda>n. None)\<rparr>"

definition sample_candidate :: update_candidate where
  "sample_candidate =
     \<lparr>uc_id = ''vlc'', uc_name = ''VLC'', uc_current = ''1'', uc_available = ''2'', uc_package = None,
      uc_guidance = None, uc_methods = [Winget, Choco]\<rparr>"

lemma sample_adapters: "adapters_ok sample_heal_env"
  by (simp add: adapters_ok_def sample_heal_env_def sample_run_def failed_outcome_def)

lemma sample_heals: "length (heal sample_heal_env 3 sample_candidate [Winget, Choco] no_facts) = 2"
proof -
  have "heal_order sample_candidate [Winget, Choco] no_facts = [Winget, Choco]"
    by (simp add: heal_order_def sample_candidate_def Let_def no_facts_def is_method_deprioritised_def)
  then show ?thesis
    by (simp add: heal_def Let_def heal_loop.simps dispatch_def sample_heal_env_def sample_run_def forces_def
        failed_outcome_def stops_healing_def is_terminal_def decide_next_def next_method_def)
qed


lemma heal_without_ai_witness:
  "heal sample_heal_env 3 sample_candidate [Winget, Choco] no_facts =
   plain_ladder sample_heal_env (max 3 1) 0 (heal_order sample_candidate [Winget, Choco] no_facts)"
proof -
  have "\<not> he_ai sample_heal_env" "distinct (uc_methods sample_candidate)"
    by (simp_all add: sample_heal_env_def sample_candidate_def)
  from heal_without_ai [OF this, of 3 "[Winget, Choco]" no_facts] show ?thesis by simp
qed

end
