(* ===== verification/Updater_History.thy ===== *)
theory Updater_History
  imports Updater_Heal Updater_Config Safety
begin

text \<open>
  The update history (\<open>updater/history.rs\<close>) and the pauses it causes
  (\<open>updater/backoff.rs\<close>): every attempt becomes a row, the rows say when an app was last
  tried and which apps failed in consecutive runs.
\<close>

section \<open>The tables\<close>

record update_row =
  ur_attempt :: attempt_row
  ur_name :: string
  ur_from :: string
  ur_to :: string
  ur_signature :: string
  ur_sha256 :: string
  ur_cost :: fnum
  ur_at :: instant

record app_row =
  row_id :: string
  row_name :: string
  row_from :: string
  row_to :: string
  row_method :: string
  row_state :: string
  row_detail :: string
  row_signature :: string
  row_ignored :: bool
  row_note :: string

text \<open>
  The rows of \<open>update_attempts\<close> in insertion order, and the keys of \<open>app_state\<close> the updater
  owns: the last run, the last clean run, the last cycle's status and the display cutoff.
\<close>

record history =
  h_rows :: "update_row list"
  h_last_run :: "int option"
  h_last_clean :: "int option"
  h_status :: "(int \<times> string list \<times> app_row list) option"
  h_cleared :: "instant option"
  h_checks :: "(string \<times> instant) list"

fun category_str :: "error_category \<Rightarrow> string" where
  "category_str NotFound = ''not_found''"
| "category_str NetworkTransient = ''network_transient''"
| "category_str HashMismatch = ''hash_mismatch''"
| "category_str SignatureRejected = ''signature_rejected''"
| "category_str InstallerFailed = ''installer_failed''"
| "category_str VerifyFailed = ''verify_failed''"
| "category_str PermissionDenied = ''permission_denied''"
| "category_str LockHeld = ''lock_held''"
| "category_str NeedsForce = ''needs_force''"
| "category_str NeedsReboot = ''needs_reboot''"
| "category_str AlreadyCurrent = ''already_current''"
| "category_str Blocked = ''blocked''"
| "category_str Unknown = ''unknown''"

lemma category_str_inj [simp]: "category_str c = category_str d \<longleftrightarrow> c = d"
  by (cases c; cases d) simp_all

definition or_empty :: "string option \<Rightarrow> string" where
  "or_empty s = (case s of Some t \<Rightarrow> t | None \<Rightarrow> [])"

definition attempt_to_row :: "int \<Rightarrow> instant \<Rightarrow> update_candidate \<Rightarrow> attempt_outcome \<Rightarrow> update_row" where
  "attempt_to_row cycle now cand x =
     \<lparr>ur_attempt = \<lparr>at_app_id = uc_id cand, at_cycle_id = cycle, at_success = ao_success x,
                    at_exit_code = ao_exit_code x, at_category = map_option category_str (ao_category x),
                    at_method = as_str (ao_method x), at_detail = ao_detail x\<rparr>,
      ur_name = uc_name cand, ur_from = uc_current cand, ur_to = or_empty (ao_installed x),
      ur_signature = or_empty (ao_signature x), ur_sha256 = or_empty (ao_sha256 x),
      ur_cost = ao_cost x, ur_at = now\<rparr>"

text \<open>One transaction: all the attempts of one app, or none when the database fails.\<close>

definition record_attempts ::
  "bool \<Rightarrow> int \<Rightarrow> instant \<Rightarrow> update_candidate \<Rightarrow> attempt_outcome list \<Rightarrow> history \<Rightarrow> history option" where
  "record_attempts ok cycle now cand xs h =
     (if ok then Some (h\<lparr>h_rows := h_rows h @ map (attempt_to_row cycle now cand) xs\<rparr>) else None)"

definition row_app :: "update_row \<Rightarrow> string" where
  "row_app r = at_app_id (ur_attempt r)"

definition unix_seconds :: "instant \<Rightarrow> int" where
  "unix_seconds t = t div 1000000000"

text \<open>The latest attempt of an app, in Unix seconds; \<open>None\<close> when it was never tried.\<close>

definition last_attempt_time :: "update_row list \<Rightarrow> string \<Rightarrow> int option" where
  "last_attempt_time rows app =
     (case map ur_at (filter (\<lambda>r. row_app r = app) rows) of
        [] \<Rightarrow> None
      | t # ts \<Rightarrow> Some (unix_seconds (fold max ts t)))"

definition last_check_time :: "(string \<times> instant) list \<Rightarrow> string \<Rightarrow> int option" where
  "last_check_time checks app = map_option unix_seconds (tbl_get checks app)"

definition record_checks :: "instant \<Rightarrow> string list \<Rightarrow> (string \<times> instant) list \<Rightarrow> (string \<times> instant) list option" where
  "record_checks now ids checks =
     (if list_all valid_app_id ids then Some (fold (\<lambda>i. tbl_put i now) ids checks) else None)"

definition record_cycle_status ::
  "int \<Rightarrow> string list \<Rightarrow> app_row list \<Rightarrow> history \<Rightarrow> history option" where
  "record_cycle_status t notes apps h =
     (if t > 0 then Some (h\<lparr>h_last_run := Some t, h_status := Some (t, notes, apps)\<rparr>) else None)"

definition record_clean_run :: "int \<Rightarrow> history \<Rightarrow> history option" where
  "record_clean_run t h = (if t > 0 then Some (h\<lparr>h_last_clean := Some t\<rparr>) else None)"

definition stored_run :: "int option \<Rightarrow> int" where
  "stored_run t = (case t of Some x \<Rightarrow> x | None \<Rightarrow> 0)"

definition last_cycle_status :: "history \<Rightarrow> (int \<times> string list \<times> app_row list) option option" where
  "last_cycle_status h = (case h_status h of
     None \<Rightarrow> Some None
   | Some (t, notes, apps) \<Rightarrow> if t > 0 then Some (Some (t, notes, apps)) else None)"

text \<open>Clear hides the past; the rows themselves and the schedule stay.\<close>

definition clear_history :: "instant \<Rightarrow> history \<Rightarrow> history" where
  "clear_history now h =
     h\<lparr>h_cleared := Some now,
       h_status := (if stored_run (h_last_run h) > 0 then Some (stored_run (h_last_run h), [], []) else None)\<rparr>"

section \<open>Repeated failures\<close>

record attempt_record =
  br_app :: string
  br_cycle :: int
  br_settled :: bool
  br_method :: string
  br_detail :: string
  br_at :: int

text \<open>
  The attempts the pause rule looks at: after the display cutoff and within 60 days. The
  cutoffs are compared as instants; SQLite's \<open>julianday\<close> rounds them to milliseconds.
\<close>

definition to_record :: "update_row \<Rightarrow> attempt_record" where
  "to_record r =
     \<lparr>br_app = row_app r, br_cycle = at_cycle_id (ur_attempt r),
      br_settled = (at_success (ur_attempt r) \<or>
                    at_category (ur_attempt r) = Some (category_str AlreadyCurrent)),
      br_method = at_method (ur_attempt r), br_detail = at_detail (ur_attempt r),
      br_at = unix_seconds (ur_at r)\<rparr>"

definition attempt_records :: "instant \<Rightarrow> history \<Rightarrow> attempt_record list" where
  "attempt_records now h =
     map to_record
       (filter (\<lambda>r. (case h_cleared h of Some c \<Rightarrow> c < ur_at r | None \<Rightarrow> True) \<and> now - 60 * day < ur_at r)
         (h_rows h))"

definition DAY :: int where "DAY = 86400"

record pause =
  pu_failed_runs :: nat
  pu_until :: int
  pu_method :: string
  pu_detail :: string

definition pause_days :: "nat \<Rightarrow> int option" where
  "pause_days n = (if n \<le> 1 then None else if n = 2 then Some 2 else if n = 3 then Some 4 else Some 7)"

text \<open>Per cycle of one app: whether a run settled it, and its last attempt.\<close>

definition run_upd :: "attempt_record \<Rightarrow> bool \<times> attempt_record option \<Rightarrow> bool \<times> attempt_record option" where
  "run_upd r run =
     (fst run \<or> br_settled r,
      case snd run of
        None \<Rightarrow> Some r
      | Some x \<Rightarrow> if br_at x \<le> br_at r then Some r else Some x)"

definition app_runs :: "attempt_record list \<Rightarrow> string \<Rightarrow> (int \<times> bool \<times> attempt_record option) list" where
  "app_runs records app =
     aggregate (\<lambda>r. if br_app r = app then Some (br_cycle r) else None) (False, None) run_upd records"

text \<open>The newest cycle first; the trailing failed ones decide.\<close>

definition pause_of :: "attempt_record list \<Rightarrow> int \<Rightarrow> string \<Rightarrow> pause option" where
  "pause_of records now app =
     (let cycles = rev (sort_key fst (app_runs records app));
          failed = length (takeWhile (\<lambda>c. \<not> fst (snd c)) cycles)
      in case (pause_days failed, cycles) of
           (Some days, (_, _, Some l) # _) \<Rightarrow>
             (let until = br_at l + days * DAY in
              if now < until
              then Some \<lparr>pu_failed_runs = failed, pu_until = until, pu_method = br_method l, pu_detail = br_detail l\<rparr>
              else None)
         | _ \<Rightarrow> None)"

section \<open>The pause rule\<close>

definition cycles_of :: "attempt_record list \<Rightarrow> string \<Rightarrow> int set" where
  "cycles_of records app = br_cycle ` {r \<in> set records. br_app r = app}"

definition cycle_settled :: "attempt_record list \<Rightarrow> string \<Rightarrow> int \<Rightarrow> bool" where
  "cycle_settled records app c = (\<exists>r \<in> set records. br_app r = app \<and> br_cycle r = c \<and> br_settled r)"

text \<open>How many of the latest cycles of an app failed without a break, and when it was last tried in the newest.\<close>

definition failed_streak :: "attempt_record list \<Rightarrow> string \<Rightarrow> nat" where
  "failed_streak records app =
     card {c \<in> cycles_of records app. \<forall>d \<in> cycles_of records app. c \<le> d \<longrightarrow> \<not> cycle_settled records app d}"

definition last_tried :: "attempt_record list \<Rightarrow> string \<Rightarrow> int" where
  "last_tried records app =
     Max (br_at ` {r \<in> set records. br_app r = app \<and> br_cycle r = Max (cycles_of records app)})"

lemma takeWhile_descending:
  fixes xs :: "'a :: linorder list"
  assumes "sorted_wrt (>) xs"
  shows "length (takeWhile Q xs) = card {x \<in> set xs. \<forall>y \<in> set xs. x \<le> y \<longrightarrow> Q y}"
  using assms
proof (induction xs)
  case (Cons x xs)
  let ?S = "{c \<in> set xs. \<forall>y \<in> set xs. c \<le> y \<longrightarrow> Q y}"
  have below: "\<forall>y \<in> set xs. y < x" using Cons.prems by auto
  show ?case
  proof (cases "Q x")
    case True
    then have "{c \<in> set (x # xs). \<forall>y \<in> set (x # xs). c \<le> y \<longrightarrow> Q y} = insert x ?S"
      using below by auto
    moreover have "x \<notin> ?S" using below by auto
    moreover have "length (takeWhile Q xs) = card ?S" using Cons by simp
    ultimately show ?thesis using True by simp
  next
    case False
    then have none: "{c \<in> set (x # xs). \<forall>y \<in> set (x # xs). c \<le> y \<longrightarrow> Q y} = {}"
      using below by (auto intro: less_imp_le)
    show ?thesis using False unfolding none by simp
  qed
qed simp

lemma fold_run_settled: "fst (fold run_upd rs (b, x)) \<longleftrightarrow> b \<or> (\<exists>r \<in> set rs. br_settled r)"
proof (induction rs arbitrary: b x)
  case (Cons r rs)
  obtain b' x' where "run_upd r (b, x) = (b', x')" by fastforce
  then show ?case using Cons [of b' x'] by (auto simp: run_upd_def)
qed simp

lemma snd_run_upd: "snd (run_upd r run) = (case snd run of None \<Rightarrow> Some r
    | Some x \<Rightarrow> if br_at x \<le> br_at r then Some r else Some x)"
  by (simp add: run_upd_def)

lemma fold_run_last:
  assumes "rs \<noteq> []"
  shows "\<exists>l \<in> set rs. snd (fold run_upd rs (False, None)) = Some l \<and> (\<forall>r \<in> set rs. br_at r \<le> br_at l)"
  using assms
proof (induction rs rule: rev_induct)
  case (snoc r rs)
  show ?case
  proof (cases "rs = []")
    case True
    then show ?thesis by (simp add: run_upd_def)
  next
    case False
    with snoc obtain l where "l \<in> set rs" "snd (fold run_upd rs (False, None)) = Some l"
      "\<forall>r \<in> set rs. br_at r \<le> br_at l" by auto
    then show ?thesis by (auto simp: snd_run_upd)
  qed
qed simp

lemma app_runs_mem:
  "(c, run) \<in> set (app_runs records app) \<longleftrightarrow>
     c \<in> cycles_of records app \<and>
     run = fold run_upd (filter (\<lambda>r. br_app r = app \<and> br_cycle r = c) records) (False, None)"
proof -
  have "filter (\<lambda>r. (if br_app r = app then Some (br_cycle r) else None) = Some c) records =
      filter (\<lambda>r. br_app r = app \<and> br_cycle r = c) records"
    by (rule filter_cong) auto
  then show ?thesis
    by (auto simp: app_runs_def aggregate_mem cycles_of_def split: if_splits)
qed

lemma app_runs_cycles: "fst ` set (app_runs records app) = cycles_of records app"
proof -
  have "c \<in> fst ` set (app_runs records app) \<longleftrightarrow> (\<exists>run. (c, run) \<in> set (app_runs records app))" for c
    by force
  then show ?thesis by (auto simp: app_runs_mem)
qed

lemma app_runs_settled:
  assumes "(c, run) \<in> set (app_runs records app)"
  shows "fst run \<longleftrightarrow> cycle_settled records app c"
  using assms by (auto simp: app_runs_mem fold_run_settled cycle_settled_def)

lemma app_runs_last:
  assumes "(c, run) \<in> set (app_runs records app)"
  shows "\<exists>l. snd run = Some l \<and>
    br_at l = Max (br_at ` {r \<in> set records. br_app r = app \<and> br_cycle r = c})"
proof -
  let ?rs = "filter (\<lambda>r. br_app r = app \<and> br_cycle r = c) records"
  have "?rs \<noteq> []" using assms by (auto simp: app_runs_mem cycles_of_def filter_empty_conv)
  from fold_run_last [OF this] obtain l
    where l: "l \<in> set ?rs" "snd (fold run_upd ?rs (False, None)) = Some l" "\<forall>r \<in> set ?rs. br_at r \<le> br_at l"
    by blast
  have run: "run = fold run_upd ?rs (False, None)" using assms by (simp add: app_runs_mem)
  have "Max (br_at ` set ?rs) = br_at l" using l by (intro Max_eqI) auto
  then show ?thesis using l(2) by (simp add: run)
qed

text \<open>
  C37:
  The pause rule, against its description: an app is paused exactly when at least two of its
  latest runs failed with none settled since, and the wait of 2, 4 or 7 days counted from the
  last attempt of the newest run is not over; the pause names that number and that end.
\<close>

theorem pause_rule_exact:
  "map_option (\<lambda>p. (pu_failed_runs p, pu_until p)) (pause_of records now app) =
     (let n = failed_streak records app;
          days = (if n = 2 then 2 else if n = 3 then 4 else 7);
          end_at = last_tried records app + days * DAY
      in if 2 \<le> n \<and> now < end_at then Some (n, end_at) else None)"
proof -
  define cs where "cs = rev (sort_key fst (app_runs records app))"
  have keys: "set (map fst cs) = cycles_of records app" using app_runs_cycles by (simp add: cs_def)
  have "distinct (map fst (app_runs records app))"
    unfolding app_runs_def by (rule aggregate_wf [unfolded tbl_wf_def])
  then have "distinct (map fst (sort_key fst (app_runs records app)))"
    by (simp add: distinct_map)
  then have "sorted_wrt (<) (map fst (sort_key fst (app_runs records app)))"
    by (simp add: strict_sorted_iff)
  then have desc: "sorted_wrt (>) (map fst cs)"
    by (simp add: cs_def rev_map [symmetric] sorted_wrt_rev)
  have settled: "fst (snd x) \<longleftrightarrow> cycle_settled records app (fst x)" if "x \<in> set cs" for x
    using app_runs_settled [of "fst x" "snd x"] that by (simp add: cs_def)
  have "length (takeWhile (\<lambda>x. \<not> fst (snd x)) cs) = length (takeWhile (\<lambda>c. \<not> cycle_settled records app c) (map fst cs))"
    using settled by (simp add: takeWhile_map comp_def cong: takeWhile_cong)
  then have n: "length (takeWhile (\<lambda>x. \<not> fst (snd x)) cs) = failed_streak records app"
    using takeWhile_descending [OF desc] by (simp add: failed_streak_def keys del: set_map)
  have top: "\<exists>c l b rest. cs = (c, b, Some l) # rest \<and> br_at l = last_tried records app" if "cs \<noteq> []"
  proof -
    obtain c b x rest where cs: "cs = (c, b, x) # rest" using \<open>cs \<noteq> []\<close> by (cases cs) auto
    then have "(c, b, x) \<in> set cs" by simp
    then have mem: "(c, b, x) \<in> set (app_runs records app)" by (simp add: cs_def)
    have "sorted_wrt (>) (c # map fst rest)" "cycles_of records app = set (c # map fst rest)"
      using desc keys by (simp_all add: cs)
    then have "c = Max (cycles_of records app)" by (intro Max_eqI [symmetric]) auto
    then show ?thesis using app_runs_last [OF mem] by (auto simp: cs last_tried_def)
  qed
  show ?thesis
  proof (cases "cs = []")
    case True
    then have "failed_streak records app = 0" using n by simp
    then show ?thesis by (simp add: pause_of_def Let_def pause_days_def True flip: cs_def)
  next
    case False
    then obtain c l b rest where "cs = (c, b, Some l) # rest" "br_at l = last_tried records app" using top by blast
    then show ?thesis
      using n by (auto simp: pause_of_def Let_def pause_days_def simp flip: cs_def)
  qed
qed

end
