(* ===== verification/Rotation.thy ===== *)
theory Rotation
  imports Main
begin

text \<open>
  Fair rotation: an operation that may serve only \<open>cap\<close> of the items offered in a round, the
  stalest first, serves an item that keeps being offered within a bounded number of rounds. The
  interface is the promise such a choice makes; the updater's two choices provide it.
\<close>

text \<open>
  \<open>pick\<close> chooses among the offered items by the time each identity was last served. An item it
  leaves out loses to \<open>cap\<close> chosen items, none of them served later.
\<close>

locale stalest_first =
  fixes ident :: "'a \<Rightarrow> 'k" and cap :: nat and pick :: "('k \<Rightarrow> int) \<Rightarrow> 'a list \<Rightarrow> 'a list"
  assumes pick_sub: "set (pick since xs) \<subseteq> set xs"
    and pick_distinct: "distinct (map ident xs) \<Longrightarrow> distinct (map ident (pick since xs))"
    and pick_loses: "x \<in> set xs \<Longrightarrow> x \<notin> set (pick since xs) \<Longrightarrow>
      length (pick since xs) = cap \<and> (\<forall>y \<in> set (pick since xs). since (ident y) \<le> since (ident x))"
begin

text \<open>The other identities that may still be served before \<open>i\<close>.\<close>

definition ahead :: "'k set \<Rightarrow> ('k \<Rightarrow> int) \<Rightarrow> 'k \<Rightarrow> 'k set" where
  "ahead U since i = {j \<in> U. j \<noteq> i \<and> since j \<le> since i}"

lemma round_gains:
  assumes U: "finite U" "ident ` set xs \<subseteq> U" and x: "x \<in> set xs" "x \<notin> set (pick since xs)"
    and d: "distinct (map ident xs)"
    and served: "\<forall>y \<in> set (pick since xs). since (ident x) < later (ident y)"
    and kept: "\<forall>j \<in> U - ident ` set (pick since xs). later j = since j"
  shows "card (ahead U later (ident x)) + cap \<le> card (ahead U since (ident x)) \<and> later (ident x) = since (ident x)"
proof -
  have loses: "length (pick since xs) = cap" "\<forall>y \<in> set (pick since xs). since (ident y) \<le> since (ident x)"
    using pick_loses [OF x] by auto
  have not_x: "ident y \<noteq> ident x" if "y \<in> set (pick since xs)" for y
    using that x d pick_sub [of since xs] by (metis inj_on_def distinct_map subsetD)
  then have "ident x \<notin> ident ` set (pick since xs)" by (metis imageE)
  then have out: "ident x \<in> U - ident ` set (pick since xs)" using x U by blast
  then have same: "later (ident x) = since (ident x)" using kept by blast
  have "ident ` set (pick since xs) \<subseteq> ahead U since (ident x)"
  proof -
    have "ident ` set (pick since xs) \<subseteq> U" using U(2) pick_sub [of since xs] by (meson image_mono order_trans)
    then show ?thesis using loses(2) not_x by (auto simp: ahead_def)
  qed
  moreover have "ahead U later (ident x) \<subseteq> ahead U since (ident x) - ident ` set (pick since xs)"
  proof
    fix j assume j: "j \<in> ahead U later (ident x)"
    then have early: "j \<in> U" "j \<noteq> ident x" "later j \<le> since (ident x)" by (simp_all add: ahead_def same)
    have "j \<notin> ident ` set (pick since xs)"
    proof
      assume "j \<in> ident ` set (pick since xs)"
      then show False using served early(3) by force
    qed
    then show "j \<in> ahead U since (ident x) - ident ` set (pick since xs)"
      using early kept by (simp add: ahead_def)
  qed
  moreover have "card (ident ` set (pick since xs)) = cap"
    using pick_distinct [OF d, of since] loses(1) distinct_card [of "map ident (pick since xs)"] by simp
  moreover have fin: "finite (ahead U since (ident x))" using U by (simp add: ahead_def)
  ultimately have "card (ahead U later (ident x)) \<le> card (ahead U since (ident x)) - cap"
    by (metis card_Diff_subset card_mono finite_Diff finite_subset)
  moreover have "cap \<le> card (ahead U since (ident x))"
    using \<open>ident ` set (pick since xs) \<subseteq> ahead U since (ident x)\<close> \<open>card (ident ` set (pick since xs)) = cap\<close> fin
    by (metis card_mono)
  ultimately show ?thesis using same by simp
qed

text \<open>An item offered in every round is served within one more round than the others fill.\<close>

lemma served_in_time:
  assumes U: "finite U" "\<forall>k. ident ` set (offered k) \<subseteq> U" and cap: "0 < cap"
    and here: "\<forall>k. x k \<in> set (offered k) \<and> ident (x k) = i"
    and d: "\<forall>k. distinct (map ident (offered k))"
    and served: "\<forall>k. \<forall>y \<in> set (pick (since k) (offered k)). since k i < since (Suc k) (ident y)"
    and kept: "\<forall>k. \<forall>j \<in> U - ident ` set (pick (since k) (offered k)). since (Suc k) j = since k j"
  shows "\<exists>k \<le> (card U - 1) div cap. x k \<in> set (pick (since k) (offered k))"
proof (rule ccontr)
  define n where "n = (card U - 1) div cap"
  assume "\<not> ?thesis"
  then have miss: "x k \<notin> set (pick (since k) (offered k))" if "k \<le> n" for k using that by (auto simp: n_def)
  have gain: "card (ahead U (since k) i) + k * cap \<le> card (ahead U (since 0) i)" if "k \<le> Suc n" for k
    using that
  proof (induction k)
    case (Suc k)
    have x: "x k \<in> set (offered k)" "ident (x k) = i" "x k \<notin> set (pick (since k) (offered k))"
      using here miss Suc.prems by simp_all
    have "card (ahead U (since (Suc k)) (ident (x k))) + cap \<le> card (ahead U (since k) (ident (x k)))"
    proof (rule round_gains [THEN conjunct1])
      show "finite U" "ident ` set (offered k) \<subseteq> U" using U by blast+
      show "x k \<in> set (offered k)" "x k \<notin> set (pick (since k) (offered k))" by (rule x)+
      show "distinct (map ident (offered k))" using d by blast
      show "\<forall>y \<in> set (pick (since k) (offered k)). since k (ident (x k)) < since (Suc k) (ident y)"
        using served by (simp only: x(2)) blast
      show "\<forall>j \<in> U - ident ` set (pick (since k) (offered k)). since (Suc k) j = since k j" using kept by blast
    qed
    then show ?case using Suc x by simp
  qed simp
  have "x 0 \<in> set (offered 0)" "ident (x 0) = i" using here by simp_all
  then have "i \<in> ident ` set (offered 0)" by blast
  then have "i \<in> U" using U(2) by blast
  then have "ahead U (since 0) i \<subseteq> U - {i}" by (auto simp: ahead_def)
  then have "card (ahead U (since 0) i) \<le> card U - 1"
    using U(1) \<open>i \<in> U\<close> by (metis card_Diff_singleton card_mono finite_Diff)
  with gain [of "Suc n"] have "Suc n * cap \<le> card U - 1" by simp
  moreover have "card U - 1 < Suc n * cap"
    using div_less_iff_less_mult [OF cap, of "card U - 1" "Suc n"] by (simp add: n_def)
  ultimately show False by simp
qed

end

text \<open>The choice both updater passes make: a stable sort by the last time, cut at the cap.\<close>

definition take_stalest :: "('a \<Rightarrow> 'k) \<Rightarrow> nat \<Rightarrow> ('k \<Rightarrow> int) \<Rightarrow> 'a list \<Rightarrow> 'a list" where
  "take_stalest ident cap since xs = take cap (sort_key (\<lambda>x. since (ident x)) xs)"

lemma take_stalest_loses:
  assumes "x \<in> set xs" and "x \<notin> set (take_stalest ident cap since xs)"
  shows "length (take_stalest ident cap since xs) = cap \<and>
    (\<forall>y \<in> set (take_stalest ident cap since xs). since (ident y) \<le> since (ident x))"
proof -
  define s where "s = sort_key (\<lambda>x. since (ident x)) xs"
  have "x \<in> set s" "x \<notin> set (take cap s)" using assms by (simp_all add: s_def take_stalest_def)
  then have drop: "x \<in> set (drop cap s)" by (metis append_take_drop_id in_set_conv_decomp set_append UnE)
  then have "cap < length s" by (metis drop_all empty_iff list.set(1) not_le)
  moreover have "since (ident y) \<le> since (ident x)" if "y \<in> set (take cap s)" for y
  proof -
    have "sorted (map (\<lambda>x. since (ident x)) (take cap s @ drop cap s))" by (simp add: s_def)
    then show ?thesis using that drop by (simp only: map_append sorted_append set_map) blast
  qed
  ultimately show ?thesis by (simp add: take_stalest_def s_def [symmetric])
qed

interpretation rotation: stalest_first ident cap "take_stalest ident cap" for ident :: "'a \<Rightarrow> 'k" and cap
proof
  show "set (take_stalest ident cap since xs) \<subseteq> set xs" for since :: "'k \<Rightarrow> int" and xs :: "'a list"
    unfolding take_stalest_def by (metis set_take_subset set_sort)
  show "distinct (map ident (take_stalest ident cap since xs))" if "distinct (map ident xs)" for since :: "'k \<Rightarrow> int" and xs
  proof -
    have "distinct (map ident (sort_key (\<lambda>x. since (ident x)) xs))" using that by (simp add: distinct_map)
    then show ?thesis by (simp add: take_stalest_def take_map [symmetric])
  qed
qed (rule take_stalest_loses)

end
