(* ===== verification/Updater_Check.thy ===== *)
theory Updater_Check
  imports Updater_Managers Updater_History Rotation
begin

text \<open>
  The check for updates (\<open>updater/check.rs\<close>): the candidates the package managers report, and the
  native candidates the model names among the apps no manager covers. What the managers, the
  registry inventory and the model answer are arguments; the table of past checks is threaded
  through.
\<close>

section \<open>Filters\<close>

definition AI_CHECK_CAP :: nat where "AI_CHECK_CAP = 20"

definition SELF_UPDATING :: "string list" where "SELF_UPDATING = [''discord'']"

definition should_skip :: "updater_config \<Rightarrow> string set \<Rightarrow> string \<Rightarrow> bool" where
  "should_skip cfg learned i =
     (if \<not> valid_app_id i then True
      else (let base = base_id i in
            base \<in> set SELF_UPDATING \<or> base \<in> learned \<or>
            list_ex (\<lambda>ig. eq_ignore_ascii_case ig i \<or> eq_ignore_ascii_case ig base) (uf_ignored cfg)))"

definition version_known :: "string \<Rightarrow> bool" where
  "version_known v = (let t = trim v in t \<noteq> [] \<and> \<not> eq_ignore_ascii_case t ''unknown'')"

definition name_list :: "string list \<Rightarrow> string" where
  "name_list names =
     join '', '' (take 5 names) @
     (if 5 < length names then '' and '' @ show_nat (length names - 5) @ '' more'' else [])"

section \<open>Candidates from the managers\<close>

record collected =
  co_candidates :: "update_candidate list"
  co_seen :: "string set"
  co_unknown :: "string list"

definition nothing_collected :: collected where
  "nothing_collected = \<lparr>co_candidates = [], co_seen = {}, co_unknown = []\<rparr>"

definition new_candidate ::
  "(string \<Rightarrow> string) \<Rightarrow> updater_config \<Rightarrow> string \<Rightarrow> string \<Rightarrow> string \<Rightarrow> string \<Rightarrow> string option \<Rightarrow> upd_method list
     \<Rightarrow> update_candidate" where
  "new_candidate u cfg i name current available package ms =
     \<lparr>uc_id = i, uc_name = name, uc_current = current, uc_available = available, uc_package = package,
      uc_guidance = guidance_for u cfg i, uc_methods = ms\<rparr>"

text \<open>\<open>Collected::push\<close>, for an update a manager offers.\<close>

definition push_update ::
  "(string \<Rightarrow> string) \<Rightarrow> updater_config \<Rightarrow> string set \<Rightarrow> bool \<Rightarrow> upd_method
     \<Rightarrow> string \<times> string \<times> string \<times> string \<Rightarrow> collected \<Rightarrow> collected" where
  "push_update u cfg learned native primary x st =
     (let (name, current, available, package) = x; i = app_id u name; base = base_id i in
      if i = [] \<or> is_noise u name \<or> should_skip cfg learned i then st
      else if i \<in> co_seen st \<or> base \<in> co_seen st then st
      else if \<not> version_known current then st\<lparr>co_unknown := co_unknown st @ [name]\<rparr>
      else st\<lparr>co_seen := insert i (insert base (co_seen st)),
              co_candidates := co_candidates st @
                [new_candidate u cfg i name current available (Some package)
                   (if native \<and> primary \<noteq> Native then [primary, Native] else [primary])]\<rparr>)"

section \<open>The inventory no manager covers\<close>

record inventory =
  iv_apps :: "(string \<times> string) list"
  iv_per_user :: "string list"
  iv_warnings :: "string list"

definition select_unmanaged_batch ::
  "(string \<Rightarrow> string) \<Rightarrow> (string \<times> string) list \<Rightarrow> (string \<Rightarrow> int option) \<Rightarrow> nat
     \<Rightarrow> (string \<times> string) list \<times> bool" where
  "select_unmanaged_batch u apps last_check cap =
     (let sorted = sort_key (\<lambda>(n, v). case last_check (app_id u n) of Some t \<Rightarrow> t | None \<Rightarrow> 0) apps;
          checked = take cap sorted
      in (checked, length checked < length apps))"

text \<open>Apps found so far with the identities seen; the registry's version wins.\<close>

type_synonym found_apps = "(string \<times> string) list \<times> string set"

fun replace_version :: "(string \<Rightarrow> string) \<Rightarrow> string \<Rightarrow> string \<Rightarrow> (string \<times> string) list \<Rightarrow> (string \<times> string) list" where
  "replace_version u key v [] = []"
| "replace_version u key v ((n, w) # as) =
     (if app_id u n = key then (n, v) # as else (n, w) # replace_version u key v as)"

definition merge_registry_app ::
  "(string \<Rightarrow> string) \<Rightarrow> string \<times> string \<Rightarrow> found_apps \<Rightarrow> found_apps" where
  "merge_registry_app u nv st =
     (let (apps, seen) = st; (name, v) = nv; key = app_id u name in
      if list_ex (\<lambda>(n, w). app_id u n = key) apps then (replace_version u key v apps, seen)
      else if key \<in> seen then (apps, seen)
      else (apps @ [(name, v)], insert key seen))"

definition add_listed_app ::
  "(string \<Rightarrow> string) \<Rightarrow> updater_config \<Rightarrow> string set \<Rightarrow> string \<times> string \<Rightarrow> found_apps \<Rightarrow> found_apps" where
  "add_listed_app u cfg learned nv st =
     (let (apps, seen) = st; key = app_id u (fst nv) in
      if version_known (snd nv) \<and> \<not> should_skip cfg learned key \<and> key \<notin> seen
      then (apps @ [nv], insert key seen) else st)"

definition add_registry_app ::
  "(string \<Rightarrow> string) \<Rightarrow> updater_config \<Rightarrow> string set \<Rightarrow> string set \<Rightarrow> string \<times> string \<Rightarrow> found_apps \<Rightarrow> found_apps" where
  "add_registry_app u cfg learned managed nv st =
     (let key = app_id u (fst nv) in
      if key \<in> managed \<or> should_skip cfg learned key then st else merge_registry_app u nv st)"

definition per_user_apps ::
  "(string \<Rightarrow> string) \<Rightarrow> updater_config \<Rightarrow> string set \<Rightarrow> string set \<Rightarrow> inventory \<Rightarrow> string list" where
  "per_user_apps u cfg learned managed found =
     filter (\<lambda>n. let key = app_id u n in key \<notin> managed \<and> \<not> should_skip cfg learned key) (iv_per_user found)"

section \<open>Native candidates\<close>

definition native_candidate ::
  "(string \<Rightarrow> string) \<Rightarrow> semver \<Rightarrow> updater_config \<Rightarrow> string set \<Rightarrow> (string \<times> string) list
     \<Rightarrow> string \<times> string \<Rightarrow> update_candidate option" where
  "native_candidate u sem cfg learned installed nl =
     (let (name, latest) = nl in
      if trim name = [] \<or> trim latest = [] then None
      else (case match_installed_entry u installed name of
              None \<Rightarrow> None
            | Some (i, cur) \<Rightarrow>
                if \<not> version_known cur \<or> \<not> is_newer sem latest cur then None
                else if should_skip cfg learned i then None
                else Some (new_candidate u cfg i name cur latest None [Native])))"

definition native_candidates_from ::
  "(string \<Rightarrow> string) \<Rightarrow> semver \<Rightarrow> (string \<times> string) list \<Rightarrow> (string \<times> string) list \<Rightarrow> updater_config \<Rightarrow> string set
     \<Rightarrow> update_candidate list" where
  "native_candidates_from u sem updates installed cfg learned =
     List.map_filter (native_candidate u sem cfg learned installed) updates"

section \<open>A whole check\<close>

text \<open>
  What surrounds one check: the four managers' listings, winget's listing of all apps or the
  reason it cannot give one, the registry inventory, whether the database answers, the model's
  reply with its price, and the reader of its list of updates.
\<close>

record check_env =
  ck_low :: "string \<Rightarrow> string"
  ck_sem :: semver
  ck_winget :: "string + app_update list"
  ck_choco :: "string + (string \<times> string \<times> string) list"
  ck_scoop :: "string + (string \<times> string \<times> string) list"
  ck_store :: "string + app_update list"
  ck_list :: "int \<times> string"
  ck_no_winget :: "string option"
  ck_inventory :: "string + inventory"
  ck_times_error :: "string option"
  ck_record_error :: "string option"
  ck_reply :: "(string + (string \<times> fnum option)) option"
  ck_read :: "string \<Rightarrow> string + (string \<times> string) list"
  ck_now :: instant

record check_result =
  cr_candidates :: "update_candidate list"
  cr_cost :: fnum
  cr_notes :: "string list"
  cr_errors :: bool

definition checks_table :: "(string \<times> instant) list \<Rightarrow> string option \<Rightarrow> string list \<Rightarrow> instant
    \<Rightarrow> string + (string \<times> instant) list" where
  "checks_table checks db ids now =
     (case db of
        Some e \<Rightarrow> Inl (''could not record non-manager checks: '' @ e)
      | None \<Rightarrow> (case record_checks now ids checks of
                   Some t \<Rightarrow> Inr t
                 | None \<Rightarrow> Inl ''could not record non-manager checks: invalid app id''))"

text \<open>The installed apps, and what the two inventories had to say.\<close>

definition listed_apps ::
  "check_env \<Rightarrow> updater_config \<Rightarrow> string set \<Rightarrow> string set \<Rightarrow> bool \<Rightarrow> found_apps \<times> string list \<times> bool" where
  "listed_apps E cfg learned managed winget =
     (if winget then
        (case checked_output ''winget app inventory'' (fst (ck_list E)) (snd (ck_list E)) of
           Inr out \<Rightarrow> (fold (add_listed_app (ck_low E) cfg learned) (parse_unmanaged (ck_low E) out managed) ([], {}), [], False)
         | Inl e \<Rightarrow> (([], {}), [e], True))
      else (([], {}),
            [case ck_no_winget E of Some r \<Rightarrow> r
             | None \<Rightarrow> ''winget not available '' @ emdash @ '' using registry inventory only for non-manager apps.''],
            False))"

definition inventory_apps ::
  "check_env \<Rightarrow> updater_config \<Rightarrow> string set \<Rightarrow> string set \<Rightarrow> found_apps \<Rightarrow> (string \<times> string) list \<times> string list \<times> bool" where
  "inventory_apps E cfg learned managed st =
     (case ck_inventory E of
        Inl e \<Rightarrow> (fst st, [e], True)
      | Inr found \<Rightarrow>
          (let u = ck_low E;
               apps = fst (fold (add_registry_app u cfg learned managed) (iv_apps found) st);
               users = per_user_apps u cfg learned managed found
           in (filter (\<lambda>(n, v). \<not> list_ex (\<lambda>user_app. app_id u user_app = app_id u n) users) apps,
               iv_warnings found @
                 (if users = [] then []
                  else [''Installed for this user only, so updated only by winget or by the app itself: '' @
                        name_list users @ ''.'']),
               iv_warnings found \<noteq> [])))"

text \<open>The apps of one batch, at most \<open>AI_CHECK_CAP\<close> of them, with the notes and errors so far.\<close>

definition unmanaged_batch ::
  "check_env \<Rightarrow> updater_config \<Rightarrow> string set \<Rightarrow> string option \<Rightarrow> string set \<Rightarrow> bool \<Rightarrow> (string \<times> instant) list
     \<Rightarrow> (string \<times> string) list \<times> string list \<times> bool" where
  "unmanaged_batch E cfg learned target managed winget checks =
     (let u = ck_low E;
          (st, notes1, err1) = listed_apps E cfg learned managed winget;
          (apps, notes2, err2) = inventory_apps E cfg learned managed st;
          apps = (case target of None \<Rightarrow> apps
                  | Some t \<Rightarrow> filter (\<lambda>(n, v). eq_ignore_ascii_case (app_id u n) t) apps);
          (since, notes3, err3) =
            (case ck_times_error E of
               None \<Rightarrow> (last_check_time checks, [], False)
             | Some e \<Rightarrow> ((\<lambda>i. None), [''couldn'' @ apos @ ''t read non-manager check history: '' @ e], True));
          (checked, incomplete) = select_unmanaged_batch u apps since AI_CHECK_CAP
      in (checked,
          notes1 @ notes2 @ notes3 @
            (if incomplete then
               [''This cycle checks '' @ show_nat (length checked) @ '' of '' @ show_nat (length apps) @
                '' non-manager apps '' @ emdash @ '' the remainder is deferred.''] else []),
          err1 \<or> err2 \<or> err3 \<or> incomplete))"

text \<open>The model's reply about a batch: its updates count once the checks are recorded.\<close>

definition ask_model ::
  "check_env \<Rightarrow> updater_config \<Rightarrow> string set \<Rightarrow> (string \<times> string) list \<times> string list \<times> bool
     \<Rightarrow> string + (string \<times> fnum option) \<Rightarrow> (string \<times> instant) list \<Rightarrow> check_result \<times> (string \<times> instant) list" where
  "ask_model E cfg learned batch reply checks =
     (let u = ck_low E; (checked, notes, err) = batch;
          failed = (\<lambda>cost e. \<lparr>cr_candidates = [], cr_cost = cost,
             cr_notes = notes @ [''couldn'' @ apos @ ''t check non-manager apps: '' @ e], cr_errors = True\<rparr>)
      in case reply of
           Inl e \<Rightarrow> (failed (Fin 0) e, checks)
         | Inr (content, usage) \<Rightarrow>
             (case ck_read E content of
                Inl e \<Rightarrow> (failed (usage_cost usage) (''could not parse update list: '' @ e), checks)
              | Inr updates \<Rightarrow>
                  (case checks_table checks (ck_record_error E) (map (\<lambda>(n, v). app_id u n) checked) (ck_now E) of
                     Inl e \<Rightarrow> (failed (usage_cost usage) e, checks)
                   | Inr checks \<Rightarrow>
                       (\<lparr>cr_candidates = native_candidates_from u (ck_sem E) updates
                           (fold (\<lambda>(n, v). tbl_put (app_id u n) v) checked []) cfg learned,
                         cr_cost = usage_cost usage, cr_notes = notes, cr_errors = err\<rparr>, checks))))"

definition check_unmanaged ::
  "check_env \<Rightarrow> updater_config \<Rightarrow> string set \<Rightarrow> string option \<Rightarrow> string set \<Rightarrow> bool \<Rightarrow> string + (string \<times> fnum option)
     \<Rightarrow> (string \<times> instant) list \<Rightarrow> check_result \<times> (string \<times> instant) list" where
  "check_unmanaged E cfg learned target managed winget reply checks =
     (let batch = unmanaged_batch E cfg learned target managed winget checks; (checked, notes, err) = batch in
      if checked = [] then (\<lparr>cr_candidates = [], cr_cost = Fin 0, cr_notes = notes, cr_errors = err\<rparr>, checks)
      else ask_model E cfg learned batch reply checks)"

text \<open>One manager's listing: each offered update is managed, and pushed as a candidate.\<close>

definition take_listing ::
  "(string \<Rightarrow> string) \<Rightarrow> updater_config \<Rightarrow> string set \<Rightarrow> bool \<Rightarrow> upd_method
     \<Rightarrow> string + (string \<times> string \<times> string \<times> string) list
     \<Rightarrow> collected \<times> string set \<times> string list \<times> bool \<Rightarrow> collected \<times> string set \<times> string list \<times> bool" where
  "take_listing u cfg learned native m listing acc =
     (let (st, managed, notes, err) = acc in
      case listing of
        Inl e \<Rightarrow> (st, managed, notes @ [e], True)
      | Inr xs \<Rightarrow>
          (fold (push_update u cfg learned native m) xs st, managed \<union> (\<lambda>x. app_id u (fst x)) ` set xs, notes, err))"

definition by_package :: "app_update \<Rightarrow> string \<times> string \<times> string \<times> string" where
  "by_package x = (au_name x, au_current x, au_available x, au_id x)"

definition by_name :: "string \<times> string \<times> string \<Rightarrow> string \<times> string \<times> string \<times> string" where
  "by_name x = (case x of (name, current, available) \<Rightarrow> (name, current, available, name))"

definition listing_of :: "check_env \<Rightarrow> upd_method \<Rightarrow> string + (string \<times> string \<times> string \<times> string) list" where
  "listing_of E m = (case m of
     Winget \<Rightarrow> map_sum id (map by_package) (ck_winget E)
   | Choco \<Rightarrow> map_sum id (map by_name) (ck_choco E)
   | Scoop \<Rightarrow> map_sum id (map by_name) (ck_scoop E)
   | MsStore \<Rightarrow> map_sum id (map by_package) (ck_store E)
   | Native \<Rightarrow> Inr [])"

definition managers_pass ::
  "check_env \<Rightarrow> updater_config \<Rightarrow> string set \<Rightarrow> upd_method list \<Rightarrow> collected \<times> string set \<times> string list \<times> bool" where
  "managers_pass E cfg learned available =
     fold (\<lambda>m. take_listing (ck_low E) cfg learned (Native \<in> set available) m (listing_of E m))
       (filter (\<lambda>m. m \<in> set available) [Winget, Choco, Scoop, MsStore])
       (nothing_collected, {}, [], False)"

text \<open>Native candidates join only under an identity no manager covers, once each.\<close>

fun add_new :: "string set \<Rightarrow> update_candidate list \<Rightarrow> update_candidate list" where
  "add_new seen [] = []"
| "add_new seen (c # cs) =
     (if uc_id c \<in> seen then add_new seen cs else c # add_new (insert (uc_id c) seen) cs)"

definition no_ai_note :: string where
  "no_ai_note = ''AI provider not configured '' @ emdash @ '' only package-manager apps are checked.''"

definition no_native_note :: string where
  "no_native_note = ''AI-found installers disabled '' @ emdash @ '' only package-manager apps are checked.''"

definition unknown_version_note :: "string list \<Rightarrow> string list" where
  "unknown_version_note names =
     (if names = [] then []
      else [''Left to update themselves because their installed version is unknown: '' @ name_list names @ ''.''])"

text \<open>What the model's pass adds to the managers' candidates: candidates, cost, notes and errors.\<close>

definition native_pass ::
  "check_env \<Rightarrow> updater_config \<Rightarrow> upd_method list \<Rightarrow> string set \<Rightarrow> string option \<Rightarrow> string set \<Rightarrow> string set
     \<Rightarrow> (string \<times> instant) list \<Rightarrow> update_candidate list \<times> fnum \<times> string list \<times> bool \<times> (string \<times> instant) list" where
  "native_pass E cfg available learned target managed seen checks =
     (if Native \<in> set available then
        (case ck_reply E of
           Some reply \<Rightarrow>
             (let (r, checks) = check_unmanaged E cfg learned target managed (Winget \<in> set available) reply checks
              in (add_new seen (cr_candidates r), cr_cost r, cr_notes r, cr_errors r, checks))
         | None \<Rightarrow> ([], Fin 0, [no_ai_note], True, checks))
      else if uf_native cfg \<and> ck_reply E = None then ([], Fin 0, [no_ai_note], True, checks)
      else ([], Fin 0, [no_native_note], False, checks))"

definition for_target :: "string option \<Rightarrow> update_candidate list \<Rightarrow> update_candidate list" where
  "for_target target cands = (case target of
     None \<Rightarrow> cands
   | Some t \<Rightarrow> filter (\<lambda>c. eq_ignore_ascii_case (uc_id c) t) cands)"

definition collect ::
  "check_env \<Rightarrow> updater_config \<Rightarrow> upd_method list \<Rightarrow> string set \<Rightarrow> string option \<Rightarrow> (string \<times> instant) list
     \<Rightarrow> check_result \<times> (string \<times> instant) list" where
  "collect E cfg available learned target checks =
     (let (st, managed, notes1, err1) = managers_pass E cfg learned available;
          (natives, cost, notes2, err2, checks) = native_pass E cfg available learned target managed (co_seen st) checks
      in (\<lparr>cr_candidates = for_target target (co_candidates st @ natives), cr_cost = cost,
           cr_notes = notes1 @ unknown_version_note (co_unknown st) @ notes2, cr_errors = (err1 \<or> err2)\<rparr>, checks))"

section \<open>What a candidate went through\<close>

text \<open>The properties of a single candidate: filtered, with a known version and a usable method.\<close>

definition candidate_fits :: "updater_config \<Rightarrow> string set \<Rightarrow> upd_method list \<Rightarrow> update_candidate \<Rightarrow> bool" where
  "candidate_fits cfg learned available c =
     (\<not> should_skip cfg learned (uc_id c) \<and> version_known (uc_current c) \<and>
      uc_methods c \<noteq> [] \<and> set (uc_methods c) \<subseteq> set available)"

definition collected_ok :: "updater_config \<Rightarrow> string set \<Rightarrow> upd_method list \<Rightarrow> collected \<Rightarrow> bool" where
  "collected_ok cfg learned available st =
     (distinct (map uc_id (co_candidates st)) \<and>
      (\<forall>c \<in> set (co_candidates st). candidate_fits cfg learned available c \<and> uc_id c \<in> co_seen st \<and>
         base_id (uc_id c) \<in> co_seen st \<and> uc_package c \<noteq> None))"

lemma collected_ok_push:
  assumes "collected_ok cfg learned available st" and "m \<in> set available"
  shows "collected_ok cfg learned available (push_update u cfg learned (Native \<in> set available) m x st)"
proof -
  obtain name current available' package where x: "x = (name, current, available', package)" by (metis prod_cases4)
  show ?thesis
    using assms
    by (auto simp: collected_ok_def push_update_def x Let_def new_candidate_def candidate_fits_def)
qed

lemma collected_ok_listing:
  assumes "collected_ok cfg learned available st" and "m \<in> set available"
  shows "collected_ok cfg learned available
    (fst (take_listing u cfg learned (Native \<in> set available) m listing (st, managed, notes, err)))"
proof -
  have "collected_ok cfg learned available (fold (push_update u cfg learned (Native \<in> set available) m) xs st)" for xs
    using assms by (induction xs arbitrary: st) (simp_all add: collected_ok_push)
  then show ?thesis using assms by (simp add: take_listing_def split: sum.split)
qed

lemma managers_pass_ok: "collected_ok cfg learned available (fst (managers_pass E cfg learned available))"
proof -
  have "collected_ok cfg learned available (fst (fold (\<lambda>m. take_listing (ck_low E) cfg learned
      (Native \<in> set available) m (listing_of E m)) ms acc))"
    if "set ms \<subseteq> set available" "collected_ok cfg learned available (fst acc)" for ms acc
    using that
  proof (induction ms arbitrary: acc)
    case (Cons m ms)
    obtain st managed ns err where "acc = (st, managed, ns, err)" by (metis prod_cases4)
    then show ?case using Cons by (simp add: collected_ok_listing)
  qed simp
  moreover have "collected_ok cfg learned available nothing_collected"
    by (simp add: collected_ok_def nothing_collected_def)
  ultimately show ?thesis unfolding managers_pass_def by (simp add: subset_iff)
qed

text \<open>A native candidate is an installed app, strictly older than what the model reports.\<close>

lemma native_candidate_ok:
  assumes "native_candidate u sem cfg learned installed nl = Some c"
  shows "\<not> should_skip cfg learned (uc_id c) \<and> version_known (uc_current c) \<and>
    is_newer sem (uc_available c) (uc_current c) \<and> (uc_id c, uc_current c) \<in> set installed \<and>
    uc_package c = None \<and> uc_methods c = [Native]"
proof -
  obtain name latest i cur where x: "nl = (name, latest)" "match_installed_entry u installed name = Some (i, cur)"
    "\<not> (\<not> version_known cur \<or> \<not> is_newer sem latest cur)" "\<not> should_skip cfg learned i"
    "c = new_candidate u cfg i name cur latest None [Native]"
    using assms by (auto simp: native_candidate_def split: prod.splits if_splits option.splits)
  have "(i, cur) \<in> set installed"
    using x(2) by (auto simp: match_installed_entry_def Let_def map_of_SomeD filter_eq_Cons_iff
        split: option.splits if_splits list.splits)
  then show ?thesis using x by (simp add: new_candidate_def)
qed

lemma add_new_ok:
  "set (add_new seen cs) \<subseteq> set cs \<and> distinct (map uc_id (add_new seen cs)) \<and>
   (\<forall>c \<in> set (add_new seen cs). uc_id c \<notin> seen)"
proof (induction cs arbitrary: seen)
  case (Cons c cs)
  show ?case using Cons [of seen] Cons [of "insert (uc_id c) seen"] by (cases "uc_id c \<in> seen") auto
qed simp

text \<open>The apps of a batch: not skipped, not covered by a manager, not installed for one user only.\<close>

definition app_allowed :: "(string \<Rightarrow> string) \<Rightarrow> updater_config \<Rightarrow> string set \<Rightarrow> string set \<Rightarrow> string \<Rightarrow> bool" where
  "app_allowed u cfg learned managed name =
     (app_id u name \<notin> managed \<and> \<not> should_skip cfg learned (app_id u name))"

definition apps_allowed ::
  "(string \<Rightarrow> string) \<Rightarrow> updater_config \<Rightarrow> string set \<Rightarrow> string set \<Rightarrow> found_apps \<Rightarrow> bool" where
  "apps_allowed u cfg learned managed st = (\<forall>(n, v) \<in> set (fst st). app_allowed u cfg learned managed n)"

lemma app_id_clean: "app_id u (clean_app_name n) = app_id u n"
  by (simp add: app_id_def clean_idem)

lemma parse_unmanaged_free: "(n, v) \<in> set (parse_unmanaged u out managed) \<Longrightarrow> app_id u n \<notin> managed"
  by (auto simp: parse_unmanaged_def map_filter_def unmanaged_row_def Let_def app_id_clean
      split: prod.splits if_splits)

lemma apps_allowed_fold:
  assumes "\<And>x st. x \<in> set xs \<Longrightarrow> apps_allowed u cfg learned managed st \<Longrightarrow> apps_allowed u cfg learned managed (f x st)"
    and "apps_allowed u cfg learned managed st"
  shows "apps_allowed u cfg learned managed (fold f xs st)"
  using assms by (induction xs arbitrary: st) simp_all

lemma apps_allowed_listed: "apps_allowed u cfg learned managed (fst (listed_apps E cfg learned managed w))"
  if "u = ck_low E"
proof -
  have "apps_allowed u cfg learned managed
      (fold (add_listed_app u cfg learned) (parse_unmanaged u out managed) ([], {}))" for out
  proof (rule apps_allowed_fold)
    fix x st assume "x \<in> set (parse_unmanaged u out managed)" "apps_allowed u cfg learned managed st"
    then show "apps_allowed u cfg learned managed (add_listed_app u cfg learned x st)"
      using parse_unmanaged_free [of "fst x" "snd x" u out managed]
      by (cases st) (auto simp: add_listed_app_def apps_allowed_def app_allowed_def Let_def)
  qed (simp add: apps_allowed_def)
  then show ?thesis using that by (simp add: listed_apps_def apps_allowed_def split: sum.split)
qed

lemma set_replace_version: "fst ` set (replace_version u key v as) = fst ` set as"
proof (induction as)
  case (Cons a as)
  then show ?case by (cases a; cases "app_id u (fst a) = key") simp_all
qed simp

lemma apps_allowed_names: "apps_allowed u cfg learned managed st \<longleftrightarrow> (\<forall>n \<in> fst ` set (fst st). app_allowed u cfg learned managed n)"
  by (auto simp: apps_allowed_def)

lemma apps_allowed_merge:
  assumes "apps_allowed u cfg learned managed st" and "app_allowed u cfg learned managed (fst nv)"
  shows "apps_allowed u cfg learned managed (merge_registry_app u nv st)"
proof -
  obtain apps seen name v where x: "st = (apps, seen)" "nv = (name, v)" by (cases st, cases nv) blast
  have "apps_allowed u cfg learned managed (replace_version u (app_id u name) v apps, seen)"
    using assms(1) unfolding apps_allowed_names x fst_conv set_replace_version .
  then show ?thesis using assms by (simp add: merge_registry_app_def apps_allowed_names x Let_def)
qed

lemma apps_allowed_registry:
  assumes "apps_allowed u cfg learned managed st"
  shows "apps_allowed u cfg learned managed (add_registry_app u cfg learned managed nv st)"
  using assms apps_allowed_merge [of u cfg learned managed st nv]
  by (simp add: add_registry_app_def app_allowed_def Let_def)

lemma select_stalest:
  "fst (select_unmanaged_batch u apps since cap) =
     take_stalest (\<lambda>(n, v). app_id u n) cap (\<lambda>i. case since i of Some t \<Rightarrow> t | None \<Rightarrow> 0) apps"
  by (simp add: select_unmanaged_batch_def take_stalest_def Let_def case_prod_unfold)

lemma batch_allowed:
  assumes "unmanaged_batch E cfg learned target managed w checks = (checked, ns, err)" and "(n, v) \<in> set checked"
  shows "app_allowed (ck_low E) cfg learned managed n \<and>
    (\<forall>found. ck_inventory E = Inr found \<longrightarrow>
       app_id (ck_low E) n \<notin> app_id (ck_low E) ` set (per_user_apps (ck_low E) cfg learned managed found)) \<and>
    length checked \<le> AI_CHECK_CAP"
proof -
  define u where "u = ck_low E"
  obtain st n1 e1 where a: "listed_apps E cfg learned managed w = (st, n1, e1)" by (metis prod_cases3)
  obtain apps n2 e2 where b: "inventory_apps E cfg learned managed st = (apps, n2, e2)" by (metis prod_cases3)
  have st: "apps_allowed u cfg learned managed st"
    using apps_allowed_listed [OF u_def, of cfg learned managed w] by (simp add: a)
  then have merged: "apps_allowed u cfg learned managed (fold (add_registry_app u cfg learned managed) xs st)" for xs
    by (rule apps_allowed_fold [rotated]) (rule apps_allowed_registry)
  define pool where "pool = (case target of None \<Rightarrow> apps | Some t \<Rightarrow> filter (\<lambda>(n, v). eq_ignore_ascii_case (app_id u n) t) apps)"
  define since where "since = (case ck_times_error E of None \<Rightarrow> last_check_time checks | Some e \<Rightarrow> (\<lambda>i. None))"
  obtain ch inc where sel: "select_unmanaged_batch u pool since AI_CHECK_CAP = (ch, inc)" by fastforce
  have "checked = fst (select_unmanaged_batch u pool since AI_CHECK_CAP)"
    using assms(1) sel
    by (cases "ck_times_error E"; cases target) (auto simp: unmanaged_batch_def a b Let_def pool_def since_def u_def)
  then have pool: "(n, v) \<in> set pool" "length checked \<le> AI_CHECK_CAP"
    using assms(2) by (auto simp: select_stalest take_stalest_def dest: in_set_takeD)
  moreover have "set pool \<subseteq> set apps" by (auto simp: pool_def split: option.splits)
  ultimately have mem: "(n, v) \<in> set apps" "length checked \<le> AI_CHECK_CAP" by blast+
  show ?thesis
  proof (cases "ck_inventory E")
    case (Inl e)
    then show ?thesis using mem b st by (auto simp: inventory_apps_def apps_allowed_def u_def)
  next
    case (Inr found)
    then have "apps = filter (\<lambda>(n, v). \<not> list_ex (\<lambda>user_app. app_id u user_app = app_id u n)
        (per_user_apps u cfg learned managed found)) (fst (fold (add_registry_app u cfg learned managed) (iv_apps found) st))"
      using b by (simp add: inventory_apps_def Let_def u_def)
    then show ?thesis
      using mem merged [of "iv_apps found"] Inr by (auto simp: apps_allowed_def list_ex_iff simp flip: u_def)
  qed
qed

lemma mem_tbl_put: "x \<in> set (tbl_put k v t) \<Longrightarrow> x = (k, v) \<or> x \<in> set t"
  by (induction k v t rule: tbl_put.induct) (auto split: if_splits)

lemma checked_entry:
  assumes "(i, v) \<in> set (fold (\<lambda>(n, v). tbl_put (app_id u n) v) checked t)"
  shows "(i, v) \<in> set t \<or> (\<exists>n. app_id u n = i \<and> (n, v) \<in> set checked)"
  using assms
proof (induction checked arbitrary: t)
  case (Cons x xs)
  obtain n w where x: "x = (n, w)" by fastforce
  have "(i, v) \<in> set (fold (\<lambda>(n, v). tbl_put (app_id u n) v) xs (tbl_put (app_id u n) w t))"
    using Cons.prems by (simp add: x)
  from Cons.IH [OF this] mem_tbl_put [of "(i, v)" "app_id u n" w t] show ?case by (auto simp: x)
qed simp

lemma native_batch:
  assumes "c \<in> set (cr_candidates (fst (check_unmanaged E cfg learned target managed w reply checks)))"
  shows "\<not> should_skip cfg learned (uc_id c) \<and> version_known (uc_current c) \<and>
    uc_package c = None \<and> uc_methods c = [Native] \<and> is_newer (ck_sem E) (uc_available c) (uc_current c) \<and>
    (\<exists>name. app_id (ck_low E) name = uc_id c \<and>
       (name, uc_current c) \<in> set (fst (unmanaged_batch E cfg learned target managed w checks)))"
proof -
  obtain checked ns err where b: "unmanaged_batch E cfg learned target managed w checks = (checked, ns, err)"
    by (metis prod_cases3)
  obtain updates where "c \<in> set (native_candidates_from (ck_low E) (ck_sem E) updates
      (fold (\<lambda>(n, v). tbl_put (app_id (ck_low E) n) v) checked []) cfg learned)"
    using assms by (auto simp: check_unmanaged_def ask_model_def b Let_def split: if_splits sum.splits)
  then obtain nl where "native_candidate (ck_low E) (ck_sem E) cfg learned
      (fold (\<lambda>(n, v). tbl_put (app_id (ck_low E) n) v) checked []) nl = Some c"
    by (auto simp: native_candidates_from_def map_filter_def)
  from native_candidate_ok [OF this] checked_entry [of "uc_id c" "uc_current c" "ck_low E" checked "[]"]
  show ?thesis by (simp add: b)
qed

lemma collect_candidates:
  assumes "collect E cfg available learned target checks = (r, checks')"
    and "managers_pass E cfg learned available = (st, managed, ns, err)"
  shows "\<exists>natives. cr_candidates r = for_target target (co_candidates st @ natives) \<and>
    (natives = [] \<or> Native \<in> set available \<and>
      (\<exists>reply. natives = add_new (co_seen st)
        (cr_candidates (fst (check_unmanaged E cfg learned target managed (Winget \<in> set available) reply checks)))))"
proof -
  obtain natives cost notes2 err2 c2 where n: "native_pass E cfg available learned target managed (co_seen st) checks =
      (natives, cost, notes2, err2, c2)" by (metis prod_cases5)
  have "natives = [] \<or> Native \<in> set available \<and>
      (\<exists>reply. natives = add_new (co_seen st)
        (cr_candidates (fst (check_unmanaged E cfg learned target managed (Winget \<in> set available) reply checks))))"
  proof (cases "Native \<in> set available \<and> ck_reply E \<noteq> None")
    case True
    then obtain reply where reply: "ck_reply E = Some reply" by blast
    obtain r2 c3 where "check_unmanaged E cfg learned target managed (Winget \<in> set available) reply checks = (r2, c3)"
      by fastforce
    then show ?thesis using n True reply by (auto simp: native_pass_def intro!: exI [of _ reply])
  next
    case False
    then show ?thesis using n by (auto simp: native_pass_def split: if_splits option.splits)
  qed
  moreover have "cr_candidates r = for_target target (co_candidates st @ natives)"
    using assms n by (auto simp: collect_def)
  ultimately show ?thesis by blast
qed

lemma native_pass_fits:
  assumes "c \<in> set (cr_candidates (fst (check_unmanaged E cfg learned target managed w reply checks)))"
    and "Native \<in> set available"
  shows "candidate_fits cfg learned available c"
  using native_batch [OF assms(1)] assms(2) by (simp add: candidate_fits_def)

lemma collected_fits:
  assumes "collect E cfg available learned target checks = (r, checks')"
  shows "distinct (map uc_id (cr_candidates r)) \<and> (\<forall>c \<in> set (cr_candidates r). candidate_fits cfg learned available c)"
proof -
  obtain st managed ns err where m: "managers_pass E cfg learned available = (st, managed, ns, err)" by (metis prod_cases4)
  have st: "collected_ok cfg learned available st" using managers_pass_ok [of cfg learned available E] by (simp add: m)
  obtain natives where cands: "cr_candidates r = for_target target (co_candidates st @ natives)"
    and two: "natives = [] \<or> Native \<in> set available \<and> (\<exists>reply. natives = add_new (co_seen st)
        (cr_candidates (fst (check_unmanaged E cfg learned target managed (Winget \<in> set available) reply checks))))"
    using collect_candidates [OF assms m] by blast
  have fresh: "distinct (map uc_id natives) \<and> (\<forall>c \<in> set natives. uc_id c \<notin> co_seen st \<and> candidate_fits cfg learned available c)"
    using two
  proof
    assume n: "Native \<in> set available \<and> (\<exists>reply. natives = add_new (co_seen st)
        (cr_candidates (fst (check_unmanaged E cfg learned target managed (Winget \<in> set available) reply checks))))"
    then obtain reply where "natives = add_new (co_seen st)
        (cr_candidates (fst (check_unmanaged E cfg learned target managed (Winget \<in> set available) reply checks)))" by blast
    then show ?thesis using add_new_ok [of "co_seen st"] native_pass_fits n by (metis subsetD)
  qed simp
  then have "distinct (map uc_id (co_candidates st @ natives))" "\<forall>c \<in> set (co_candidates st @ natives). candidate_fits cfg learned available c"
    using st by (auto simp: collected_ok_def)
  moreover have "set (for_target target (co_candidates st @ natives)) \<subseteq> set (co_candidates st @ natives)"
    by (auto simp: for_target_def split: option.splits)
  moreover have "distinct (map uc_id (for_target target (co_candidates st @ natives)))"
    using calculation(1) unfolding for_target_def by (cases target) (simp_all only: option.case distinct_map_filter)
  ultimately show ?thesis unfolding cands by blast
qed


section \<open>A check at concrete inputs\<close>

definition vlc_env :: check_env where
  "vlc_env = \<lparr>ck_low = (\<lambda>s. s), ck_sem = (\<lambda>a b. None),
     ck_winget = Inr [\<lparr>au_id = ''VideoLAN.VLC'', au_name = ''VLC'', au_current = ''3.0'', au_available = ''3.1''\<rparr>],
     ck_choco = Inr [(''vlc.install'', ''3.0'', ''3.1''), (''discord'', ''1.0'', ''1.1'')], ck_scoop = Inr [], ck_store = Inr [],
     ck_list = (0, []), ck_no_winget = None, ck_inventory = Inr \<lparr>iv_apps = [], iv_per_user = [], iv_warnings = []\<rparr>,
     ck_times_error = None, ck_record_error = None, ck_reply = None, ck_read = (\<lambda>s. Inr []), ck_now = 0\<rparr>"

definition plain_config :: updater_config where
  "plain_config =
     \<lparr>uf_enabled = True, uf_interval = 300, uf_methods = [''winget'', ''choco''], uf_native = False,
      uf_policy = RequireValid, uf_max_attempts = 3, uf_max_apps = 20, uf_max_mb = 256, uf_bootstrap = False,
      uf_ignored = [], uf_notes = [], uf_learned = []\<rparr>"

lemma vlc_check:
  "map uc_id (cr_candidates (fst (collect vlc_env plain_config [Winget, Choco] {} None []))) = [''vlc'']"
  by code_simp


text \<open>
  The identity of a native candidate is the installed app's, but its name is the one the model
  gave, and the URL gate compares hosts with that name: a name that adds a word in front of an
  installed app's name makes the domain of that word acceptable.
\<close>

lemma plain_version_newer: "is_newer (\<lambda>a b. None) ''6.0'' ''5.0''"
proof -
  have t: "trim ''6.0'' = ''6.0''" "trim ''5.0'' = ''5.0''" by code_simp+
  have "numeric_components ''6.0'' = Some [6, 0]" "numeric_components ''5.0'' = Some [5, 0]"
    by (simp_all add: numeric_components_def numeric_head_def normalize_version_def t trim_start_matches_def
        is_ascii_digit_def byte_def parse_digits_def digits_val_def)
  then show ?thesis
    by (simp add: is_newer_def t is_marketing_truncation_def version_cmp_def normalize_version_def
        trim_start_matches_def compare_nats_def resized_def padded_cmp_def)
qed

lemma model_names_the_vendor:
  "\<exists>c. native_candidates_from (\<lambda>s. s) (\<lambda>a b. None) [(''evil krita'', ''6.0'')] [(''krita'', ''5.0'')] plain_config {} = [c] \<and>
     uc_id c = ''krita'' \<and> host_acceptable (\<lambda>s. s) ''evil.com'' (uc_name c) \<and>
     \<not> host_acceptable (\<lambda>s. s) ''evil.com'' ''krita''"
proof -
  have "match_installed_entry (\<lambda>s. s) [(''krita'', ''5.0'')] ''evil krita'' = Some (''krita'', ''5.0'')" by code_simp
  moreover have "trim ''evil krita'' \<noteq> []" "trim ''6.0'' \<noteq> []" "version_known ''5.0''"
    "\<not> should_skip plain_config {} ''krita''" by code_simp+
  ultimately have "native_candidate (\<lambda>s. s) (\<lambda>a b. None) plain_config {} [(''krita'', ''5.0'')] (''evil krita'', ''6.0'') =
      Some (new_candidate (\<lambda>s. s) plain_config ''krita'' ''evil krita'' ''5.0'' ''6.0'' None [Native])"
    by (simp add: native_candidate_def plain_version_newer)
  moreover have "host_acceptable (\<lambda>s. s) ''evil.com'' ''evil krita''" "\<not> host_acceptable (\<lambda>s. s) ''evil.com'' ''krita''"
    by code_simp+
  ultimately show ?thesis by (simp add: native_candidates_from_def map_filter_def new_candidate_def)
qed

end
