(* ===== verification/Updater_Cycle.thy ===== *)
theory Updater_Cycle
  imports Updater_Check Updater_Heal Learn_Store
begin

text \<open>
  One update cycle and one targeted retry (\<open>updater/orchestrator.rs\<close>): check, order the candidates
  by how long ago each was tried, leave out the paused ones, heal up to the cap, record every
  attempt, learn from them, and decide whether the cycle was clean. The state is the update
  history and the learned facts.
\<close>

section \<open>Usable methods\<close>

text \<open>
  What the machine has: winget, Chocolatey (before and after an attempt to install it), and
  Scoop.
\<close>

record machine =
  mc_winget :: bool
  mc_choco :: bool
  mc_bootstrapped :: bool
  mc_scoop :: bool

definition available_methods :: "updater_config \<Rightarrow> bool \<Rightarrow> machine \<Rightarrow> upd_method list" where
  "available_methods cfg ai M =
     (let enabled = List.map_filter from_token (uf_methods cfg);
          winget_present = ((Winget \<in> set enabled \<or> MsStore \<in> set enabled) \<and> mc_winget M)
      in (if Winget \<in> set enabled \<and> winget_present then [Winget] else []) @
         (if Choco \<in> set enabled \<and> (mc_choco M \<or> uf_bootstrap cfg \<and> mc_bootstrapped M) then [Choco] else []) @
         (if Scoop \<in> set enabled \<and> mc_scoop M then [Scoop] else []) @
         (if MsStore \<in> set enabled \<and> winget_present then [MsStore] else []) @
         (if uf_native cfg \<and> ai then [Native] else []))"

section \<open>The outcome of a cycle\<close>

record cycle_summary =
  cs_results :: "(update_candidate \<times> attempt_outcome list) list"
  cs_notes :: "string list"
  cs_cost :: fnum
  cs_completed :: int
  cs_clean :: int
  cs_targeted :: bool
  cs_guidance :: "(string \<times> string) option"

definition app_completed_cleanly :: "attempt_outcome list \<Rightarrow> bool" where
  "app_completed_cleanly xs = (list_ex ao_success xs \<or> xs \<noteq> [] \<and> ao_category (last xs) = Some AlreadyCurrent)"

definition cycle_completed_cleanly :: "bool \<Rightarrow> nat \<Rightarrow> attempt_outcome list list \<Rightarrow> bool" where
  "cycle_completed_cleanly had_errors deferred xss =
     (\<not> had_errors \<and> deferred = 0 \<and> list_all app_completed_cleanly xss)"

definition warning_row :: "string \<Rightarrow> app_row" where
  "warning_row detail =
     \<lparr>row_id = ''update-check'', row_name = ''Update check'', row_from = [], row_to = [], row_method = [],
      row_state = ''failed'', row_detail = detail, row_signature = [], row_ignored = False, row_note = []\<rparr>"

text \<open>The attempt an app's row shows: the first success, else the last one tried.\<close>

definition winner :: "attempt_outcome list \<Rightarrow> attempt_outcome option" where
  "winner xs = (case find ao_success xs of Some x \<Rightarrow> Some x | None \<Rightarrow> if xs = [] then None else Some (last xs))"

definition winner_state :: "attempt_outcome \<Rightarrow> string" where
  "winner_state x =
     (if ao_category x = Some AlreadyCurrent then ''current''
      else if ao_success x then (if ao_verification x = Verified then ''verified'' else ''installed'')
      else ''failed'')"

definition result_row :: "updater_config \<Rightarrow> update_candidate \<times> attempt_outcome list \<Rightarrow> app_row" where
  "result_row cfg r =
     (let (cand, xs) = r;
          base = \<lparr>row_id = uc_id cand, row_name = uc_name cand, row_from = uc_current cand, row_to = [],
                  row_method = [], row_state = ''skipped'', row_detail = ''no available method'',
                  row_signature = [], row_ignored = False,
                  row_note = or_empty (tbl_get (uf_notes cfg) (uc_id cand))\<rparr>
      in case winner xs of
           None \<Rightarrow> base
         | Some x \<Rightarrow>
             (let current = (ao_category x = Some AlreadyCurrent);
                  from = (if current \<and> or_empty (ao_installed x) \<noteq> [] then or_empty (ao_installed x)
                          else uc_current cand)
              in base\<lparr>row_from := from,
                      row_to := (if current then from
                                 else case ao_installed x of Some v \<Rightarrow> v | None \<Rightarrow> uc_available cand),
                      row_method := as_str (ao_method x), row_state := winner_state x,
                      row_detail := ao_detail x, row_signature := or_empty (ao_signature x)\<rparr>))"

definition app_rows :: "cycle_summary \<Rightarrow> updater_config \<Rightarrow> app_row list" where
  "app_rows s cfg =
     (let rows = map (result_row cfg) (cs_results s) in
      if rows = [] \<and> cs_clean s = 0
      then [warning_row ''Check finished with warnings; review the notes below.''] else rows)"

section \<open>One cycle\<close>

text \<open>
  What a cycle meets outside the service: the check's answers, each app's healing, the database's
  errors, and the clock: when the pauses are read, when each app's attempts are recorded, when
  the facts are refreshed and when the cycle ends. \<open>cy_describe\<close> is the local-time text of a pause.
\<close>

record cycle_env =
  cy_config :: updater_config
  cy_ai :: bool
  cy_machine :: machine
  cy_check :: check_env
  cy_heal :: "update_candidate \<Rightarrow> heal_env"
  cy_describe :: "pause \<Rightarrow> string"
  cy_skips_read :: bool
  cy_facts_read :: bool
  cy_attempts_read :: bool
  cy_records_error :: "string option"
  cy_pause_at :: instant
  cy_record_error :: "string \<Rightarrow> string option"
  cy_tried_at :: "string \<Rightarrow> instant"
  cy_learned_at :: instant
  cy_completed :: int
  cy_clean_error :: "string option"

definition sum_costs :: "attempt_outcome list \<Rightarrow> fnum" where
  "sum_costs xs = fold (\<lambda>x s. f_add f64 s (ao_cost x)) xs (Fin 0)"

text \<open>When an identity was last tried, 0 when never or when the table cannot be read.\<close>

definition tried_since :: "cycle_env \<Rightarrow> history \<Rightarrow> string \<Rightarrow> int" where
  "tried_since E h i =
     (if cy_attempts_read E then (case last_attempt_time (h_rows h) i of Some t \<Rightarrow> t | None \<Rightarrow> 0) else 0)"

definition pause_now :: "cycle_env \<Rightarrow> history \<Rightarrow> string \<Rightarrow> pause option" where
  "pause_now E h i =
     (case cy_records_error E of
        None \<Rightarrow> pause_of (attempt_records (cy_pause_at E) h) (unix_seconds (cy_pause_at E)) i
      | Some e \<Rightarrow> None)"

text \<open>The candidates in the order of the last attempt, without the paused ones; and the paused ones.\<close>

definition due_candidates :: "cycle_env \<Rightarrow> history \<Rightarrow> update_candidate list \<Rightarrow> update_candidate list" where
  "due_candidates E h cands =
     filter (\<lambda>c. pause_now E h (uc_id c) = None) (sort_key (\<lambda>c. tried_since E h (uc_id c)) cands)"

definition paused_candidates :: "cycle_env \<Rightarrow> history \<Rightarrow> update_candidate list \<Rightarrow> (update_candidate \<times> pause) list" where
  "paused_candidates E h cands =
     List.map_filter (\<lambda>c. map_option (Pair c) (pause_now E h (uc_id c)))
       (sort_key (\<lambda>c. tried_since E h (uc_id c)) cands)"

definition paused_result :: "(pause \<Rightarrow> string) \<Rightarrow> update_candidate \<times> pause \<Rightarrow> update_candidate \<times> attempt_outcome list" where
  "paused_result describe cp =
     (let (cand, p) = cp;
          m = (case from_token (pu_method p) of
                 Some m \<Rightarrow> m
               | None \<Rightarrow> (case uc_methods cand of m # _ \<Rightarrow> m | [] \<Rightarrow> Native))
      in (cand, [failed_outcome m Blocked (describe p)]))"

text \<open>Healing one candidate: its attempts are recorded, their cost added.\<close>

record progress =
  pg_results :: "(update_candidate \<times> attempt_outcome list) list"
  pg_spent :: fnum
  pg_notes :: "string list"
  pg_errors :: bool
  pg_history :: history

definition heal_one ::
  "cycle_env \<Rightarrow> int \<Rightarrow> upd_method list \<Rightarrow> learned_facts \<Rightarrow> update_candidate \<Rightarrow> progress \<Rightarrow> progress" where
  "heal_one E cycle available lf cand pg =
     (let xs = heal (cy_heal E cand) (uf_max_attempts (cy_config E)) cand available lf;
          pg = pg\<lparr>pg_results := pg_results pg @ [(cand, xs)], pg_spent := f_add f64 (pg_spent pg) (sum_costs xs)\<rparr>
      in case record_attempts (cy_record_error E (uc_id cand) = None) cycle (cy_tried_at E (uc_id cand)) cand xs
                (pg_history pg) of
           Some h \<Rightarrow> pg\<lparr>pg_history := h\<rparr>
         | None \<Rightarrow>
             pg\<lparr>pg_notes := pg_notes pg @ [''failed to record update history for '' @ uc_name cand @ '': '' @
                                           or_empty (cy_record_error E (uc_id cand))],
                pg_errors := True\<rparr>)"

definition deferred_note :: "nat \<Rightarrow> nat \<Rightarrow> string list" where
  "deferred_note deferred cap =
     (if deferred = 0 then []
      else [show_nat deferred @ '' more app(s) past the per-run cap of '' @ show_nat cap @ '' '' @ emdash @
            '' deferred to a later cycle (stalest first).''])"

definition records_note :: "cycle_env \<Rightarrow> string list" where
  "records_note E = (case cy_records_error E of
     None \<Rightarrow> []
   | Some e \<Rightarrow> [''couldn'' @ apos @ ''t read update history for repeated failures: '' @ e])"

text \<open>The check of a cycle, and the candidates it leaves for this run.\<close>

definition cycle_check :: "cycle_env \<Rightarrow> history \<times> facts \<Rightarrow> upd_method list \<times> check_result \<times> history" where
  "cycle_check E st =
     (let (h, fs) = st; available = available_methods (cy_config E) (cy_ai E) (cy_machine E);
          skips = (if cy_skips_read E then set (active_self_updater_subjects fs) else {});
          (check, checks) = collect (cy_check E) (cy_config E) available skips None (h_checks h)
      in (available, check, h\<lparr>h_checks := checks\<rparr>))"

definition learn_from_history :: "(string \<Rightarrow> string) \<Rightarrow> instant \<Rightarrow> history \<Rightarrow> facts \<Rightarrow> facts" where
  "learn_from_history u now h fs =
     analyse_updates u now (map ur_attempt (filter (\<lambda>r. now - int WINDOW_DAYS * day < ur_at r) (h_rows h))) fs"

text \<open>A clean cycle is stored; when that fails it does not count as one.\<close>

definition store_clean :: "cycle_env \<Rightarrow> bool \<Rightarrow> history \<Rightarrow> int \<times> string list \<times> history" where
  "store_clean E clean h =
     (if \<not> clean then (0, [], h)
      else (case cy_clean_error E of
              Some e \<Rightarrow> (0, [''failed to persist clean update cycle: '' @ e], h)
            | None \<Rightarrow>
                (case record_clean_run (cy_completed E) h of
                   Some h' \<Rightarrow> (cy_completed E, [], h')
                 | None \<Rightarrow> (0, [''failed to persist clean update cycle: update-run timestamp must be positive''], h))))"

definition run_cycle :: "cycle_env \<Rightarrow> int \<Rightarrow> history \<times> facts \<Rightarrow> cycle_summary \<times> history \<times> facts" where
  "run_cycle E cycle st =
     (let (available, check, h) = cycle_check E st; fs = snd st;
          lf = load_facts (if cy_facts_read E then Some (active_facts fs) else None);
          due = due_candidates E h (cr_candidates check);
          paused = paused_candidates E h (cr_candidates check);
          cap = uf_max_apps (cy_config E);
          deferred = length due - cap;
          pg = fold (heal_one E cycle available lf) (take cap due)
             \<lparr>pg_results = [], pg_spent = cr_cost check,
              pg_notes = cr_notes check @ (if available = [] then [''No usable update source is available.''] else []) @
                         records_note E @ deferred_note deferred cap,
              pg_errors = (cr_errors check \<or> available = [] \<or> cy_records_error E \<noteq> None),
              pg_history = h\<rparr>;
          results = pg_results pg @ map (paused_result (cy_describe E)) paused;
          fs = learn_from_history (ck_low (cy_check E)) (cy_learned_at E) (pg_history pg) fs;
          (clean, notes, h) = store_clean E (cycle_completed_cleanly (pg_errors pg) deferred (map snd results)) (pg_history pg)
      in (\<lparr>cs_results = results, cs_notes = pg_notes pg @ notes, cs_cost = pg_spent pg, cs_completed = cy_completed E,
           cs_clean = clean, cs_targeted = False, cs_guidance = None\<rparr>, h, fs))"

section \<open>Guidance\<close>

definition one_line :: "string \<Rightarrow> string" where
  "one_line text = join '' '' (split_whitespace text)"

definition is_link :: "string \<Rightarrow> bool" where
  "is_link word = (starts_with ''https://'' word \<or> starts_with ''http://'' word)"

definition link_tail :: string where
  "link_tail = [CHR ''.'', CHR '','', CHR '';'', CHR '')'', CHR '']'', CHR 0x7D]"

definition guidance_urls :: "string \<Rightarrow> string list" where
  "guidance_urls text = map (trim_end_matches link_tail) (filter is_link (split_whitespace text))"

definition answer_quotes :: string where "answer_quotes = [CHR 0x60, CHR 0x22]"

definition rewrite_limit :: "nat \<Rightarrow> nat" where
  "rewrite_limit n = min (n + max (n div 4) 40) MAX_APP_NOTE_CHARS"

definition keeps_urls :: "string \<Rightarrow> string \<Rightarrow> bool" where
  "keeps_urls original proposed =
     (list_all (\<lambda>v. contains_str v proposed) (guidance_urls original) \<and>
      list_all (\<lambda>v. v \<in> set (guidance_urls original)) (guidance_urls proposed))"

definition concise_guidance :: "string \<Rightarrow> string \<Rightarrow> string" where
  "concise_guidance original proposed =
     (let original = one_line original; proposed = one_line (trim_matches answer_quotes (trim proposed)) in
      if proposed \<noteq> [] \<and> char_count proposed \<le> rewrite_limit (char_count original) \<and> keeps_urls original proposed
      then proposed else original)"

text \<open>\<open>reply\<close> is the model's text with its price, \<open>None\<close> without a provider, \<open>Inl\<close> a failed call.\<close>

type_synonym text_reply = "(string + (string \<times> fnum option)) option"

definition refine_guidance :: "text_reply \<Rightarrow> string \<Rightarrow> string \<times> fnum" where
  "refine_guidance reply guidance = (case reply of
     Some (Inr (text, usage)) \<Rightarrow> (concise_guidance guidance text, usage_cost usage)
   | _ \<Rightarrow> (one_line guidance, Fin 0))"

definition explain_retry_failure :: "text_reply \<Rightarrow> string option \<times> fnum" where
  "explain_retry_failure reply = (case reply of
     Some (Inr (text, usage)) \<Rightarrow>
       (let explanation = take_chars 500 (one_line (trim_matches answer_quotes (trim text)))
        in (if explanation = [] then None else Some explanation, usage_cost usage))
   | _ \<Rightarrow> (None, Fin 0))"

definition guided_failure_needs_explanation :: "update_candidate \<Rightarrow> attempt_outcome list \<Rightarrow> bool" where
  "guided_failure_needs_explanation cand xs =
     (uc_guidance cand \<noteq> None \<and> list_all (\<lambda>x. \<not> ao_success x) xs \<and>
      (if xs = [] then None else ao_category (last xs)) \<noteq> Some AlreadyCurrent)"

section \<open>One retry\<close>

record retry_env =
  rt_cycle :: cycle_env
  rt_text :: text_reply
  rt_installed :: "nat \<Rightarrow> string option"

definition unignore :: "string \<Rightarrow> updater_config \<Rightarrow> updater_config" where
  "unignore i cfg = cfg\<lparr>uf_ignored := filter (\<lambda>x. \<not> eq_ignore_ascii_case x i) (uf_ignored cfg)\<rparr>"

fun credit_guidance :: "attempt_outcome list \<Rightarrow> attempt_outcome list" where
  "credit_guidance [] = []"
| "credit_guidance (x # xs) =
     (if ao_success x then x\<lparr>ao_detail := ''Updated successfully using guidance. '' @ ao_detail x\<rparr> # xs
      else x # credit_guidance xs)"

text \<open>A candidate found: it is healed, and guidance that helped is refined and kept.\<close>

definition retry_found ::
  "retry_env \<Rightarrow> updater_config \<Rightarrow> upd_method list \<Rightarrow> learned_facts \<Rightarrow> update_candidate
     \<Rightarrow> attempt_outcome list \<times> fnum \<times> (string \<times> string) option" where
  "retry_found R cfg available lf cand =
     (let xs = heal (cy_heal (rt_cycle R) cand) (uf_max_attempts cfg) cand available lf in
      if \<not> list_ex ao_success xs then (xs, Fin 0, None)
      else (case uc_guidance cand of
              None \<Rightarrow> (xs, Fin 0, None)
            | Some g \<Rightarrow>
                (let (note, cost) = refine_guidance (rt_text R) g
                 in (credit_guidance xs, cost, Some (uc_id cand, note)))))"

definition unconfirmed_detail :: "string list \<Rightarrow> string" where
  "unconfirmed_detail notes =
     (let reason = join ''; '' (take 3 notes) in
      ''Re-check could not confirm an update: '' @
      (if reason = [] then ''the update sources returned no usable result'' else reason))"

definition current_detail :: "bool \<Rightarrow> string" where
  "current_detail guided =
     (if guided then ''Re-check completed with the saved guidance; no newer update is currently available.''
      else ''Re-check completed; no newer update is currently available.'')"

text \<open>No candidate: the app is current, or the check could not tell.\<close>

definition retry_missing ::
  "retry_env \<Rightarrow> updater_config \<Rightarrow> upd_method list \<Rightarrow> app_row \<Rightarrow> bool \<Rightarrow> string list
     \<Rightarrow> update_candidate \<times> attempt_outcome list" where
  "retry_missing R cfg available prior errors notes =
     (let E = rt_cycle R;
          m = (case from_token (row_method prior) of
                 Some m \<Rightarrow> m
               | None \<Rightarrow> (case available of m # _ \<Rightarrow> m | [] \<Rightarrow> Native));
          guidance = guidance_for (ck_low (cy_check E)) cfg (row_id prior);
          observed = (if errors then []
                      else snd (verify_app (ck_sem (cy_check E)) (rt_installed R) (row_to prior)));
          x = (if errors then failed_outcome m Unknown (unconfirmed_detail notes)
               else failed_outcome m AlreadyCurrent (current_detail (guidance \<noteq> None)))
      in (\<lparr>uc_id = row_id prior, uc_name = row_name prior, uc_current = row_from prior, uc_available = row_to prior,
           uc_package = None, uc_guidance = guidance, uc_methods = [m]\<rparr>,
          [if observed = [] then x else x\<lparr>ao_installed := Some observed\<rparr>]))"

definition explained :: "string option \<Rightarrow> attempt_outcome \<Rightarrow> attempt_outcome" where
  "explained explanation x =
     x\<lparr>ao_detail := ''Update still failed after applying guidance: '' @ ao_detail x @
         (case explanation of Some t \<Rightarrow> '' AI explanation: '' @ t | None \<Rightarrow> [])\<rparr>"

definition explain_last :: "retry_env \<Rightarrow> update_candidate \<Rightarrow> attempt_outcome list \<Rightarrow> attempt_outcome list \<times> fnum" where
  "explain_last R cand xs =
     (if \<not> guided_failure_needs_explanation cand xs then (xs, Fin 0)
      else (let (explanation, cost) = explain_retry_failure (rt_text R)
            in (if xs = [] then [] else butlast xs @ [explained explanation (last xs)], cost)))"

definition run_retry :: "retry_env \<Rightarrow> int \<Rightarrow> app_row \<Rightarrow> history \<times> facts \<Rightarrow> cycle_summary \<times> history \<times> facts" where
  "run_retry R cycle prior st =
     (let E = rt_cycle R; (h, fs) = st; cfg = unignore (row_id prior) (cy_config E);
          available = available_methods cfg (cy_ai E) (cy_machine E);
          (check, checks) = collect (cy_check E) cfg available {} (Some (row_id prior)) (h_checks h);
          h = h\<lparr>h_checks := checks\<rparr>;
          lf = load_facts (if cy_facts_read E then Some (active_facts fs) else None);
          (cand, xs, refine_cost, guidance) =
            (case cr_candidates check of
               cand # _ \<Rightarrow> (cand, retry_found R cfg available lf cand)
             | [] \<Rightarrow>
                 (let (cand, xs) = retry_missing R cfg available prior (cr_errors check \<or> available = []) (cr_notes check)
                  in (cand, xs, Fin 0, None)));
          (xs, explain_cost) = explain_last R cand xs;
          cost = f_add f64 (f_add f64 (f_add f64 (cr_cost check) refine_cost) explain_cost) (sum_costs xs);
          h = (case record_attempts (cy_record_error E (uc_id cand) = None) cycle (cy_tried_at E (uc_id cand)) cand xs h of
                 Some h' \<Rightarrow> h' | None \<Rightarrow> h);
          fs = learn_from_history (ck_low (cy_check E)) (cy_learned_at E) h fs
      in (\<lparr>cs_results = [(cand, xs)], cs_notes = cr_notes check, cs_cost = cost, cs_completed = cy_completed E,
           cs_clean = 0, cs_targeted = True, cs_guidance = guidance\<rparr>, h, fs))"

section \<open>What a cycle does\<close>

definition healed :: "cycle_env \<Rightarrow> upd_method list \<Rightarrow> learned_facts \<Rightarrow> update_candidate \<Rightarrow> attempt_outcome list" where
  "healed E available lf cand = heal (cy_heal E cand) (uf_max_attempts (cy_config E)) cand available lf"

lemma heal_length: "length (heal E k cand available lf) \<le> max k 1"
  unfolding heal_def Let_def by (rule heal_loop_length) simp

text \<open>The rows an app's attempts leave in the history.\<close>

definition rows_of ::
  "cycle_env \<Rightarrow> int \<Rightarrow> upd_method list \<Rightarrow> learned_facts \<Rightarrow> update_candidate \<Rightarrow> update_row list" where
  "rows_of E cycle available lf cand =
     (if cy_record_error E (uc_id cand) = None
      then map (attempt_to_row cycle (cy_tried_at E (uc_id cand)) cand) (healed E available lf cand) else [])"

lemma heal_one_frame:
  "pg_results (heal_one E cycle available lf cand pg) = pg_results pg @ [(cand, healed E available lf cand)]"
  "pg_history (heal_one E cycle available lf cand pg) =
     (pg_history pg)\<lparr>h_rows := h_rows (pg_history pg) @ rows_of E cycle available lf cand\<rparr>"
  "pg_errors (heal_one E cycle available lf cand pg) = (pg_errors pg \<or> cy_record_error E (uc_id cand) \<noteq> None)"
  by (simp_all add: heal_one_def healed_def rows_of_def record_attempts_def Let_def)

lemma heal_all_frame:
  "pg_results (fold (heal_one E cycle available lf) cs pg) = pg_results pg @ map (\<lambda>c. (c, healed E available lf c)) cs"
  "pg_history (fold (heal_one E cycle available lf) cs pg) =
     (pg_history pg)\<lparr>h_rows := h_rows (pg_history pg) @ concat (map (rows_of E cycle available lf) cs)\<rparr>"
  "pg_errors (fold (heal_one E cycle available lf) cs pg) =
     (pg_errors pg \<or> (\<exists>c \<in> set cs. cy_record_error E (uc_id c) \<noteq> None))"
  by (induction cs arbitrary: pg) (auto simp: heal_one_frame)

lemma store_clean_cases:
  assumes "store_clean E clean h = (t, ns, h')"
  shows "h' = h \<and> t = 0 \<or> clean \<and> 0 < cy_completed E \<and> t = cy_completed E \<and> h' = h\<lparr>h_last_clean := Some t\<rparr>"
  using assms by (auto simp: store_clean_def record_clean_run_def split: if_splits option.splits)

text \<open>The apps a cycle tries and lists, and what it hands to the healing.\<close>

definition cycle_due :: "cycle_env \<Rightarrow> history \<times> facts \<Rightarrow> update_candidate list" where
  "cycle_due E st = (let (available, check, h) = cycle_check E st in due_candidates E h (cr_candidates check))"

definition cycle_paused :: "cycle_env \<Rightarrow> history \<times> facts \<Rightarrow> (update_candidate \<times> pause) list" where
  "cycle_paused E st = (let (available, check, h) = cycle_check E st in paused_candidates E h (cr_candidates check))"

definition cycle_methods :: "cycle_env \<Rightarrow> upd_method list" where
  "cycle_methods E = available_methods (cy_config E) (cy_ai E) (cy_machine E)"

definition cycle_learned :: "cycle_env \<Rightarrow> history \<times> facts \<Rightarrow> learned_facts" where
  "cycle_learned E st = load_facts (if cy_facts_read E then Some (active_facts (snd st)) else None)"

lemma cycle_check_frame:
  assumes "cycle_check E st = (available, check, h)"
  shows "available = cycle_methods E \<and> (\<exists>checks. h = (fst st)\<lparr>h_checks := checks\<rparr>)"
  using assms by (auto simp: cycle_check_def cycle_methods_def Let_def split: prod.splits)

lemma cycle_result:
  assumes "run_cycle E cycle st = (s, h', fs')"
  shows "cs_results s = map (\<lambda>c. (c, healed E (cycle_methods E) (cycle_learned E st) c))
        (take (uf_max_apps (cy_config E)) (cycle_due E st)) @
      map (paused_result (cy_describe E)) (cycle_paused E st) \<and>
    h_rows h' = h_rows (fst st) @ concat (map (rows_of E cycle (cycle_methods E) (cycle_learned E st))
        (take (uf_max_apps (cy_config E)) (cycle_due E st))) \<and>
    h_last_run h' = h_last_run (fst st) \<and> h_status h' = h_status (fst st) \<and> h_cleared h' = h_cleared (fst st) \<and>
    (cs_clean s = 0 \<and> h_last_clean h' = h_last_clean (fst st) \<or>
     0 < cs_clean s \<and> h_last_clean h' = Some (cs_clean s) \<and> cs_clean s = cs_completed s \<and>
     length (cycle_due E st) \<le> uf_max_apps (cy_config E) \<and> cy_records_error E = None \<and> cycle_methods E \<noteq> [] \<and>
     list_all app_completed_cleanly (map snd (cs_results s)))"
proof -
  obtain available check h where c: "cycle_check E st = (available, check, h)" by (metis prod_cases3)
  note frame = cycle_check_frame [OF c]
  define cap where "cap = uf_max_apps (cy_config E)"
  define due where "due = cycle_due E st"
  define pg where "pg = fold (heal_one E cycle available (cycle_learned E st)) (take cap due)
      \<lparr>pg_results = [], pg_spent = cr_cost check,
       pg_notes = cr_notes check @ (if available = [] then [''No usable update source is available.''] else []) @
                  records_note E @ deferred_note (length due - cap) cap,
       pg_errors = (cr_errors check \<or> available = [] \<or> cy_records_error E \<noteq> None), pg_history = h\<rparr>"
  define results where "results = pg_results pg @ map (paused_result (cy_describe E)) (cycle_paused E st)"
  obtain t ns h2 where clean: "store_clean E (cycle_completed_cleanly (pg_errors pg) (length due - cap) (map snd results))
      (pg_history pg) = (t, ns, h2)" by (metis prod_cases3)
  have s: "cs_results s = results" "cs_clean s = t" "h' = h2" "cs_completed s = cy_completed E"
    using assms clean
    by (auto simp: run_cycle_def c cap_def due_def pg_def results_def cycle_due_def cycle_paused_def
        cycle_learned_def Let_def)
  have pg: "pg_results pg = map (\<lambda>c. (c, healed E available (cycle_learned E st) c)) (take cap due)"
    "pg_history pg = h\<lparr>h_rows := h_rows h @ concat (map (rows_of E cycle available (cycle_learned E st)) (take cap due))\<rparr>"
    "pg_errors pg \<longleftrightarrow> cr_errors check \<or> available = [] \<or> cy_records_error E \<noteq> None \<or>
       (\<exists>c \<in> set (take cap due). cy_record_error E (uc_id c) \<noteq> None)"
    by (simp_all add: pg_def heal_all_frame)
  show ?thesis
    using store_clean_cases [OF clean] frame
    by (auto simp: s pg results_def cycle_completed_cleanly_def simp flip: cap_def due_def)
qed

text \<open>
  A cycle tries at most the configured number of apps, each at most the configured number of
  times, and its history gains exactly the rows of those attempts, an app whose rows cannot be
  stored excepted; paused apps are only listed, and neither the schedule nor the display
  changes. It counts as clean exactly when a clean time was stored, and then nothing was
  deferred, no history was unreadable, a source was usable and every listed app was updated or
  already current.
\<close>

theorem cycle_accounts_for_everything:
  assumes "run_cycle E cycle st = (s, h', fs')"
  shows "(\<exists>tried. length tried \<le> uf_max_apps (cy_config E) \<and>
      cs_results s = tried @ map (paused_result (cy_describe E)) (cycle_paused E st) \<and>
      (\<forall>(c, xs) \<in> set tried. length xs \<le> max (uf_max_attempts (cy_config E)) 1 \<and> c \<in> set (cycle_due E st)) \<and>
      h_rows h' = h_rows (fst st) @ concat (map (\<lambda>(c, xs). if cy_record_error E (uc_id c) = None
        then map (attempt_to_row cycle (cy_tried_at E (uc_id c)) c) xs else []) tried)) \<and>
    h_last_run h' = h_last_run (fst st) \<and> h_status h' = h_status (fst st) \<and> h_cleared h' = h_cleared (fst st) \<and>
    (cs_clean s \<noteq> 0 \<longrightarrow> h_last_clean h' = Some (cs_clean s) \<and>
       length (cycle_due E st) \<le> uf_max_apps (cy_config E) \<and> cy_records_error E = None \<and> cycle_methods E \<noteq> [] \<and>
       (\<forall>(c, xs) \<in> set (cs_results s). list_ex ao_success xs \<or> ao_category (last xs) = Some AlreadyCurrent)) \<and>
    (cs_clean s = 0 \<longrightarrow> h_last_clean h' = h_last_clean (fst st))"
proof -
  define tried where "tried = map (\<lambda>c. (c, healed E (cycle_methods E) (cycle_learned E st) c))
      (take (uf_max_apps (cy_config E)) (cycle_due E st))"
  note res = cycle_result [OF assms, folded tried_def]
  have "length (healed E (cycle_methods E) (cycle_learned E st) c) \<le> max (uf_max_attempts (cy_config E)) 1" for c
    unfolding healed_def by (rule heal_length)
  then have "\<forall>(c, xs) \<in> set tried. length xs \<le> max (uf_max_attempts (cy_config E)) 1 \<and> c \<in> set (cycle_due E st)"
    by (auto simp: tried_def dest: in_set_takeD)
  moreover have "concat (map (rows_of E cycle (cycle_methods E) (cycle_learned E st))
      (take (uf_max_apps (cy_config E)) (cycle_due E st))) =
    concat (map (\<lambda>(c, xs). if cy_record_error E (uc_id c) = None
        then map (attempt_to_row cycle (cy_tried_at E (uc_id c)) c) xs else []) tried)"
  proof -
    have "rows_of E cycle (cycle_methods E) (cycle_learned E st) = (\<lambda>c. if cy_record_error E (uc_id c) = None
        then map (attempt_to_row cycle (cy_tried_at E (uc_id c)) c) (healed E (cycle_methods E) (cycle_learned E st) c)
        else [])" by (rule ext) (simp add: rows_of_def)
    then show ?thesis by (simp add: tried_def comp_def)
  qed
  moreover have "length tried \<le> uf_max_apps (cy_config E)" by (simp add: tried_def)
  ultimately have one: "\<exists>tried. length tried \<le> uf_max_apps (cy_config E) \<and>
      cs_results s = tried @ map (paused_result (cy_describe E)) (cycle_paused E st) \<and>
      (\<forall>(c, xs) \<in> set tried. length xs \<le> max (uf_max_attempts (cy_config E)) 1 \<and> c \<in> set (cycle_due E st)) \<and>
      h_rows h' = h_rows (fst st) @ concat (map (\<lambda>(c, xs). if cy_record_error E (uc_id c) = None
        then map (attempt_to_row cycle (cy_tried_at E (uc_id c)) c) xs else []) tried)"
    using res by (intro exI [of _ tried]) simp
  have two: "cs_clean s \<noteq> 0 \<longrightarrow> (\<forall>(c, xs) \<in> set (cs_results s). list_ex ao_success xs \<or> ao_category (last xs) = Some AlreadyCurrent)"
  proof (intro impI ballI, clarify)
    fix c xs assume clean: "cs_clean s \<noteq> 0" and mem: "(c, xs) \<in> set (cs_results s)"
      and none: "ao_category (last xs) \<noteq> Some AlreadyCurrent"
    have "list_all app_completed_cleanly (map snd (cs_results s))" using res clean by auto
    then have "app_completed_cleanly xs" using mem by (force simp: list_all_iff)
    then show "list_ex ao_success xs" using none by (simp add: app_completed_cleanly_def)
  qed
  show ?thesis using one two res by auto
qed

section \<open>Fair rotation\<close>

text \<open>When an identity was last tried, as the cycle reads it before it heals.\<close>

definition last_tried_at :: "history \<times> facts \<Rightarrow> string \<Rightarrow> int" where
  "last_tried_at st i = (case last_attempt_time (h_rows (fst st)) i of Some t \<Rightarrow> t | None \<Rightarrow> 0)"

text \<open>What the check of a cycle offers, less the apps whose failures paused them.\<close>

definition cycle_offers :: "cycle_env \<Rightarrow> history \<times> facts \<Rightarrow> update_candidate list" where
  "cycle_offers E st =
     (let (available, check, h) = cycle_check E st in filter (\<lambda>c. pause_now E h (uc_id c) = None) (cr_candidates check))"

lemma due_stalest:
  assumes "cy_attempts_read E"
  shows "take cap (cycle_due E st) = take_stalest uc_id cap (last_tried_at st) (cycle_offers E st)"
proof -
  obtain available check h where c: "cycle_check E st = (available, check, h)" by (metis prod_cases3)
  have "h_rows h = h_rows (fst st)" using cycle_check_frame [OF c] by auto
  then have "tried_since E h = last_tried_at st" using assms by (auto simp: tried_since_def last_tried_at_def)
  then show ?thesis
    by (simp add: cycle_due_def cycle_offers_def c due_candidates_def take_stalest_def filter_sort)
qed

lemma offers_usable:
  assumes "c \<in> set (cycle_offers E st)"
  shows "distinct (map uc_id (cycle_offers E st)) \<and> healed E (cycle_methods E) lf c \<noteq> []"
proof -
  obtain available check h where c: "cycle_check E st = (available, check, h)" by (metis prod_cases3)
  obtain learned checks where col: "collect (cy_check E) (cy_config E) available learned None (h_checks (fst st)) = (check, checks)"
    using c by (auto simp: cycle_check_def Let_def split: prod.splits)
  note fits = collected_fits [OF col]
  have "c \<in> set (cr_candidates check)" using assms by (simp add: cycle_offers_def c)
  then have "uc_methods c \<noteq> [] \<and> set (uc_methods c) \<subseteq> set (cycle_methods E)"
    using fits cycle_check_frame [OF c] by (auto simp: candidate_fits_def)
  then have "set (heal_order c (cycle_methods E) lf) \<noteq> {}" by (simp add: heal_order_set Int_absorb2)
  then have "healed E (cycle_methods E) lf c \<noteq> []" by (simp add: healed_def heal_nonempty)
  moreover have "distinct (map uc_id (cycle_offers E st))"
    using fits by (simp add: cycle_offers_def c distinct_map_filter)
  ultimately show ?thesis by simp
qed

lemma fold_max_ge: "(t :: 'a :: linorder) \<le> fold max ts t \<and> (\<forall>x \<in> set ts. x \<le> fold max ts t)"
proof (induction ts arbitrary: t)
  case (Cons x ts)
  from Cons.IH [of "max x t"] show ?case by auto
qed simp

lemma last_attempt_time_append:
  "last_attempt_time (rows @ new) i =
     (if filter (\<lambda>r. row_app r = i) new = [] then last_attempt_time rows i else
      last_attempt_time (filter (\<lambda>r. row_app r = i) rows @ filter (\<lambda>r. row_app r = i) new) i)"
  by (simp add: last_attempt_time_def)

lemma last_attempt_ge:
  assumes "r \<in> set rows" and "row_app r = i"
  shows "\<exists>t. last_attempt_time rows i = Some t \<and> unix_seconds (ur_at r) \<le> t"
proof -
  have "ur_at r \<in> set (map ur_at (filter (\<lambda>r. row_app r = i) rows))" using assms by auto
  then obtain t ts where ts: "map ur_at (filter (\<lambda>r. row_app r = i) rows) = t # ts" "ur_at r \<in> set (t # ts)"
    by (cases "map ur_at (filter (\<lambda>r. row_app r = i) rows)") auto
  then have "ur_at r \<le> fold max ts t" using fold_max_ge [of t ts] by auto
  then show ?thesis by (auto simp: last_attempt_time_def ts(1) unix_seconds_def zdiv_mono1)
qed

lemma row_app_attempt [simp]: "row_app (attempt_to_row cycle now cand x) = uc_id cand" "ur_at (attempt_to_row cycle now cand x) = now"
  by (simp_all add: attempt_to_row_def row_app_def)

text \<open>
  C21:
  No app is starved by the cap: an app that every cycle offers and does not pause is tried
  within one cycle more than the other offered apps can fill, at the cap of each, because the
  stalest go first. The database answers, and the clock has moved on by at least a second since
  the app was last tried whenever attempts are recorded.
\<close>

theorem update_rotation_fair:
  fixes st :: "nat \<Rightarrow> history \<times> facts"
  assumes run: "\<forall>k. run_cycle (E k) (c k) (st k) = (s k, st (Suc k))"
    and db: "\<forall>k i. cy_attempts_read (E k) \<and> cy_record_error (E k) i = None"
    and cap: "\<forall>k. uf_max_apps (cy_config (E k)) = cap" "0 < cap"
    and apps: "finite U" "\<forall>k. uc_id ` set (cycle_offers (E k) (st k)) \<subseteq> U"
    and here: "\<forall>k. x k \<in> set (cycle_offers (E k) (st k)) \<and> uc_id (x k) = i"
    and clock: "\<forall>k j. last_tried_at (st k) i < unix_seconds (cy_tried_at (E k) j)"
  shows "\<exists>k \<le> (card U - 1) div cap. \<exists>xs. xs \<noteq> [] \<and> (x k, xs) \<in> set (cs_results (s k)) \<and>
    set (map (attempt_to_row (c k) (cy_tried_at (E k) i) (x k)) xs) \<subseteq> set (h_rows (fst (st (Suc k))))"
proof -
  define lf where "lf k = cycle_learned (E k) (st k)" for k
  define pick where "pick k = take_stalest uc_id cap (last_tried_at (st k)) (cycle_offers (E k) (st k))" for k
  have pick: "take (uf_max_apps (cy_config (E k))) (cycle_due (E k) (st k)) = pick k" for k
    using due_stalest [of "E k" cap "st k"] db cap(1) by (simp add: pick_def)
  have res: "cs_results (s k) = map (\<lambda>a. (a, healed (E k) (cycle_methods (E k)) (lf k) a)) (pick k) @
      map (paused_result (cy_describe (E k))) (cycle_paused (E k) (st k))"
    "h_rows (fst (st (Suc k))) = h_rows (fst (st k)) @ concat (map (rows_of (E k) (c k) (cycle_methods (E k)) (lf k)) (pick k))" for k
    using cycle_result [of "E k" "c k" "st k" "s k" "fst (st (Suc k))" "snd (st (Suc k))"] run
    by (simp_all add: pick lf_def)
  have sub: "set (pick k) \<subseteq> set (cycle_offers (E k) (st k))" for k
    unfolding pick_def by (rule rotation.pick_sub)
  have rows: "rows_of (E k) (c k) (cycle_methods (E k)) (lf k) a =
      map (attempt_to_row (c k) (cy_tried_at (E k) (uc_id a)) a) (healed (E k) (cycle_methods (E k)) (lf k) a)" for k a
    using db by (simp add: rows_of_def)
  have later: "last_tried_at (st k) i < last_tried_at (st (Suc k)) (uc_id a)" if a: "a \<in> set (pick k)" for k a
  proof -
    obtain o1 where o1: "o1 \<in> set (healed (E k) (cycle_methods (E k)) (lf k) a)"
      using offers_usable [of a "E k" "st k" "lf k"] sub a by (metis list.set_intros(1) neq_Nil_conv subsetD)
    then have "attempt_to_row (c k) (cy_tried_at (E k) (uc_id a)) a o1 \<in> set (h_rows (fst (st (Suc k))))"
      using a by (auto simp: res rows)
    from last_attempt_ge [OF this, of "uc_id a"] obtain t where
      "last_attempt_time (h_rows (fst (st (Suc k)))) (uc_id a) = Some t" "unix_seconds (cy_tried_at (E k) (uc_id a)) \<le> t"
      by auto
    then show ?thesis using clock by (simp add: last_tried_at_def) (metis order_less_le_trans)
  qed
  have kept: "last_tried_at (st (Suc k)) j = last_tried_at (st k) j" if "j \<notin> uc_id ` set (pick k)" for k j
  proof -
    have "filter (\<lambda>r. row_app r = j) (concat (map (rows_of (E k) (c k) (cycle_methods (E k)) (lf k)) (pick k))) = []"
      using that by (auto simp: filter_empty_conv rows)
    then show ?thesis by (simp add: last_tried_at_def res last_attempt_time_append)
  qed
  have "\<exists>k \<le> (card U - 1) div cap. x k \<in> set (pick k)"
    unfolding pick_def
  proof (rule rotation.served_in_time [OF apps cap(2) here])
    show "\<forall>k. distinct (map uc_id (cycle_offers (E k) (st k)))" using offers_usable here by blast
    show "\<forall>k. \<forall>y \<in> set (take_stalest uc_id cap (last_tried_at (st k)) (cycle_offers (E k) (st k))).
        last_tried_at (st k) i < last_tried_at (st (Suc k)) (uc_id y)"
      using later by (simp flip: pick_def)
    show "\<forall>k. \<forall>j \<in> U - uc_id ` set (take_stalest uc_id cap (last_tried_at (st k)) (cycle_offers (E k) (st k))).
        last_tried_at (st (Suc k)) j = last_tried_at (st k) j"
      using kept by (simp flip: pick_def)
  qed
  then obtain k where k: "k \<le> (card U - 1) div cap" "x k \<in> set (pick k)" by blast
  define xs where "xs = healed (E k) (cycle_methods (E k)) (lf k) (x k)"
  have "xs \<noteq> []" using offers_usable here unfolding xs_def by blast
  moreover have "(x k, xs) \<in> set (cs_results (s k))" using k(2) by (auto simp: res xs_def)
  moreover have "set (map (attempt_to_row (c k) (cy_tried_at (E k) i) (x k)) xs) \<subseteq> set (h_rows (fst (st (Suc k))))"
    using k(2) here by (auto simp: res rows xs_def)
  ultimately show ?thesis using k(1) by blast
qed

section \<open>Cycles at a concrete machine\<close>

definition good_run :: attempt_outcome where
  "good_run = (failed_outcome Winget Unknown [])\<lparr>ao_success := True, ao_category := None, ao_verification := Verified\<rparr>"

definition vlc_heal :: heal_env where
  "vlc_heal = \<lparr>he_ai = False, he_windows = True, he_low = (\<lambda>s. s), he_run = (\<lambda>n m f. good_run),
     he_kill = (\<lambda>n s. Inr []), he_read = (\<lambda>s. None), he_reply = (\<lambda>n. None)\<rparr>"

definition vlc_machine :: machine where
  "vlc_machine = \<lparr>mc_winget = True, mc_choco = False, mc_bootstrapped = False, mc_scoop = False\<rparr>"

text \<open>Cycle \<open>k\<close> records its attempts \<open>k + 1\<close> seconds after the epoch.\<close>

definition vlc_cycle :: "nat \<Rightarrow> cycle_env" where
  "vlc_cycle k =
     \<lparr>cy_config = plain_config, cy_ai = False, cy_machine = vlc_machine, cy_check = vlc_env,
      cy_heal = (\<lambda>c. vlc_heal), cy_describe = (\<lambda>p. []), cy_skips_read = False, cy_facts_read = False,
      cy_attempts_read = True, cy_records_error = Some ''locked'', cy_pause_at = 0, cy_record_error = (\<lambda>i. None),
      cy_tried_at = (\<lambda>i. (int k + 1) * 1000000000), cy_learned_at = 0, cy_completed = 1, cy_clean_error = None\<rparr>"

definition no_history :: history where
  "no_history = \<lparr>h_rows = [], h_last_run = None, h_last_clean = None, h_status = None, h_cleared = None, h_checks = []\<rparr>"

fun vlc_state :: "nat \<Rightarrow> history \<times> facts" where
  "vlc_state 0 = (no_history, no_rows)"
| "vlc_state (Suc k) = snd (run_cycle (vlc_cycle k) (int k) (vlc_state k))"

definition vlc_cand :: update_candidate where
  "vlc_cand = \<lparr>uc_id = ''vlc'', uc_name = ''VLC'', uc_current = ''3.0'', uc_available = ''3.1'',
     uc_package = Some ''VideoLAN.VLC'', uc_guidance = None, uc_methods = [Winget]\<rparr>"

lemma vlc_methods: "cycle_methods (vlc_cycle k) = [Winget]"
proof -
  have "available_methods plain_config False vlc_machine = [Winget]" by code_simp
  then show ?thesis by (simp add: cycle_methods_def vlc_cycle_def)
qed

lemma vlc_collected: "cr_candidates (fst (collect vlc_env plain_config [Winget] {} None checks)) = [vlc_cand]"
proof -
  obtain st managed ns err where m: "managers_pass vlc_env plain_config {} [Winget] = (st, managed, ns, err)"
    by (metis prod_cases4)
  have "co_candidates (fst (managers_pass vlc_env plain_config {} [Winget])) = [vlc_cand]" by code_simp
  then have "co_candidates st = [vlc_cand]" by (simp add: m)
  then show ?thesis by (simp add: collect_def m native_pass_def for_target_def)
qed

lemma vlc_offers: "cycle_offers (vlc_cycle k) st = [vlc_cand]"
proof -
  obtain h fs where st: "st = (h, fs)" by fastforce
  obtain r checks where c: "collect vlc_env plain_config [Winget] {} None (h_checks h) = (r, checks)" by fastforce
  have "available_methods plain_config False vlc_machine = [Winget]"
    using vlc_methods [of 0] by (simp add: cycle_methods_def vlc_cycle_def)
  then have "cycle_check (vlc_cycle k) st = ([Winget], r, h\<lparr>h_checks := checks\<rparr>)"
    by (simp add: cycle_check_def st vlc_cycle_def c)
  moreover have "cr_candidates r = [vlc_cand]" using vlc_collected [of "h_checks h"] by (simp add: c)
  moreover have "pause_now (vlc_cycle k) g i = None" for g i by (simp add: pause_now_def vlc_cycle_def)
  ultimately show ?thesis by (simp add: cycle_offers_def)
qed

lemma fold_max_le: "t \<le> (b :: int) \<Longrightarrow> \<forall>x \<in> set ts. x \<le> b \<Longrightarrow> fold max ts t \<le> b"
  by (induction ts arbitrary: t) auto

lemma last_attempt_le:
  assumes "\<forall>r \<in> set rows. ur_at r \<le> b" and "last_attempt_time rows i = Some t"
  shows "t \<le> unix_seconds b"
proof -
  obtain x xs where x: "map ur_at (filter (\<lambda>r. row_app r = i) rows) = x # xs" "t = unix_seconds (fold max xs x)"
    using assms(2) by (auto simp: last_attempt_time_def split: list.splits)
  have "set (x # xs) \<subseteq> ur_at ` set rows" unfolding x(1) [symmetric] by auto
  then have "fold max xs x \<le> b" using assms(1) by (intro fold_max_le) auto
  then show ?thesis by (simp add: x(2) unix_seconds_def zdiv_mono1)
qed

lemma vlc_rows: "\<forall>r \<in> set (h_rows (fst (vlc_state k))). ur_at r \<le> int k * 1000000000"
proof (induction k)
  case (Suc k)
  have "h_rows (fst (vlc_state (Suc k))) = h_rows (fst (vlc_state k)) @ concat (map (rows_of (vlc_cycle k) (int k)
      (cycle_methods (vlc_cycle k)) (cycle_learned (vlc_cycle k) (vlc_state k)))
      (take (uf_max_apps (cy_config (vlc_cycle k))) (cycle_due (vlc_cycle k) (vlc_state k))))"
    using cycle_result [of "vlc_cycle k" "int k" "vlc_state k"] by (metis prod.collapse vlc_state.simps(2))
  moreover have "ur_at r \<le> int (Suc k) * 1000000000" if "r \<in> set (rows_of (vlc_cycle k) (int k) ms lf c)" for r ms lf c
    using that by (auto simp: rows_of_def vlc_cycle_def split: if_splits)
  ultimately show ?case using Suc by fastforce
qed (simp add: no_history_def)

lemma vlc_clock: "last_tried_at (vlc_state k) i < unix_seconds (cy_tried_at (vlc_cycle k) j)"
proof -
  have "last_tried_at (vlc_state k) i \<le> int k"
    using last_attempt_le [OF vlc_rows] by (fastforce simp: last_tried_at_def unix_seconds_def split: option.split)
  then show ?thesis by (simp add: vlc_cycle_def unix_seconds_def)
qed

theorem update_rotation_fair_witness:
  "\<exists>xs. xs \<noteq> [] \<and> (vlc_cand, xs) \<in> set (cs_results (fst (run_cycle (vlc_cycle 0) 0 (vlc_state 0))))"
proof -
  have "\<exists>k \<le> (card {''vlc''} - 1) div 20. \<exists>xs. xs \<noteq> [] \<and>
      (vlc_cand, xs) \<in> set (cs_results (fst (run_cycle (vlc_cycle k) (int k) (vlc_state k)))) \<and>
      set (map (attempt_to_row (int k) (cy_tried_at (vlc_cycle k) ''vlc'') vlc_cand) xs) \<subseteq>
        set (h_rows (fst (vlc_state (Suc k))))"
  proof (rule update_rotation_fair)
    show "\<forall>k. run_cycle (vlc_cycle k) (int k) (vlc_state k) =
        (fst (run_cycle (vlc_cycle k) (int k) (vlc_state k)), vlc_state (Suc k))" by simp
    show "\<forall>k i. cy_attempts_read (vlc_cycle k) \<and> cy_record_error (vlc_cycle k) i = None" by (simp add: vlc_cycle_def)
    show "\<forall>k. uf_max_apps (cy_config (vlc_cycle k)) = 20" by (simp add: vlc_cycle_def plain_config_def)
    show "\<forall>k. uc_id ` set (cycle_offers (vlc_cycle k) (vlc_state k)) \<subseteq> {''vlc''}" by (simp add: vlc_offers vlc_cand_def)
    show "\<forall>k. vlc_cand \<in> set (cycle_offers (vlc_cycle k) (vlc_state k)) \<and> uc_id vlc_cand = ''vlc''"
      by (simp add: vlc_offers vlc_cand_def)
    show "\<forall>k j. last_tried_at (vlc_state k) ''vlc'' < unix_seconds (cy_tried_at (vlc_cycle k) j)" by (simp add: vlc_clock)
  qed simp_all
  then show ?thesis by auto
qed

theorem cycle_accounts_for_everything_witness:
  "\<exists>tried. length tried \<le> 20 \<and> cs_results (fst (run_cycle (vlc_cycle 0) 0 (vlc_state 0))) = tried @
     map (paused_result (cy_describe (vlc_cycle 0))) (cycle_paused (vlc_cycle 0) (vlc_state 0))"
proof -
  obtain s h fs where "run_cycle (vlc_cycle 0) 0 (vlc_state 0) = (s, h, fs)" by (metis prod_cases3)
  moreover have "uf_max_apps (cy_config (vlc_cycle 0)) = 20" by (simp add: vlc_cycle_def plain_config_def)
  moreover from cycle_accounts_for_everything [OF calculation(1), THEN conjunct1] obtain tried where
    "length tried \<le> uf_max_apps (cy_config (vlc_cycle 0))"
    "cs_results s = tried @ map (paused_result (cy_describe (vlc_cycle 0))) (cycle_paused (vlc_cycle 0) (vlc_state 0))"
    by (elim exE conjE)
  ultimately show ?thesis by (intro exI [of _ tried]) simp
qed

section \<open>What becomes of guidance\<close>

text \<open>
  Guidance that helped is only ever replaced by a text of bounded length that names no link
  beyond those of the original: either the model's rewrite or the original in one line; without
  a usable reply it is the original.
\<close>

theorem guidance_rewrite_bounded:
  "(concise_guidance original proposed = one_line original \<or>
    char_count (concise_guidance original proposed) \<le> MAX_APP_NOTE_CHARS) \<and>
   set (guidance_urls (concise_guidance original proposed)) \<subseteq> set (guidance_urls (one_line original)) \<and>
   concise_guidance original [] = one_line original \<and>
   fst (refine_guidance None original) = one_line original"
proof -
  define q where "q = one_line (trim_matches answer_quotes (trim proposed))"
  have cg: "concise_guidance original proposed = (if q \<noteq> [] \<and>
      char_count q \<le> rewrite_limit (char_count (one_line original)) \<and> keeps_urls (one_line original) q
      then q else one_line original)" by (simp add: concise_guidance_def Let_def q_def)
  have "one_line (trim_matches answer_quotes (trim [])) = []" by code_simp
  then have "concise_guidance original [] = one_line original" by (simp add: concise_guidance_def)
  then show ?thesis
    by (auto simp: cg rewrite_limit_def keeps_urls_def list_all_iff refine_guidance_def)
qed

text \<open>
  The original's links are looked for anywhere in the rewrite, the rewrite's links only at the
  start of a word, so a rewrite may replace a link by a longer one behind a bracket.
\<close>

lemma rewrite_changes_link:
  "concise_guidance ''Get it from https://a.com'' ''Get it from (https://a.community/x)'' =
     ''Get it from (https://a.community/x)''"
proof -
  have "one_line ''Get it from https://a.com'' = ''Get it from https://a.com''"
    "one_line (trim_matches answer_quotes (trim ''Get it from (https://a.community/x)'')) = ''Get it from (https://a.community/x)''"
    "keeps_urls ''Get it from https://a.com'' ''Get it from (https://a.community/x)''"
    "char_count ''Get it from (https://a.community/x)'' = 35" "char_count ''Get it from https://a.com'' = 25"
    by code_simp+
  then show ?thesis by (simp add: concise_guidance_def rewrite_limit_def MAX_APP_NOTE_CHARS_def)
qed

end
