(* ===== verification/Exec_Quote.thy ===== *)
theory Exec_Quote
  imports Prelude
begin

text \<open>
  PowerShell as the executors use it (\<open>executor/powershell.rs\<close>): quoting a value as a
  single-quoted literal, running a script, and reading its output through a fixed buffer.
  A script is kept as a list of pieces, command text and quoted values, whose rendering is the
  string the code formats. What quoting promises is stated against a reader of single-quoted
  literals: the locale \<open>quote_marks\<close> holds for every set of quote marks that contains the
  apostrophe, and is interpreted for the apostrophe alone, which the code assumes, and for
  the marks PowerShell documents, where the four typographic single quotes end a literal too.
\<close>

section \<open>Quoting\<close>

definition double_apos :: "string \<Rightarrow> string" where
  "double_apos v = replace_char (CHR 0x27) (apos @ apos) v"

definition ps_single_quote :: "string \<Rightarrow> string" where
  "ps_single_quote v = apos @ double_apos v @ apos"

text \<open>A script: command text as it stands, and values written as single-quoted literals.\<close>

datatype piece = Txt string | Lit string

fun render :: "piece list \<Rightarrow> string" where
  "render [] = []"
| "render (Txt t # ps) = t @ render ps"
| "render (Lit v # ps) = ps_single_quote v @ render ps"

fun code_text :: "piece list \<Rightarrow> string" where
  "code_text [] = []"
| "code_text (Txt t # ps) = t @ code_text ps"
| "code_text (Lit v # ps) = code_text ps"

fun literals :: "piece list \<Rightarrow> string list" where
  "literals [] = []"
| "literals (Txt t # ps) = literals ps"
| "literals (Lit v # ps) = v # literals ps"

lemma render_append [simp]: "render (ps @ qs) = render ps @ render qs"
  by (induction ps rule: render.induct) simp_all

section \<open>Running a script\<close>

definition MAX_DIAGNOSTIC_STREAM_BYTES :: nat where "MAX_DIAGNOSTIC_STREAM_BYTES = 1048576"

definition DEFAULT_TIMEOUT :: nat where "DEFAULT_TIMEOUT = 120"

text \<open>\<open>read_capped\<close>: the chunks the stream delivers, kept up to \<open>cap\<close> bytes.\<close>

fun read_capped :: "nat \<Rightarrow> string list \<Rightarrow> string \<Rightarrow> bool \<Rightarrow> string \<times> bool" where
  "read_capped cap [] out truncated = (out, truncated)"
| "read_capped cap (chunk # rest) out truncated =
     (if chunk = [] then (out, truncated)
      else
        (let retained = min (length chunk) (cap - length out) in
         read_capped cap rest (out @ take retained chunk) (truncated \<or> retained < length chunk)))"

text \<open>How one process ended: whether it started, whether the timeout came first, its streams.\<close>

record ps_exit =
  px_spawn_error :: "string option"
  px_timed_out :: bool
  px_read_error :: "string option"
  px_success :: bool
  px_code :: string
  px_stdout :: "string list"
  px_stderr :: "string list"

definition truncation_note :: "string \<Rightarrow> string" where
  "truncation_note name =
     [newline] @ ''['' @ name @ '' truncated at '' @ show_nat MAX_DIAGNOSTIC_STREAM_BYTES @ '' bytes]''"

definition stream_text :: "(string \<Rightarrow> string) \<Rightarrow> string \<Rightarrow> string list \<Rightarrow> string" where
  "stream_text lossy name chunks =
     (case read_capped MAX_DIAGNOSTIC_STREAM_BYTES chunks [] False of
        (out, truncated) \<Rightarrow> lossy out @ (if truncated then truncation_note name else []))"

definition diagnostic_result :: "(string \<Rightarrow> string) \<Rightarrow> nat \<Rightarrow> ps_exit \<Rightarrow> string + string" where
  "diagnostic_result lossy timeout x =
     (case px_spawn_error x of
        Some e \<Rightarrow> Inl e
      | None \<Rightarrow>
          if px_timed_out x then Inl (''Script timed out after '' @ show_nat timeout @ ''s'')
          else (case px_read_error x of
                  Some e \<Rightarrow> Inl e
                | None \<Rightarrow>
                    (let stdout = stream_text lossy ''stdout'' (px_stdout x);
                         stderr = stream_text lossy ''stderr'' (px_stderr x)
                     in if px_success x then Inr stdout
                        else Inl (''Script exited with code '' @ px_code x @ [newline] @ ''stdout: '' @ stdout @
                                  [newline] @ ''stderr: '' @ stderr))))"

text \<open>
  What an operation of an executor gives: its result, and the scripts it handed to PowerShell,
  in order. The process each script becomes is the environment's.
\<close>

record ps_env =
  pe_lossy :: "string \<Rightarrow> string"
  pe_spawn :: "string \<Rightarrow> ps_exit"
  pe_low :: "string \<Rightarrow> string"

type_synonym 'a run = "(string + 'a) \<times> string list"

definition refuse :: "string \<Rightarrow> 'a run" where
  "refuse e = (Inl e, [])"

definition run_with_timeout :: "ps_env \<Rightarrow> string \<Rightarrow> nat \<Rightarrow> string run" where
  "run_with_timeout E s timeout = (diagnostic_result (pe_lossy E) timeout (pe_spawn E s), [s])"

definition run_diagnostic :: "ps_env \<Rightarrow> string \<Rightarrow> string run" where
  "run_diagnostic E s = run_with_timeout E s DEFAULT_TIMEOUT"

text \<open>The question mark operator.\<close>

definition bind_run :: "'a run \<Rightarrow> ('a \<Rightarrow> 'b run) \<Rightarrow> 'b run" where
  "bind_run r k =
     (case r of
        (Inl e, ss) \<Rightarrow> (Inl e, ss)
      | (Inr v, ss) \<Rightarrow> (case k v of (out, ts) \<Rightarrow> (out, ss @ ts)))"

definition lift_result :: "string + 'a \<Rightarrow> 'a run" where
  "lift_result r = (r, [])"

lemma snd_bind_run: "snd (bind_run r k) = snd r @ (case fst r of Inl e \<Rightarrow> [] | Inr v \<Rightarrow> snd (k v))"
  by (auto simp: bind_run_def split: prod.splits sum.splits)

lemma refuse_simps [simp]: "fst (refuse e) = Inl e" "snd (refuse e) = []"
  by (simp_all add: refuse_def)

lemma lift_result_simps [simp]: "fst (lift_result r) = r" "snd (lift_result r) = []"
  by (simp_all add: lift_result_def)

lemma snd_run [simp]: "snd (run_diagnostic E s) = [s]" "snd (run_with_timeout E s t) = [s]"
  by (simp_all add: run_diagnostic_def run_with_timeout_def)

section \<open>Reading a stream through the buffer\<close>

lemma read_capped_gen:
  assumes "length out \<le> cap" and "[] \<notin> set chunks"
  shows "read_capped cap chunks out t =
    (take cap (out @ concat chunks), t \<or> cap < length (out @ concat chunks))"
  using assms
proof (induction chunks arbitrary: out t)
  case (Cons c cs)
  let ?r = "min (length c) (cap - length out)"
  have le: "length (out @ take ?r c) \<le> cap" using Cons.prems by simp
  have "read_capped cap (c # cs) out t = read_capped cap cs (out @ take ?r c) (t \<or> ?r < length c)"
    using Cons.prems by (auto simp: Let_def)
  also have "\<dots> = (take cap ((out @ take ?r c) @ concat cs),
      (t \<or> ?r < length c) \<or> cap < length ((out @ take ?r c) @ concat cs))"
    using Cons.IH [OF le] Cons.prems by simp
  also have "\<dots> = (take cap (out @ concat (c # cs)), t \<or> cap < length (out @ concat (c # cs)))"
  proof (cases "length c \<le> cap - length out")
    case False
    then have "take ?r c = take (cap - length out) c" by (simp add: min_def)
    then have "take cap ((out @ take ?r c) @ concat cs) = take cap (out @ concat (c # cs))"
      using False Cons.prems by simp
    moreover have "?r < length c" using False by simp
    moreover have "cap < length (out @ concat (c # cs))"
      unfolding length_append concat.simps using False by linarith
    ultimately show ?thesis by blast
  qed (simp add: min_absorb1)
  finally show ?case .
qed simp

section \<open>Literals and their readers\<close>

text \<open>The mark of \<open>marks\<close> the text begins with, by its length; zero when it begins with none.\<close>

fun mark_len :: "string list \<Rightarrow> string \<Rightarrow> nat" where
  "mark_len [] s = 0"
| "mark_len (q # qs) s = (if starts_with q s then length q else mark_len qs s)"

text \<open>
  A single-quoted literal after its opening mark: two marks in a row stand for the second,
  one alone ends it. \<open>None\<close> is a literal that does not end.
\<close>

function read_lit :: "string list \<Rightarrow> string \<Rightarrow> (string \<times> string) option" where
  "read_lit marks s =
     (if s = [] then None
      else if mark_len marks s = 0 then
        (case read_lit marks (tl s) of None \<Rightarrow> None | Some (v, r) \<Rightarrow> Some (hd s # v, r))
      else
        (let t = drop (mark_len marks s) s in
         if t = [] \<or> mark_len marks t = 0 then Some ([], t)
         else (case read_lit marks (drop (mark_len marks t) t) of
                 None \<Rightarrow> None
               | Some (v, r) \<Rightarrow> Some (take (mark_len marks t) t @ v, r))))"
  by pat_completeness auto
termination
  by (relation "measure (length \<circ> snd)") auto

declare read_lit.simps [simp del]

lemma read_lit_shorter: "read_lit marks s = Some (v, r) \<Longrightarrow> length r < length s"
proof (induction marks s arbitrary: v r rule: read_lit.induct)
  case (1 marks s)
  show ?case
  proof (cases "s = []")
    case False
    note s = this
    show ?thesis
    proof (cases "mark_len marks s = 0")
      case True
      then obtain v' where "read_lit marks (tl s) = Some (v', r)"
        using "1.prems" s by (subst (asm) read_lit.simps) (auto split: option.splits)
      from "1.IH" (1) [OF s True this] show ?thesis using s by simp
    next
      case False
      define t where "t = drop (mark_len marks s) s"
      have t: "length t < length s" using False s by (simp add: t_def)
      show ?thesis
      proof (cases "t = [] \<or> mark_len marks t = 0")
        case True
        then have "r = t" using "1.prems" s False
          by (subst (asm) read_lit.simps) (simp add: Let_def t_def [symmetric])
        then show ?thesis using t by simp
      next
        case more_text: False
        then obtain v' where "read_lit marks (drop (mark_len marks t) t) = Some (v', r)"
          using "1.prems" s False
          by (subst (asm) read_lit.simps) (auto simp: Let_def t_def [symmetric] split: option.splits)
        from "1.IH" (2) [OF s False t_def more_text this] show ?thesis using t by simp
      qed
    qed
  next
    case True
    then show ?thesis using "1.prems" by (simp add: read_lit.simps)
  qed
qed

text \<open>A whole script: the command text outside the literals, and the literals in order.\<close>

function read_script :: "string list \<Rightarrow> string \<Rightarrow> (string \<times> string list) option" where
  "read_script marks s =
     (if s = [] then Some ([], [])
      else if mark_len marks s = 0 then
        (case read_script marks (tl s) of None \<Rightarrow> None | Some (c, ls) \<Rightarrow> Some (hd s # c, ls))
      else
        (case read_lit marks (drop (mark_len marks s) s) of
           None \<Rightarrow> None
         | Some (v, r) \<Rightarrow>
             (case read_script marks r of None \<Rightarrow> None | Some (c, ls) \<Rightarrow> Some (c, v # ls))))"
  by pat_completeness auto
termination
proof (relation "measure (length \<circ> snd)", goal_cases)
  case (3 marks s a v r)
  then show ?case using read_lit_shorter [of marks "drop (mark_len marks s) s" v r] by simp
qed auto

declare read_script.simps [simp del]

text \<open>
  Text in which no byte begins a mark, a value with no mark but the apostrophe, and scripts
  whose literals are set apart by command text.
\<close>

definition free_of :: "string list \<Rightarrow> string \<Rightarrow> bool" where
  "free_of marks t = list_all (\<lambda>q. hd q \<notin> set t) marks"

definition quotable :: "string list \<Rightarrow> string \<Rightarrow> bool" where
  "quotable marks v = list_all (\<lambda>q. q = apos \<or> \<not> contains_str q v) marks"

fun separated :: "piece list \<Rightarrow> bool" where
  "separated [] = True"
| "separated (Txt t # ps) = separated ps"
| "separated [Lit v] = True"
| "separated (Lit v # Lit w # ps) = False"
| "separated (Lit v # Txt t # ps) = (t \<noteq> [] \<and> separated ps)"

fun plain_code :: "string list \<Rightarrow> piece list \<Rightarrow> bool" where
  "plain_code marks [] = True"
| "plain_code marks (Txt t # ps) = (free_of marks t \<and> plain_code marks ps)"
| "plain_code marks (Lit v # ps) = plain_code marks ps"

lemma plain_code_append [simp]: "plain_code marks (ps @ qs) = (plain_code marks ps \<and> plain_code marks qs)"
  by (induction marks ps rule: plain_code.induct) auto

lemma mark_len_0: "[] \<notin> set marks \<Longrightarrow> mark_len marks s = 0 \<longleftrightarrow> (\<forall>q \<in> set marks. \<not> starts_with q s)"
  by (induction marks) auto

lemma mark_len_Nil: "[] \<notin> set marks \<Longrightarrow> mark_len marks [] = 0"
  by (auto simp: mark_len_0 starts_with_iff)

lemma starts_with_stop:
  assumes "starts_with q (a @ x # b)" and "x \<notin> set q"
  shows "starts_with q a"
proof -
  obtain r where "a @ x # b = q @ r" using assms(1) by (auto simp: starts_with_iff)
  then consider (inside) us where "a = q @ us" | (past) us where "q = a @ us" "x # b = us @ r"
    by (auto simp: append_eq_append_conv2)
  then show ?thesis
  proof cases
    case past
    then show ?thesis using assms(2) by (cases us) auto
  qed simp
qed

text \<open>
  What a set of quote marks needs for quoting to be sound: it has the apostrophe, its marks are
  not empty, and no other mark contains an apostrophe.
\<close>

locale quote_marks =
  fixes marks :: "string list"
  assumes apos_mark: "apos \<in> set marks"
    and nonempty: "q \<in> set marks \<Longrightarrow> q \<noteq> []"
    and apos_alone: "q \<in> set marks \<Longrightarrow> q \<noteq> apos \<Longrightarrow> CHR 0x27 \<notin> set q"
begin

lemma no_empty: "[] \<notin> set marks"
  using nonempty by blast

lemma mark_len_apos: "mark_len marks (CHR 0x27 # s) = 1"
proof -
  have "starts_with q (CHR 0x27 # s) \<longleftrightarrow> q = apos" if "q \<in> set marks" for q
    using nonempty [OF that] apos_alone [OF that] by (cases q) (auto simp: starts_with_iff apos_def)
  moreover have "mark_len ms (CHR 0x27 # s) = 1"
    if "\<forall>q \<in> set ms. starts_with q (CHR 0x27 # s) \<longleftrightarrow> q = apos" "apos \<in> set ms" for ms
    using that by (induction ms) (auto simp: apos_def)
  ultimately show ?thesis using apos_mark by blast
qed

lemma mark_len_free:
  assumes "\<forall>q \<in> set marks. hd q \<noteq> c"
  shows "mark_len marks (c # s) = 0"
proof -
  have "\<not> starts_with q (c # s)" if "q \<in> set marks" for q
    using nonempty [OF that] assms that by (cases q) (auto simp: starts_with_iff)
  then show ?thesis by (simp add: mark_len_0 [OF no_empty])
qed

lemma mark_len_in_literal:
  assumes "quotable marks (c # v)" and "c \<noteq> CHR 0x27"
  shows "mark_len marks (c # double_apos v @ CHR 0x27 # rest) = 0"
proof -
  have "\<not> starts_with q (c # double_apos v @ CHR 0x27 # rest)" if q: "q \<in> set marks" for q
  proof
    assume s: "starts_with q (c # double_apos v @ CHR 0x27 # rest)"
    then have ne: "q \<noteq> apos" using assms(2) by (auto simp: starts_with_iff apos_def)
    then have a: "CHR 0x27 \<notin> set q" using apos_alone q by blast
    define w where "w = takeWhile (\<lambda>x. x \<noteq> CHR 0x27) v"
    have "\<exists>z. double_apos v @ CHR 0x27 # rest = w @ CHR 0x27 # z" unfolding w_def
      by (induction v) (auto simp: double_apos_def replace_char_def apos_def)
    then obtain z where z: "c # double_apos v @ CHR 0x27 # rest = (c # w) @ CHR 0x27 # z" by auto
    from s [unfolded z] have "starts_with q (c # w)" by (rule starts_with_stop) (rule a)
    moreover have "v = w @ dropWhile (\<lambda>x. x \<noteq> CHR 0x27) v" unfolding w_def by simp
    ultimately obtain r where "c # v = [] @ q @ (r @ dropWhile (\<lambda>x. x \<noteq> CHR 0x27) v)"
      unfolding starts_with_iff by (metis append_Cons append_Nil append_assoc)
    then have "contains_str q (c # v)" unfolding contains_str_iff by blast
    then show False using assms(1) q ne by (auto simp: quotable_def list_all_iff)
  qed
  then show ?thesis by (simp add: mark_len_0 [OF no_empty])
qed

lemma quotable_tl: "quotable marks (c # v) \<Longrightarrow> quotable marks v"
  by (auto simp: quotable_def list_all_iff contains_str_Cons)

lemma read_quoted:
  assumes "quotable marks v" and "mark_len marks rest = 0"
  shows "read_lit marks (double_apos v @ CHR 0x27 # rest) = Some (v, rest)"
  using assms(1)
proof (induction v)
  case Nil
  then show ?case using assms(2)
    by (subst read_lit.simps) (simp add: double_apos_def replace_char_def mark_len_apos Let_def)
next
  case (Cons c v)
  have IH: "read_lit marks (double_apos v @ CHR 0x27 # rest) = Some (v, rest)"
    using Cons quotable_tl by blast
  show ?case
  proof (cases "c = CHR 0x27")
    case True
    then have "double_apos (c # v) = CHR 0x27 # CHR 0x27 # double_apos v"
      by (simp add: double_apos_def replace_char_def apos_def)
    then show ?thesis using IH True
      by (subst read_lit.simps) (simp add: mark_len_apos Let_def)
  next
    case False
    then have "double_apos (c # v) = c # double_apos v" by (simp add: double_apos_def replace_char_def)
    then show ?thesis using IH mark_len_in_literal [OF Cons.prems False, of rest]
      by (subst read_lit.simps) simp
  qed
qed

lemma read_code:
  assumes "free_of marks t"
  shows "read_script marks (t @ s) =
    (case read_script marks s of None \<Rightarrow> None | Some (c, ls) \<Rightarrow> Some (t @ c, ls))"
  using assms
proof (induction t)
  case (Cons a t)
  have "mark_len marks (a # t @ s) = 0"
    using Cons.prems by (intro mark_len_free) (auto simp: free_of_def list_all_iff)
  moreover have "free_of marks t" using Cons.prems by (auto simp: free_of_def list_all_iff)
  ultimately show ?case using Cons.IH
    by (subst read_script.simps) (simp split: option.splits)
qed (simp split: option.splits)

lemma render_starts_code:
  assumes "separated (Lit v # ps)" and "plain_code marks ps"
  shows "mark_len marks (render ps) = 0"
proof (cases ps)
  case Nil
  then show ?thesis by (simp add: mark_len_Nil no_empty)
next
  case (Cons p qs)
  then obtain t where p: "p = Txt t" "t \<noteq> []" using assms(1) by (cases p) auto
  then show ?thesis using assms(2) Cons
    by (cases t) (auto intro!: mark_len_free simp: free_of_def list_all_iff)
qed

lemma read_render:
  assumes "separated ps" and "plain_code marks ps" and "\<forall>v \<in> set (literals ps). quotable marks v"
  shows "read_script marks (render ps) = Some (code_text ps, literals ps)"
  using assms
proof (induction ps rule: render.induct)
  case 1
  then show ?case by (simp add: read_script.simps)
next
  case (2 t ps)
  then show ?case by (simp add: read_code)
next
  case (3 v ps)
  have sep: "separated ps" using "3.prems" (1) by (cases "Lit v # ps" rule: separated.cases) auto
  have lit: "read_lit marks (double_apos v @ CHR 0x27 # render ps) = Some (v, render ps)"
    using "3.prems" by (intro read_quoted render_starts_code [of v]) auto
  have "read_script marks (CHR 0x27 # double_apos v @ CHR 0x27 # render ps) = Some (code_text ps, v # literals ps)"
    using "3.IH" [OF sep] "3.prems" lit
    by (subst read_script.simps) (simp add: mark_len_apos)
  then show ?case by (simp add: ps_single_quote_def apos_def)
qed

end

text \<open>The marks the code doubles, and the marks PowerShell reads as single quotes.\<close>

definition ascii_marks :: "string list" where
  "ascii_marks = [apos]"

definition powershell_marks :: "string list" where
  "powershell_marks =
     [apos, [CHR 0xE2, CHR 0x80, CHR 0x98], [CHR 0xE2, CHR 0x80, CHR 0x99],
      [CHR 0xE2, CHR 0x80, CHR 0x9A], [CHR 0xE2, CHR 0x80, CHR 0x9B]]"

interpretation ascii: quote_marks ascii_marks
  by unfold_locales (auto simp: ascii_marks_def apos_def)

interpretation powershell: quote_marks powershell_marks
  by unfold_locales (auto simp: powershell_marks_def apos_def)

lemma quotable_ascii: "quotable ascii_marks v"
  by (simp add: quotable_def ascii_marks_def)

section \<open>Properties\<close>

lemma plain_code_ascii: "plain_code powershell_marks ps \<Longrightarrow> plain_code ascii_marks ps"
  by (induction ps rule: render.induct)
    (auto simp: free_of_def ascii_marks_def powershell_marks_def)

text \<open>
  A value embedded with \<open>ps_single_quote\<close> comes back as itself when the script is read,
  and the command text around it is exactly the template's, for every value, as long as the
  apostrophe is the only quote mark. With PowerShell's own marks the same holds for values
  without a typographic single quote.
\<close>

theorem quoted_values_stay_values:
  assumes "separated ps" and "plain_code powershell_marks ps"
  shows "read_script ascii_marks (render ps) = Some (code_text ps, literals ps) \<and>
    (list_all (quotable powershell_marks) (literals ps) \<longrightarrow>
       read_script powershell_marks (render ps) = Some (code_text ps, literals ps))"
  using ascii.read_render [OF assms(1) plain_code_ascii [OF assms(2)]] powershell.read_render [OF assms]
  by (simp add: quotable_ascii list_all_iff)

definition sample_script :: "string \<Rightarrow> piece list" where
  "sample_script v = [Txt ''Write-Output '', Lit v, Txt ''; exit'']"

lemma quoted_values_stay_values_witness:
  "read_script powershell_marks (render (sample_script (''O'' @ apos @ ''Brien''))) =
     Some (''Write-Output ; exit'', [''O'' @ apos @ ''Brien''])"
  using quoted_values_stay_values [of "sample_script (''O'' @ apos @ ''Brien'')"]
  by (simp add: sample_script_def free_of_def powershell_marks_def apos_def quotable_def starts_with_def)

text \<open>
  The comment of \<open>ps_single_quote\<close> calls it a safe way to embed untrusted text. It is not for
  a value with a typographic quote: PowerShell ends the literal there, and reads what follows as
  commands.
\<close>

definition curly :: string where "curly = [CHR 0xE2, CHR 0x80, CHR 0x99]"

lemma typographic_quote_ends_the_literal:
  "read_script ascii_marks (render (sample_script (curly @ '';calc;'' @ curly))) =
     Some (''Write-Output ; exit'', [curly @ '';calc;'' @ curly]) \<and>
   read_script powershell_marks (render (sample_script (curly @ '';calc;'' @ curly))) =
     Some (''Write-Output ;calc;; exit'', [[], []])"
  by code_simp

end
