(* ===== verification/Exec_Windows.thy ===== *)
theory Exec_Windows
  imports Exec_Quote Updater_Domain
begin

text \<open>
  The Windows executors that hand a script to PowerShell: \<open>executor/tasks.rs\<close>,
  \<open>driver.rs\<close>, \<open>boot.rs\<close>, \<open>process.rs\<close>, \<open>software.rs\<close>, \<open>security.rs\<close>, \<open>repair.rs\<close>,
  \<open>startup.rs\<close>, and the disk and network scripts of \<open>executor/mod.rs\<close>. Each builder gives
  the pieces of its script, a value quoted by \<open>ps_single_quote\<close> or placed between apostrophes
  with its own apostrophes doubled being one literal; each operation runs its guards in the
  code's order and then the rendered script.
\<close>

section \<open>Scheduled tasks\<close>

definition has_backslash :: "string \<Rightarrow> bool" where
  "has_backslash s = (backslash \<in> set s)"

text \<open>The text after the last backslash, and the text up to it, that backslash included.\<close>

definition leaf_of :: "string \<Rightarrow> string" where
  "leaf_of s = rev (takeWhile (\<lambda>c. c \<noteq> backslash) (rev s))"

definition folder_of :: "string \<Rightarrow> string" where
  "folder_of s = rev (dropWhile (\<lambda>c. c \<noteq> backslash) (rev s))"

text \<open>The state a cmdlet must leave behind, and the check that it did.\<close>

definition wrong_state :: "string \<Rightarrow> string" where
  "wrong_state cmdlet = (if cmdlet = ''Disable-ScheduledTask'' then ''-ne'' else ''-eq'')"

definition wanted_state :: "string \<Rightarrow> string" where
  "wanted_state cmdlet = (if cmdlet = ''Disable-ScheduledTask'' then ''Disabled'' else ''enabled'')"

definition task_check :: "string \<Rightarrow> string \<Rightarrow> piece list" where
  "task_check cmdlet task_name =
     [Txt ''if (@($actual | Where-Object { $_.State '', Txt (wrong_state cmdlet), Txt '' '', Lit ''Disabled'',
      Txt '' }).Count -gt 0) { throw '', Lit (''Scheduled task state did not change to '' @ wanted_state cmdlet),
      Txt '' }; Write-Output '', Lit (cmdlet @ '' succeeded for '' @ task_name)]"

definition full_task :: "string \<Rightarrow> string \<Rightarrow> string \<Rightarrow> piece list" where
  "full_task cmdlet folder leaf =
     [Txt ''Get-ScheduledTask -TaskPath '', Lit folder, Txt '' -TaskName '', Lit leaf, Txt '' -ErrorAction Stop'',
      Txt '' | '', Txt cmdlet, Txt '' -ErrorAction Stop | Out-Null; $actual = @('',
      Txt ''Get-ScheduledTask -TaskPath '', Lit folder, Txt '' -TaskName '', Lit leaf, Txt '' -ErrorAction Stop'',
      Txt ''); '']"

definition bare_task :: "string \<Rightarrow> string \<Rightarrow> piece list" where
  "bare_task cmdlet task_name =
     [Txt ''$t = @(Get-ScheduledTask -TaskName '', Lit task_name, Txt '' -ErrorAction Stop); '',
      Txt ''if ($t.Count -eq 0) { throw '', Lit ''Scheduled task was not found'', Txt '' }; '',
      Txt ''if ($t.Count -gt 1) { throw '',
      Lit (''Ambiguous scheduled task '' @ emdash @ '' more than one folder has a task with this name; specify the full '' @
           [backslash] @ ''Folder'' @ [backslash] @ ''Name path''),
      Txt '' }; $t | '', Txt cmdlet, Txt '' -ErrorAction Stop | Out-Null; '',
      Txt ''$actual = @($t | ForEach-Object { '',
      Txt ''Get-ScheduledTask -TaskPath $_.TaskPath -TaskName $_.TaskName -ErrorAction Stop }); '']"

definition task_pieces :: "string \<Rightarrow> string \<Rightarrow> piece list" where
  "task_pieces cmdlet task_name =
     (if has_backslash task_name \<and> starts_with [backslash] task_name \<and> leaf_of task_name \<noteq> []
      then full_task cmdlet (folder_of task_name) (leaf_of task_name)
      else bare_task cmdlet task_name) @ task_check cmdlet task_name"

definition build_task_script :: "string \<Rightarrow> string \<Rightarrow> string" where
  "build_task_script cmdlet task_name = render (task_pieces cmdlet task_name)"

definition run_task_cmd :: "ps_env \<Rightarrow> string \<Rightarrow> string \<Rightarrow> string run" where
  "run_task_cmd E cmdlet task_name =
     (if has_wildcard task_name then
        refuse (''Task name '' @ quoted task_name @ '' contains wildcard characters '' @ emdash @ '' refusing'')
      else if \<not> starts_with [backslash] task_name then
        refuse (''Scheduled task must use a full '' @ [backslash] @ ''Folder'' @ [backslash] @ ''Name path '' @
                emdash @ '' refusing bare name'')
      else run_diagnostic E (build_task_script cmdlet task_name))"

definition task_disable :: "ps_env \<Rightarrow> string \<Rightarrow> string run" where
  "task_disable E task_name = run_task_cmd E ''Disable-ScheduledTask'' task_name"

definition task_enable :: "ps_env \<Rightarrow> string \<Rightarrow> string run" where
  "task_enable E task_name = run_task_cmd E ''Enable-ScheduledTask'' task_name"

section \<open>Drivers\<close>

definition CRITICAL_DRIVERS :: "string list" where
  "CRITICAL_DRIVERS =
     [''storahci'', ''stornvme'', ''disk'', ''iaStorV'', ''lsilogic'', ''partmgr'',
      ''acpi'', ''pci'', ''acpiex'', ''ndis'', ''tcpip'', ''netbt'', ''nsiproxy'',
      ''ntfs'', ''volmgr'', ''volsnap'', ''dfsc'', ''mup'', ''usbhub'', ''usbhub3'',
      ''wdf01000'', ''ksecpkg'', ''wdboot'', ''wdfilter'', ''wdnisdrv'']"

definition driver_name_ok :: "string \<Rightarrow> bool" where
  "driver_name_ok name =
     (name \<noteq> [] \<and> list_all (\<lambda>c. is_ascii_alphanumeric c \<or> c \<in> {CHR ''_'', CHR ''-'', CHR ''.''}) name)"

definition start_guard :: "nat \<Rightarrow> piece list" where
  "start_guard expected_start =
     (let now = ''$currentStart = Get-ItemPropertyValue -LiteralPath $key -Name Start -ErrorAction Stop; '' in
      if expected_start = 3 then
        [Txt now, Txt ''if ($currentStart -ne 4) { throw '',
         Lit ''Refusing to change a driver that is not disabled'', Txt '' }; '']
      else if expected_start = 4 then
        [Txt now, Txt ''if ($currentStart -le 1) { throw '',
         Lit ''Refusing to disable a boot/system-start driver'', Txt '' }; '']
      else [])"

definition services_key :: "string \<Rightarrow> string" where
  "services_key name =
     join [backslash] [''Registry::HKEY_LOCAL_MACHINE'', ''SYSTEM'', ''CurrentControlSet'', ''Services'', name]"

definition config_pieces :: "string \<Rightarrow> string \<Rightarrow> nat \<Rightarrow> piece list" where
  "config_pieces driver_name start_mode expected_start =
     [Txt ''$key = '', Lit (services_key driver_name),
      Txt ''; $type = Get-ItemPropertyValue -LiteralPath $key -Name Type -ErrorAction Stop; '',
      Txt ''if ($type -notin @(1,2,8)) { throw '', Lit ''Target is not a Windows driver'', Txt '' }; '']
     @ start_guard expected_start @
     [Txt ''sc.exe config '', Lit driver_name, Txt '' start= '', Txt start_mode,
      Txt ''; if ($LASTEXITCODE -ne 0) { throw '', Lit ''sc.exe failed'',
      Txt '' }; $start = Get-ItemPropertyValue -LiteralPath $key -Name Start -ErrorAction Stop; '',
      Txt ''if ($start -ne '', Txt (show_nat expected_start), Txt '') { throw '',
      Lit ''Driver start mode did not change'', Txt '' }'']"

definition config_script :: "string \<Rightarrow> string \<Rightarrow> nat \<Rightarrow> string + piece list" where
  "config_script driver_name start_mode expected_start =
     (if driver_name_ok driver_name then Inr (config_pieces driver_name start_mode expected_start)
      else Inl (''Invalid driver service name: '' @ driver_name))"

definition driver_disable :: "ps_env \<Rightarrow> string \<Rightarrow> string run" where
  "driver_disable E driver_name =
     (if list_ex (\<lambda>d. to_lowercase (pe_low E) d = to_lowercase (pe_low E) driver_name) CRITICAL_DRIVERS then
        refuse (''Refusing to disable critical driver: '' @ driver_name)
      else bind_run (lift_result (config_script driver_name ''disabled'' 4)) (\<lambda>ps.
        run_diagnostic E (render (ps @ [Txt ''; Write-Output '', Lit (''Driver '' @ driver_name @ '' disabled'')]))))"

definition driver_enable :: "ps_env \<Rightarrow> string \<Rightarrow> string run" where
  "driver_enable E driver_name =
     bind_run (lift_result (config_script driver_name ''demand'' 3)) (\<lambda>ps.
       run_diagnostic E (render (ps @ [Txt ''; Write-Output '', Lit (''Driver '' @ driver_name @ '' set to manual start'')])))"

section \<open>Boot configuration\<close>

definition SAFE_ELEMENTS :: "string list" where
  "SAFE_ELEMENTS = [''timeout'', ''bootmenupolicy'', ''bootstatuspolicy'', ''recoveryenabled'', ''quietboot'', ''nx'']"

definition shell_char :: "char \<Rightarrow> bool" where
  "shell_char c =
     (c \<in> set ''{};&|`$()'' \<or> c = newline \<or> c = CHR 0x0D \<or> c = CHR 0x22)"

definition bcd_pieces :: "string \<Rightarrow> string \<Rightarrow> piece list" where
  "bcd_pieces element val =
     [Txt ''bcdedit /set '', Lit ''{current}'', Txt '' '', Txt (double_apos element), Txt '' '', Lit val,
      Txt ''; if ($LASTEXITCODE -ne 0) { throw '', Lit ''bcdedit failed'', Txt '' }; Write-Output '',
      Lit (''BCD updated: '' @ element @ ''='' @ val)]"

definition bcd_edit :: "ps_env \<Rightarrow> string \<Rightarrow> string \<Rightarrow> string run" where
  "bcd_edit E element val =
     (if to_lowercase (pe_low E) element \<notin> set SAFE_ELEMENTS then
        refuse (''BCD element '' @ quoted element @ '' is not on the safe list (allowed: '' @ join '', '' SAFE_ELEMENTS @ '')'')
      else if list_ex shell_char val then refuse (''BCD value contains disallowed characters: '' @ val)
      else run_diagnostic E (render (bcd_pieces element val)))"

section \<open>Processes\<close>

definition kill_pieces :: "string \<Rightarrow> piece list" where
  "kill_pieces name =
     [Txt ''$procs = @(Get-Process -Name '', Lit name, Txt '' -ErrorAction SilentlyContinue); '',
      Txt ''if ($procs.Count -eq 0) { throw '', Lit (''No running process named: '' @ name),
      Txt '' }; $ids = @($procs.Id); $procs | Stop-Process -Force -ErrorAction Stop; '',
      Txt ''foreach ($id in $ids) { Wait-Process -Id $id -Timeout 10 -ErrorAction Stop }; '',
      Txt ''Write-Output '', Lit (''Stopped process(es) named: '' @ name)]"

definition kill_refusal :: "string \<Rightarrow> string" where
  "kill_refusal name =
     (if has_wildcard name then ''Process name '' @ quoted name @ '' contains wildcard characters '' @ emdash @ '' refusing''
      else ''Refusing to kill protected process: '' @ name)"

definition process_kill :: "ps_env \<Rightarrow> string \<Rightarrow> string run" where
  "process_kill E name =
     (if kill_target_windows (pe_low E) name
      then run_diagnostic E (render (kill_pieces (process_query_name name)))
      else refuse (kill_refusal name))"

section \<open>Software\<close>

definition uninstall_roots :: "string list" where
  "uninstall_roots =
     [join [backslash] [''HKLM:'', ''SOFTWARE'', ''Microsoft'', ''Windows'', ''CurrentVersion'', ''Uninstall''],
      join [backslash] [''HKLM:'', ''SOFTWARE'', ''WOW6432Node'', ''Microsoft'', ''Windows'', ''CurrentVersion'', ''Uninstall'']]"

definition msi_code_pattern :: string where
  "msi_code_pattern =
     [backslash] @ ''{[0-9A-Fa-f]{8}-[0-9A-Fa-f]{4}-[0-9A-Fa-f]{4}-[0-9A-Fa-f]{4}-[0-9A-Fa-f]{12}'' @ [backslash] @ ''}''"

definition lookup_pieces :: "string \<Rightarrow> piece list" where
  "lookup_pieces name =
     [Txt ''$roots = @(
    '', Lit (uninstall_roots ! 0), Txt '',
    '', Lit (uninstall_roots ! 1), Txt ''
)'', Txt [newline], Txt ''function Get-ExactPackages {
    @(Get-Package -Name '', Lit name, Txt '' -ErrorAction SilentlyContinue |
      Where-Object { $_.Name -eq '', Lit name, Txt '' })
}'', Txt [newline], Txt ''function Get-ExactRegistryEntries {
    @(Get-ChildItem $roots -ErrorAction SilentlyContinue |
      Get-ItemProperty -ErrorAction SilentlyContinue |
      Where-Object { $_.DisplayName -eq '', Lit name, Txt '' })
}

$packages = @(Get-ExactPackages)
$keys = @(Get-ExactRegistryEntries)
if ($packages.Count -gt 1 -or $keys.Count -gt 1) {
    throw '', Lit (''Ambiguous package name: '' @ name), Txt ''
}
if ($packages.Count -eq 0 -and $keys.Count -eq 0) {
    throw '', Lit (''Package not found: '' @ name), Txt ''
}
'']"

definition msi_pieces :: "string \<Rightarrow> piece list" where
  "msi_pieces name =
     [Txt ''
if ($keys.Count -eq 1) {
    $cmd = if ($keys[0].QuietUninstallString) {
        $keys[0].QuietUninstallString
    } else {
        $keys[0].UninstallString
    }
    if (-not $cmd) {
        throw '', Lit (''No uninstall command found for: '' @ name), Txt ''
    }
    if ($cmd -notmatch '', Lit (''(?i)msiexec(?:'' @ [backslash] @ ''.exe)?''), Txt '') {
        throw '', Lit (''Non-MSI silent uninstall is not supported for: '' @ name), Txt ''
    }
    $guid = [regex]::Match(
        $cmd,
        '', Lit msi_code_pattern, Txt ''
    ).Value
    if (-not $guid) {
        throw '', Lit (''MSI product code not found for: '' @ name), Txt ''
    }
    $msiexec = Join-Path $env:SystemRoot '', Lit (''System32'' @ [backslash] @ ''msiexec.exe''), Txt ''
    $process = Start-Process -FilePath $msiexec `
        -ArgumentList @('', Lit ''/x'', Txt '', $guid, '', Lit ''/quiet'', Txt '', '', Lit ''/norestart'', Txt '') `
        -Wait -PassThru -ErrorAction Stop
    if ($process.ExitCode -notin @(0, 1641, 3010)) {
        throw '', Txt [CHR 0x22], Txt ''MSI uninstall failed with exit code $($process.ExitCode)'', Txt [CHR 0x22], Txt ''
    }
} else {
    $packages[0] | Uninstall-Package -Force -ErrorAction Stop
}
'']"

definition uninstall_pieces :: "string \<Rightarrow> piece list" where
  "uninstall_pieces name =
     lookup_pieces name @ msi_pieces name @
     [Txt ''
$remainingPackages = @(Get-ExactPackages)
$remainingKeys = @(Get-ExactRegistryEntries)
if ($remainingPackages.Count -ne 0 -or $remainingKeys.Count -ne 0) {
    throw '', Lit (''Package is still installed after the uninstall command: '' @ name), Txt ''
}
Write-Output '', Lit (''Uninstalled package: '' @ name)]"

definition uninstall :: "ps_env \<Rightarrow> string \<Rightarrow> string run" where
  "uninstall E name =
     (if has_wildcard name then
        refuse (''Package name '' @ quoted name @ '' contains wildcard characters '' @ emdash @ '' refusing'')
      else run_diagnostic E (render (uninstall_pieces name)))"

section \<open>Security\<close>

definition firewall_profile_arg :: "(string \<Rightarrow> string) \<Rightarrow> string \<Rightarrow> string + string" where
  "firewall_profile_arg u profile =
     (let p = to_lowercase u (trim profile) in
      if p = ''domain'' then Inr ''domainprofile''
      else if p = ''private'' then Inr ''privateprofile''
      else if p = ''public'' then Inr ''publicprofile''
      else if p \<in> {''all'', ''allprofiles'', []} then Inr ''allprofiles''
      else Inl (''Unknown firewall profile '' @ quoted p @ '' (use domain|private|public|all)''))"

definition firewall_pieces :: "string \<Rightarrow> piece list" where
  "firewall_pieces arg =
     (let names = (if arg = ''domainprofile'' then ''Domain''
                   else if arg = ''privateprofile'' then ''Private''
                   else if arg = ''publicprofile'' then ''Public''
                   else ''Domain,Private,Public'')
      in [Txt ''netsh advfirewall set '', Txt arg, Txt '' state on; if ($LASTEXITCODE -ne 0) { throw '',
          Lit ''netsh advfirewall failed'', Txt '' }; $profiles = @(Get-NetFirewallProfile -Name '', Txt names,
          Txt '' -ErrorAction Stop); if (@($profiles | Where-Object { -not $_.Enabled }).Count -gt 0) { throw '',
          Lit ''Firewall remained disabled after the enable command'', Txt '' }; Write-Output '',
          Lit (''Firewall enabled for '' @ arg)])"

definition firewall_enable :: "ps_env \<Rightarrow> string \<Rightarrow> string run" where
  "firewall_enable E profile =
     bind_run (lift_result (firewall_profile_arg (pe_low E) profile))
       (\<lambda>arg. run_diagnostic E (render (firewall_pieces arg)))"

definition signature_pieces :: "piece list" where
  "signature_pieces =
     [Txt ''Update-MpSignature -ErrorAction Stop; $s = Get-MpComputerStatus -ErrorAction Stop; '',
      Txt ''if (-not $s.AntivirusSignatureVersion -or $null -eq $s.AntivirusSignatureAge -or $s.AntivirusSignatureAge -gt 3) { throw '',
      Lit ''Defender signatures remain missing or stale after update'', Txt '' }; Write-Output '',
      Lit ''Defender signatures updated'']"

definition defender_signature_update :: "ps_env \<Rightarrow> string run" where
  "defender_signature_update E = run_diagnostic E (render signature_pieces)"

definition realtime_pieces :: "piece list" where
  "realtime_pieces =
     [Txt ''Set-MpPreference -DisableRealtimeMonitoring $false -ErrorAction Stop; '',
      Txt ''$s = Get-MpComputerStatus -ErrorAction Stop; if (-not $s.RealTimeProtectionEnabled) { throw '',
      Lit ''Defender real-time protection remained disabled'', Txt '' }; Write-Output '',
      Lit ''Defender real-time protection enabled'']"

definition defender_realtime_enable :: "ps_env \<Rightarrow> string run" where
  "defender_realtime_enable E = run_diagnostic E (render realtime_pieces)"

section \<open>System file repair\<close>

definition REPAIR_TIMEOUT :: nat where "REPAIR_TIMEOUT = 2400"

definition spaced_dot :: string where "spaced_dot = '' '' @ [CHR 0xC2, CHR 0xB7] @ '' ''"

definition summarise :: "string \<Rightarrow> string \<Rightarrow> string" where
  "summarise tool raw =
     (let ls = filter (\<lambda>l. l \<noteq> [] \<and> \<not> list_all (\<lambda>c. c = CHR ''='' \<or> c = CHR ''.'') l) (map trim (lines raw));
          tail = join spaced_dot (rev (take 3 (rev ls)));
          body = (if 300 < char_count tail then take_chars 299 tail @ ellipsis else tail)
      in if body = [] then tool @ '' completed'' else tool @ '': '' @ body)"

definition repair_script :: "string \<Rightarrow> string \<Rightarrow> string" where
  "repair_script command tool =
     ''$out = '' @ command @ '' 2>&1 | Out-String; Write-Output ($out.Trim()); if ($LASTEXITCODE -ne 0) { throw '' @
     [CHR 0x22] @ tool @ '' exited with $LASTEXITCODE'' @ [CHR 0x22] @ '' }''"

definition sfc_scan :: "ps_env \<Rightarrow> string run" where
  "sfc_scan E =
     bind_run (run_with_timeout E (repair_script ''sfc /scannow'' ''sfc'') REPAIR_TIMEOUT)
       (\<lambda>out. (Inr (summarise ''SFC'' out), []))"

definition dism_restore_health :: "ps_env \<Rightarrow> string run" where
  "dism_restore_health E =
     bind_run (run_with_timeout E (repair_script ''DISM /Online /Cleanup-Image /RestoreHealth'' ''DISM'') REPAIR_TIMEOUT)
       (\<lambda>out. (Inr (summarise ''DISM'' out), []))"

section \<open>Disk and network\<close>

definition disk_cleanup_pieces :: "string \<Rightarrow> piece list option" where
  "disk_cleanup_pieces target =
     (let t = to_ascii_lowercase target;
          found = (if t \<in> {''temp'', ''tmp''} then Some (''Temp'', ''Temp folder'')
                   else if t = ''prefetch'' then Some (''Prefetch'', ''Prefetch'')
                   else None)
      in case found of
           None \<Rightarrow> None
         | Some (subdir, label) \<Rightarrow> Some
             [Txt ''$ErrorActionPreference='', Lit ''Stop'', Txt ''; $root=Join-Path $env:SystemRoot '', Lit subdir,
              Txt ''; if (-not (Test-Path -LiteralPath $root -PathType Container -ErrorAction Stop)) { Write-Output '',
              Lit (label @ '' is already empty''), Txt ''; return }; '',
              Txt ''$items=@(Get-ChildItem -LiteralPath $root -Force -ErrorAction Stop); $removed=0; $skipped=0; '',
              Txt ''foreach($item in $items) { try { Remove-Item -LiteralPath $item.FullName -Recurse -Force -ErrorAction Stop; '',
              Txt ''if (Test-Path -LiteralPath $item.FullName -ErrorAction Stop) { throw '',
              Lit ''item remained after deletion'', Txt '' }; $removed++ } catch { $skipped++ } }; '',
              Txt ''if ($items.Count -gt 0 -and $removed -eq 0) { throw '',
              Lit (label @ '' cleanup could not remove any item''), Txt '' }; Write-Output ('',
              Lit (label @ '' cleaned: {0} removed, {1} skipped''), Txt '' -f $removed,$skipped)''])"

definition disk_cleanup :: "ps_env \<Rightarrow> string \<Rightarrow> string run" where
  "disk_cleanup E target =
     (case disk_cleanup_pieces target of
        None \<Rightarrow> refuse (''Unknown disk cleanup target: '' @ quoted target)
      | Some ps \<Rightarrow> run_diagnostic E (render ps))"

definition network_pieces :: "string \<Rightarrow> piece list option" where
  "network_pieces command =
     (let c = to_ascii_lowercase command; failed = Txt ''; if ($LASTEXITCODE -ne 0) { throw '' in
      if c = ''flush_dns'' then Some [Txt ''ipconfig /flushdns'', failed, Lit ''ipconfig flushdns failed'', Txt '' }'']
      else if c = ''release_renew'' then Some
        [Txt ''ipconfig /release'', failed, Lit ''ipconfig release failed'', Txt '' }; Start-Sleep -Seconds 2; '',
         Txt ''ipconfig /renew'', failed, Lit ''ipconfig renew failed'', Txt '' }'']
      else if c = ''reset_tcp'' then Some [Txt ''netsh int ip reset'', failed, Lit ''TCP/IP reset failed'', Txt '' }'']
      else if c = ''reset_winsock'' then Some [Txt ''netsh winsock reset'', failed, Lit ''Winsock reset failed'', Txt '' }'']
      else None)"

definition network_diagnostic :: "ps_env \<Rightarrow> string \<Rightarrow> string run" where
  "network_diagnostic E command =
     (case network_pieces command of
        None \<Rightarrow> refuse (''Unknown network diagnostic command: '' @ quoted command)
      | Some ps \<Rightarrow> run_diagnostic E (render ps))"

end
