(* ===== verification/Exec_Startup.thy ===== *)
theory Exec_Startup
  imports Exec_Windows
begin

text \<open>
  Enabling and disabling logon entries on Windows (\<open>executor/startup.rs\<close>): the closed set of
  locations, the guard that the entry still exists, and the write of the approved flag. The
  SID of the user at the desktop is the environment's.
\<close>

definition sid_prefix :: string where "sid_prefix = ''S-1-5-21-''"

definition valid_sid :: "string \<Rightarrow> bool" where
  "valid_sid sid =
     (length sid_prefix < length sid \<and> starts_with sid_prefix sid \<and>
      list_all (\<lambda>c. is_ascii_digit c \<or> c = CHR ''-'') (drop (length sid_prefix) sid))"

definition current_version :: "string list" where
  "current_version = [''SOFTWARE'', ''Microsoft'', ''Windows'', ''CurrentVersion'']"

definition approved_base :: "string list" where
  "approved_base = current_version @ [''Explorer'', ''StartupApproved'']"

definition machine_hive :: "string list" where
  "machine_hive = [''Registry::HKEY_LOCAL_MACHINE'']"

definition user_hive :: "string \<Rightarrow> string list" where
  "user_hive sid = [''Registry::HKEY_USERS'', sid]"

definition approved_key :: "string \<Rightarrow> string \<Rightarrow> string + string" where
  "approved_key location hive =
     (if location = ''machine_run'' then Inr (join [backslash] (machine_hive @ approved_base @ [''Run'']))
      else if location = ''machine_run32'' then Inr (join [backslash] (machine_hive @ approved_base @ [''Run32'']))
      else if location = ''common_startup_folder'' then
        Inr (join [backslash] (machine_hive @ approved_base @ [''StartupFolder'']))
      else if location = ''user_run'' \<and> valid_sid hive then
        Inr (join [backslash] (user_hive hive @ approved_base @ [''Run'']))
      else if location = ''user_startup_folder'' \<and> valid_sid hive then
        Inr (join [backslash] (user_hive hive @ approved_base @ [''StartupFolder'']))
      else Inl (''Unknown or invalid startup location '' @ quoted location @ '' (hive '' @ quoted hive @ '')''))"

definition set_enabled_pieces :: "string \<Rightarrow> string \<Rightarrow> bool \<Rightarrow> piece list \<Rightarrow> piece list" where
  "set_enabled_pieces key name enable source_guard =
     (let first = (if enable then ''0x02'' else ''0x03''); verb = (if enable then ''Enabled'' else ''Disabled'') in
      [Txt ''$ErrorActionPreference='', Lit ''Stop'', Txt ''; ''] @ source_guard @
      [Txt '' $k='', Lit key, Txt ''; if (-not (Test-Path -LiteralPath $k)) { New-Item -Path $k -Force | Out-Null }; '',
       Txt ''$b=[byte[]]('', Txt first, Txt '',0,0,0,0,0,0,0,0,0,0,0); Set-ItemProperty -LiteralPath $k -Name '',
       Lit name, Txt '' -Value $b -Type Binary; '',
       Txt ''$actual = (Get-ItemProperty -LiteralPath $k -ErrorAction Stop).PSObject.Properties['', Lit name,
       Txt ''].Value; if ($null -eq $actual -or $actual.Length -lt 1 -or $actual[0] -ne '', Txt first, Txt '') { throw '',
       Lit ''Startup state did not change to the requested value'', Txt '' }; Write-Output '',
       Lit (verb @ '' startup entry '' @ name)])"

definition user_locations :: "string list" where
  "user_locations = [''user_run'', ''user_startup_folder'', ''scheduled_task'']"

definition validate_user_scope :: "string \<Rightarrow> string \<Rightarrow> string \<Rightarrow> string + unit" where
  "validate_user_scope location hive active_sid =
     (if location \<in> set user_locations \<and> \<not> eq_ignore_ascii_case hive active_sid
      then Inl ''Startup entry belongs to a different interactive user'' else Inr ())"

definition stale :: "piece list" where
  "stale = [Txt ''throw '', Lit ''Startup entry is stale or missing; scan again'']"

definition run_key :: "string \<Rightarrow> string \<Rightarrow> string option" where
  "run_key location hive =
     (if location = ''machine_run'' then Some (join [backslash] (machine_hive @ current_version @ [''Run'']))
      else if location = ''machine_run32'' then
        Some (join [backslash] (machine_hive @ [''SOFTWARE'', ''WOW6432Node'', ''Microsoft'', ''Windows'', ''CurrentVersion'', ''Run'']))
      else if location = ''user_run'' \<and> valid_sid hive then
        Some (join [backslash] (user_hive hive @ current_version @ [''Run'']))
      else None)"

definition shortcut_name_ok :: "string \<Rightarrow> bool" where
  "shortcut_name_ok name =
     (name \<noteq> [] \<and> \<not> contains_any [backslash, CHR ''/'', CHR '':''] name \<and> name \<notin> {''.'', ''..''})"

definition common_base :: "piece list" where
  "common_base =
     [Txt ''$base = Join-Path $env:ProgramData '',
      Lit (join [backslash] [''Microsoft'', ''Windows'', ''Start Menu'', ''Programs'', ''StartUp'']), Txt '';'']"

definition user_base :: "string \<Rightarrow> piece list" where
  "user_base profile_key =
     [Txt ''$profile = (Get-ItemProperty -LiteralPath '', Lit profile_key,
      Txt '' -Name '', Lit ''ProfileImagePath'',
      Txt '' -ErrorAction Stop).ProfileImagePath; if ([string]::IsNullOrWhiteSpace($profile)) { ''] @ stale @
     [Txt '' }; $base = Join-Path ([Environment]::ExpandEnvironmentVariables([string]$profile)) '',
      Lit (join [backslash] [''AppData'', ''Roaming'', ''Microsoft'', ''Windows'', ''Start Menu'', ''Programs'', ''Startup'']),
      Txt '';'']"

definition folder_base :: "string \<Rightarrow> string \<Rightarrow> string + piece list" where
  "folder_base location hive =
     (if location = ''common_startup_folder'' then Inr common_base
      else if valid_sid hive then
        Inr (user_base (join [backslash] (machine_hive @
               [''SOFTWARE'', ''Microsoft'', ''Windows NT'', ''CurrentVersion'', ''ProfileList'', hive])))
      else Inl ''Invalid user SID for startup folder'')"

definition run_guard :: "string \<Rightarrow> string \<Rightarrow> piece list" where
  "run_guard key name =
     [Txt ''$source = (Get-ItemProperty -LiteralPath '', Lit key,
      Txt '' -ErrorAction Stop).PSObject.Properties['', Lit name, Txt '']; if ($null -eq $source) { ''] @
     stale @ [Txt '' };'']"

definition shortcut_guard :: "piece list \<Rightarrow> string \<Rightarrow> piece list" where
  "shortcut_guard base name =
     base @ [Txt '' $source = Join-Path $base '', Lit name,
             Txt ''; if (-not (Test-Path -LiteralPath $source -PathType Leaf -ErrorAction Stop)) { ''] @
     stale @ [Txt '' };'']"

definition build_source_guard :: "string \<Rightarrow> string \<Rightarrow> string \<Rightarrow> string + piece list" where
  "build_source_guard location hive name =
     (case run_key location hive of
        Some key \<Rightarrow> Inr (run_guard key name)
      | None \<Rightarrow>
          if location \<in> {''common_startup_folder'', ''user_startup_folder''} then
            (if \<not> shortcut_name_ok name then Inl ''Startup shortcut name must be a single local filename''
             else (case folder_base location hive of
                     Inl e \<Rightarrow> Inl e
                   | Inr base \<Rightarrow> Inr (shortcut_guard base name)))
          else Inl (''Unknown startup location '' @ quoted location))"

definition set_enabled :: "ps_env \<Rightarrow> string + string \<Rightarrow> string \<Rightarrow> string \<Rightarrow> string \<Rightarrow> bool \<Rightarrow> string run" where
  "set_enabled E active_sid name location hive enable =
     (if has_wildcard name then
        refuse (''Startup entry name '' @ quoted name @ '' contains wildcard characters '' @ emdash @ '' refusing'')
      else bind_run
        (if location \<in> set user_locations
         then bind_run (lift_result active_sid) (\<lambda>sid. lift_result (validate_user_scope location hive sid))
         else (Inr (), []))
        (\<lambda>_. if location = ''scheduled_task''
              then (if enable then task_enable E name else task_disable E name)
              else bind_run (lift_result (approved_key location hive)) (\<lambda>key.
                   bind_run (lift_result (build_source_guard location hive name)) (\<lambda>guard.
                     run_diagnostic E (render (set_enabled_pieces key name enable guard))))))"

section \<open>Where a change lands\<close>

lemma approved_key_closed:
  "approved_key location hive = Inr key \<Longrightarrow>
     (\<exists>leaf \<in> {''Run'', ''Run32'', ''StartupFolder''}. \<exists>h.
        key = join [backslash] (h @ approved_base @ [leaf]) \<and> (h = machine_hive \<or> valid_sid hive \<and> h = user_hive hive))"
  by (auto simp: approved_key_def split: if_splits)

lemma valid_sid_text: "valid_sid sid \<Longrightarrow> c \<in> set sid \<Longrightarrow> is_ascii_digit c \<or> c = CHR ''-'' \<or> c = CHR ''S''"
proof -
  assume v: "valid_sid sid" and c: "c \<in> set sid"
  have "sid = sid_prefix @ drop (length sid_prefix) sid"
    using v by (auto simp: valid_sid_def starts_with_iff)
  then have "c \<in> set sid_prefix \<or> c \<in> set (drop (length sid_prefix) sid)" using c by (metis Un_iff set_append)
  then show ?thesis using v
    by (auto simp: valid_sid_def list_all_iff sid_prefix_def is_ascii_digit_def byte_def)
qed

end
