(* ===== verification/Exec_Registry.thy ===== *)
theory Exec_Registry
  imports Exec_Quote Policy Updater_Domain
begin

text \<open>
  The registry executor (\<open>executor/registry.rs\<close>): the allowed subtrees, the snapshot taken
  before a write, the canonical form of a value's data, the guarded write with its rollback, and
  the restore a stored undo record asks for. The JSON reader of a snapshot is a parameter.
\<close>

section \<open>Guards\<close>

definition ALLOWED_KEY_PREFIXES :: "string list" where
  "ALLOWED_KEY_PREFIXES =
     [join [backslash] [''HKLM:'', ''SYSTEM'', ''CurrentControlSet'', ''Services'', ''Tcpip''],
      join [backslash] [''HKLM:'', ''SOFTWARE'', ''Microsoft'', ''Windows NT'', ''CurrentVersion'', ''Multimedia'']]"

definition registry_key_allowed :: "(string \<Rightarrow> string) \<Rightarrow> string \<Rightarrow> bool" where
  "registry_key_allowed u key =
     (\<not> has_wildcard key \<and> list_ex (is_within u key) ALLOWED_KEY_PREFIXES)"

definition hive_forms :: "(string \<times> string) list" where
  "hive_forms =
     [(''HKEY_LOCAL_MACHINE'' @ [backslash], ''HKLM:'' @ [backslash]),
      (''HKEY_CURRENT_USER'' @ [backslash], ''HKCU:'' @ [backslash]),
      (''HKEY_LOCAL_MACHINE/'', ''HKLM:'' @ [backslash]),
      (''HKEY_CURRENT_USER/'', ''HKCU:'' @ [backslash])]"

fun short_hive :: "(string \<times> string) list \<Rightarrow> string \<Rightarrow> string" where
  "short_hive [] key = key"
| "short_hive ((from, to) # rest) key =
     (if length from \<le> length key \<and> eq_ignore_ascii_case (take (length from) key) from
      then to @ drop (length from) key else short_hive rest key)"

definition normalise_key :: "string \<Rightarrow> string" where
  "normalise_key key = short_hive hive_forms key"

section \<open>Canonical data\<close>

definition hex_val :: "char \<Rightarrow> nat" where
  "hex_val c =
     (if is_ascii_digit c then byte c - 48
      else if is_ascii_upper c then byte c - 55 else byte c - 87)"

definition hex_number :: "string \<Rightarrow> nat" where
  "hex_number s = foldl (\<lambda>n c. 16 * n + hex_val c) 0 s"

definition parse_hex :: "nat \<Rightarrow> string \<Rightarrow> nat option" where
  "parse_hex m s =
     (let d = (case s of c # r \<Rightarrow> if c = CHR ''+'' then r else s | [] \<Rightarrow> s) in
      if d \<noteq> [] \<and> list_all is_ascii_hexdigit d \<and> hex_number d \<le> m then Some (hex_number d) else None)"

definition parse_word :: "nat \<Rightarrow> string \<Rightarrow> nat option" where
  "parse_word m s =
     (let v = trim s in
      case (case strip_prefix ''0x'' v of Some h \<Rightarrow> Some h | None \<Rightarrow> strip_prefix ''0X'' v) of
        Some h \<Rightarrow> parse_hex m h
      | None \<Rightarrow> parse_uint m v)"

definition DWORD_MAX :: nat where "DWORD_MAX = 2 ^ 32 - 1"
definition QWORD_MAX :: nat where "QWORD_MAX = 2 ^ 64 - 1"

definition canonical_data :: "registry_scalar_kind \<Rightarrow> string \<Rightarrow> string + string" where
  "canonical_data kind data =
     (case kind of
        KDWord \<Rightarrow> (case parse_word DWORD_MAX data of
                     Some n \<Rightarrow> Inr (show_nat n) | None \<Rightarrow> Inl (quoted (trim data) @ '' is not valid DWORD data''))
      | KQWord \<Rightarrow> (case parse_word QWORD_MAX data of
                     Some n \<Rightarrow> Inr (show_nat n) | None \<Rightarrow> Inl (quoted (trim data) @ '' is not valid QWORD data''))
      | _ \<Rightarrow> Inr data)"

section \<open>Snapshots\<close>

definition snapshot_pieces :: "string \<Rightarrow> string \<Rightarrow> piece list" where
  "snapshot_pieces key name =
     [Txt ''$ErrorActionPreference='', Lit ''Stop'', Txt ''; $key = Get-Item -LiteralPath '', Lit key,
      Txt '' -ErrorAction Stop; $name = '', Lit name,
      Txt ''; if (-not (@($key.GetValueNames()) -contains $name)) { '',
      Txt ''[pscustomobject]@'', Txt ''{ existed = $false; kind = $null; data = $null } | ConvertTo-Json -Compress '',
      Txt ''} else { $kind = $key.GetValueKind($name).ToString(); if (@('',
      Lit ''String'', Txt '','', Lit ''ExpandString'', Txt '','', Lit ''DWord'', Txt '','', Lit ''QWord'',
      Txt '') -notcontains $kind) { throw ('', Lit ''Registry value type is not supported for exact undo: '',
      Txt '' + $kind) }; $value = $key.GetValue($name, $null, [Microsoft.Win32.RegistryValueOptions]::DoNotExpandEnvironmentNames); '',
      Txt ''$data = if ($kind -ceq '', Lit ''DWord'',
      Txt '') { [BitConverter]::ToUInt32([BitConverter]::GetBytes([int32]$value), 0).ToString([Globalization.CultureInfo]::InvariantCulture) } elseif ($kind -ceq '',
      Lit ''QWord'',
      Txt '') { [BitConverter]::ToUInt64([BitConverter]::GetBytes([int64]$value), 0).ToString([Globalization.CultureInfo]::InvariantCulture) } else { [string]$value }; '',
      Txt ''[pscustomobject]@'', Txt ''{ existed = $true; kind = $kind; data = $data } | ConvertTo-Json -Compress }'']"

definition build_snapshot_script :: "string \<Rightarrow> string \<Rightarrow> string" where
  "build_snapshot_script key name = render (snapshot_pieces key name)"

record registry_snapshot =
  sn_existed :: bool
  sn_kind :: "string option"
  sn_data :: "string option"

type_synonym snapshot_reader = "string \<Rightarrow> registry_snapshot option"

definition blank_undo :: "string \<Rightarrow> string \<Rightarrow> registry_undo" where
  "blank_undo key name =
     \<lparr>undo_key_path = key, undo_value_name = name, prior_existed = False, prior_kind = None,
      prior_data = None, applied_kind = None, applied_data = None\<rparr>"

definition parse_snapshot_output :: "snapshot_reader \<Rightarrow> string \<Rightarrow> string \<Rightarrow> string \<Rightarrow> string + registry_undo" where
  "parse_snapshot_output rd key name output =
     (case rd (trim output) of
        None \<Rightarrow> Inl ''Registry snapshot returned invalid data''
      | Some sn \<Rightarrow>
          if \<not> sn_existed sn then
            (if sn_kind sn \<noteq> None \<or> sn_data sn \<noteq> None
             then Inl ''Absent registry snapshot unexpectedly contained a type or value''
             else Inr (blank_undo key name))
          else (case sn_kind sn of
              None \<Rightarrow> Inl (''Registry snapshot omitted the existing value'' @ apos @ ''s type'')
            | Some kn \<Rightarrow> (case kind_from_storage kn of
                None \<Rightarrow> Inl (''Unsupported registry value type '' @ quoted kn)
              | Some kind \<Rightarrow> (case sn_data sn of
                  None \<Rightarrow> Inl (''Registry snapshot omitted the existing value'' @ apos @ ''s data'')
                | Some d \<Rightarrow> (case canonical_data kind d of
                    Inl e \<Rightarrow> Inl e
                  | Inr data \<Rightarrow> Inr ((blank_undo key name)
                      \<lparr>prior_existed := True, prior_kind := Some kind, prior_data := Some data\<rparr>))))))"

definition read_current_value :: "ps_env \<Rightarrow> snapshot_reader \<Rightarrow> string \<Rightarrow> string \<Rightarrow> registry_undo run" where
  "read_current_value E rd key name =
     bind_run (run_diagnostic E (build_snapshot_script key name))
       (\<lambda>out. lift_result (parse_snapshot_output rd key name out))"

section \<open>Guarded writes\<close>

definition chain :: "string + 'a \<Rightarrow> ('a \<Rightarrow> string + 'b) \<Rightarrow> string + 'b" where
  "chain r k = (case r of Inl e \<Rightarrow> Inl e | Inr v \<Rightarrow> k v)"

definition need :: "'a option \<Rightarrow> string \<Rightarrow> string + 'a" where
  "need x e = (case x of None \<Rightarrow> Inl e | Some v \<Rightarrow> Inr v)"

lemma chain_Inr [simp]: "chain r k = Inr w \<longleftrightarrow> (\<exists>v. r = Inr v \<and> k v = Inr w)"
  by (auto simp: chain_def split: sum.splits)

lemma need_Inr [simp]: "need x e = Inr v \<longleftrightarrow> x = Some v"
  by (auto simp: need_def split: option.splits)

definition actual_data_expression :: "registry_scalar_kind \<Rightarrow> string" where
  "actual_data_expression kind =
     (case kind of
        KDWord \<Rightarrow> ''[BitConverter]::ToUInt32([BitConverter]::GetBytes([int32]$actual), 0).ToString([Globalization.CultureInfo]::InvariantCulture)''
      | KQWord \<Rightarrow> ''[BitConverter]::ToUInt64([BitConverter]::GetBytes([int64]$actual), 0).ToString([Globalization.CultureInfo]::InvariantCulture)''
      | _ \<Rightarrow> ''[string]$actual'')"

definition actual_value :: string where
  "actual_value =
     ''$actual = $key.GetValue($name, $null, [Microsoft.Win32.RegistryValueOptions]::DoNotExpandEnvironmentNames); ''"

definition open_key :: "string \<Rightarrow> string \<Rightarrow> piece list" where
  "open_key key name =
     [Txt ''$key = Get-Item -LiteralPath '', Lit key, Txt '' -ErrorAction Stop; $name = '', Lit name, Txt ''; '']"

definition strict :: "piece list" where
  "strict = [Txt ''$ErrorActionPreference='', Lit ''Stop'', Txt ''; '']"

definition existing_value_guard :: "string \<Rightarrow> string \<Rightarrow> registry_scalar_kind \<Rightarrow> string \<Rightarrow> string \<Rightarrow> string + piece list" where
  "existing_value_guard key name kind data changed =
     chain (canonical_data kind data) (\<lambda>canonical. Inr
       (strict @ open_key key name @
        [Txt ''if (-not (@($key.GetValueNames()) -contains $name)) { throw '', Lit changed,
         Txt '' }; $actualKind = $key.GetValueKind($name).ToString(); if ($actualKind -cne '', Lit (kind_as_str kind),
         Txt '') { throw '', Lit changed, Txt '' }; '', Txt actual_value,
         Txt ''$actualData = '', Txt (actual_data_expression kind), Txt ''; if ($actualData -cne '', Lit canonical,
         Txt '') { throw '', Lit changed, Txt '' }'']))"

definition applied_value_guard :: "string \<Rightarrow> registry_undo \<Rightarrow> string + piece list" where
  "applied_value_guard key un =
     chain (need (applied_kind un) (''Registry undo is missing Eir'' @ apos @ ''s applied value type'')) (\<lambda>kind.
     chain (need (applied_data un) (''Registry undo is missing Eir'' @ apos @ ''s applied value data'')) (\<lambda>data.
       existing_value_guard key (undo_value_name un) kind data
         (''Registry value changed since Eir applied it '' @ emdash @ '' refusing to overwrite the newer value'')))"

definition prior_value_guard :: "string \<Rightarrow> registry_undo \<Rightarrow> string + piece list" where
  "prior_value_guard key un =
     (if prior_existed un then
        chain (need (prior_kind un) ''Existing registry rollback snapshot has no scalar type'') (\<lambda>kind.
        chain (need (prior_data un) ''Existing registry rollback snapshot has no scalar data'') (\<lambda>data.
          existing_value_guard key (undo_value_name un) kind data
            (''Registry value changed since Eir snapshotted it '' @ emdash @ '' refusing to overwrite the newer value'')))
      else if prior_kind un \<noteq> None \<or> prior_data un \<noteq> None then
        Inl ''Absent registry rollback snapshot unexpectedly contains a type or value''
      else Inr
        (strict @ open_key key (undo_value_name un) @
         [Txt ''if (@($key.GetValueNames()) -contains $name) { throw '',
          Lit (''Registry value appeared since Eir snapshotted it '' @ emdash @ '' refusing to overwrite the newer value''),
          Txt '' }'']))"

definition value_expression :: "registry_scalar_kind \<Rightarrow> string \<Rightarrow> piece" where
  "value_expression kind canonical =
     (case kind of
        KDWord \<Rightarrow> Txt (''([BitConverter]::ToInt32([BitConverter]::GetBytes([uint32]'' @ canonical @ ''), 0))'')
      | KQWord \<Rightarrow> Txt (''([BitConverter]::ToInt64([BitConverter]::GetBytes([uint64]'' @ canonical @ ''), 0))'')
      | _ \<Rightarrow> Lit canonical)"

definition typed_write :: "string \<Rightarrow> string \<Rightarrow> registry_scalar_kind \<Rightarrow> string \<Rightarrow> string \<Rightarrow> string + piece list" where
  "typed_write key name kind data verification_error =
     chain (canonical_data kind data) (\<lambda>canonical. Inr
       (strict @
        [Txt ''New-ItemProperty -LiteralPath '', Lit key, Txt '' -Name '', Lit name, Txt '' -PropertyType '',
         Txt (kind_as_str kind), Txt '' -Value '', value_expression kind canonical,
         Txt '' -Force -ErrorAction Stop | Out-Null; ''] @ open_key key name @
        [Txt ''if (-not (@($key.GetValueNames()) -contains $name)) { throw '', Lit (verification_error @ '': value is absent''),
         Txt '' }; $actualKind = $key.GetValueKind($name).ToString(); if ($actualKind -cne '', Lit (kind_as_str kind),
         Txt '') { throw '', Lit (verification_error @ '': type mismatch''), Txt '' }; '', Txt actual_value,
         Txt ''$actualData = '', Txt (actual_data_expression kind), Txt ''; if ($actualData -cne '', Lit canonical,
         Txt '') { throw '', Lit (verification_error @ '': data mismatch''), Txt '' }'']))"

definition restore_commands :: "string \<Rightarrow> registry_undo \<Rightarrow> string \<Rightarrow> string + piece list" where
  "restore_commands key un verification_error =
     (if prior_existed un then
        chain (need (prior_kind un) ''Registry undo is missing the prior value type'') (\<lambda>kind.
        chain (need (prior_data un) ''Registry undo is missing the prior value data'') (\<lambda>data.
          typed_write key (undo_value_name un) kind data verification_error))
      else if prior_kind un \<noteq> None \<or> prior_data un \<noteq> None then
        Inl ''Absent registry undo unexpectedly contains a prior type or value''
      else Inr
        ([Txt ''if (Test-Path -LiteralPath '', Lit key, Txt '' -ErrorAction Stop) { ''] @ open_key key (undo_value_name un) @
         [Txt ''if (@($key.GetValueNames()) -contains $name) { Remove-ItemProperty -LiteralPath '', Lit key,
          Txt '' -Name $name -ErrorAction Stop }; $key = Get-Item -LiteralPath '', Lit key,
          Txt '' -ErrorAction Stop; if (@($key.GetValueNames()) -contains $name) { throw '',
          Lit (verification_error @ '': value still exists''), Txt '' } }'']))"

definition restore_pieces :: "string \<Rightarrow> registry_undo \<Rightarrow> string + piece list" where
  "restore_pieces key un =
     chain (applied_value_guard key un) (\<lambda>guard.
     chain (restore_commands key un ''Restored registry value did not match its prior value'') (\<lambda>restore.
       Inr (guard @ [Txt ''; ''] @ restore @ [Txt ''; Write-Output '', Lit
         (if prior_existed un then ''Restored registry value '' @ double_apos (undo_value_name un)
          else ''Removed registry value '' @ double_apos (undo_value_name un) @ '' (it did not exist before)'')])))"

definition restore_value :: "ps_env \<Rightarrow> registry_undo \<Rightarrow> string run" where
  "restore_value E un =
     (let key = normalise_key (undo_key_path un) in
      if \<not> registry_key_allowed (pe_low E) key \<or> has_wildcard (undo_value_name un) then
        refuse (''Registry path '' @ quoted (undo_key_path un) @ '' is not on the safe list '' @ emdash @ '' refusing to restore'')
      else bind_run (lift_result (restore_pieces key un)) (\<lambda>ps. run_diagnostic E (render ps)))"

definition write_failed :: "string \<Rightarrow> string" where
  "write_failed how = ''Registry write failed'' @ how"

definition reset_pieces :: "string \<Rightarrow> string \<Rightarrow> registry_scalar_kind \<Rightarrow> string \<Rightarrow> registry_undo \<Rightarrow> string + piece list" where
  "reset_pieces key name kind data un =
     (if undo_key_path un \<noteq> key \<or> undo_value_name un \<noteq> name then
        Inl ''Registry rollback snapshot does not match the write target''
      else
        chain (if prior_existed un
                  then need (prior_kind un) ''Existing registry rollback snapshot has no scalar type''
                  else Inr KString) (\<lambda>expected.
        if kind \<noteq> expected then Inl ''Registry write type does not match the rollback snapshot''
        else chain (canonical_data kind data) (\<lambda>applied.
        if applied_kind un \<noteq> Some kind \<or> applied_data un \<noteq> Some applied then
          Inl ''Registry applied-value guard does not match the requested write''
        else
        chain (prior_value_guard key un) (\<lambda>prior_guard.
        chain (typed_write key name kind data ''Registry value did not match the requested value after write'') (\<lambda>write.
        chain (restore_commands key un ''Registry rollback did not restore the prior value'') (\<lambda>rollback.
        chain (applied_value_guard key un) (\<lambda>rollback_guard. Inr
          (prior_guard @ [Txt ''; try { ''] @ write @
           [Txt '' } catch { $eirWriteError = $_.Exception.Message; $eirPriorUnchanged = $false; try { ''] @ prior_guard @
           [Txt ''; $eirPriorUnchanged = $true } catch { }; if ($eirPriorUnchanged) { throw ('',
            Lit (write_failed ''; prior value remains unchanged: ''), Txt '' + $eirWriteError) }; try { ''] @ rollback_guard @
           [Txt '' } catch { $eirStateError = $_.Exception.Message; throw ('',
            Lit (write_failed ''; value matched neither the prior nor applied state, so rollback was refused: ''),
            Txt '' + $eirWriteError + '', Lit ''; state check: '', Txt '' + $eirStateError) }; try { ''] @ rollback @
           [Txt '' } catch { $eirRollbackError = $_.Exception.Message; throw ('',
            Lit (write_failed ''; value matched the applied state recorded by Eir, but rollback failed: ''),
            Txt '' + $eirWriteError + '', Lit ''; rollback: '', Txt '' + $eirRollbackError) }; throw ('',
            Lit (write_failed '' and was rolled back: ''), Txt '' + $eirWriteError) }; Write-Output '',
            Lit (''Set registry value '' @ name)]))))))))"

definition snapshot_context :: "string \<Rightarrow> string \<Rightarrow> string + 'a \<Rightarrow> string + 'a" where
  "snapshot_context key name r =
     (case r of
        Inr v \<Rightarrow> Inr v
      | Inl e \<Rightarrow> Inl (''Could not snapshot registry value '' @ quoted (key @ backslash # name) @ ''; refusing to write''))"

definition reset_value ::
  "ps_env \<Rightarrow> snapshot_reader \<Rightarrow> string \<Rightarrow> string \<Rightarrow> string \<Rightarrow> (string \<times> registry_undo option) run" where
  "reset_value E rd kpath vname vdata =
     (let key = normalise_key kpath in
      if \<not> registry_key_allowed (pe_low E) key then
        refuse (''Registry path '' @ quoted kpath @ '' is not on the safe list '' @ emdash @ '' refusing to modify'')
      else if has_wildcard vname then
        refuse (''Registry value name '' @ quoted vname @ '' contains wildcard characters '' @ emdash @ '' refusing'')
      else
        bind_run (case read_current_value E rd key vname of
                    (r, ss) \<Rightarrow> (snapshot_context key vname r, ss)) (\<lambda>un.
        bind_run (lift_result (if prior_existed un
                               then need (prior_kind un) ''Existing registry snapshot had no scalar type''
                               else Inr KString)) (\<lambda>kind.
        bind_run (lift_result (canonical_data kind vdata)) (\<lambda>applied.
        let un = un\<lparr>applied_kind := Some kind, applied_data := Some applied\<rparr> in
        bind_run (lift_result (reset_pieces key vname kind applied un)) (\<lambda>ps.
        bind_run (run_diagnostic E (render ps)) (\<lambda>msg. (Inr (msg, Some un), [])))))))"

section \<open>Canonical forms\<close>

lemma normalise_idem: "normalise_key (normalise_key k) = normalise_key k"
proof -
  have short: "normalise_key (pre @ r) = pre @ r" if "pre \<in> {''HKLM:'' @ [backslash], ''HKCU:'' @ [backslash]}" for pre r
    using that by (auto simp: normalise_key_def hive_forms_def eq_ignore_ascii_case_def to_ascii_lowercase_def
        take_Cons' ascii_lower_def is_ascii_upper_def byte_def)
  have "short_hive fs k = k \<or> (\<exists>to \<in> snd ` set fs. \<exists>r. short_hive fs k = to @ r)" for fs
    by (induction fs k rule: short_hive.induct) auto
  moreover have "snd ` set hive_forms = {''HKLM:'' @ [backslash], ''HKCU:'' @ [backslash]}"
    by (auto simp: hive_forms_def)
  ultimately show ?thesis using short by (metis normalise_key_def)
qed

lemma canonical_idem: "canonical_data k d = Inr c \<Longrightarrow> canonical_data k c = Inr c"
proof -
  have word: "parse_word m (show_nat n) = Some n" if "n \<le> m" for m n
  proof -
    obtain c cs where s: "show_nat n = c # cs" using show_nat_digits [of n] by (cases "show_nat n") auto
    have dig: "\<forall>x \<in> set (show_nat n). is_ascii_digit x" using show_nat_digits [of n] by (simp add: list_all_iff)
    have ws: "trim v = v" if "v \<noteq> []" "\<forall>x \<in> set v. is_ascii_digit x" for v
    proof -
      have a: "\<not> ws1 (byte x) \<and> byte x < 128" if "is_ascii_digit x" for x
        using that by (auto simp: is_ascii_digit_def ws1_def)
      have "ws_len w = 0 \<and> ws_len_rev w = 0" if "w \<noteq> []" "\<forall>x \<in> set w. is_ascii_digit x" for w
        using that a by (cases w) (auto simp: ws_len_ascii ws_len_rev_ascii)
      from this [of v] this [of "rev v"] that show ?thesis by (simp add: trim_eq_self)
    qed
    have "\<not> starts_with ''0x'' (show_nat n)" "\<not> starts_with ''0X'' (show_nat n)"
      using dig by (auto simp: starts_with_iff is_ascii_digit_def byte_def)
    then show ?thesis using parse_uint_show_nat [OF that] ws [of "show_nat n"] dig s by (simp add: parse_word_def Let_def strip_prefix_def)
  qed
  have le: "n \<le> m" if "parse_word m s = Some n" for m s n
    using that by (auto simp: parse_word_def Let_def parse_hex_def parse_uint_le split: option.splits if_splits)
  assume "canonical_data k d = Inr c"
  then show ?thesis using word le
    by (auto simp: canonical_data_def split: registry_scalar_kind.splits option.splits)
qed

section \<open>Snapshots and undo records\<close>

lemma bind_run_Inr:
  "bind_run r k = (Inr w, ss) \<longleftrightarrow> (\<exists>v s1 s2. r = (Inr v, s1) \<and> k v = (Inr w, s2) \<and> ss = s1 @ s2)"
  by (cases r) (auto simp: bind_run_def split: sum.splits prod.splits)

lemma lift_result_Inr [simp]: "lift_result r = (Inr v, ss) \<longleftrightarrow> r = Inr v \<and> ss = []"
  by (auto simp: lift_result_def)

lemma snapshot_context_Inr [simp]: "snapshot_context k n r = Inr v \<longleftrightarrow> r = Inr v"
  by (auto simp: snapshot_context_def split: sum.splits)

text \<open>The shape of an undo record: prior type and data together, exactly when the value existed, canonical.\<close>

definition prior_ok :: "registry_undo \<Rightarrow> bool" where
  "prior_ok un =
     (if prior_existed un
      then \<exists>k d. prior_kind un = Some k \<and> prior_data un = Some d \<and> canonical_data k d = Inr d
      else prior_kind un = None \<and> prior_data un = None)"

lemma snapshot_shape:
  assumes "parse_snapshot_output rd key name out = Inr un"
  shows "undo_key_path un = key \<and> undo_value_name un = name \<and> prior_ok un \<and> applied_kind un = None \<and> applied_data un = None"
  using assms canonical_idem
  by (auto simp: parse_snapshot_output_def blank_undo_def prior_ok_def split: option.splits if_splits sum.splits)

lemma existing_guard_exists: "canonical_data k d = Inr c \<Longrightarrow> \<exists>g. existing_value_guard key n k d msg = Inr g"
  by (simp add: existing_value_guard_def chain_def)

lemma typed_write_exists: "canonical_data k d = Inr c \<Longrightarrow> \<exists>g. typed_write key n k d msg = Inr g"
  by (simp add: typed_write_def chain_def)

lemma prior_guard_exists: "prior_ok x \<Longrightarrow> \<exists>g. prior_value_guard key x = Inr g"
  using existing_guard_exists by (cases "prior_existed x") (auto simp: prior_value_guard_def prior_ok_def chain_def need_def)

lemma restore_commands_exist: "prior_ok x \<Longrightarrow> \<exists>g. restore_commands key x msg = Inr g"
  using typed_write_exists by (cases "prior_existed x") (auto simp: restore_commands_def prior_ok_def chain_def need_def)

lemma applied_guard_exists:
  "applied_kind x = Some k \<Longrightarrow> applied_data x = Some d \<Longrightarrow> canonical_data k d = Inr c \<Longrightarrow> \<exists>g. applied_value_guard key x = Inr g"
  using existing_guard_exists by (simp add: applied_value_guard_def chain_def need_def)

lemmas pieces_exist = existing_guard_exists typed_write_exists prior_guard_exists restore_commands_exist applied_guard_exists

lemma restore_pieces_exist:
  assumes "prior_ok un" and "applied_kind un = Some k" and "applied_data un = Some d" and "canonical_data k d = Inr d"
  shows "\<exists>ps. restore_pieces key un = Inr ps"
proof -
  obtain g c where "applied_value_guard key un = Inr g"
      "restore_commands key un ''Restored registry value did not match its prior value'' = Inr c"
    using pieces_exist(4,5) assms by meson
  then show ?thesis by (simp add: restore_pieces_def chain_def)
qed

text \<open>
  A registry reset that reports success ran two scripts, the snapshot and then the write,
  for the normalised key inside the allowed subtrees, and returns a complete undo record of that
  very key and value: the prior type and data exactly when the value existed, and the applied
  type, the prior one or a string, with canonical data. The restore accepts this record and runs
  one script for it.
\<close>

theorem reset_is_restorable:
  assumes "reset_value E rd key name data = (Inr (msg, un), ss)"
  shows "\<exists>x out write restore.
    un = Some x \<and> undo_key_path x = normalise_key key \<and> undo_value_name x = name \<and> prior_ok x \<and>
    registry_key_allowed (pe_low E) (undo_key_path x) \<and> \<not> has_wildcard name \<and>
    applied_kind x = Some (if prior_existed x then the (prior_kind x) else KString) \<and>
    (\<exists>d. applied_data x = Some d \<and> canonical_data (the (applied_kind x)) data = Inr d) \<and>
    ss = [build_snapshot_script (undo_key_path x) name, render write] \<and>
    fst (run_diagnostic E (ss ! 0)) = Inr out \<and>
    restore_pieces (undo_key_path x) x = Inr restore \<and> snd (restore_value E x) = [render restore]"
proof -
  define k where "k = normalise_key key"
  have guard: "registry_key_allowed (pe_low E) k" "\<not> has_wildcard name"
    using assms by (auto simp: reset_value_def k_def refuse_def Let_def split: if_splits)
  obtain un0 s1 kind applied ps s3 where
      snap: "read_current_value E rd k name = (Inr un0, s1)"
    and kind: "(if prior_existed un0 then need (prior_kind un0) ''Existing registry snapshot had no scalar type'' else Inr KString) = Inr kind"
    and applied: "canonical_data kind data = Inr applied"
    and x: "un = Some (un0\<lparr>applied_kind := Some kind, applied_data := Some applied\<rparr>)"
    and run: "run_diagnostic E (render ps) = (Inr msg, s3)" and ss: "ss = s1 @ s3"
    using assms guard unfolding reset_value_def k_def [symmetric] Let_def
    by (auto simp: bind_run_Inr split: prod.splits)
  obtain out where out: "fst (run_diagnostic E (build_snapshot_script k name)) = Inr out"
    and parsed: "parse_snapshot_output rd k name out = Inr un0" and s1: "s1 = [build_snapshot_script k name]"
    using snap by (auto simp: read_current_value_def bind_run_Inr run_diagnostic_def run_with_timeout_def)
  define x where "x = un0\<lparr>applied_kind := Some kind, applied_data := Some applied\<rparr>"
  have s3: "s3 = [render ps]" using run by (auto simp: run_diagnostic_def run_with_timeout_def)
  have shape: "undo_key_path x = k" "undo_value_name x = name" "prior_ok x"
      "applied_kind x = Some kind" "applied_data x = Some applied"
    using snapshot_shape [OF parsed] by (auto simp: x_def prior_ok_def)
  have kx: "kind = (if prior_existed x then the (prior_kind x) else KString)"
    using kind by (auto simp: x_def split: if_splits)
  obtain restore where r: "restore_pieces k x = Inr restore"
    using restore_pieces_exist [OF shape(3-5) canonical_idem [OF applied]] by blast
  have restored: "snd (restore_value E x) = [render restore]"
    using guard shape(1,2) r normalise_idem [of key]
    by (simp add: restore_value_def k_def Let_def snd_bind_run)
  have ux: "un = Some x" using x by (simp add: x_def)
  have sss: "ss = [build_snapshot_script k name, render ps]" using ss s1 s3 by simp
  have out0: "fst (run_diagnostic E (ss ! 0)) = Inr out" using out sss by simp
  have data: "applied_data x = Some applied \<and> canonical_data (the (applied_kind x)) data = Inr applied"
    using shape(4,5) applied by simp
  have key: "registry_key_allowed (pe_low E) (undo_key_path x)" "undo_key_path x = normalise_key key"
    using guard shape(1) k_def by simp_all
  show ?thesis
    apply (rule exI [of _ x], rule exI [of _ out], rule exI [of _ ps], rule exI [of _ restore])
    using ux key shape(2,3) guard(2) shape(4) [unfolded kx] sss [folded shape(1)] out0 data r [folded shape(1)] restored
    by blast
qed

lemma reset_pieces_exist:
  assumes "prior_ok x" and "undo_key_path x = k" and "undo_value_name x = n"
    and "applied_kind x = Some kind" and "applied_data x = Some d" and "canonical_data kind d = Inr d"
    and "kind = (if prior_existed x then the (prior_kind x) else KString)"
  shows "\<exists>ps. reset_pieces k n kind d x = Inr ps"
proof -
  obtain g w c a where g: "prior_value_guard k x = Inr g"
    and w: "typed_write k n kind d ''Registry value did not match the requested value after write'' = Inr w"
    and c: "restore_commands k x ''Registry rollback did not restore the prior value'' = Inr c"
    and a: "applied_value_guard k x = Inr a"
    using pieces_exist(2-5) assms(1,4-6) by meson
  have e: "(if prior_existed x then need (prior_kind x) ''Existing registry rollback snapshot has no scalar type''
            else Inr KString) = Inr kind"
    using assms(1,7) by (auto simp: prior_ok_def need_def)
  show ?thesis
    unfolding reset_pieces_def assms(2,3) e
    by (simp add: chain_def assms(4-6) g w c a)
qed

definition demo_ps :: "string \<Rightarrow> ps_env" where
  "demo_ps out = \<lparr>pe_lossy = (\<lambda>s. s),
     pe_spawn = (\<lambda>s. \<lparr>px_spawn_error = None, px_timed_out = False, px_read_error = None, px_success = True,
                       px_code = ''Some(0)'', px_stdout = [out], px_stderr = []\<rparr>),
     pe_low = (\<lambda>s. s)\<rparr>"

lemma demo_run: "length out \<le> MAX_DIAGNOSTIC_STREAM_BYTES \<Longrightarrow> run_diagnostic (demo_ps out) s = (Inr out, [s])"
  by (cases "out = []") (simp_all add: run_diagnostic_def run_with_timeout_def diagnostic_result_def demo_ps_def stream_text_def)

definition demo_key :: string where
  "demo_key = join [backslash] [''HKEY_LOCAL_MACHINE'', ''SYSTEM'', ''CurrentControlSet'', ''Services'', ''Tcpip'', ''Parameters'']"

definition demo_reader :: snapshot_reader where
  "demo_reader s = Some \<lparr>sn_existed = True, sn_kind = Some ''DWord'', sn_data = Some ''5''\<rparr>"

lemma demo_parsed:
  "parse_snapshot_output demo_reader k n out =
     Inr ((blank_undo k n)\<lparr>prior_existed := True, prior_kind := Some KDWord, prior_data := Some ''5''\<rparr>)"
  and demo_canonical: "canonical_data KDWord ''0x10'' = Inr ''16''" "canonical_data KDWord ''16'' = Inr ''16''"
proof -
  have t: "trim ''5'' = ''5''" "trim ''0x10'' = ''0x10''" "trim ''16'' = ''16''" by code_simp+
  have "parse_word DWORD_MAX ''5'' = Some 5" "parse_word DWORD_MAX ''0x10'' = Some 16" "parse_word DWORD_MAX ''16'' = Some 16"
    by (simp_all add: parse_word_def t Let_def strip_prefix_def starts_with_def parse_uint_def strip_prefix_or_def
        parse_digits_def digits_val_def is_ascii_digit_def is_ascii_hexdigit_def byte_def parse_hex_def hex_number_def
        hex_val_def DWORD_MAX_def)
  moreover have "show_nat 5 = ''5''" "show_nat 16 = ''16''" by code_simp+
  ultimately show "canonical_data KDWord ''0x10'' = Inr ''16''" "canonical_data KDWord ''16'' = Inr ''16''"
    and "parse_snapshot_output demo_reader k n out =
     Inr ((blank_undo k n)\<lparr>prior_existed := True, prior_kind := Some KDWord, prior_data := Some ''5''\<rparr>)"
    by (simp_all add: canonical_data_def parse_snapshot_output_def demo_reader_def kind_from_storage_def)
qed

definition demo_normal :: string where
  "demo_normal = join [backslash] [''HKLM:'', ''SYSTEM'', ''CurrentControlSet'', ''Services'', ''Tcpip'', ''Parameters'']"

lemma demo_allowed:
  "normalise_key demo_key = demo_normal"
  "\<not> has_wildcard demo_normal"
  "is_within (\<lambda>s. s) demo_normal (join [backslash] [''HKLM:'', ''SYSTEM'', ''CurrentControlSet'', ''Services'', ''Tcpip''])"
proof -
  show "normalise_key demo_key = demo_normal" by code_simp
  show "\<not> has_wildcard demo_normal" by code_simp
  show "is_within (\<lambda>s. s) demo_normal (join [backslash] [''HKLM:'', ''SYSTEM'', ''CurrentControlSet'', ''Services'', ''Tcpip''])"
    by (simp add: demo_normal_def path_eval)
qed

lemma demo_reset:
  "\<exists>un ss. reset_value (demo_ps ''done'') demo_reader demo_key ''MTU'' ''0x10'' = (Inr (''done'', un), ss)"
proof -
  define k where "k = normalise_key demo_key"
  define x where "x = (blank_undo k ''MTU'')\<lparr>prior_existed := True, prior_kind := Some KDWord,
      prior_data := Some ''5'', applied_kind := Some KDWord, applied_data := Some ''16''\<rparr>"
  have c5: "canonical_data KDWord ''5'' = Inr ''5''"
    using snapshot_shape [OF demo_parsed [of k "''MTU''" "[]"]] by (auto simp: prior_ok_def)
  have ok0: "registry_key_allowed (\<lambda>s. s) (normalise_key demo_key)"
    using demo_allowed by (auto simp: registry_key_allowed_def list_ex_iff ALLOWED_KEY_PREFIXES_def)
  have name: "\<not> has_wildcard ''MTU''" by code_simp
  have ok: "registry_key_allowed (pe_low (demo_ps ''done'')) k" "\<not> has_wildcard ''MTU''"
    using ok0 name by (simp_all add: k_def demo_ps_def)
  obtain ps where ps: "reset_pieces k ''MTU'' KDWord ''16'' x = Inr ps"
    using reset_pieces_exist [of x k "''MTU''" KDWord "''16''"] demo_canonical c5
    by (auto simp: x_def blank_undo_def prior_ok_def)
  have "read_current_value (demo_ps ''done'') demo_reader k ''MTU'' =
      (Inr ((blank_undo k ''MTU'')\<lparr>prior_existed := True, prior_kind := Some KDWord, prior_data := Some ''5''\<rparr>),
       [build_snapshot_script k ''MTU''])"
    by (simp add: read_current_value_def demo_run MAX_DIAGNOSTIC_STREAM_BYTES_def bind_run_def demo_parsed lift_result_def)
  then have "reset_value (demo_ps ''done'') demo_reader demo_key ''MTU'' ''0x10'' =
      (Inr (''done'', Some x), [build_snapshot_script k ''MTU'', render ps])"
    using ok ps
    by (simp add: reset_value_def k_def [symmetric] Let_def bind_run_def snapshot_context_def need_def lift_result_def
        demo_canonical x_def demo_run MAX_DIAGNOSTIC_STREAM_BYTES_def)
  then show ?thesis by blast
qed

end
