(* ===== verification/Exec_Files.thy ===== *)
theory Exec_Files
  imports Paths Explain
begin

text \<open>
  File deletion (\<open>executor/logs\<close>): the roots a cleanup may walk, the directories whose files are
  never deleted, the link-free resolution of a path, the walk itself and the deletion of one
  file. Both platforms are modelled; \<open>win\<close> picks the Windows form. The file system and the
  impersonation of the desktop user are the environment's.
\<close>

section \<open>Protected directories\<close>

definition PROTECTED_WIN_DIRS :: "string list list" where
  "PROTECTED_WIN_DIRS =
     [[''windows'', ''system32''], [''windows'', ''syswow64''], [''windows'', ''winsxs''],
      [''windows'', ''boot''], [''windows'', ''fonts'']]"

definition PROTECTED_UNIX_DIRS :: "string list list" where
  "PROTECTED_UNIX_DIRS =
     [[''etc''], [''boot''], [''usr''], [''bin''], [''sbin''], [''lib''], [''lib32''], [''lib64''], [''root''],
      [''var'', ''lib'', ''dpkg''], [''var'', ''lib'', ''docker'']]"

definition drive_relative :: "string list \<Rightarrow> string list option" where
  "drive_relative comps =
     (case comps of
        [] \<Rightarrow> None
      | drive # rel \<Rightarrow>
          if length drive = 2 \<and> (is_ascii_upper (drive ! 0) \<or> is_ascii_lower (drive ! 0)) \<and> drive ! 1 = CHR '':''
          then Some rel else None)"

text \<open>A root inside a protected directory, or one that contains it.\<close>

definition meets :: "string list \<Rightarrow> string list \<Rightarrow> bool" where
  "meets rel dir = (starts_with dir rel \<or> length dir \<ge> length rel \<and> take (length rel) dir = rel)"

definition root_too_broad :: "bool \<Rightarrow> (string \<Rightarrow> string) \<Rightarrow> string \<Rightarrow> bool" where
  "root_too_broad win u path =
     (let comps = normalize_path_lexical u path in
      if win then
        (if length comps < 2 then True
         else (case drive_relative comps of None \<Rightarrow> False | Some rel \<Rightarrow> list_ex (meets rel) PROTECTED_WIN_DIRS))
      else comps = [] \<or> list_ex (meets comps) PROTECTED_UNIX_DIRS)"

definition is_protected_file :: "bool \<Rightarrow> (string \<Rightarrow> string) \<Rightarrow> string \<Rightarrow> bool" where
  "is_protected_file win u path =
     (let comps = normalize_path_lexical u path in
      if win then
        (case drive_relative comps of None \<Rightarrow> False
         | Some rel \<Rightarrow> list_ex (\<lambda>dir. starts_with dir rel) PROTECTED_WIN_DIRS)
      else list_ex (\<lambda>dir. starts_with dir comps) PROTECTED_UNIX_DIRS)"

text \<open>
  What the walk needs of the two guards: a root that is not too broad has no protected file
  inside. Then whatever the walk finds under such a root may be deleted.
\<close>

locale narrow_roots =
  fixes inside :: "'p \<Rightarrow> 'p \<Rightarrow> bool" and broad :: "'p \<Rightarrow> bool" and protected :: "'p \<Rightarrow> bool"
  assumes narrow: "\<not> broad base \<Longrightarrow> inside p base \<Longrightarrow> \<not> protected p"
begin

lemma none_protected: "\<not> broad base \<Longrightarrow> list_all (\<lambda>p. inside p base) ps \<Longrightarrow> filter protected ps = []"
  using narrow by (induction ps) auto

lemma protected_roots_broad: "inside base base \<Longrightarrow> protected base \<Longrightarrow> broad base"
  using narrow by blast

end

lemma meets_within: "starts_with dir (rel @ r) \<Longrightarrow> meets rel dir"
  by (auto simp: meets_def starts_with_iff append_eq_append_conv2)

lemma within_narrow:
  assumes "\<not> root_too_broad win u base" and "is_within u p base"
  shows "\<not> is_protected_file win u p"
proof -
  obtain r where c: "normalize_path_lexical u p = normalize_path_lexical u base @ r"
    using assms(2) by (auto simp: is_within_iff)
  show ?thesis
  proof (cases win)
    case True
    obtain d rel where b: "normalize_path_lexical u base = d # rel"
      using assms(1) True by (cases "normalize_path_lexical u base") (auto simp: root_too_broad_def)
    show ?thesis
    proof
      assume "is_protected_file win u p"
      then obtain dir where dir: "dir \<in> set PROTECTED_WIN_DIRS" "starts_with dir (rel @ r)"
          and drive: "drive_relative (d # rel) = Some rel"
        using True by (auto simp: is_protected_file_def c b drive_relative_def list_ex_iff split: if_splits)
      then have "list_ex (meets rel) PROTECTED_WIN_DIRS" using meets_within by (auto simp: list_ex_iff)
      then show False using assms(1) True drive by (simp add: root_too_broad_def b Let_def split: if_splits)
    qed
  next
    case False
    then show ?thesis using assms(1) meets_within
      by (auto simp: is_protected_file_def root_too_broad_def c list_ex_iff Let_def)
  qed
qed

interpretation guard: narrow_roots "is_within u" "root_too_broad win u" "is_protected_file win u" for win u
  by unfold_locales (rule within_narrow)

section \<open>Resolving a path\<close>

text \<open>The parts of a path as the standard library splits it, and what \<open>symlink_metadata\<close> finds.\<close>

datatype path_part = DiskPrefix string | VerbatimDisk string | OtherPrefix string | RootDir | CurDir | ParentDir | Normal string

datatype lstat = Link | Plain | Missing | Unreadable

record file_env =
  fe_low :: "string \<Rightarrow> string"
  fe_absolute :: "string \<Rightarrow> bool"
  fe_parts :: "string \<Rightarrow> path_part list"
  fe_lstat :: "path_part list \<Rightarrow> lstat"
  fe_show :: "path_part list \<Rightarrow> string"
  fe_canonical :: "string \<Rightarrow> string option"
  fe_user_error :: "string option"

definition path_refused :: "string \<Rightarrow> string \<Rightarrow> string" where
  "path_refused path why = ''Refusing '' @ quoted path @ '' '' @ emdash @ '' '' @ why"

text \<open>One pass over the parts: \<open>Inr True\<close> when all exist without a link, \<open>Inr False\<close> when one is missing.\<close>

fun walk_parts :: "bool \<Rightarrow> file_env \<Rightarrow> string \<Rightarrow> path_part list \<Rightarrow> path_part list \<Rightarrow> string + bool" where
  "walk_parts win E path cur [] = Inr True"
| "walk_parts win E path cur (p # ps) =
     (case p of
        CurDir \<Rightarrow> walk_parts win E path cur ps
      | RootDir \<Rightarrow> walk_parts win E path (cur @ [p]) ps
      | DiskPrefix d \<Rightarrow>
          if win then walk_parts win E path (cur @ [p]) ps
          else Inl (path_refused path ''path is not a plain local path'')
      | Normal n \<Rightarrow>
          (case fe_lstat E (cur @ [p]) of
             Link \<Rightarrow> Inl (path_refused path (if win then ''path contains a reparse point'' else ''path contains a symlink''))
           | Plain \<Rightarrow> walk_parts win E path (cur @ [p]) ps
           | Missing \<Rightarrow> Inr False
           | Unreadable \<Rightarrow> Inl (''Cannot inspect file-action path '' @ quoted (fe_show E (cur @ [p]))))
      | _ \<Rightarrow> Inl (path_refused path (if win then ''path is not a plain local drive path'' else ''path is not a plain local path'')))"

definition local_drive :: "path_part list \<Rightarrow> bool" where
  "local_drive ps =
     (case ps of
        DiskPrefix d # RootDir # _ \<Rightarrow> True
      | VerbatimDisk d # RootDir # _ \<Rightarrow> True
      | _ \<Rightarrow> False)"

definition checked_local_path :: "bool \<Rightarrow> file_env \<Rightarrow> string \<Rightarrow> string + string option" where
  "checked_local_path win E path =
     (if \<not> fe_absolute E path then
        Inl (path_refused path (if win then ''path is not an absolute local drive path'' else ''path is not an absolute local path''))
      else (case walk_parts win E path [] (fe_parts E path) of
          Inl e \<Rightarrow> Inl e
        | Inr False \<Rightarrow> Inr None
        | Inr True \<Rightarrow>
            (case fe_canonical E path of
               None \<Rightarrow> Inl (''Cannot resolve log cleanup path '' @ quoted path)
             | Some c \<Rightarrow>
                 if (if win then local_drive (fe_parts E c) else fe_absolute E c) then Inr (Some c)
                 else Inl (path_refused path (if win then ''resolved target is not a local drive''
                                              else ''resolved target is not a local path'')))))"

section \<open>Cleaning a directory\<close>

definition CLEANABLE_EXTENSIONS :: "string list" where
  "CLEANABLE_EXTENSIONS = [''log'', ''tmp'', ''dmp'', ''etl'', ''blf'', ''regtrans-ms'']"

text \<open>\<open>Path::extension\<close> of a file: after the last dot of its name, unless the name begins with its only dot.\<close>

definition extension_of :: "string \<Rightarrow> string" where
  "extension_of path =
     (let name = last (split_on is_sep path); ps = split_on (\<lambda>c. c = CHR ''.'') name in
      if 2 \<le> length ps \<and> join ''.'' (butlast ps) \<noteq> [] then last ps else [])"

definition cleanable_extension :: "string \<Rightarrow> bool" where
  "cleanable_extension path = list_ex (\<lambda>e. eq_ignore_ascii_case e (extension_of path)) CLEANABLE_EXTENSIONS"

text \<open>What the walk meets: an entry it cannot read, one that is no file, or a file.\<close>

record found_file =
  ff_path :: string
  ff_late :: bool
  ff_meta :: "(nat \<times> int option) option"
  ff_removed :: bool

datatype walk_entry = ReadError | NotFile | Found found_file

record tally =
  ta_deleted :: "string list"
  ta_attempted :: nat
  ta_skipped :: nat
  ta_freed :: nat
  ta_errors :: nat
  ta_timed_out :: bool

definition no_tally :: tally where
  "no_tally = \<lparr>ta_deleted = [], ta_attempted = 0, ta_skipped = 0, ta_freed = 0, ta_errors = 0, ta_timed_out = False\<rparr>"

fun clean_walk :: "(string \<Rightarrow> bool) \<Rightarrow> int \<Rightarrow> walk_entry list \<Rightarrow> tally \<Rightarrow> tally" where
  "clean_walk prot cutoff [] t = t"
| "clean_walk prot cutoff (ReadError # es) t = clean_walk prot cutoff es (t\<lparr>ta_errors := ta_errors t + 1\<rparr>)"
| "clean_walk prot cutoff (NotFile # es) t = clean_walk prot cutoff es t"
| "clean_walk prot cutoff (Found f # es) t =
     (if ff_late f then t\<lparr>ta_timed_out := True\<rparr>
      else if \<not> cleanable_extension (ff_path f) then clean_walk prot cutoff es t
      else if prot (ff_path f) then clean_walk prot cutoff es (t\<lparr>ta_skipped := ta_skipped t + 1\<rparr>)
      else (case ff_meta f of
          None \<Rightarrow> clean_walk prot cutoff es (t\<lparr>ta_errors := ta_errors t + 1\<rparr>)
        | Some (sz, None) \<Rightarrow> clean_walk prot cutoff es (t\<lparr>ta_errors := ta_errors t + 1\<rparr>)
        | Some (sz, Some modified) \<Rightarrow>
            if modified \<ge> cutoff then clean_walk prot cutoff es t
            else if ff_removed f then
              clean_walk prot cutoff es (t\<lparr>ta_attempted := ta_attempted t + 1,
                ta_deleted := ta_deleted t @ [ff_path f], ta_freed := ta_freed t + sz\<rparr>)
            else clean_walk prot cutoff es (t\<lparr>ta_attempted := ta_attempted t + 1, ta_skipped := ta_skipped t + 1\<rparr>)))"

definition validate_cleanup_result :: "nat \<Rightarrow> nat \<Rightarrow> nat \<Rightarrow> bool \<Rightarrow> string + unit" where
  "validate_cleanup_result deleted attempted walk_errors timed_out =
     (if deleted = 0 \<and> walk_errors > 0 then
        Inl (''Log cleanup could not enumerate the target ('' @ show_nat walk_errors @ '' read error(s))'')
      else if deleted = 0 \<and> attempted > 0 then
        Inl (''Log cleanup could not remove any of '' @ show_nat attempted @ '' eligible file(s)'')
      else if deleted = 0 \<and> timed_out then
        Inl ''Log cleanup reached its time limit before removing any file''
      else Inr ())"

definition megabytes :: "nat \<Rightarrow> string" where
  "megabytes bytes = show_one_decimal ((case rnd f64 (of_nat bytes) of Fin q \<Rightarrow> q | _ \<Rightarrow> 0) / 1048576)"

definition cleanup_report :: "string \<Rightarrow> nat \<Rightarrow> tally \<Rightarrow> string" where
  "cleanup_report path days t =
     ''Cleaned '' @ show_nat (length (ta_deleted t)) @ '' files ('' @ megabytes (ta_freed t) @ '' MB freed), '' @
     show_nat (ta_skipped t + ta_errors t) @ '' locked/protected/skipped (>'' @ show_nat days @ '' days old in '' @
     quoted path @ '')'' @ (if ta_timed_out t then '' (stopped early at the time limit)'' else [])"

text \<open>
  \<open>SystemTime::checked_sub\<close> and the fallback to the epoch: seconds since 1970, an instant counting
  hundreds of nanoseconds from 1601 in 64 bits on Windows, seconds in 64 bits elsewhere.
\<close>

definition checked_sub :: "bool \<Rightarrow> int \<Rightarrow> int \<Rightarrow> int option" where
  "checked_sub win now secs =
     (if win then
        (if secs * 10000000 > 2 ^ 63 - 1 \<or> (now + 11644473600 - secs) * 10000000 < - (2 ^ 63) then None
         else Some (now - secs))
      else if now - secs < - (2 ^ 63) then None else Some (now - secs))"

definition cleanup_cutoff :: "bool \<Rightarrow> int \<Rightarrow> nat \<Rightarrow> int" where
  "cleanup_cutoff win now days = (case checked_sub win now (int days * 86400) of Some t \<Rightarrow> t | None \<Rightarrow> 0)"

text \<open>The outcome, and the files removed on the way.\<close>

definition cleanup ::
  "bool \<Rightarrow> file_env \<Rightarrow> (string \<Rightarrow> walk_entry list) \<Rightarrow> int \<Rightarrow> string \<Rightarrow> nat \<Rightarrow> (string + string) \<times> string list" where
  "cleanup win E entries now path days =
     (if days = 0 then (Inl (''Refusing log cleanup with days_old = 0 '' @ emdash @ '' require at least 1 day''), [])
      else if is_network_path path then
        (Inl (''Refusing log cleanup on '' @ quoted path @ '' '' @ emdash @ '' network/UNC paths are not allowed''), [])
      else if root_too_broad win (fe_low E) path then
        (Inl (''Refusing log cleanup on '' @ quoted path @ '' '' @ emdash @
              '' root is a drive root or contains protected system directories''), [])
      else (case fe_user_error E of
          Some e \<Rightarrow> (Inl e, [])
        | None \<Rightarrow>
            (case checked_local_path win E path of
               Inl e \<Rightarrow> (Inl e, [])
             | Inr None \<Rightarrow> (Inr (''Directory '' @ quoted path @ '' does not exist, skipping''), [])
             | Inr (Some base) \<Rightarrow>
                 if root_too_broad win (fe_low E) base then
                   (Inl (''Refusing log cleanup on '' @ quoted path @ '' '' @ emdash @
                         '' it resolves to a protected system location''), [])
                 else
                   (let cutoff = cleanup_cutoff win now days;
                        t = clean_walk (is_protected_file win (fe_low E)) cutoff (entries base) no_tally
                    in (case validate_cleanup_result (length (ta_deleted t)) (ta_attempted t) (ta_errors t) (ta_timed_out t) of
                          Inl e \<Rightarrow> Inl e | Inr _ \<Rightarrow> Inr (cleanup_report path days t),
                        ta_deleted t)))))"

section \<open>Deleting one file\<close>

record file_state =
  fs_is_dir :: "bool option"
  fs_removed :: bool
  fs_remains :: "bool option"

definition delete_resolved :: "bool \<Rightarrow> (string \<Rightarrow> string) \<Rightarrow> file_state \<Rightarrow> string \<Rightarrow> string \<Rightarrow> (string + string) \<times> string list" where
  "delete_resolved win u f path c =
     (if is_protected_file win u c then
        (Inl (''Refusing to delete '' @ quoted path @ '': resolves into a protected system directory ('' @ c @ '')''), [])
      else (case fs_is_dir f of
          None \<Rightarrow> (Inl (''Cannot inspect file '' @ quoted c), [])
        | Some True \<Rightarrow> (Inl (''Refusing to delete directory: '' @ path), [])
        | Some False \<Rightarrow>
            if \<not> fs_removed f then (Inl (''Delete file '' @ quoted c), [])
            else (case fs_remains f of
                None \<Rightarrow> Inl (''Verify deletion of '' @ quoted c)
              | Some True \<Rightarrow> Inl (''File still exists after deletion: '' @ path)
              | Some False \<Rightarrow> Inr (''Deleted: '' @ path), [c])))"

definition delete_file :: "bool \<Rightarrow> file_env \<Rightarrow> (string \<Rightarrow> file_state) \<Rightarrow> string \<Rightarrow> (string + string) \<times> string list" where
  "delete_file win E state path =
     (if is_network_path path then
        (Inl (''Refusing to delete '' @ quoted path @ '' '' @ emdash @ '' network/UNC paths are not allowed''), [])
      else (case fe_user_error E of
          Some e \<Rightarrow> (Inl e, [])
        | None \<Rightarrow>
            (case checked_local_path win E path of
               Inl e \<Rightarrow> (Inl e, [])
             | Inr None \<Rightarrow> (Inr (''Not found (already gone?): '' @ path), [])
             | Inr (Some c) \<Rightarrow> delete_resolved win (fe_low E) (state c) path c)))"

section \<open>What is deleted\<close>

definition may_remove :: "(string \<Rightarrow> bool) \<Rightarrow> int \<Rightarrow> found_file \<Rightarrow> bool" where
  "may_remove prot cutoff f =
     (cleanable_extension (ff_path f) \<and> \<not> prot (ff_path f) \<and> ff_removed f \<and>
      (\<exists>sz m. ff_meta f = Some (sz, Some m) \<and> m < cutoff))"

lemma clean_walk_deleted:
  "p \<in> set (ta_deleted (clean_walk prot cutoff es t)) \<Longrightarrow>
     p \<in> set (ta_deleted t) \<or> (\<exists>f. Found f \<in> set es \<and> ff_path f = p \<and> may_remove prot cutoff f)"
proof (induction es arbitrary: t)
  case (Cons e es)
  show ?case
  proof (cases e)
    case (Found f)
    show ?thesis
    proof (cases "may_remove prot cutoff f \<and> p = ff_path f")
      case True
      then show ?thesis using Found by auto
    next
      case False
      then show ?thesis using Cons.prems Found
        by (auto split: option.splits if_splits dest!: Cons.IH) (auto simp: may_remove_def)
    qed
  next
    case ReadError
    then show ?thesis using Cons.IH [of "t\<lparr>ta_errors := ta_errors t + 1\<rparr>"] Cons.prems by auto
  next
    case NotFile
    then show ?thesis using Cons.IH [of t] Cons.prems by auto
  qed
qed auto

lemma clean_walk_counts:
  "length (ta_deleted t) \<le> ta_attempted t \<Longrightarrow>
   length (ta_deleted (clean_walk prot cutoff es t)) \<le> ta_attempted (clean_walk prot cutoff es t)"
  by (induction prot cutoff es t rule: clean_walk.induct) (auto split: option.splits)

lemma cutoff_at_least_a_day: "0 < days \<Longrightarrow> 86400 \<le> now \<Longrightarrow> cleanup_cutoff win now days \<le> now - 86400"
  by (auto simp: cleanup_cutoff_def checked_sub_def)

text \<open>
  C30: a log cleanup removes only files it may remove. Every file removed was met below the
  resolved root, has one of the six log extensions, lies outside the protected directories, and
  was last written at least a day before; the root named and the root it resolves to are
  both narrow and the path is no network path. When the walk's entries lie inside the root, no
  entry is protected at all.
\<close>

theorem cleanup_removes_only_old_logs:
  assumes "cleanup win E entries now path days = (r, gone)" and "p \<in> set gone" and "86400 \<le> now"
  shows "\<exists>base f sz m. checked_local_path win E path = Inr (Some base) \<and> Found f \<in> set (entries base) \<and>
    ff_path f = p \<and> cleanable_extension p \<and> \<not> is_protected_file win (fe_low E) p \<and>
    ff_meta f = Some (sz, Some m) \<and> m < now - 86400 \<and>
    \<not> is_network_path path \<and> \<not> root_too_broad win (fe_low E) path \<and> \<not> root_too_broad win (fe_low E) base \<and>
    (\<forall>q. is_within (fe_low E) q base \<longrightarrow> \<not> is_protected_file win (fe_low E) q)"
proof -
  have days: "0 < days" and net: "\<not> is_network_path path" and broad: "\<not> root_too_broad win (fe_low E) path"
    using assms(1,2) by (auto simp: cleanup_def split: if_splits)
  obtain base where base: "checked_local_path win E path = Inr (Some base)" "\<not> root_too_broad win (fe_low E) base"
    and p: "p \<in> set (ta_deleted (clean_walk (is_protected_file win (fe_low E)) (cleanup_cutoff win now days) (entries base) no_tally))"
    using assms(1,2) days net broad
    by (auto simp: cleanup_def Let_def split: option.splits sum.splits if_splits)
  have "ta_deleted no_tally = []" by (simp add: no_tally_def)
  then obtain f sz m where f: "Found f \<in> set (entries base)" "ff_path f = p" "cleanable_extension p"
      "\<not> is_protected_file win (fe_low E) p" "ff_meta f = Some (sz, Some m)" "m < cleanup_cutoff win now days"
    using clean_walk_deleted [OF p] by (auto simp: may_remove_def)
  moreover have "m < now - 86400" using f(6) cutoff_at_least_a_day [OF days assms(3), of win] by linarith
  moreover have "\<not> is_protected_file win (fe_low E) q" if "is_within (fe_low E) q base" for q
    using guard.narrow [OF base(2) that] .
  ultimately show ?thesis using base net broad by blast
qed

definition demo_files :: file_env where
  "demo_files = \<lparr>fe_low = (\<lambda>s. s), fe_absolute = (\<lambda>s. True),
     fe_parts = (\<lambda>s. [DiskPrefix ''C:'', RootDir, Normal ''Logs'', Normal ''App'']),
     fe_lstat = (\<lambda>ps. Plain), fe_show = (\<lambda>ps. []), fe_canonical = Some, fe_user_error = None\<rparr>"

definition demo_entries :: "string \<Rightarrow> walk_entry list" where
  "demo_entries base =
     [Found \<lparr>ff_path = base @ ''/a.log'', ff_late = False, ff_meta = Some (10, Some 5), ff_removed = True\<rparr>,
      Found \<lparr>ff_path = base @ ''/b.txt'', ff_late = False, ff_meta = Some (10, Some 5), ff_removed = True\<rparr>]"

lemma demo_walk:
  "ta_deleted (clean_walk (is_protected_file True (\<lambda>s. s)) 113600 (demo_entries ''C:/Logs/App'') no_tally) =
     [''C:/Logs/App/a.log'']"
  by code_simp

lemma demo_gone: "snd (cleanup True demo_files demo_entries 200000 ''C:/Logs/App'' 1) = [''C:/Logs/App/a.log'']"
proof -
  have path: "checked_local_path True demo_files ''C:/Logs/App'' = Inr (Some ''C:/Logs/App'')"
    by (simp add: checked_local_path_def demo_files_def local_drive_def)
  have ok: "\<not> is_network_path ''C:/Logs/App''" "\<not> root_too_broad True (\<lambda>s. s) ''C:/Logs/App''"
    by code_simp+
  have cut: "cleanup_cutoff True 200000 1 = 113600" by (simp add: cleanup_cutoff_def checked_sub_def)
  show ?thesis unfolding cleanup_def path
    using ok demo_walk by (simp add: cut [unfolded One_nat_def] Let_def demo_files_def)
qed

lemma cleanup_removes_only_old_logs_witness:
  "snd (cleanup True demo_files demo_entries 200000 ''C:/Logs/App'' 1) = [''C:/Logs/App/a.log''] \<and>
   cleanable_extension ''C:/Logs/App/a.log''"
  using cleanup_removes_only_old_logs [of True demo_files demo_entries 200000 "''C:/Logs/App''" 1
      "fst (cleanup True demo_files demo_entries 200000 ''C:/Logs/App'' 1)"
      "snd (cleanup True demo_files demo_entries 200000 ''C:/Logs/App'' 1)" "''C:/Logs/App/a.log''"] demo_gone
  by auto

lemma delete_gone:
  "delete_file win E state path = (r, gone) \<Longrightarrow> c \<in> set gone \<Longrightarrow>
     checked_local_path win E path = Inr (Some c) \<and> gone = [c] \<and> \<not> is_protected_file win (fe_low E) c \<and>
     fs_is_dir (state c) = Some False \<and> \<not> is_network_path path"
  by (auto simp: delete_file_def delete_resolved_def split: if_splits option.splits sum.splits bool.splits)

end
