(* ===== verification/Exec_Services.thy ===== *)
theory Exec_Services
  imports Paths Updater_Domain Updater_Config
begin

text \<open>
  Service control (\<open>executor/services\<close>): the Windows service manager and \<open>systemctl\<close>, each with
  the list of services it never stops. The managers' answers are the environment's; the two
  waiting loops read a list of observations, each telling whether the deadline has passed and
  what the query found, and give \<open>None\<close> when the list ends before the loop does.
\<close>

text \<open>What an operation gives (\<open>None\<close>: still waiting), and the commands it sent, in order.\<close>

type_synonym svc_run = "(string + string) option \<times> string list list"

section \<open>Names\<close>

definition utf16_units :: "string \<Rightarrow> nat" where
  "utf16_units s = char_count s + length (filter (\<lambda>c. 240 \<le> byte c) s)"

section \<open>Windows\<close>

definition CRITICAL_SERVICES :: "string list" where
  "CRITICAL_SERVICES =
     [''rpcss'', ''dcomlaunch'', ''winmgmt'', ''eventlog'', ''lsm'', ''plugplay'', ''samss'',
      ''brokerinfrastructure'', ''power'', ''lsass'', ''eirsvc'', ''windefend'', ''mpssvc'', ''bfe'']"

definition windows_name_ok :: "string \<Rightarrow> bool" where
  "windows_name_ok name =
     (name \<noteq> [] \<and> utf16_units name \<le> 256 \<and> \<not> has_control name \<and> \<not> contains_any [backslash, CHR ''/''] name)"

record scm =
  sc_low :: "string \<Rightarrow> string"
  sc_manager_error :: "string option"
  sc_open_error :: "string option"
  sc_stop :: "string + bool"
  sc_start :: "string + bool"
  sc_state_text :: "nat \<Rightarrow> string"

text \<open>What the waiting loop sees: it opens the manager and the service anew.\<close>

record scm_wait =
  sw_manager_error :: "string option"
  sw_open_error :: "string option"
  sw_obs :: "(bool \<times> (string + nat)) list"

definition SERVICE_STOPPED :: nat where "SERVICE_STOPPED = 1"
definition SERVICE_RUNNING :: nat where "SERVICE_RUNNING = 4"

fun wait_loop :: "scm \<Rightarrow> string \<Rightarrow> nat \<Rightarrow> (bool \<times> (string + nat)) list \<Rightarrow> nat \<Rightarrow> (string + unit) option" where
  "wait_loop E name target [] errs = None"
| "wait_loop E name target ((late, q) # obs) errs =
     (if late then Some (Inl (''Timed out waiting for service '' @ quoted name @ '' to reach state '' @ sc_state_text E target))
      else (case q of
          Inr st \<Rightarrow> if st = target then Some (Inr ()) else wait_loop E name target obs 0
        | Inl e \<Rightarrow>
            if errs + 1 \<ge> 5 then Some (Inl (''QueryServiceStatus failed for '' @ quoted name @ '': '' @ e))
            else wait_loop E name target obs (errs + 1)))"

definition wait_for :: "scm \<Rightarrow> string \<Rightarrow> nat \<Rightarrow> scm_wait \<Rightarrow> (string + unit) option" where
  "wait_for E name target w =
     (case sw_manager_error w of
        Some e \<Rightarrow> Some (Inl e)
      | None \<Rightarrow> (case sw_open_error w of
          Some e \<Rightarrow> Some (Inl (''Cannot open service '' @ quoted name @ '': '' @ e))
        | None \<Rightarrow> wait_loop E name target (sw_obs w) 0))"

definition after_wait :: "(string + unit) option \<Rightarrow> string \<Rightarrow> (string + string) option" where
  "after_wait w msg =
     (case w of None \<Rightarrow> None | Some (Inl e) \<Rightarrow> Some (Inl e) | Some (Inr _) \<Rightarrow> Some (Inr msg))"

definition stop_windows :: "scm \<Rightarrow> scm_wait \<Rightarrow> string \<Rightarrow> svc_run" where
  "stop_windows E w name =
     (if \<not> windows_name_ok name then (Some (Inl ''Invalid Windows service name''), [])
      else if to_lowercase (sc_low E) name \<in> set CRITICAL_SERVICES then
        (Some (Inl (''Refusing to stop critical service '' @ quoted name)), [])
      else (case sc_manager_error E of
          Some e \<Rightarrow> (Some (Inl e), [])
        | None \<Rightarrow> (case sc_open_error E of
            Some e \<Rightarrow> (Some (Inl (''Cannot open service '' @ quoted name @ '': '' @ e)), [])
          | None \<Rightarrow> (case sc_stop E of
              Inl e \<Rightarrow> (Some (Inl (''ControlService failed: '' @ e)), [[''stop'', name]])
            | Inr was_running \<Rightarrow>
                (after_wait (wait_for E name SERVICE_STOPPED w) (''Service '' @ quoted name @ '' is stopped''),
                 [[''stop'', name]])))))"

definition start_windows :: "scm \<Rightarrow> scm_wait \<Rightarrow> string \<Rightarrow> svc_run" where
  "start_windows E w name =
     (if \<not> windows_name_ok name then (Some (Inl ''Invalid Windows service name''), [])
      else (case sc_manager_error E of
          Some e \<Rightarrow> (Some (Inl e), [])
        | None \<Rightarrow> (case sc_open_error E of
            Some e \<Rightarrow> (Some (Inl (''Cannot open service '' @ quoted name @ '': '' @ e)), [])
          | None \<Rightarrow> (case sc_start E of
              Inl e \<Rightarrow> (Some (Inl (''StartServiceW failed: '' @ e)), [[''start'', name]])
            | Inr was_stopped \<Rightarrow>
                (after_wait (wait_for E name SERVICE_RUNNING w) (''Service '' @ quoted name @ '' is running''),
                 [[''start'', name]])))))"

section \<open>Linux\<close>

definition PROTECTED_EXACT :: "string list" where
  "PROTECTED_EXACT =
     [''ssh.service'', ''sshd.service'', ''tailscaled.service'', ''dbus.service'', ''polkit.service'',
      ''cron.service'', ''auditd.service'', ''systemd-journald.service'', ''systemd-logind.service'',
      ''systemd-networkd.service'', ''systemd-resolved.service'', ''systemd-timesyncd.service'',
      ''systemd-udevd.service'', ''systemd-hostnamed.service'', ''networkd-dispatcher.service'',
      ''docker.service'', ''containerd.service'', ''snapd.service'', ''qemu-guest-agent.service'', ''eir.service'']"

definition PROTECTED_GLOBS :: "string list" where
  "PROTECTED_GLOBS = [''systemd-*'', ''user@*'', ''getty@*'', ''serial-getty@*'']"

function glob_match :: "string \<Rightarrow> string \<Rightarrow> bool" where
  "glob_match [] [] = True"
| "glob_match [] (t # ts) = False"
| "glob_match (p # ps) [] = (p = CHR ''*'' \<and> glob_match ps [])"
| "glob_match (p # ps) (t # ts) =
     (if p = CHR ''*'' then glob_match ps (t # ts) \<or> glob_match (p # ps) ts
      else p = t \<and> glob_match ps ts)"
  by pat_completeness auto
termination
  by (relation "measure (\<lambda>(p, t). length p + length t)") auto

text \<open>The patterns of the host's drop-in files: each file with its path and, when readable, its text.\<close>

definition file_globs :: "string \<Rightarrow> string list" where
  "file_globs contents =
     filter (\<lambda>l. l \<noteq> [] \<and> \<not> starts_with ''#'' l) (map trim (lines contents))"

definition has_conf_extension :: "string \<Rightarrow> bool" where
  "has_conf_extension path =
     (let ps = split_on (\<lambda>c. c = CHR ''.'') (last (split_on (\<lambda>c. c = CHR ''/'') path)) in
      2 \<le> length ps \<and> join ''.'' (butlast ps) \<noteq> [] \<and> last ps = ''conf'')"

definition host_protected_globs :: "(string \<times> string option) list \<Rightarrow> string list" where
  "host_protected_globs files =
     concat (map (\<lambda>(path, text). if has_conf_extension path then (case text of Some t \<Rightarrow> file_globs t | None \<Rightarrow> []) else [])
       (sort_key fst files))"

definition is_protected_unit :: "(string \<times> string option) list \<Rightarrow> string \<Rightarrow> bool" where
  "is_protected_unit files name =
     (name \<in> set PROTECTED_EXACT \<or> list_ex (\<lambda>g. glob_match g name) PROTECTED_GLOBS \<or>
      list_ex (\<lambda>g. glob_match g name) (host_protected_globs files))"

definition unix_name_ok :: "string \<Rightarrow> bool" where
  "unix_name_ok name =
     (name \<noteq> [] \<and> length name \<le> 256 \<and> \<not> has_control name \<and> \<not> contains_any [CHR ''/'', backslash] name \<and>
      \<not> has_wildcard name)"

record command_out =
  co_error :: "string option"
  co_ok :: bool
  co_code :: int
  co_out :: string
  co_err :: string

definition run_systemctl :: "(string list \<Rightarrow> command_out) \<Rightarrow> string list \<Rightarrow> string + string" where
  "run_systemctl sys args =
     (case co_error (sys args) of
        Some e \<Rightarrow> Inl (''Cannot run systemctl: '' @ e)
      | None \<Rightarrow>
          (let out = trim (co_out (sys args)); err = trim (co_err (sys args)) in
           if co_ok (sys args) then Inr out
           else Inl (''systemctl '' @ join '' '' args @ '' failed (exit '' @ show_int (co_code (sys args)) @ ''): '' @
                     (if err = [] then out else err))))"

fun wait_for_active :: "string \<Rightarrow> bool \<Rightarrow> (bool \<times> string option) list \<Rightarrow> (string + unit) option" where
  "wait_for_active name want [] = None"
| "wait_for_active name want ((late, state) # obs) =
     (if late then
        Some (Inl (''Timed out waiting for unit '' @ quoted name @ '' to reach '' @ (if want then ''active'' else ''inactive'')))
      else if map_option (\<lambda>s. trim s = ''active'') state = Some want then Some (Inr ())
      else wait_for_active name want obs)"

definition systemctl_then ::
  "(string list \<Rightarrow> command_out) \<Rightarrow> (bool \<times> string option) list \<Rightarrow> string list \<Rightarrow> bool \<Rightarrow> string \<Rightarrow> string \<Rightarrow> svc_run" where
  "systemctl_then sys obs args want name msg =
     (case run_systemctl sys args of
        Inl e \<Rightarrow> (Some (Inl e), [args])
      | Inr _ \<Rightarrow> (after_wait (wait_for_active name want obs) msg, [args]))"

definition stop_unix ::
  "(string \<times> string option) list \<Rightarrow> (string list \<Rightarrow> command_out) \<Rightarrow> (bool \<times> string option) list \<Rightarrow> string \<Rightarrow> svc_run" where
  "stop_unix files sys obs name =
     (if \<not> unix_name_ok name then (Some (Inl ''Invalid systemd unit name''), [])
      else if is_protected_unit files name then (Some (Inl (''Refusing to stop protected unit '' @ quoted name)), [])
      else systemctl_then sys obs [''stop'', name] False name (''Unit '' @ quoted name @ '' is stopped''))"

definition start_unix ::
  "(string list \<Rightarrow> command_out) \<Rightarrow> (bool \<times> string option) list \<Rightarrow> string \<Rightarrow> svc_run" where
  "start_unix sys obs name =
     (if \<not> unix_name_ok name then (Some (Inl ''Invalid systemd unit name''), [])
      else systemctl_then sys obs [''start'', name] True name (''Unit '' @ quoted name @ '' is running''))"

section \<open>Restart\<close>

definition restart :: "(string \<Rightarrow> svc_run) \<Rightarrow> (string \<Rightarrow> svc_run) \<Rightarrow> string \<Rightarrow> svc_run" where
  "restart stop start name =
     (case stop name of
        (Some (Inr _), cs) \<Rightarrow>
          (case start name of
             (Some (Inr _), ds) \<Rightarrow> (Some (Inr (''Service '' @ quoted name @ '' restarted successfully'')), cs @ ds)
           | (r, ds) \<Rightarrow> (r, cs @ ds))
      | (r, cs) \<Rightarrow> (r, cs))"

section \<open>Globs\<close>

lemma glob_literal: "CHR ''*'' \<notin> set p \<Longrightarrow> glob_match (p @ q) t \<longleftrightarrow> (\<exists>r. t = p @ r \<and> glob_match q r)"
proof (induction p arbitrary: t)
  case (Cons c p)
  then show ?case by (cases t) auto
qed simp

lemma glob_star: "glob_match (CHR ''*'' # q) t \<longleftrightarrow> (\<exists>a b. t = a @ b \<and> glob_match q b)"
proof (induction t)
  case Nil
  then show ?case by simp
next
  case (Cons c t)
  show ?case
  proof
    assume "glob_match (CHR ''*'' # q) (c # t)"
    then consider "glob_match q (c # t)" | "glob_match (CHR ''*'' # q) t" by auto
    then show "\<exists>a b. c # t = a @ b \<and> glob_match q b"
    proof cases
      case 1
      then show ?thesis by (metis append_Nil)
    next
      case 2
      then show ?thesis using Cons.IH by (metis append_Cons)
    qed
  next
    assume "\<exists>a b. c # t = a @ b \<and> glob_match q b"
    then obtain a b where ab: "c # t = a @ b" "glob_match q b" by blast
    then show "glob_match (CHR ''*'' # q) (c # t)" using Cons.IH by (cases a) auto
  qed
qed

lemma glob_family: "CHR ''*'' \<notin> set p \<Longrightarrow> glob_match (p @ ''*'') t \<longleftrightarrow> starts_with p t"
  by (auto simp: glob_literal starts_with_iff) (metis glob_star append_Nil2 glob_match.simps(1))

lemma family_protected:
  assumes "starts_with p name" and "p \<in> {''systemd-'', ''user@'', ''getty@'', ''serial-getty@''}"
  shows "is_protected_unit files name"
proof -
  have "p @ ''*'' \<in> set PROTECTED_GLOBS" using assms(2) by (auto simp: PROTECTED_GLOBS_def)
  moreover have "glob_match (p @ ''*'') name" using glob_family [of p name] assms by auto
  ultimately show ?thesis by (auto simp: is_protected_unit_def list_ex_iff)
qed

section \<open>Waiting\<close>

lemma wait_loop_ends: "list_ex fst obs \<Longrightarrow> wait_loop E name target obs errs \<noteq> None"
proof (induction obs arbitrary: errs)
  case (Cons ob obs)
  then show ?case by (cases ob; cases "snd ob") auto
qed simp

lemma wait_loop_seen: "wait_loop E name target obs errs = Some (Inr u) \<Longrightarrow> (False, Inr target) \<in> set obs"
  by (induction obs arbitrary: errs) (auto split: sum.splits if_splits)

lemma wait_for_active_ends: "list_ex fst obs \<Longrightarrow> wait_for_active name want obs \<noteq> None"
proof (induction obs)
  case (Cons ob obs)
  then show ?case by (cases ob) auto
qed simp

lemma wait_for_active_seen:
  "wait_for_active name want obs = Some (Inr u) \<Longrightarrow> \<exists>s. (False, Some s) \<in> set obs \<and> (trim s = ''active'') = want"
  by (induction name want obs rule: wait_for_active.induct) (auto split: if_splits)

section \<open>Properties\<close>

lemma stop_windows_sent:
  "c \<in> set (snd (stop_windows E w name)) \<Longrightarrow>
     c = [''stop'', name] \<and> windows_name_ok name \<and> to_lowercase (sc_low E) name \<notin> set CRITICAL_SERVICES"
  by (cases "sc_stop E"; cases "sc_manager_error E"; cases "sc_open_error E")
    (simp_all add: stop_windows_def split: if_splits)

lemma start_windows_sent: "c \<in> set (snd (start_windows E w name)) \<Longrightarrow> c = [''start'', name] \<and> windows_name_ok name"
  by (cases "sc_start E"; cases "sc_manager_error E"; cases "sc_open_error E")
    (simp_all add: start_windows_def split: if_splits)

lemma stop_unix_sent:
  "c \<in> set (snd (stop_unix files sys obs name)) \<Longrightarrow>
     c = [''stop'', name] \<and> unix_name_ok name \<and> \<not> is_protected_unit files name"
  by (auto simp: stop_unix_def systemctl_then_def split: if_splits sum.splits)

lemma start_unix_sent: "c \<in> set (snd (start_unix sys obs name)) \<Longrightarrow> c = [''start'', name] \<and> unix_name_ok name"
  by (auto simp: start_unix_def systemctl_then_def split: if_splits sum.splits)

lemma stop_windows_done:
  assumes "fst (stop_windows E w name) = Some (Inr msg)"
  shows "(False, Inr SERVICE_STOPPED) \<in> set (sw_obs w)"
proof -
  obtain u where "wait_for E name SERVICE_STOPPED w = Some (Inr u)"
    using assms by (auto simp: stop_windows_def after_wait_def split: if_splits option.splits sum.splits)
  then show ?thesis using wait_loop_seen by (auto simp: wait_for_def split: option.splits)
qed

lemma stop_unix_done:
  assumes "fst (stop_unix files sys obs name) = Some (Inr msg)"
  shows "\<exists>s. (False, Some s) \<in> set obs \<and> trim s \<noteq> ''active''"
proof -
  obtain u where "wait_for_active name False obs = Some (Inr u)"
    using assms by (auto simp: stop_unix_def systemctl_then_def after_wait_def split: if_splits option.splits sum.splits)
  then show ?thesis using wait_for_active_seen by blast
qed

lemma restart_sent:
  "c \<in> set (snd (restart stop start name)) \<Longrightarrow>
     c \<in> set (snd (stop name)) \<or> c \<in> set (snd (start name)) \<and> (\<exists>m. fst (stop name) = Some (Inr m))"
  by (auto simp: restart_def split: prod.splits option.splits sum.splits)


definition demo_scm :: scm where
  "demo_scm = \<lparr>sc_low = (\<lambda>s. s), sc_manager_error = None, sc_open_error = None, sc_stop = Inr True,
     sc_start = Inr True, sc_state_text = (\<lambda>n. show_nat n)\<rparr>"

definition demo_wait :: "nat \<Rightarrow> scm_wait" where
  "demo_wait st = \<lparr>sw_manager_error = None, sw_open_error = None, sw_obs = [(False, Inr 3), (False, Inr st)]\<rparr>"

definition demo_sys :: "string list \<Rightarrow> command_out" where
  "demo_sys args = \<lparr>co_error = None, co_ok = True, co_code = 0, co_out = [], co_err = []\<rparr>"

lemma demo_restart:
  "snd (restart (stop_windows demo_scm (demo_wait 1)) (start_windows demo_scm (demo_wait 4)) ''Spooler'') =
     [[''stop'', ''Spooler''], [''start'', ''Spooler'']]"
  "snd (restart (stop_unix [] demo_sys [(False, Some ''inactive'')]) (start_unix demo_sys [(False, Some ''active'')]) ''nginx.service'') =
     [[''stop'', ''nginx.service''], [''start'', ''nginx.service'']]"
  by code_simp+


text \<open>
  A unit name without its suffix passes the exact list, and \<open>systemctl\<close> completes the suffix
  itself: the protected SSH daemon is stopped under its short name.
\<close>

lemma short_unit_name_passes:
  "is_protected_unit [] ''ssh.service'' \<and>
   stop_unix [] demo_sys [(False, Some ''inactive'')] ''ssh'' =
     (Some (Inr (''Unit '' @ quoted ''ssh'' @ '' is stopped'')), [[''stop'', ''ssh'']])"
  by code_simp

end
