(* ===== verification/Executor.thy ===== *)
theory Executor
  imports Exec_Startup Exec_Registry Exec_Files Exec_Services Approval_Store
begin

text \<open>
  The dispatch of \<open>executor/mod.rs\<close>: one action to its executor, on Windows and on Linux, and
  the result the decision loop records. The two Linux mechanisms that need no module of
  their own, disk cleanup and killing by exact name (\<open>executor/process.rs\<close>), are here. An execution
  gives its result, and the effects it had in order; it gives no result while a service is
  still being waited for.
\<close>

datatype exec_effect = Script string | Service "string list" | Removed string | Command "string list" | Signalled int

record executor_env =
  xe_esc :: "string \<Rightarrow> string"
  xe_ps :: ps_env
  xe_reader :: snapshot_reader
  xe_sid :: "string + string"
  xe_files :: file_env
  xe_entries :: "string \<Rightarrow> walk_entry list"
  xe_state :: "string \<Rightarrow> file_state"
  xe_now :: int
  xe_stop :: "string \<Rightarrow> svc_run"
  xe_start :: "string \<Rightarrow> svc_run"

definition make_result :: "(string \<Rightarrow> string) \<Rightarrow> fix_action \<Rightarrow> string + string \<Rightarrow> execution_result" where
  "make_result esc a r =
     (case r of
        Inr msg \<Rightarrow> \<lparr>res_action = debug_action esc a, res_success = True, res_output = msg, res_undo = None\<rparr>
      | Inl e \<Rightarrow> \<lparr>res_action = debug_action esc a, res_success = False, res_output = e, res_undo = None\<rparr>)"

type_synonym execution = "execution_result option \<times> exec_effect list"

definition by_script :: "executor_env \<Rightarrow> fix_action \<Rightarrow> string run \<Rightarrow> execution" where
  "by_script E a r = (Some (make_result (xe_esc E) a (fst r)), map Script (snd r))"

definition by_service :: "executor_env \<Rightarrow> fix_action \<Rightarrow> svc_run \<Rightarrow> execution" where
  "by_service E a r = (map_option (make_result (xe_esc E) a) (fst r), map Service (snd r))"

definition by_files :: "executor_env \<Rightarrow> fix_action \<Rightarrow> (string + string) \<times> string list \<Rightarrow> execution" where
  "by_files E a r = (Some (make_result (xe_esc E) a (fst r)), map Removed (snd r))"

definition by_registry :: "executor_env \<Rightarrow> fix_action \<Rightarrow> (string \<times> registry_undo option) run \<Rightarrow> execution" where
  "by_registry E a r =
     (Some (case fst r of
              Inr (msg, un) \<Rightarrow> (make_result (xe_esc E) a (Inr msg))\<lparr>res_undo := un\<rparr>
            | Inl e \<Rightarrow> make_result (xe_esc E) a (Inl e)), map Script (snd r))"

section \<open>Windows\<close>

definition execute_windows :: "executor_env \<Rightarrow> fix_action \<Rightarrow> execution" where
  "execute_windows E a =
     (case a of
        ServiceRestart n \<Rightarrow> by_service E a (restart (xe_stop E) (xe_start E) n)
      | ServiceStop n \<Rightarrow> by_service E a (xe_stop E n)
      | ServiceStart n \<Rightarrow> by_service E a (xe_start E n)
      | LogCleanup path days \<Rightarrow> by_files E a (cleanup True (xe_files E) (xe_entries E) (xe_now E) path days)
      | DiskCleanup target \<Rightarrow> by_script E a (disk_cleanup (xe_ps E) target)
      | PowerShellDiagnostic s \<Rightarrow> by_script E a (run_diagnostic (xe_ps E) s)
      | TaskDisable n \<Rightarrow> by_script E a (task_disable (xe_ps E) n)
      | TaskEnable n \<Rightarrow> by_script E a (task_enable (xe_ps E) n)
      | RegistryReset k n d \<Rightarrow> by_registry E a (reset_value (xe_ps E) (xe_reader E) k n d)
      | NetworkDiagnostic c \<Rightarrow> by_script E a (network_diagnostic (xe_ps E) c)
      | DriverDisable n \<Rightarrow> by_script E a (driver_disable (xe_ps E) n)
      | DriverEnable n \<Rightarrow> by_script E a (driver_enable (xe_ps E) n)
      | SoftwareUninstall n \<Rightarrow> by_script E a (uninstall (xe_ps E) n)
      | BcdEdit el v \<Rightarrow> by_script E a (bcd_edit (xe_ps E) el v)
      | ProcessKill n \<Rightarrow> by_script E a (process_kill (xe_ps E) n)
      | FirewallEnable p \<Rightarrow> by_script E a (firewall_enable (xe_ps E) p)
      | DefenderSignatureUpdate \<Rightarrow> by_script E a (defender_signature_update (xe_ps E))
      | DefenderRealtimeEnable \<Rightarrow> by_script E a (defender_realtime_enable (xe_ps E))
      | SfcScan \<Rightarrow> by_script E a (sfc_scan (xe_ps E))
      | DismRestoreHealth \<Rightarrow> by_script E a (dism_restore_health (xe_ps E))
      | StartupSet n l h en \<Rightarrow> by_script E a (set_enabled (xe_ps E) (xe_sid E) n l h en)
      | FileDelete path \<Rightarrow> by_files E a (delete_file True (xe_files E) (xe_state E) path))"

section \<open>Linux\<close>

text \<open>An entry of a temporary directory: its metadata when readable (a regular file, its age in seconds).\<close>

record tmp_entry =
  te_path :: string
  te_meta :: "(bool \<times> nat option) option"
  te_removed :: bool

record linux_env =
  lx_cmd :: "string list \<Rightarrow> command_out"
  lx_tmp :: "string \<Rightarrow> tmp_entry list option"
  lx_proc :: "(string \<times> string option) list option"
  lx_proc_error :: string
  lx_alive :: "int \<Rightarrow> bool"

definition run_simple :: "linux_env \<Rightarrow> string \<Rightarrow> string list \<Rightarrow> string + string" where
  "run_simple L program args =
     (let c = lx_cmd L (program # args) in
      case co_error c of
        Some e \<Rightarrow> Inl (''Cannot run '' @ program @ '': '' @ e)
      | None \<Rightarrow>
          if co_ok c then Inr (trim (co_out c))
          else Inl (program @ '' '' @ join '' '' args @ '' failed (exit '' @ show_int (co_code c) @ ''): '' @
                    (if trim (co_err c) = [] then trim (co_out c) else trim (co_err c))))"

definition out_suffix :: "string \<Rightarrow> string" where
  "out_suffix out = (if out = [] then [] else '': '' @ out)"

definition TMP_PURGE_MAX_AGE :: nat where "TMP_PURGE_MAX_AGE = 604800"

fun purge :: "nat \<Rightarrow> tmp_entry list \<Rightarrow> string list \<times> nat \<Rightarrow> string list \<times> nat" where
  "purge max_age [] acc = acc"
| "purge max_age (t # ts) (gone, skipped) =
     (case te_meta t of
        None \<Rightarrow> purge max_age ts (gone, skipped + 1)
      | Some (is_file, age) \<Rightarrow>
          if \<not> is_file then purge max_age ts (gone, skipped)
          else (case age of
              None \<Rightarrow> purge max_age ts (gone, skipped)
            | Some n \<Rightarrow>
                if n < max_age then purge max_age ts (gone, skipped)
                else if te_removed t then purge max_age ts (gone @ [te_path t], skipped)
                else purge max_age ts (gone, skipped + 1)))"

definition purge_dirs :: "linux_env \<Rightarrow> string list \<Rightarrow> nat \<Rightarrow> (string + string) \<times> string list" where
  "purge_dirs L roots max_age =
     (case foldl (\<lambda>acc r. case lx_tmp L r of None \<Rightarrow> acc | Some ts \<Rightarrow> purge max_age ts acc) ([], 0) roots of
        (gone, skipped) \<Rightarrow>
          (Inr (''tmp cleanup: '' @ show_nat (length gone) @ '' file(s) removed, '' @ show_nat skipped @
                '' skipped (top-level only, older than '' @ show_nat (max_age div 86400) @ ''d)''), gone))"

definition linux_disk_cleanup :: "linux_env \<Rightarrow> string \<Rightarrow> (string + string) \<times> exec_effect list" where
  "linux_disk_cleanup L target =
     (let t = to_ascii_lowercase target in
      if t = ''apt'' then
        (case run_simple L ''apt-get'' [''clean''] of
           Inl e \<Rightarrow> Inl e | Inr out \<Rightarrow> Inr (''apt-get clean completed'' @ out_suffix out),
         [Command [''apt-get'', ''clean'']])
      else if t = ''journal'' then
        (case run_simple L ''journalctl'' [''--vacuum-time=7d''] of
           Inl e \<Rightarrow> Inl e | Inr out \<Rightarrow> Inr (''journald vacuum completed'' @ out_suffix out),
         [Command [''journalctl'', ''--vacuum-time=7d'']])
      else if t = ''tmp'' then
        (case purge_dirs L [''/tmp'', ''/var/tmp''] TMP_PURGE_MAX_AGE of (r, gone) \<Rightarrow> (r, map Removed gone))
      else (Inl (''Unknown disk cleanup target: '' @ quoted t), []))"

text \<open>\<open>str::parse::<i32>\<close>, and the processes whose kernel name is exactly the one asked for.\<close>

definition parse_i32 :: "string \<Rightarrow> int option" where
  "parse_i32 s =
     (case s of
        c # r \<Rightarrow> if c = CHR ''-'' then map_option (\<lambda>n. - int n) (parse_digits (2 ^ 31) r)
                 else map_option int (parse_uint (2 ^ 31 - 1) s)
      | [] \<Rightarrow> None)"

definition pids_by_name :: "string \<Rightarrow> (string \<times> string option) list \<Rightarrow> int list" where
  "pids_by_name name entries =
     List.map_filter (\<lambda>(dir, comm).
       case (parse_i32 dir, comm) of
         (Some pid, Some c) \<Rightarrow> if trim_end_matches [newline] c = name then Some pid else None
       | _ \<Rightarrow> None) entries"

definition unix_kill_refusal :: "string \<Rightarrow> string" where
  "unix_kill_refusal name =
     (if has_wildcard name then ''Process name '' @ quoted name @ '' contains wildcard characters '' @ emdash @ '' refusing''
      else if name = [] \<or> length name > 255 \<or> list_ex (\<lambda>c. c = CHR ''/'' \<or> c = CHR 0x00) name
      then ''Invalid process name: '' @ name
      else ''Refusing to kill protected process: '' @ name)"

definition unix_kill :: "linux_env \<Rightarrow> string \<Rightarrow> (string + string) \<times> exec_effect list" where
  "unix_kill L name =
     (if \<not> kill_target_unix name then (Inl (unix_kill_refusal name), [])
      else (case lx_proc L of
          None \<Rightarrow> (Inl (''Cannot read /proc: '' @ lx_proc_error L), [])
        | Some entries \<Rightarrow>
            (let pids = pids_by_name name entries; alive = filter (lx_alive L) pids in
             if pids = [] then (Inl (''No running process named: '' @ name), [])
             else (if alive \<noteq> [] then
                     Inl (''Process(es) named '' @ quoted name @ '' did not exit within 10s: ['' @
                          join '', '' (map show_int alive) @ '']'')
                   else Inr (''Stopped process(es) named: '' @ name),
                   map Signalled pids))))"

definition execute_linux :: "executor_env \<Rightarrow> linux_env \<Rightarrow> fix_action \<Rightarrow> execution" where
  "execute_linux E L a =
     (case a of
        ServiceRestart n \<Rightarrow> by_service E a (restart (xe_stop E) (xe_start E) n)
      | ServiceStop n \<Rightarrow> by_service E a (xe_stop E n)
      | ServiceStart n \<Rightarrow> by_service E a (xe_start E n)
      | LogCleanup path days \<Rightarrow> by_files E a (cleanup False (xe_files E) (xe_entries E) (xe_now E) path days)
      | DiskCleanup target \<Rightarrow>
          (case linux_disk_cleanup L target of (r, es) \<Rightarrow> (Some (make_result (xe_esc E) a r), es))
      | ProcessKill n \<Rightarrow>
          (case unix_kill L n of (r, es) \<Rightarrow> (Some (make_result (xe_esc E) a r), es))
      | FileDelete path \<Rightarrow> by_files E a (delete_file False (xe_files E) (xe_state E) path)
      | _ \<Rightarrow>
          (Some (make_result (xe_esc E) a (Inl (debug_action (xe_esc E) a @ '' is not supported on Linux''))), []))"

section \<open>What the store accepts\<close>

text \<open>The test of an execution's undo record before the store writes anything.\<close>

definition undo_fits :: "fix_action \<Rightarrow> execution_result \<Rightarrow> bool" where
  "undo_fits a r =
     (if undo_required a r then (case res_undo r of None \<Rightarrow> False | Some un \<Rightarrow> undo_exact un) else res_undo r = None)"

lemma make_result_plain [simp]: "res_undo (make_result esc a r) = None" "res_success (make_result esc a r) = (\<exists>m. r = Inr m)"
  by (auto simp: make_result_def split: sum.splits)

lemma plain_fits: "\<not> is_registry_reset a \<Longrightarrow> res_undo r = None \<Longrightarrow> undo_fits a r"
  by (simp add: undo_fits_def undo_required_def)

lemma by_plain:
  "fst (by_script E a r) = Some x \<Longrightarrow> res_undo x = None"
  "fst (by_files E a f) = Some x \<Longrightarrow> res_undo x = None"
  "fst (by_service E a s) = Some x \<Longrightarrow> res_undo x = None"
  by (auto simp: by_script_def by_files_def by_service_def)

lemma prior_ok_exact:
  "prior_ok x \<Longrightarrow> applied_kind x = Some k \<Longrightarrow> applied_data x = Some d \<Longrightarrow> undo_exact x"
  by (auto simp: prior_ok_def undo_exact_def split: if_splits)

lemma windows_fits:
  assumes "fst (execute_windows E a) = Some r"
  shows "undo_fits a r"
proof (cases "is_registry_reset a")
  case True
  then obtain k n d where a: "a = RegistryReset k n d" by (auto simp: is_registry_reset_def split: fix_action.splits)
  obtain res ss where run: "reset_value (xe_ps E) (xe_reader E) k n d = (res, ss)" by fastforce
  show ?thesis
  proof (cases res)
    case (Inr mu)
    obtain msg un where mu: "mu = (msg, un)" by fastforce
    from reset_is_restorable [of "xe_ps E" "xe_reader E" k n d msg un ss] run Inr mu
    obtain x where x: "un = Some x" "undo_exact x" using prior_ok_exact by (metis (no_types, lifting))
    then show ?thesis using assms run Inr mu
      by (auto simp: a execute_windows_def by_registry_def undo_fits_def undo_required_def is_registry_reset_def make_result_def)
  next
    case (Inl e)
    then show ?thesis using assms run
      by (auto simp: a execute_windows_def by_registry_def undo_fits_def undo_required_def make_result_def)
  qed
next
  case False
  then have "res_undo r = None" using assms
    by (cases a) (auto simp: execute_windows_def is_registry_reset_def dest: by_plain)
  with False show ?thesis by (rule plain_fits)
qed

lemma linux_fits:
  assumes "fst (execute_linux E L a) = Some r"
  shows "undo_fits a r"
proof -
  have "res_undo r = None" using assms
    by (cases a) (auto simp: execute_linux_def dest: by_plain split: prod.splits)
  moreover have "\<not> undo_required a r" using assms
    by (cases a) (auto simp: execute_linux_def undo_required_def is_registry_reset_def)
  ultimately show ?thesis by (simp add: undo_fits_def)
qed

lemma persist_fits: "undo_fits a r \<Longrightarrow> persist_execution u dec a r None False now db \<noteq> None"
  by (auto simp: persist_execution_def undo_fits_def Let_def split: option.splits if_splits)


definition demo_executor :: executor_env where
  "demo_executor = \<lparr>xe_esc = (\<lambda>s. s), xe_ps = demo_ps ''done'', xe_reader = demo_reader, xe_sid = Inl ''no user'',
     xe_files = demo_files, xe_entries = demo_entries,
     xe_state = (\<lambda>p. \<lparr>fs_is_dir = None, fs_removed = False, fs_remains = None\<rparr>),
     xe_now = 200000, xe_stop = (\<lambda>n. (None, [])), xe_start = (\<lambda>n. (None, []))\<rparr>"

definition demo_linux :: linux_env where
  "demo_linux = \<lparr>lx_cmd = (\<lambda>c. \<lparr>co_error = None, co_ok = True, co_code = 0, co_out = [], co_err = []\<rparr>),
     lx_tmp = (\<lambda>r. None), lx_proc = None, lx_proc_error = [], lx_alive = (\<lambda>p. False)\<rparr>"


end
