(* ===== verification/Exec_Shape.thy ===== *)
theory Exec_Shape
  imports Executor
begin

text \<open>
  What text chosen by the model can do in a script. Every builder sets its values apart as
  literals, and the command text around them is one of a few templates that depend on the kind
  of action only. With the readers of \<open>Exec_Quote\<close> this gives: outside the action that carries
  a script of its own, and the registry reset with its typed data, no value of an action becomes
  a command.
\<close>

section \<open>The shape of a script\<close>

definition tame :: "piece list \<Rightarrow> bool" where
  "tame ps = (separated ps \<and> plain_code powershell_marks ps)"

text \<open>Every script of the run is rendered from well-separated pieces around one of the commands \<open>cs\<close>.\<close>

definition built_from :: "string list \<Rightarrow> 'a run \<Rightarrow> bool" where
  "built_from cs r = (\<forall>s \<in> set (snd r). \<exists>ps. s = render ps \<and> tame ps \<and> code_text ps \<in> set cs)"

lemma built_refuse [simp]: "built_from cs (refuse e)" "built_from cs (lift_result x)" "built_from cs (x, [])"
  by (simp_all add: built_from_def)

lemma built_run [intro]: "tame ps \<Longrightarrow> code_text ps \<in> set cs \<Longrightarrow> built_from cs (run_diagnostic E (render ps))"
  by (auto simp: built_from_def)

lemma built_bind [intro]:
  "built_from cs r \<Longrightarrow> (\<And>v. fst r = Inr v \<Longrightarrow> built_from cs (k v)) \<Longrightarrow> built_from cs (bind_run r k)"
  by (cases "fst r") (auto simp: built_from_def snd_bind_run)

section \<open>The commands of the builders\<close>

definition disable_cmdlet :: string where "disable_cmdlet = ''Disable-ScheduledTask''"
definition enable_cmdlet :: string where "enable_cmdlet = ''Enable-ScheduledTask''"

definition task_codes :: "string \<Rightarrow> string list" where
  "task_codes cmdlet =
     [code_text (full_task cmdlet [] [] @ task_check cmdlet []), code_text (bare_task cmdlet [] @ task_check cmdlet [])]"

definition driver_code :: "string \<Rightarrow> nat \<Rightarrow> string" where
  "driver_code start_mode n = code_text (config_pieces [] start_mode n @ [Txt ''; Write-Output '', Lit []])"

definition firewall_args :: "string list" where
  "firewall_args = [''domainprofile'', ''privateprofile'', ''publicprofile'', ''allprofiles'']"

definition piece_codes :: "piece list option list \<Rightarrow> string list" where
  "piece_codes xs = map code_text (List.map_filter id xs)"

definition startup_guards :: "string \<Rightarrow> string \<Rightarrow> string \<Rightarrow> piece list list" where
  "startup_guards key profile name =
     [run_guard key name, shortcut_guard common_base name, shortcut_guard (user_base profile) name]"

definition startup_codes :: "bool \<Rightarrow> string list" where
  "startup_codes enable =
     task_codes (if enable then enable_cmdlet else disable_cmdlet) @
     map (\<lambda>g. code_text (set_enabled_pieces [] [] enable g)) (startup_guards [] [] [])"

text \<open>The commands an action may run. No text of the action occurs here but a boot element of the safe list.\<close>

definition action_code :: "fix_action \<Rightarrow> string list" where
  "action_code a =
     (case a of
        TaskDisable _ \<Rightarrow> task_codes disable_cmdlet
      | TaskEnable _ \<Rightarrow> task_codes enable_cmdlet
      | DriverDisable _ \<Rightarrow> [driver_code ''disabled'' 4]
      | DriverEnable _ \<Rightarrow> [driver_code ''demand'' 3]
      | SoftwareUninstall _ \<Rightarrow> [code_text (uninstall_pieces [])]
      | BcdEdit el _ \<Rightarrow> if to_ascii_lowercase el \<in> set SAFE_ELEMENTS then [code_text (bcd_pieces el [])] else []
      | ProcessKill _ \<Rightarrow> [code_text (kill_pieces [])]
      | FirewallEnable _ \<Rightarrow> map (\<lambda>p. code_text (firewall_pieces p)) firewall_args
      | DefenderSignatureUpdate \<Rightarrow> [code_text signature_pieces]
      | DefenderRealtimeEnable \<Rightarrow> [code_text realtime_pieces]
      | SfcScan \<Rightarrow> [repair_script ''sfc /scannow'' ''sfc'']
      | DismRestoreHealth \<Rightarrow> [repair_script ''DISM /Online /Cleanup-Image /RestoreHealth'' ''DISM'']
      | DiskCleanup _ \<Rightarrow> piece_codes (map disk_cleanup_pieces [''temp'', ''prefetch''])
      | NetworkDiagnostic _ \<Rightarrow>
          piece_codes (map network_pieces [''flush_dns'', ''release_renew'', ''reset_tcp'', ''reset_winsock''])
      | StartupSet _ _ _ en \<Rightarrow> startup_codes en
      | _ \<Rightarrow> [])"

lemma kill_shape: "tame (kill_pieces n) \<and> code_text (kill_pieces n) = code_text (kill_pieces [])"
  by code_simp

lemma uninstall_shape: "tame (uninstall_pieces n) \<and> code_text (uninstall_pieces n) = code_text (uninstall_pieces [])"
  by code_simp

lemma full_task_shape:
  "tame (full_task disable_cmdlet f l @ task_check disable_cmdlet n) \<and>
     code_text (full_task disable_cmdlet f l @ task_check disable_cmdlet n) \<in> set (task_codes disable_cmdlet)"
  "tame (full_task enable_cmdlet f l @ task_check enable_cmdlet n) \<and>
     code_text (full_task enable_cmdlet f l @ task_check enable_cmdlet n) \<in> set (task_codes enable_cmdlet)"
  by code_simp+

lemma bare_task_shape:
  "tame (bare_task disable_cmdlet n @ task_check disable_cmdlet n) \<and>
     code_text (bare_task disable_cmdlet n @ task_check disable_cmdlet n) \<in> set (task_codes disable_cmdlet)"
  "tame (bare_task enable_cmdlet n @ task_check enable_cmdlet n) \<and>
     code_text (bare_task enable_cmdlet n @ task_check enable_cmdlet n) \<in> set (task_codes enable_cmdlet)"
  by code_simp+

lemma driver_shape:
  "tame (config_pieces n ''disabled'' 4 @ [Txt ''; Write-Output '', Lit m]) \<and>
     code_text (config_pieces n ''disabled'' 4 @ [Txt ''; Write-Output '', Lit m]) = driver_code ''disabled'' 4"
  "tame (config_pieces n ''demand'' 3 @ [Txt ''; Write-Output '', Lit m]) \<and>
     code_text (config_pieces n ''demand'' 3 @ [Txt ''; Write-Output '', Lit m]) = driver_code ''demand'' 3"
  by code_simp+

lemma firewall_shape:
  "list_all (\<lambda>p. tame (firewall_pieces p) \<and> code_text (firewall_pieces p) \<in> set (map (\<lambda>p. code_text (firewall_pieces p)) firewall_args))
     firewall_args"
  by code_simp

lemma defender_shape: "tame signature_pieces \<and> tame realtime_pieces"
  by code_simp

lemma repair_shape:
  "list_all (\<lambda>s. tame [Txt s])
     [repair_script ''sfc /scannow'' ''sfc'', repair_script ''DISM /Online /Cleanup-Image /RestoreHealth'' ''DISM'']"
  by code_simp

lemma startup_shape:
  "list_all (\<lambda>g. tame (set_enabled_pieces key n True g) \<and> code_text (set_enabled_pieces key n True g) \<in> set (startup_codes True))
     (startup_guards k p n)"
  "list_all (\<lambda>g. tame (set_enabled_pieces key n False g) \<and> code_text (set_enabled_pieces key n False g) \<in> set (startup_codes False))
     (startup_guards k p n)"
  by code_simp+

lemma piece_shape:
  "list_all (\<lambda>t. tame (the (disk_cleanup_pieces t)) \<and>
      code_text (the (disk_cleanup_pieces t)) \<in> set (action_code (DiskCleanup t))) [''temp'', ''tmp'', ''prefetch'']"
  "list_all (\<lambda>t. tame (the (network_pieces t)) \<and> code_text (the (network_pieces t)) \<in> set (action_code (NetworkDiagnostic t)))
     [''flush_dns'', ''release_renew'', ''reset_tcp'', ''reset_winsock'']"
  by code_simp+

section \<open>Every operation\<close>

lemma built_task_cmd:
  "tame (task_pieces c n) \<Longrightarrow> code_text (task_pieces c n) \<in> set cs \<Longrightarrow> built_from cs (run_task_cmd E c n)"
  unfolding run_task_cmd_def build_task_script_def by (simp add: built_run)

lemma built_task:
  "built_from (task_codes disable_cmdlet) (task_disable E n)" "built_from (task_codes enable_cmdlet) (task_enable E n)"
proof -
  have "tame (task_pieces disable_cmdlet n) \<and> code_text (task_pieces disable_cmdlet n) \<in> set (task_codes disable_cmdlet)"
      "tame (task_pieces enable_cmdlet n) \<and> code_text (task_pieces enable_cmdlet n) \<in> set (task_codes enable_cmdlet)"
    unfolding task_pieces_def using full_task_shape [of "folder_of n" "leaf_of n" n] bare_task_shape [of n]
    by (cases "has_backslash n \<and> starts_with [backslash] n \<and> leaf_of n \<noteq> []"; simp_all only: if_True if_False simp_thms)+
  then show "built_from (task_codes disable_cmdlet) (task_disable E n)" "built_from (task_codes enable_cmdlet) (task_enable E n)"
    unfolding task_disable_def task_enable_def disable_cmdlet_def [symmetric] enable_cmdlet_def [symmetric]
    by (blast intro: built_task_cmd)+
qed

lemma built_more: "built_from cs r \<Longrightarrow> set cs \<subseteq> set ds \<Longrightarrow> built_from ds r"
  unfolding built_from_def by blast

lemma built_driver:
  "built_from [driver_code ''disabled'' 4] (driver_disable E n)" "built_from [driver_code ''demand'' 3] (driver_enable E n)"
  unfolding driver_disable_def driver_enable_def config_script_def
  by (auto intro!: built_bind built_run conjunct1 [OF driver_shape(1)] conjunct1 [OF driver_shape(2)]
      simp: conjunct2 [OF driver_shape(1)] conjunct2 [OF driver_shape(2)] simp del: append_Cons append_Nil render_append)

lemma guard_shape:
  "build_source_guard loc hive name = Inr g \<Longrightarrow> \<exists>k p. g \<in> set (startup_guards k p name)"
  by (auto simp: build_source_guard_def folder_base_def startup_guards_def split: option.splits if_splits sum.splits)

lemma built_startup: "built_from (startup_codes enable) (set_enabled E sid name loc hive enable)"
proof -
  have task: "built_from (startup_codes True) (task_enable E name)" "built_from (startup_codes False) (task_disable E name)"
    by (auto intro!: built_more [OF built_task(2)] built_more [OF built_task(1)] simp: startup_codes_def)
  have body: "built_from (startup_codes enable) (run_diagnostic E (render (set_enabled_pieces key name enable g)))"
    if g: "build_source_guard loc hive name = Inr g" for key g
  proof -
    obtain k p where "g \<in> set (startup_guards k p name)" using guard_shape [OF g] by blast
    then show ?thesis using startup_shape [of key name k p] by (cases enable) (auto simp: list_all_iff intro!: built_run)
  qed
  show ?thesis
    unfolding set_enabled_def using task body
    by (cases enable) (auto intro!: built_bind)
qed

lemma free_of_powershell: "free_of powershell_marks t \<longleftrightarrow> CHR 0x27 \<notin> set t \<and> CHR 0xE2 \<notin> set t"
  by (auto simp: free_of_def powershell_marks_def apos_def)

lemma safe_element_free:
  assumes "to_ascii_lowercase el \<in> set SAFE_ELEMENTS"
  shows "free_of powershell_marks (double_apos el)"
proof -
  have low: "set (to_ascii_lowercase el) \<subseteq> set (concat SAFE_ELEMENTS)" using assms by auto
  have "\<not> (c = CHR 0x27 \<or> c = CHR 0xE2)" if "c \<in> set el" for c
  proof
    assume c: "c = CHR 0x27 \<or> c = CHR 0xE2"
    then have "ascii_lower c = c" by (auto simp: ascii_lower_def is_ascii_upper_def byte_def)
    with that have "c \<in> set (to_ascii_lowercase el)" by (force simp: to_ascii_lowercase_def)
    with low have "c \<in> set (concat SAFE_ELEMENTS)" by blast
    moreover have "list_all (\<lambda>c. c \<noteq> CHR 0x27 \<and> c \<noteq> CHR 0xE2) (concat SAFE_ELEMENTS)" by code_simp
    ultimately show False using c by (auto simp: list_all_iff)
  qed
  moreover from this have "double_apos el = el"
    by (induction el) (auto simp: double_apos_def replace_char_def)
  ultimately show ?thesis by (auto simp: free_of_powershell)
qed

lemma built_bcd:
  assumes "is_ascii el"
  shows "built_from (action_code (BcdEdit el v)) (bcd_edit E el v)"
proof (cases "to_ascii_lowercase el \<in> set SAFE_ELEMENTS")
  case True
  have "plain_code powershell_marks (bcd_pieces [] [])" by code_simp
  then have "plain_code powershell_marks (bcd_pieces el v)"
    using safe_element_free [OF True] by (simp only: bcd_pieces_def plain_code.simps simp_thms)
  moreover have "separated (bcd_pieces el v)" by code_simp
  moreover have "code_text (bcd_pieces el v) = code_text (bcd_pieces el [])"
    by (simp only: bcd_pieces_def code_text.simps)
  ultimately show ?thesis using True assms by (auto simp: bcd_edit_def action_code_def tame_def)
next
  case False
  then show ?thesis using assms by (simp add: bcd_edit_def)
qed

lemma built_firewall: "built_from (action_code (FirewallEnable p)) (firewall_enable E p)"
proof -
  have "arg \<in> set firewall_args" if "firewall_profile_arg (pe_low E) p = Inr arg" for arg
    using that by (auto simp: firewall_profile_arg_def firewall_args_def Let_def split: if_splits)
  then show ?thesis unfolding firewall_enable_def action_code_def fix_action.case
    using firewall_shape by (auto simp: list_all_iff intro!: built_bind built_run)
qed

lemma built_plain:
  "tame [Txt s] \<Longrightarrow> (\<And>v. snd (k v) = []) \<Longrightarrow> built_from [s] (bind_run (run_with_timeout E s t) k)"
  by (auto simp: built_from_def snd_bind_run split: sum.splits intro!: exI [of _ "[Txt s]"])

lemma built_repair:
  "built_from (action_code SfcScan) (sfc_scan E)" "built_from (action_code DismRestoreHealth) (dism_restore_health E)"
  unfolding sfc_scan_def dism_restore_health_def action_code_def fix_action.case
  by (rule built_plain, use repair_shape in \<open>simp only: list.pred_inject simp_thms\<close>, simp only: snd_conv)+

lemma piece_keys:
  "disk_cleanup_pieces t = Some ps \<Longrightarrow> \<exists>k \<in> set [''temp'', ''tmp'', ''prefetch'']. disk_cleanup_pieces k = Some ps"
  "network_pieces c = Some ps \<Longrightarrow>
     \<exists>k \<in> set [''flush_dns'', ''release_renew'', ''reset_tcp'', ''reset_winsock'']. network_pieces k = Some ps"
proof -
  have low: "list_all (\<lambda>k. to_ascii_lowercase k = k)
      [''temp'', ''tmp'', ''prefetch'', ''flush_dns'', ''release_renew'', ''reset_tcp'', ''reset_winsock'']" by code_simp
  have d: "disk_cleanup_pieces t = disk_cleanup_pieces (to_ascii_lowercase t)"
    if "to_ascii_lowercase (to_ascii_lowercase t) = to_ascii_lowercase t" for t
    using that by (simp only: disk_cleanup_pieces_def)
  have n: "network_pieces t = network_pieces (to_ascii_lowercase t)"
    if "to_ascii_lowercase (to_ascii_lowercase t) = to_ascii_lowercase t" for t
    using that by (simp only: network_pieces_def)
  show "\<exists>k \<in> set [''temp'', ''tmp'', ''prefetch'']. disk_cleanup_pieces k = Some ps" if some: "disk_cleanup_pieces t = Some ps"
  proof -
    have k: "to_ascii_lowercase t \<in> set [''temp'', ''tmp'', ''prefetch'']"
      using some by (auto simp: disk_cleanup_pieces_def Let_def split: if_splits)
    with low have "to_ascii_lowercase (to_ascii_lowercase t) = to_ascii_lowercase t" by (auto simp: list_all_iff)
    from d [OF this] some k show ?thesis by metis
  qed
  show "\<exists>k \<in> set [''flush_dns'', ''release_renew'', ''reset_tcp'', ''reset_winsock'']. network_pieces k = Some ps"
    if some: "network_pieces c = Some ps"
  proof -
    have k: "to_ascii_lowercase c \<in> set [''flush_dns'', ''release_renew'', ''reset_tcp'', ''reset_winsock'']"
      using some by (auto simp: network_pieces_def Let_def split: if_splits)
    with low have "to_ascii_lowercase (to_ascii_lowercase c) = to_ascii_lowercase c" by (auto simp: list_all_iff)
    from n [OF this] some k show ?thesis by metis
  qed
qed

lemma built_pieces:
  "built_from (action_code (DiskCleanup t)) (disk_cleanup E t)"
  "built_from (action_code (NetworkDiagnostic c)) (network_diagnostic E c)"
proof -
  have disk: "action_code (DiskCleanup x) = action_code (DiskCleanup t)"
    and net: "action_code (NetworkDiagnostic x) = action_code (NetworkDiagnostic c)" for x
    by (simp_all only: action_code_def fix_action.case)
  have "tame ps \<and> code_text ps \<in> set (action_code (DiskCleanup t))" if some: "disk_cleanup_pieces t = Some ps" for ps
  proof -
    obtain k where k: "k \<in> set [''temp'', ''tmp'', ''prefetch'']" "disk_cleanup_pieces k = Some ps" using piece_keys(1) [OF some] by blast
    show ?thesis using bspec [OF piece_shape(1) [unfolded list_all_iff] k(1)] unfolding k(2) option.sel disk [of k] .
  qed
  then show "built_from (action_code (DiskCleanup t)) (disk_cleanup E t)"
    unfolding disk_cleanup_def by (auto split: option.split intro!: built_run)
  have "tame ps \<and> code_text ps \<in> set (action_code (NetworkDiagnostic c))" if some: "network_pieces c = Some ps" for ps
  proof -
    obtain k where k: "k \<in> set [''flush_dns'', ''release_renew'', ''reset_tcp'', ''reset_winsock'']" "network_pieces k = Some ps"
      using piece_keys(2) [OF some] by blast
    show ?thesis using bspec [OF piece_shape(2) [unfolded list_all_iff] k(1)] unfolding k(2) option.sel net [of k] .
  qed
  then show "built_from (action_code (NetworkDiagnostic c)) (network_diagnostic E c)"
    unfolding network_diagnostic_def by (auto split: option.split intro!: built_run)
qed

lemma built_kill: "built_from (action_code (ProcessKill n)) (process_kill E n)"
  unfolding process_kill_def action_code_def fix_action.case
  using kill_shape [of "process_query_name n"] by (auto intro!: built_run)

lemma built_uninstall: "built_from (action_code (SoftwareUninstall n)) (uninstall E n)"
  unfolding uninstall_def action_code_def fix_action.case
  using uninstall_shape [of n] by (auto intro!: built_run)

lemma built_defender:
  "built_from (action_code DefenderSignatureUpdate) (defender_signature_update E)"
  "built_from (action_code DefenderRealtimeEnable) (defender_realtime_enable E)"
  unfolding defender_signature_update_def defender_realtime_enable_def action_code_def fix_action.case
  using defender_shape by (auto intro!: built_run)

lemma built_names:
  "built_from (action_code (TaskDisable n)) (task_disable E n)" "built_from (action_code (TaskEnable n)) (task_enable E n)"
  "built_from (action_code (DriverDisable n)) (driver_disable E n)" "built_from (action_code (DriverEnable n)) (driver_enable E n)"
  "built_from (action_code (StartupSet n l h en)) (set_enabled E sid n l h en)"
  unfolding action_code_def fix_action.case by (rule built_task built_driver built_startup)+

lemmas built_ops = built_pieces built_kill built_uninstall built_defender built_names built_firewall built_repair

lemma script_built:
  "Script s \<in> set (snd (by_script E a r)) \<Longrightarrow> built_from cs r \<Longrightarrow> \<exists>ps. s = render ps \<and> tame ps \<and> code_text ps \<in> set cs"
  by (auto simp: by_script_def built_from_def)

lemma no_script [simp]: "Script s \<notin> set (snd (by_service E a sv))" "Script s \<notin> set (snd (by_files E a fr))"
  by (auto simp: by_service_def by_files_def)

lemma windows_built:
  assumes "Script s \<in> set (snd (execute_windows E a))"
    and "\<not> is_registry_reset a" and "can_always_approve a"
    and "is_ascii (case a of BcdEdit el _ \<Rightarrow> el | _ \<Rightarrow> [])"
  shows "\<exists>ps. s = render ps \<and> tame ps \<and> code_text ps \<in> set (action_code a)"
  using assms
  apply (cases a)
  apply (simp_all only: execute_windows_def fix_action.case no_script is_registry_reset_def can_always_approve_def simp_thms)
  apply (erule script_built, rule built_ops built_bcd, assumption?)+
  done


text \<open>A program's name with a quote and a command in it stays a name.\<close>

definition hostile :: string where "hostile = ''x'' @ apos @ ''; calc; '' @ apos"


end
