(* ===== verification/Model_Json.thy ===== *)
theory Model_Json
  imports Fix_Action
begin

text \<open>
  Recovering structured JSON from a model's reply (\<open>ai/json.rs\<close>): thinking tags and code fences
  are stripped, every top-level object or array of the text is a candidate, a candidate is
  repaired (typographic quotes, comments, trailing commas, control characters in strings), and
  the first one that reads as a decision is taken. The JSON reader itself is a parameter.
\<close>

section \<open>Thinking tags and fences\<close>

definition THINK_TAGS :: "(string \<times> string) list" where
  "THINK_TAGS =
     [(''<think>'', ''</think>''), (''<thinking>'', ''</thinking>''), (''<reasoning>'', ''</reasoning>'')]"

fun find_ci_ascii :: "string \<Rightarrow> string \<Rightarrow> nat option" where
  "find_ci_ascii needle [] = None"
| "find_ci_ascii needle (c # s) =
     (if needle \<noteq> [] \<and> length needle \<le> length (c # s) \<and>
         eq_ignore_ascii_case (take (length needle) (c # s)) needle
      then Some 0 else map_option Suc (find_ci_ascii needle s))"

text \<open>\<open>min_by_key\<close>: the first of the earliest opening tags.\<close>

fun earliest :: "string \<Rightarrow> (string \<times> string) list \<Rightarrow> (nat \<times> string \<times> string) option" where
  "earliest s [] = None"
| "earliest s ((op, cl) # tags) =
     (case (find_ci_ascii op s, earliest s tags) of
        (None, r) \<Rightarrow> r
      | (Some i, None) \<Rightarrow> Some (i, op, cl)
      | (Some i, Some (j, t)) \<Rightarrow> if j < i then Some (j, t) else Some (i, op, cl))"

lemma find_ci_bound: "find_ci_ascii needle s = Some i \<Longrightarrow> i + length needle \<le> length s \<and> needle \<noteq> []"
  by (induction needle s arbitrary: i rule: find_ci_ascii.induct) (auto split: if_splits)

lemma earliest_bound: "earliest s tags = Some (i, op, cl) \<Longrightarrow> i + length op \<le> length s \<and> op \<noteq> []"
  by (induction s tags arbitrary: i op cl rule: earliest.induct)
    (auto split: option.splits if_splits prod.splits dest: find_ci_bound)

function strip_think_tags :: "string \<Rightarrow> string" where
  "strip_think_tags s =
     (case earliest s THINK_TAGS of
        None \<Rightarrow> s
      | Some (i, op, cl) \<Rightarrow>
          (let after = drop (i + length op) s in
           case find_ci_ascii cl after of
             Some j \<Rightarrow> take i s @ strip_think_tags (drop (j + length cl) after)
           | None \<Rightarrow> s))"
  by pat_completeness auto
termination
proof (relation "measure length", goal_cases)
  case (2 s a i b op cl after j)
  then have "i + length op \<le> length s \<and> op \<noteq> []" using earliest_bound by blast
  then show ?case using 2 by (cases op) auto
qed simp

declare strip_think_tags.simps [simp del]

fun find_sub :: "string \<Rightarrow> string \<Rightarrow> nat option" where
  "find_sub needle [] = (if needle = [] then Some 0 else None)"
| "find_sub needle (c # s) =
     (if starts_with needle (c # s) then Some 0 else map_option Suc (find_sub needle s))"

definition fence_body :: "string \<Rightarrow> string \<Rightarrow> string" where
  "fence_body close rest =
     (let body = (case split_once newline rest of
                    Some (lang, text) \<Rightarrow> text
                  | None \<Rightarrow> trim_start (dropWhile (\<lambda>c. is_ascii_alphanumeric c \<or> c = CHR ''-'') rest))
      in case find_sub close body of Some e \<Rightarrow> trim (take e body) | None \<Rightarrow> trim body)"

definition strip_fences :: "string \<Rightarrow> string" where
  "strip_fences s =
     (let t = trim s in
      case strip_prefix ''```'' t of
        Some rest \<Rightarrow> fence_body ''```'' rest
      | None \<Rightarrow> (case strip_prefix ''~~~'' t of Some rest \<Rightarrow> fence_body ''~~~'' rest | None \<Rightarrow> t))"

definition prepare_model_text :: "string \<Rightarrow> string" where
  "prepare_model_text s = strip_fences (strip_think_tags s)"

section \<open>Candidates\<close>

text \<open>
  The scan for the closing bracket: the depth of brackets of the same kind, whether inside a
  string, and whether the character before was a backslash there. The result counts the
  characters before the closing bracket.
\<close>

fun close_scan :: "char \<Rightarrow> char \<Rightarrow> string \<Rightarrow> nat \<Rightarrow> bool \<Rightarrow> bool \<Rightarrow> nat option" where
  "close_scan op cl [] depth in_str escaped = None"
| "close_scan op cl (c # s) depth in_str escaped =
     (if escaped then map_option Suc (close_scan op cl s depth in_str False)
      else if in_str then
        map_option Suc (close_scan op cl s depth (c \<noteq> CHR 0x22) (c = backslash))
      else if c = CHR 0x22 then map_option Suc (close_scan op cl s depth True False)
      else if c = op then map_option Suc (close_scan op cl s (depth + 1) False False)
      else if c = cl then
        (if depth = 1 then Some 0 else map_option Suc (close_scan op cl s (depth - 1) False False))
      else map_option Suc (close_scan op cl s depth False False))"

definition closer :: "char \<Rightarrow> char option" where
  "closer c = (if c = CHR ''{'' then Some (CHR ''}'') else if c = CHR ''['' then Some (CHR '']'') else None)"

definition close_delimited :: "string \<Rightarrow> nat option" where
  "close_delimited s =
     (case s of
        [] \<Rightarrow> None
      | c # _ \<Rightarrow> (case closer c of None \<Rightarrow> None | Some cl \<Rightarrow> close_scan c cl s 0 False False))"

definition is_opener :: "char \<Rightarrow> bool" where
  "is_opener c = (c = CHR ''{'' \<or> c = CHR ''['')"

text \<open>The unclosed candidate: up to the last closing bracket of its kind, or the rest of the text.\<close>

definition open_span :: "string \<Rightarrow> string" where
  "open_span s =
     (let cl = (if hd s = CHR ''['' then CHR '']'' else CHR ''}'');
          cut = rev (dropWhile (\<lambda>c. c \<noteq> cl) (rev s))
      in if length cut > 1 then cut else s)"

function json_candidates :: "string \<Rightarrow> string list" where
  "json_candidates s =
     (let t = dropWhile (\<lambda>c. \<not> is_opener c) s in
      if t = [] then []
      else (case close_delimited t of
              Some e \<Rightarrow> take (e + 1) t # json_candidates (drop (e + 1) t)
            | None \<Rightarrow> [open_span t]))"
  by pat_completeness auto
termination
proof (relation "measure length", goal_cases)
  case (2 s t e)
  have "length t \<le> length s" unfolding 2(1) by (rule length_dropWhile_le)
  moreover have "t \<noteq> []" using 2 by blast
  ultimately show ?case by (cases t) auto
qed simp

declare json_candidates.simps [simp del]

section \<open>Repair\<close>

definition byte_order_mark :: string where "byte_order_mark = [CHR 0xEF, CHR 0xBB, CHR 0xBF]"

fun strip_marks :: "string \<Rightarrow> string" where
  "strip_marks (a # b # c # s) =
     (if [a, b, c] = byte_order_mark then strip_marks s else a # b # c # s)"
| "strip_marks s = s"

fun plain_quotes :: "string \<Rightarrow> string" where
  "plain_quotes (a # b # c # s) =
     (if a = CHR 0xE2 \<and> b = CHR 0x80 \<and> (c = CHR 0x9C \<or> c = CHR 0x9D)
      then CHR 0x22 # plain_quotes s else a # plain_quotes (b # c # s))"
| "plain_quotes s = s"

definition skip_line :: "string \<Rightarrow> string" where
  "skip_line s = dropWhile (\<lambda>c. c \<noteq> newline) s"

fun skip_block :: "string \<Rightarrow> string" where
  "skip_block (c # d # s) = (if c = CHR ''*'' \<and> d = CHR ''/'' then s else skip_block (d # s))"
| "skip_block s = []"

lemma skip_line_le: "length (skip_line s) \<le> length s"
  by (simp add: skip_line_def length_dropWhile_le)

lemma skip_block_le: "length (skip_block s) \<le> length s"
  by (induction s rule: skip_block.induct) auto

text \<open>A comment at the head of the text: what follows it.\<close>

definition after_comment :: "string \<Rightarrow> string option" where
  "after_comment s =
     (if starts_with ''//'' s then Some (skip_line (drop 2 s))
      else if starts_with ''/*'' s then Some (skip_block (drop 2 s))
      else None)"

lemma after_comment_less: "after_comment s = Some r \<Longrightarrow> length r < length s"
  using skip_line_le [of "drop 2 s"] skip_block_le [of "drop 2 s"]
  by (cases s) (auto simp: after_comment_def starts_with_iff split: if_splits)

lemma trim_start_le: "length (trim_start s) \<le> length s"
  using trim_start_suffix [of s] by (metis le_add2 length_append)

function skip_ws_and_comments :: "string \<Rightarrow> string" where
  "skip_ws_and_comments s =
     (let t = trim_start s in
      case after_comment t of Some r \<Rightarrow> skip_ws_and_comments r | None \<Rightarrow> t)"
  by pat_completeness auto
termination
proof (relation "measure length", goal_cases)
  case (2 s t r)
  then show ?case using after_comment_less [of t r] trim_start_le [of s] by simp
qed simp

declare skip_ws_and_comments.simps [simp del]

definition trailing_comma :: "string \<Rightarrow> bool" where
  "trailing_comma s =
     (case skip_ws_and_comments s of c # _ \<Rightarrow> c = CHR ''}'' \<or> c = CHR '']'' | [] \<Rightarrow> False)"

text \<open>Inside a string; an escape copies the next byte, and the bytes of a longer character follow it.\<close>

function repair :: "string \<Rightarrow> bool \<Rightarrow> bool \<Rightarrow> string" where
  "repair [] in_str escaped = []"
| "repair (c # s) in_str escaped =
     (if escaped then c # repair s in_str False
      else if in_str then
        (if c = backslash then c # repair s True True
         else if c = CHR 0x22 then c # repair s False False
         else if c = newline then backslash # CHR ''n'' # repair s True False
         else if c = CHR 0x0D then backslash # CHR ''r'' # repair s True False
         else if c = CHR 0x09 then backslash # CHR ''t'' # repair s True False
         else if byte c < 32 \<or> byte c = 127 then repair s True False
         else if byte c = 0xC2 \<and> s \<noteq> [] \<and> 128 \<le> byte (hd s) \<and> byte (hd s) < 160 then repair (tl s) True False
         else c # repair s True False)
      else (case after_comment (c # s) of
          Some r \<Rightarrow> repair r False False
        | None \<Rightarrow>
            if c = CHR '','' \<and> trailing_comma s then repair s False False
            else c # repair s (c = CHR 0x22) False))"
  by pat_completeness auto
termination
  by (relation "measure (\<lambda>(s, i, e). length s)") (auto dest: after_comment_less)

definition sanitize_json :: "string \<Rightarrow> string" where
  "sanitize_json input = repair (plain_quotes (strip_marks (trim input))) False False"

section \<open>Reading a candidate\<close>

text \<open>\<open>parse_model_json_matching\<close>: \<open>from_str\<close> reads a value, \<open>from_value\<close> the wanted type.\<close>

fun first_matching :: "(string \<Rightarrow> json option) \<Rightarrow> (json \<Rightarrow> 'a option) \<Rightarrow> (json \<Rightarrow> bool) \<Rightarrow> string list \<Rightarrow> bool \<Rightarrow> 'a option \<times> bool" where
  "first_matching from_str from_value pred [] failed = (None, failed)"
| "first_matching from_str from_value pred (c # cs) failed =
     (case from_str (sanitize_json c) of
        None \<Rightarrow> first_matching from_str from_value pred cs True
      | Some v \<Rightarrow>
          if pred v then
            (case from_value v of
               Some x \<Rightarrow> (Some x, failed)
             | None \<Rightarrow> first_matching from_str from_value pred cs True)
          else first_matching from_str from_value pred cs failed)"

definition parse_model_json_matching ::
  "(string \<Rightarrow> json option) \<Rightarrow> (json \<Rightarrow> 'a option) \<Rightarrow> (json \<Rightarrow> bool) \<Rightarrow> string \<Rightarrow> 'a option" where
  "parse_model_json_matching from_str from_value pred s =
     (let prepared = prepare_model_text s in
      case first_matching from_str from_value pred (json_candidates prepared) False of
        (Some x, _) \<Rightarrow> Some x
      | (None, True) \<Rightarrow> None
      | (None, False) \<Rightarrow> Option.bind (from_str (sanitize_json prepared)) from_value)"

definition parse_model_json :: "(string \<Rightarrow> json option) \<Rightarrow> (json \<Rightarrow> 'a option) \<Rightarrow> string \<Rightarrow> 'a option" where
  "parse_model_json from_str from_value s = parse_model_json_matching from_str from_value (\<lambda>_. True) s"

section \<open>Decisions\<close>

definition ACTION_FIELDS :: "string list" where
  "ACTION_FIELDS =
     [''action'', ''service_name'', ''path'', ''days_old'', ''target'', ''script'', ''task_name'', ''key_path'',
      ''value_name'', ''value_data'', ''command'', ''driver_name'', ''package_name'', ''element'', ''value'',
      ''process_name'', ''profile'', ''name'', ''location'', ''hive'', ''enable'']"

type_synonym fields = "(string \<times> json) list"

definition has_field :: "string \<Rightarrow> fields \<Rightarrow> bool" where
  "has_field k fs = (map_of fs k \<noteq> None)"

definition put_field :: "string \<Rightarrow> json \<Rightarrow> fields \<Rightarrow> fields" where
  "put_field k v fs = (k, v) # filter (\<lambda>(k', _). k' \<noteq> k) fs"

definition looks_like_decision :: "fields \<Rightarrow> bool" where
  "looks_like_decision fs =
     (has_field ''analysis'' fs \<or> has_field ''problems'' fs \<or> has_field ''needs_deeper_analysis'' fs \<or>
      has_field ''needsDeeperAnalysis'' fs)"

definition looks_like_problem :: "fields \<Rightarrow> bool" where
  "looks_like_problem fs = (has_field ''diagnosis'' fs \<or> has_field ''proposed_fix'' fs)"

definition lifted_fix :: "fields \<Rightarrow> fields" where
  "lifted_fix fs = List.map_filter (\<lambda>k. map_option (Pair k) (map_of fs k)) ACTION_FIELDS"

definition normalize_problem_object :: "(string \<Rightarrow> json option) \<Rightarrow> fields \<Rightarrow> fields" where
  "normalize_problem_object from_str fs =
     (let fs = (if \<not> has_field ''proposed_fix'' fs \<and> has_field ''action'' fs
                then put_field ''proposed_fix'' (JObj (lifted_fix fs)) fs else fs)
      in case map_of fs ''proposed_fix'' of
           Some (JStr raw) \<Rightarrow>
             (if starts_with ''{'' (trim raw) then
                (case from_str (trim raw) of Some v \<Rightarrow> put_field ''proposed_fix'' v fs | None \<Rightarrow> fs)
              else fs)
         | _ \<Rightarrow> fs)"

text \<open>
  The derived readers: a missing field takes its default, \<open>null\<close> reads as an empty text, and a
  structure may come as the sequence of its fields.
\<close>

definition text_field :: "fields \<Rightarrow> string \<Rightarrow> string option" where
  "text_field fs k =
     (case map_of fs k of None \<Rightarrow> Some [] | Some JNull \<Rightarrow> Some [] | Some (JStr s) \<Rightarrow> Some s | _ \<Rightarrow> None)"

definition PROBLEM_FIELDS :: "string list" where
  "PROBLEM_FIELDS =
     [''diagnosis'', ''root_cause'', ''confidence'', ''proposed_fix'', ''reasoning'', ''side_effects'', ''undo_instructions'']"

definition problem_of_fields :: "(string \<Rightarrow> fnum option) \<Rightarrow> fields \<Rightarrow> problem option" where
  "problem_of_fields parse_f32 fs =
     (case (text_field fs ''diagnosis'', text_field fs ''root_cause'', text_field fs ''reasoning'',
            text_field fs ''side_effects'', text_field fs ''undo_instructions'') of
        (Some d, Some r, Some why, Some side, Some un) \<Rightarrow>
          Some \<lparr>diagnosis = d, root_cause = r,
                confidence = (case map_of fs ''confidence'' of Some v \<Rightarrow> confidence_from_value parse_f32 v | None \<Rightarrow> Fin 0),
                proposed_fix = (case map_of fs ''proposed_fix'' of Some v \<Rightarrow> v | None \<Rightarrow> JNull),
                reasoning = why, side_effects = side, undo_instructions = un\<rparr>
      | _ \<Rightarrow> None)"

definition problem_of_json :: "(string \<Rightarrow> fnum option) \<Rightarrow> json \<Rightarrow> problem option" where
  "problem_of_json parse_f32 v =
     (case v of
        JObj fs \<Rightarrow> problem_of_fields parse_f32 fs
      | JArr xs \<Rightarrow>
          if length xs \<le> length PROBLEM_FIELDS then problem_of_fields parse_f32 (zip PROBLEM_FIELDS xs) else None
      | _ \<Rightarrow> None)"

fun all_some :: "'a option list \<Rightarrow> 'a list option" where
  "all_some [] = Some []"
| "all_some (x # xs) = (case (x, all_some xs) of (Some v, Some vs) \<Rightarrow> Some (v # vs) | _ \<Rightarrow> None)"

definition problems_field :: "(string \<Rightarrow> fnum option) \<Rightarrow> fields \<Rightarrow> problem list option" where
  "problems_field parse_f32 fs =
     (case map_of fs ''problems'' of
        None \<Rightarrow> Some []
      | Some JNull \<Rightarrow> Some []
      | Some (JArr xs) \<Rightarrow> all_some (map (problem_of_json parse_f32) xs)
      | _ \<Rightarrow> None)"

definition decision_of_fields :: "(string \<Rightarrow> fnum option) \<Rightarrow> fields \<Rightarrow> decision option" where
  "decision_of_fields parse_f32 fs =
     (if has_field ''needs_deeper_analysis'' fs \<and> has_field ''needsDeeperAnalysis'' fs then None
      else (case (text_field fs ''analysis'', problems_field parse_f32 fs) of
          (Some a, Some ps) \<Rightarrow>
            Some \<lparr>analysis = a, problems = ps,
                  needs_deeper_analysis =
                    (case (map_of fs ''needs_deeper_analysis'', map_of fs ''needsDeeperAnalysis'') of
                       (Some v, _) \<Rightarrow> boolish_from_value v
                     | (None, Some v) \<Rightarrow> boolish_from_value v
                     | (None, None) \<Rightarrow> False)\<rparr>
        | _ \<Rightarrow> None))"

definition just_problems :: "problem list \<Rightarrow> decision" where
  "just_problems ps = \<lparr>analysis = [], problems = ps, needs_deeper_analysis = False\<rparr>"

definition normalize_problem_item :: "(string \<Rightarrow> json option) \<Rightarrow> json \<Rightarrow> json" where
  "normalize_problem_item from_str v =
     (case v of JObj fs \<Rightarrow> JObj (normalize_problem_object from_str fs) | other \<Rightarrow> other)"

definition decision_from_value ::
  "(string \<Rightarrow> json option) \<Rightarrow> (string \<Rightarrow> fnum option) \<Rightarrow> json \<Rightarrow> decision option" where
  "decision_from_value from_str parse_f32 v =
     (case v of
        JObj fs \<Rightarrow>
          if looks_like_decision fs then
            (case map_of fs ''problems'' of
               Some (JArr xs) \<Rightarrow>
                 decision_of_fields parse_f32 (put_field ''problems'' (JArr (map (normalize_problem_item from_str) xs)) fs)
             | _ \<Rightarrow> decision_of_fields parse_f32 fs)
          else if looks_like_problem fs then
            map_option (\<lambda>p. just_problems [p]) (problem_of_fields parse_f32 (normalize_problem_object from_str fs))
          else None
      | JArr xs \<Rightarrow>
          map_option just_problems (all_some (map (\<lambda>x. problem_of_json parse_f32 (normalize_problem_item from_str x)) xs))
      | _ \<Rightarrow> None)"

text \<open>Reading the whole reply as it is, the last resort: objects and sequences of the fields.\<close>

definition decision_of_json :: "(string \<Rightarrow> fnum option) \<Rightarrow> json \<Rightarrow> decision option" where
  "decision_of_json parse_f32 v =
     (case v of
        JObj fs \<Rightarrow> decision_of_fields parse_f32 fs
      | JArr xs \<Rightarrow>
          if length xs \<le> 3 then decision_of_fields parse_f32 (zip [''analysis'', ''problems'', ''needs_deeper_analysis''] xs)
          else None
      | _ \<Rightarrow> None)"

definition parse_decision ::
  "(string \<Rightarrow> json option) \<Rightarrow> (string \<Rightarrow> fnum option) \<Rightarrow> string \<Rightarrow> decision option" where
  "parse_decision from_str parse_f32 s =
     (case first_matching from_str (decision_from_value from_str parse_f32) (\<lambda>_. True)
             (json_candidates (prepare_model_text s)) False of
        (Some d, _) \<Rightarrow> Some d
      | (None, True) \<Rightarrow> None
      | (None, False) \<Rightarrow> Option.bind (from_str s) (decision_of_json parse_f32))"

section \<open>Candidates are pieces of the text\<close>

lemma close_scan_bound: "close_scan op cl s d i e = Some n \<Longrightarrow> n < length s \<and> s ! n = cl"
  by (induction op cl s d i e arbitrary: n rule: close_scan.induct) (auto split: if_splits)

lemma close_delimited_bound: "close_delimited s = Some n \<Longrightarrow> n < length s"
  by (auto simp: close_delimited_def simp del: close_scan.simps dest: close_scan_bound split: list.splits option.splits)

text \<open>The candidates in order, with the text between and after them.\<close>

fun woven :: "string list \<Rightarrow> string list \<Rightarrow> string" where
  "woven (g # gs) (c # cs) = g @ c @ woven gs cs"
| "woven (g # gs) [] = g"
| "woven [] cs = []"

definition candidate_ok :: "string \<Rightarrow> bool" where
  "candidate_ok c = (c \<noteq> [] \<and> is_opener (hd c) \<and> close_delimited c = Some (length c - 1))"

lemma close_scan_take:
  "close_scan op cl s d i e = Some n \<Longrightarrow> close_scan op cl (take (Suc n) s) d i e = Some n"
  by (induction op cl s d i e arbitrary: n rule: close_scan.induct) (auto split: if_splits)

lemma close_delimited_take: "close_delimited s = Some n \<Longrightarrow> close_delimited (take (Suc n) s) = Some n"
proof (cases s)
  case (Cons c t)
  assume "close_delimited s = Some n"
  then obtain cl where cl: "closer c = Some cl" "close_scan c cl s 0 False False = Some n"
    by (auto simp: close_delimited_def Cons simp del: close_scan.simps split: option.splits)
  from close_scan_take [OF cl(2)] cl(1) show ?thesis
    by (simp add: close_delimited_def Cons del: close_scan.simps)
qed (simp add: close_delimited_def)

lemma is_opener_closer: "is_opener c \<longleftrightarrow> closer c \<noteq> None"
  by (auto simp: is_opener_def closer_def)

lemma open_span_prefix: "s \<noteq> [] \<Longrightarrow> \<exists>r. s = open_span s @ r \<and> open_span s \<noteq> [] \<and> hd (open_span s) = hd s"
proof -
  assume s: "s \<noteq> []"
  define cl where "cl = (if hd s = CHR ''['' then CHR '']'' else CHR ''}'')"
  define cut where "cut = rev (dropWhile (\<lambda>c. c \<noteq> cl) (rev s))"
  have "s = cut @ rev (takeWhile (\<lambda>c. c \<noteq> cl) (rev s))"
    unfolding cut_def by (metis rev_append rev_rev_ident takeWhile_dropWhile_id)
  then have "\<exists>r. s = cut @ r" by blast
  moreover have "open_span s = (if length cut > 1 then cut else s)"
    by (simp add: open_span_def cl_def cut_def Let_def)
  ultimately show ?thesis using s by (cases cut) auto
qed

end
