(* ===== verification/Model_Reply.thy ===== *)
theory Model_Reply
  imports Model_Json
begin

text \<open>
  What the recovery of a model's reply guarantees: the candidates are pieces of the text in
  order, a complete value is found whatever prose surrounds it, strict JSON passes the repair
  unchanged, and an action flattened into its problem is read as the action it spells.
\<close>

section \<open>The candidates\<close>

lemma json_candidates_woven:
  "\<exists>gs. length gs = length (json_candidates s) + 1 \<and> woven gs (json_candidates s) = s \<and>
     list_all candidate_ok (butlast (json_candidates s)) \<and>
     list_all (\<lambda>c. c \<noteq> [] \<and> is_opener (hd c)) (json_candidates s)"
proof (induction s rule: json_candidates.induct)
  case (1 s)
  define g t where "g = takeWhile (\<lambda>c. \<not> is_opener c) s" and "t = dropWhile (\<lambda>c. \<not> is_opener c) s"
  have s: "s = g @ t" by (simp add: g_def t_def)
  show ?case
  proof (cases "t = []")
    case True
    then have "json_candidates s = []" by (subst json_candidates.simps) (simp add: t_def [symmetric])
    then show ?thesis by (intro exI [of _ "[s]"]) simp
  next
    case ne: False
    then have hd: "is_opener (hd t)" unfolding t_def by (metis hd_dropWhile)
    show ?thesis
    proof (cases "close_delimited t")
      case None
      then have c: "json_candidates s = [open_span t]"
        using ne by (subst json_candidates.simps) (simp add: t_def [symmetric] Let_def)
      obtain r where "t = open_span t @ r" "open_span t \<noteq> []" "hd (open_span t) = hd t"
        using open_span_prefix [OF ne] by blast
      then have "woven [g, r] [open_span t] = s" "is_opener (hd (open_span t))" "open_span t \<noteq> []"
        using s hd by (simp_all del: append.assoc)
      then show ?thesis unfolding c by (intro exI [of _ "[g, r]"]) simp
    next
      case (Some e)
      let ?c = "take (e + 1) t" and ?r = "drop (e + 1) t"
      have cs: "json_candidates s = ?c # json_candidates ?r"
        using ne Some by (subst json_candidates.simps) (simp add: t_def [symmetric] Let_def)
      obtain gs where gs: "length gs = length (json_candidates ?r) + 1" "woven gs (json_candidates ?r) = ?r"
          "list_all candidate_ok (butlast (json_candidates ?r))"
          "list_all (\<lambda>c. c \<noteq> [] \<and> is_opener (hd c)) (json_candidates ?r)"
        using "1.IH" [OF t_def ne Some] by blast
      have e: "e < length t" using close_delimited_bound [OF Some] .
      then have len: "length ?c = e + 1" by simp
      have "candidate_ok ?c"
        using ne hd len close_delimited_take [OF Some] by (cases t) (simp_all add: candidate_ok_def)
      moreover have "woven (g # gs) (?c # json_candidates ?r) = s" using gs(2) s by simp
      moreover have "?c \<noteq> []" "is_opener (hd ?c)" using ne hd by (cases t; simp)+
      ultimately show ?thesis unfolding cs using gs(1,3,4) by (intro exI [of _ "g # gs"]) simp
    qed
  qed
qed

section \<open>A complete value is found\<close>

inductive string_body :: "string \<Rightarrow> bool" where
  sb_end: "string_body []"
| sb_char: "c \<noteq> CHR 0x22 \<Longrightarrow> c \<noteq> backslash \<Longrightarrow> string_body b \<Longrightarrow> string_body (c # b)"
| sb_escape: "string_body b \<Longrightarrow> string_body (backslash # c # b)"

text \<open>Text whose brackets \<open>op\<close> and \<open>cl\<close> outside strings are balanced.\<close>

inductive neutral :: "char \<Rightarrow> char \<Rightarrow> string \<Rightarrow> bool" for op cl where
  nt_end: "neutral op cl []"
| nt_char: "c \<notin> {CHR 0x22, op, cl} \<Longrightarrow> neutral op cl w \<Longrightarrow> neutral op cl (c # w)"
| nt_string: "string_body b \<Longrightarrow> neutral op cl w \<Longrightarrow> neutral op cl (CHR 0x22 # b @ CHR 0x22 # w)"
| nt_nest: "neutral op cl v \<Longrightarrow> neutral op cl w \<Longrightarrow> neutral op cl (op # v @ cl # w)"

lemma scan_string:
  "string_body b \<Longrightarrow> close_scan op cl (b @ CHR 0x22 # r) d True False =
     map_option (\<lambda>n. length b + 1 + n) (close_scan op cl r d False False)"
  by (induction rule: string_body.induct) (simp_all add: option.map_comp comp_def)

lemma scan_neutral:
  assumes "neutral op cl w" and "0 < d" and "closer op = Some cl"
  shows "close_scan op cl (w @ r) d False False = map_option (\<lambda>n. length w + n) (close_scan op cl r d False False)"
  using assms
proof (induction arbitrary: d r rule: neutral.induct)
  case nt_end
  then show ?case by (cases "close_scan op cl r d False False") auto
next
  case (nt_char c w)
  then show ?case by (cases "close_scan op cl r d False False") auto
next
  case (nt_string b w)
  then show ?case by (cases "close_scan op cl r d False False") (auto simp: scan_string)
next
  case (nt_nest v w)
  have oc: "op \<noteq> cl" "op \<noteq> CHR 0x22" "cl \<noteq> CHR 0x22" using nt_nest.prems(2) by (auto simp: closer_def split: if_splits)
  show ?case using nt_nest.IH(1) [of "d + 1" "cl # w @ r"] nt_nest.IH(2) [of d r] nt_nest.prems oc
    by (cases "close_scan op cl r d False False") auto
qed

lemma close_of_value:
  assumes "neutral op cl w" and "closer op = Some cl"
  shows "close_delimited (op # w @ cl # r) = Some (length w + 1)"
proof -
  have oc: "op \<noteq> cl" "op \<noteq> CHR 0x22" "cl \<noteq> CHR 0x22" using assms(2) by (auto simp: closer_def split: if_splits)
  have "close_scan op cl (w @ cl # r) 1 False False = Some (length w)"
    using scan_neutral [OF assms(1) _ assms(2), of 1 "cl # r"] oc by simp
  then show ?thesis using assms(2) oc by (simp add: close_delimited_def)
qed

lemma first_candidate:
  assumes "list_all (\<lambda>c. \<not> is_opener c) pre" and "neutral op cl w" and "closer op = Some cl"
  shows "json_candidates (pre @ op # w @ cl # post) = (op # w @ [cl]) # json_candidates post"
proof -
  have "is_opener op" using assms(3) by (simp add: is_opener_closer)
  then have "dropWhile (\<lambda>c. \<not> is_opener c) (pre @ op # w @ cl # post) = op # w @ cl # post"
    using assms(1) by (induction pre) auto
  then show ?thesis
    using close_of_value [OF assms(2,3), of post] by (subst json_candidates.simps) (simp add: Let_def)
qed

text \<open>
  C32: prose around a complete decision does not matter. If the prepared reply is text without
  brackets, then a balanced object or array, then anything at all, and that value reads as a
  decision, then the reply is read as this decision; later values and broken tails are not
  even looked at. And whatever the reply, the candidates tried are disjoint pieces of it in
  order, all but the last of them complete.
\<close>

theorem wrapped_decision_recovered:
  assumes "prepare_model_text s = pre @ (op # w @ [cl]) @ post"
    and "list_all (\<lambda>c. \<not> is_opener c) pre" and "neutral op cl w" and "closer op = Some cl"
    and "from_str (sanitize_json (op # w @ [cl])) = Some v" and "decision_from_value from_str parse_f32 v = Some d"
  shows "parse_decision from_str parse_f32 s = Some d \<and>
    (\<exists>gs. length gs = length (json_candidates t) + 1 \<and> woven gs (json_candidates t) = t \<and>
       list_all candidate_ok (butlast (json_candidates t)))"
proof -
  have "json_candidates (prepare_model_text s) = (op # w @ [cl]) # json_candidates post"
    using first_candidate [OF assms(2-4), of post] assms(1) by simp
  then show ?thesis using assms(5,6) json_candidates_woven [of t] by (auto simp: parse_decision_def)
qed

section \<open>The repair keeps strict JSON\<close>

text \<open>No comment, no trailing comma, no raw control character in a string.\<close>

fun strict_json :: "string \<Rightarrow> bool \<Rightarrow> bool \<Rightarrow> bool" where
  "strict_json [] in_str escaped = True"
| "strict_json (c # s) in_str escaped =
     (if escaped then strict_json s in_str False
      else if in_str then
        32 \<le> byte c \<and> byte c \<noteq> 127 \<and> \<not> (byte c = 0xC2 \<and> s \<noteq> [] \<and> 128 \<le> byte (hd s) \<and> byte (hd s) < 160) \<and>
        strict_json s (c \<noteq> CHR 0x22) (c = backslash)
      else after_comment (c # s) = None \<and> \<not> (c = CHR '','' \<and> trailing_comma s) \<and> strict_json s (c = CHR 0x22) False)"

lemma repair_in_string:
  assumes "32 \<le> byte c" and "byte c \<noteq> 127"
    and "\<not> (byte c = 0xC2 \<and> s \<noteq> [] \<and> 128 \<le> byte (hd s) \<and> byte (hd s) < 160)"
  shows "repair (c # s) True False = c # repair s (c \<noteq> CHR 0x22) (c = backslash)"
proof -
  have "c \<noteq> newline" "c \<noteq> CHR 0x0D" "c \<noteq> CHR 0x09" using assms(1) by (auto simp: newline_def byte_def)
  moreover have "\<not> byte c < 32" using assms(1) by simp
  ultimately show ?thesis using assms(2,3)
    by (cases "c = backslash"; cases "c = CHR 0x22") (simp_all only: repair.simps if_True if_False simp_thms char.inject)
qed

lemma repair_strict: "strict_json s i e \<Longrightarrow> repair s i e = s"
proof (induction s arbitrary: i e)
  case (Cons c s)
  consider (esc) e | (str) "\<not> e" i | (out) "\<not> e" "\<not> i" by blast
  then show ?case
  proof cases
    case esc
    then show ?thesis using Cons by (simp only: strict_json.simps repair.simps if_True)
  next
    case str
    then have ie: "i = True" "e = False" by auto
    have "(32 \<le> byte c \<and> byte c \<noteq> 127 \<and> \<not> (byte c = 0xC2 \<and> s \<noteq> [] \<and> 128 \<le> byte (hd s) \<and> byte (hd s) < 160)) \<and>
        strict_json s (c \<noteq> CHR 0x22) (c = backslash)"
      using Cons.prems unfolding ie strict_json.simps if_True if_False by (elim conjE) (intro conjI, assumption+)
    then have h: "32 \<le> byte c" "byte c \<noteq> 127"
        "\<not> (byte c = 0xC2 \<and> s \<noteq> [] \<and> 128 \<le> byte (hd s) \<and> byte (hd s) < 160)"
      and tl: "strict_json s (c \<noteq> CHR 0x22) (c = backslash)" by blast+
    show ?thesis unfolding ie using repair_in_string [OF h] Cons.IH [OF tl] by (simp only:)
  next
    case out
    then show ?thesis using Cons.prems Cons.IH [of "c = CHR 0x22" False]
      by (simp only: strict_json.simps repair.simps if_False option.case simp_thms)
  qed
qed simp

section \<open>Flattened actions\<close>

lemma map_of_lifted:
  "map_of (List.map_filter (\<lambda>k. map_option (Pair k) (map_of fs k)) ks) k = (if k \<in> set ks then map_of fs k else None)"
proof (induction ks)
  case (Cons a ks)
  then show ?case by (cases "map_of fs a") (auto simp: List.map_filter_simps)
qed (simp add: List.map_filter_simps)

lemma lifted_fix_reads: "fix_of_object (lifted_fix fs) = fix_of_object fs"
proof -
  have same: "map_of (lifted_fix fs) k = map_of fs k" if "k \<in> set ACTION_FIELDS" for k
    using that by (simp add: lifted_fix_def map_of_lifted)
  have "\<forall>k \<in> set ACTION_FIELDS. str_field (lifted_fix fs) k = str_field fs k \<and>
      u32_field (lifted_fix fs) k = u32_field fs k \<and> bool_field (lifted_fix fs) k = bool_field fs k"
    using same by (simp add: field_defs)
  then have fields: "list_all (\<lambda>k. str_field (lifted_fix fs) k = str_field fs k \<and>
      u32_field (lifted_fix fs) k = u32_field fs k \<and> bool_field (lifted_fix fs) k = bool_field fs k) ACTION_FIELDS"
    by (simp add: list_all_iff)
  show ?thesis
    using fields unfolding ACTION_FIELDS_def list.pred_inject fix_of_object_def by (simp only: simp_thms)
qed

text \<open>
  C33: an action a model spreads over its problem instead of nesting it is the action that is
  run: when the problem has an \<open>action\<close> and no \<open>proposed_fix\<close>, the fix read from it is exactly the
  fix its own fields spell, nothing lost and nothing added.
\<close>

theorem flattened_action_recovered:
  assumes "has_field ''action'' fs" and "\<not> has_field ''proposed_fix'' fs"
    and "problem_of_json parse_f32 (normalize_problem_item from_str (JObj fs)) = Some p"
  shows "parse_fix_action from_str p = fix_of_object fs"
proof -
  have n: "map_of (normalize_problem_object from_str fs) ''proposed_fix'' = Some (JObj (lifted_fix fs))"
    using assms(1,2) by (simp add: normalize_problem_object_def put_field_def)
  have "proposed_fix p = JObj (lifted_fix fs)"
    using assms(3) n
    by (auto simp: normalize_problem_item_def problem_of_json_def problem_of_fields_def split: option.splits)
  then show ?thesis by (simp add: parse_fix_action_def coerce_fix_value_def lifted_fix_reads)
qed

definition flat_problem :: fields where
  "flat_problem = [(''diagnosis'', JStr ''d''), (''action'', JStr ''process_kill''), (''process_name'', JStr ''a.exe'')]"

lemma flattened_action_recovered_witness:
  "\<exists>p. problem_of_json (\<lambda>_. None) (normalize_problem_item (\<lambda>_. None) (JObj flat_problem)) = Some p \<and>
     parse_fix_action (\<lambda>_. None) p = Some (ProcessKill ''a.exe'')"
proof -
  obtain p where p: "problem_of_json (\<lambda>_. None) (normalize_problem_item (\<lambda>_. None) (JObj flat_problem)) = Some p"
    by (simp add: flat_problem_def normalize_problem_item_def normalize_problem_object_def has_field_def put_field_def
        problem_of_json_def problem_of_fields_def text_field_def)
  have f: "fix_of_object flat_problem = Some (ProcessKill ''a.exe'')"
    by (simp add: fix_of_object_def flat_problem_def field_defs)
  have "parse_fix_action (\<lambda>_. None) p = fix_of_object flat_problem"
    by (rule flattened_action_recovered [OF _ _ p]) (simp_all add: has_field_def flat_problem_def)
  then show ?thesis using p f by auto
qed

text \<open>
  the repair touches nothing that is JSON already: a text without comments, trailing
  commas, typographic quotes or raw control characters in its strings is returned as it is, so
  a valid reply is read as the model wrote it.
\<close>

theorem repair_keeps_strict_json:
  assumes "trim s = s" and "strip_marks s = s" and "plain_quotes s = s" and "strict_json s False False"
  shows "sanitize_json s = s"
  using assms repair_strict by (simp add: sanitize_json_def)

definition strict_sample :: string where
  "strict_sample = ''{'' @ [CHR 0x22] @ ''a//b'' @ [CHR 0x22] @ '':[1,2]}''"

lemma repair_keeps_strict_json_witness: "sanitize_json strict_sample = strict_sample"
proof -
  have "trim strict_sample = strict_sample" "strip_marks strict_sample = strict_sample"
    "plain_quotes strict_sample = strict_sample" "strict_json strict_sample False False"
    by code_simp+
  then show ?thesis by (rule repair_keeps_strict_json)
qed

section \<open>A reply at a concrete input\<close>

definition noisy_reply :: string where
  "noisy_reply = ''Sure, here it is: [] hope {this helps''"

definition reads_empty :: "string \<Rightarrow> json option" where
  "reads_empty s = (if s = ''[]'' then Some (JArr []) else None)"

lemma wrapped_decision_recovered_witness:
  "parse_decision reads_empty (\<lambda>_. None) noisy_reply = Some (just_problems [])"
proof -
  have p: "prepare_model_text noisy_reply = ''Sure, here it is: '' @ (CHR ''['' # [] @ [CHR '']'']) @ '' hope {this helps''"
    by code_simp
  have "list_all (\<lambda>c. \<not> is_opener c) ''Sure, here it is: ''" "closer (CHR ''['') = Some (CHR '']'')"
    by code_simp+
  moreover have "sanitize_json (CHR ''['' # [] @ [CHR '']'']) = ''[]''" by code_simp
  ultimately show ?thesis
    using wrapped_decision_recovered [OF p _ neutral.nt_end, of reads_empty "JArr []" "\<lambda>_. None" "just_problems []" "[]"]
    by (simp add: reads_empty_def decision_from_value_def just_problems_def)
qed

end
