(* ===== verification/Signals.thy ===== *)
theory Signals
  imports System_State
begin

text \<open>
  The feed of noticed errors (\<open>signals/feed.rs\<close>) and what the log watcher remembers of each file
  (\<open>signals/log_memory.rs\<close>): bounded lists that keep a repeated report from being listed, or
  analysed, again and again.
\<close>

section \<open>Feed items\<close>

definition FEED_CAP :: nat where "FEED_CAP = 30"
definition MAX_SUMMARY_CHARS :: nat where "MAX_SUMMARY_CHARS = 240"
definition REPEAT_WINDOW_SECS :: int where "REPEAT_WINDOW_SECS = 600"

record signal_view =
  sv_at :: int
  sv_source :: string
  sv_app :: string
  sv_summary :: string

definition one_line :: "string \<Rightarrow> string" where
  "one_line s =
     (let joined = join '' '' (split_whitespace s) in
      if char_count joined \<le> MAX_SUMMARY_CHARS then joined
      else take_chars (MAX_SUMMARY_CHARS - 1) joined @ ellipsis)"

definition event_item :: "event_log_entry \<Rightarrow> signal_view" where
  "event_item e =
     \<lparr>sv_at = ev_timestamp e, sv_source = ''event_log'', sv_app = one_line (ev_source e),
      sv_summary = one_line (''Event '' @ show_nat (ev_event_id e) @ '': '' @ ev_message e)\<rparr>"

definition names_error :: "string \<Rightarrow> bool" where
  "names_error line =
     (let l = to_ascii_lowercase line in
      contains_str ''error'' l \<or> contains_str ''fatal'' l \<or> contains_str ''exception'' l)"

definition first_error_line :: "log_event \<Rightarrow> string" where
  "first_error_line le =
     (case find names_error (concat (map lines (le_error_snippets le))) of
        Some l \<Rightarrow> l
      | None \<Rightarrow> (case le_error_snippets le of sn # _ \<Rightarrow> sn | [] \<Rightarrow> ''error written to its log''))"

definition log_item :: "file_change \<Rightarrow> signal_view option" where
  "log_item fc =
     (case fc_log_event fc of
        None \<Rightarrow> None
      | Some le \<Rightarrow>
          if le_severity le \<in> {''ERROR'', ''FATAL''} then
            Some \<lparr>sv_at = fc_timestamp fc, sv_source = ''app_log'', sv_app = one_line (le_program le),
                  sv_summary = one_line (first_error_line le)\<rparr>
          else None)"

definition from_snapshot :: "snapshot \<Rightarrow> signal_view list" where
  "from_snapshot snap =
     map event_item (filter (\<lambda>e. ev_level e = ''Error'') (event_log snap)) @
     List.map_filter log_item (file_changes snap)"

definition screen_view :: "screen_error \<Rightarrow> signal_view" where
  "screen_view e =
     (let summary =
        (if se_hung e then ''Stopped responding: '' @ se_title e
         else if se_title e = [] then se_text e
         else if se_text e = [] then se_title e
         else se_title e @ '' '' @ emdash @ '' '' @ se_text e)
      in \<lparr>sv_at = se_timestamp e, sv_source = (if se_hung e then ''hung'' else ''screen''), sv_app = se_app e,
          sv_summary = one_line summary\<rparr>)"

section \<open>The feed\<close>

record feed =
  listed :: "signal_view list"
  dismissed :: "signal_view list"

definition empty_feed :: feed where "empty_feed = \<lparr>listed = [], dismissed = []\<rparr>"

definition is_repeat :: "signal_view \<Rightarrow> signal_view \<Rightarrow> bool" where
  "is_repeat old item =
     (sv_source old = sv_source item \<and> sv_app old = sv_app item \<and> sv_summary old = sv_summary item \<and>
      \<bar>sv_at item - sv_at old\<bar> < REPEAT_WINDOW_SECS)"

definition push_item :: "signal_view \<Rightarrow> feed \<Rightarrow> feed" where
  "push_item item f =
     (if list_ex (\<lambda>old. is_repeat old item) (listed f @ dismissed f) then f
      else f\<lparr>listed := take FEED_CAP (item # listed f)\<rparr>)"

definition push_items :: "signal_view list \<Rightarrow> feed \<Rightarrow> feed" where
  "push_items items f = foldl (\<lambda>f item. push_item item f) f items"

definition remember_dismissed :: "signal_view list \<Rightarrow> feed \<Rightarrow> feed" where
  "remember_dismissed items f = f\<lparr>dismissed := take (FEED_CAP * 2) (rev items @ dismissed f)\<rparr>"

definition clear_feed :: "feed \<Rightarrow> nat \<times> feed" where
  "clear_feed f = (length (listed f), remember_dismissed (listed f) (f\<lparr>listed := []\<rparr>))"

definition dismiss_item :: "signal_view \<Rightarrow> feed \<Rightarrow> bool \<times> feed" where
  "dismiss_item item f =
     (if item \<in> set (listed f) then (True, remember_dismissed [item] (f\<lparr>listed := remove1 item (listed f)\<rparr>))
      else (False, f))"

text \<open>The operations the service performs on the feed, in any order.\<close>

datatype feed_op = Push "signal_view list" | ClearAll | Dismiss signal_view

fun feed_step :: "feed_op \<Rightarrow> feed \<Rightarrow> feed" where
  "feed_step (Push items) f = push_items items f"
| "feed_step ClearAll f = snd (clear_feed f)"
| "feed_step (Dismiss item) f = snd (dismiss_item item f)"

definition feed_after :: "feed_op list \<Rightarrow> feed" where
  "feed_after ops = foldl (\<lambda>f op. feed_step op f) empty_feed ops"

text \<open>No two items of the feed, listed or dismissed, are repeats of one another.\<close>

definition apart :: "signal_view list \<Rightarrow> bool" where
  "apart xs = sorted_wrt (\<lambda>a b. \<not> is_repeat a b) xs"

definition feed_ok :: "feed \<Rightarrow> bool" where
  "feed_ok f =
     (length (listed f) \<le> FEED_CAP \<and> length (dismissed f) \<le> FEED_CAP * 2 \<and> apart (listed f @ dismissed f))"

lemma is_repeat_sym: "is_repeat a b = is_repeat b a"
  by (auto simp: is_repeat_def abs_minus_commute)

lemma apart_append: "apart (xs @ ys) \<longleftrightarrow> apart xs \<and> apart ys \<and> (\<forall>a \<in> set xs. \<forall>b \<in> set ys. \<not> is_repeat a b)"
  by (simp add: apart_def sorted_wrt_append)

lemma apart_Cons [simp]: "apart (x # xs) \<longleftrightarrow> (\<forall>b \<in> set xs. \<not> is_repeat x b) \<and> apart xs"
  by (simp add: apart_def)

lemma apart_Nil [simp]: "apart []"
  by (simp add: apart_def)

lemma apart_rev: "apart (rev xs) = apart xs"
  by (simp add: apart_def sorted_wrt_rev is_repeat_sym)

lemma apart_take: "apart xs \<Longrightarrow> apart (take n xs)"
  by (simp add: apart_def sorted_wrt_take)

lemma apart_take_append: "apart (xs @ ys) \<Longrightarrow> apart (take n xs @ ys)"
  by (auto simp: apart_append apart_take dest: in_set_takeD)

lemma apart_append_take: "apart (xs @ ys) \<Longrightarrow> apart (xs @ take n ys)"
  by (auto simp: apart_append apart_take dest: in_set_takeD)

lemma push_item_ok: "feed_ok f \<Longrightarrow> feed_ok (push_item item f)"
proof -
  assume f: "feed_ok f"
  show ?thesis
  proof (cases "list_ex (\<lambda>old. is_repeat old item) (listed f @ dismissed f)")
    case False
    then have "\<forall>b \<in> set (listed f @ dismissed f). \<not> is_repeat item b"
      using is_repeat_sym by (auto simp: list_ex_iff)
    then have "apart ((item # listed f) @ dismissed f)" using f by (simp add: feed_ok_def)
    from apart_take_append [OF this, of FEED_CAP] show ?thesis
      using f False by (simp add: push_item_def feed_ok_def)
  qed (use f in \<open>simp add: push_item_def\<close>)
qed

lemma push_items_ok: "feed_ok f \<Longrightarrow> feed_ok (push_items items f)"
  unfolding push_items_def by (induction items arbitrary: f) (auto intro: push_item_ok)

lemma clear_feed_ok: "feed_ok f \<Longrightarrow> feed_ok (snd (clear_feed f))"
proof -
  assume f: "feed_ok f"
  then have "apart (rev (listed f) @ dismissed f)" by (auto simp: feed_ok_def apart_append apart_rev)
  from apart_take [OF this] show ?thesis
    by (simp add: clear_feed_def remember_dismissed_def feed_ok_def del: take_append)
qed

lemma dismiss_item_ok: "feed_ok f \<Longrightarrow> feed_ok (snd (dismiss_item item f))"
proof (cases "item \<in> set (listed f)")
  case True
  assume f: "feed_ok f"
  obtain ys zs where l: "listed f = ys @ item # zs" "item \<notin> set ys" using True by (metis split_list_first)
  then have r: "remove1 item (listed f) = ys @ zs" by (simp add: remove1_append)
  have "apart ((ys @ zs) @ item # dismissed f)"
    using f l(1) is_repeat_sym by (auto simp: feed_ok_def apart_append)
  from apart_append_take [OF this] have "apart ((ys @ zs) @ take (FEED_CAP * 2) (item # dismissed f))" .
  then show ?thesis using f l r
    by (simp add: dismiss_item_def remember_dismissed_def feed_ok_def del: take_append append_assoc)
qed (simp add: dismiss_item_def)

lemma feed_step_ok: "feed_ok f \<Longrightarrow> feed_ok (feed_step op f)"
  by (cases op) (auto intro: push_items_ok clear_feed_ok dismiss_item_ok)

lemma feed_after_ok: "feed_ok (feed_after ops)"
proof -
  have "feed_ok (foldl (\<lambda>f op. feed_step op f) f ops)" if "feed_ok f" for f
    using that by (induction ops arbitrary: f) (auto intro: feed_step_ok)
  moreover have "feed_ok empty_feed" by (simp add: feed_ok_def empty_feed_def)
  ultimately show ?thesis by (simp add: feed_after_def)
qed

text \<open>
  whatever is pushed, cleared and dismissed in whatever order, the feed lists at most 30
  items and remembers at most 60 dismissed ones, and no two of them, listed or dismissed,
  report the same text of the same application within ten minutes: what the user just cleared
  does not come back with the next report. Pushing a repeat changes nothing, and pushing
  anything else lists it first.
\<close>

theorem feed_never_repeats:
  "feed_ok (feed_after ops) \<and>
   (let f = feed_after ops in
    if list_ex (\<lambda>old. is_repeat old item) (listed f @ dismissed f)
    then push_item item f = f
    else hd (listed (push_item item f)) = item)"
  using feed_after_ok by (auto simp: push_item_def FEED_CAP_def Let_def)

section \<open>The memory of the log watcher\<close>

definition SEEN_TTL :: int where "SEEN_TTL = 6 * 3600"
definition MAX_FILES :: nat where "MAX_FILES = 512"
definition MAX_LINES_PER_FILE :: nat where "MAX_LINES_PER_FILE = 256"

text \<open>The hash maps as association lists, in whatever order the map iterates.\<close>

record file_memory =
  read_to :: nat
  touched :: int
  seen_lines :: "(nat \<times> int) list"

type_synonym log_memory = "(string \<times> file_memory) list"

record read_from =
  rf_offset :: nat
  rf_mid_line :: bool

definition set_file :: "string \<Rightarrow> file_memory \<Rightarrow> log_memory \<Rightarrow> log_memory" where
  "set_file p f m = (p, f) # filter (\<lambda>(q, _). q \<noteq> p) m"

definition read_start :: "string \<Rightarrow> nat \<Rightarrow> nat \<Rightarrow> int \<Rightarrow> log_memory \<Rightarrow> read_from option \<times> log_memory" where
  "read_start p len mx now m =
     (let tail = \<lparr>rf_offset = len - mx, rf_mid_line = mx < len\<rparr> in
      case map_of m p of
        None \<Rightarrow> (if 0 < len then Some tail else None, m)
      | Some f \<Rightarrow>
          (let f = f\<lparr>touched := now\<rparr> in
           if len < read_to f then
             (if 0 < len then Some tail else None, set_file p (f\<lparr>read_to := 0\<rparr>) m)
           else if len = read_to f then (None, set_file p f m)
           else if len - read_to f > mx then (Some tail, set_file p f m)
           else (Some \<lparr>rf_offset = read_to f, rf_mid_line = False\<rparr>, set_file p f m)))"

text \<open>\<open>min_by_key\<close> over the map: the first entry with the smallest instant.\<close>

fun oldest :: "('a \<times> int) list \<Rightarrow> 'a option" where
  "oldest [] = None"
| "oldest ((k, t) # xs) = (if list_all (\<lambda>(_, t'). t \<le> t') xs then Some k else oldest xs)"

definition new_file :: "int \<Rightarrow> file_memory" where
  "new_file now = \<lparr>read_to = 0, touched = now, seen_lines = []\<rparr>"

definition file_entry :: "string \<Rightarrow> int \<Rightarrow> log_memory \<Rightarrow> file_memory \<times> log_memory" where
  "file_entry p now m =
     (let m = (if map_of m p = None \<and> MAX_FILES \<le> length m
               then (case oldest (map (\<lambda>(q, f). (q, touched f)) m) of
                       Some q \<Rightarrow> filter (\<lambda>(q', _). q' \<noteq> q) m | None \<Rightarrow> m)
               else m);
          f = (case map_of m p of Some f \<Rightarrow> f | None \<Rightarrow> new_file now)\<lparr>touched := now\<rparr>
      in (f, set_file p f m))"

definition mark_read :: "string \<Rightarrow> nat \<Rightarrow> int \<Rightarrow> log_memory \<Rightarrow> log_memory" where
  "mark_read p pos now m = (case file_entry p now m of (f, m) \<Rightarrow> set_file p (f\<lparr>read_to := pos\<rparr>) m)"

text \<open>\<open>saturating_duration_since\<close>.\<close>

definition recent :: "int \<Rightarrow> int \<Rightarrow> bool" where
  "recent now t = (max 0 (now - t) < SEEN_TTL)"

definition make_room :: "int \<Rightarrow> (nat \<times> int) list \<Rightarrow> (nat \<times> int) list" where
  "make_room now seen =
     (if length seen < MAX_LINES_PER_FILE then seen
      else (let seen = filter (\<lambda>(_, t). recent now t) seen in
            if length seen < MAX_LINES_PER_FILE then seen
            else (case oldest seen of Some k \<Rightarrow> filter (\<lambda>(k', _). k' \<noteq> k) seen | None \<Rightarrow> seen)))"

text \<open>\<open>sig\<close> is the hash of the line's tokens.\<close>

definition first_sighting :: "(string \<Rightarrow> nat) \<Rightarrow> string \<Rightarrow> string \<Rightarrow> int \<Rightarrow> log_memory \<Rightarrow> bool \<times> log_memory" where
  "first_sighting sig p line now m =
     (let k = sig line in
      case file_entry p now m of (f, m) \<Rightarrow>
        (case map_of (seen_lines f) k of
           Some t \<Rightarrow>
             if recent now t then (False, m)
             else (True, set_file p (f\<lparr>seen_lines := (k, now) # filter (\<lambda>(k', _). k' \<noteq> k) (seen_lines f)\<rparr>) m)
         | None \<Rightarrow> (True, set_file p (f\<lparr>seen_lines := (k, now) # make_room now (seen_lines f)\<rparr>) m)))"

section \<open>Bounds and reading on\<close>

lemma oldest_in: "xs \<noteq> [] \<Longrightarrow> \<exists>k. oldest xs = Some k \<and> k \<in> fst ` set xs"
proof (induction xs)
  case (Cons x xs)
  then show ?case by (cases x; cases xs) auto
qed simp

lemma map_of_filter_other: "q \<noteq> p \<Longrightarrow> map_of (filter (\<lambda>(q', _). q' \<noteq> p) m) q = map_of m q"
  by (induction m) auto

lemma map_of_set_file [simp]: "map_of (set_file p f m) q = (if q = p then Some f else map_of m q)"
  by (simp add: set_file_def map_of_filter_other)

lemma filter_fst_length: "k \<in> fst ` set xs \<Longrightarrow> length (filter (\<lambda>(k', _). k' \<noteq> k) xs) < length xs"
  by (induction xs) (auto simp: less_Suc_eq_le intro: Suc_leI)

lemma distinct_filter_fst: "distinct (map fst xs) \<Longrightarrow> distinct (map fst (filter P xs))"
  by (rule distinct_map_filter)

definition file_ok :: "file_memory \<Rightarrow> bool" where
  "file_ok f = (length (seen_lines f) \<le> MAX_LINES_PER_FILE \<and> distinct (map fst (seen_lines f)))"

definition memory_ok :: "log_memory \<Rightarrow> bool" where
  "memory_ok m = (length m \<le> MAX_FILES \<and> distinct (map fst m) \<and> list_all (\<lambda>(_, f). file_ok f) m)"

lemma set_file_ok:
  assumes "distinct (map fst m)" and "list_all (\<lambda>(_, f). file_ok f) m" and "file_ok f"
    and "if map_of m p = None then length m < MAX_FILES else length m \<le> MAX_FILES"
  shows "memory_ok (set_file p f m)"
proof -
  have "length (filter (\<lambda>(q, _). q \<noteq> p) m) < MAX_FILES"
  proof (cases "map_of m p")
    case None
    then show ?thesis using assms(4) by (metis (no_types, lifting) le_less_trans length_filter_le)
  next
    case (Some f')
    then have "p \<in> fst ` set m" by (force dest: map_of_SomeD)
    from filter_fst_length [OF this] show ?thesis using assms(4) Some by simp
  qed
  then show ?thesis
    using assms(1-3) by (auto simp: memory_ok_def set_file_def distinct_filter_fst list_all_iff)
qed

lemma file_entry_ok:
  assumes "memory_ok m" and "file_entry p now m = (f, m')"
  shows "memory_ok m' \<and> file_ok f \<and> map_of m' p = Some f \<and> touched f = now"
proof -
  define m1 where "m1 = (if map_of m p = None \<and> MAX_FILES \<le> length m
      then (case oldest (map (\<lambda>(q, f). (q, touched f)) m) of
              Some q \<Rightarrow> filter (\<lambda>(q', _). q' \<noteq> q) m | None \<Rightarrow> m) else m)"
  have sub: "set m1 \<subseteq> set m" and d: "distinct (map fst m1)"
    using assms(1) by (auto simp: m1_def memory_ok_def distinct_filter_fst split: option.splits)
  have len: "if map_of m1 p = None then length m1 < MAX_FILES else length m1 \<le> MAX_FILES"
  proof (cases "map_of m p = None \<and> MAX_FILES \<le> length m")
    case True
    then have "m \<noteq> []" by (auto simp: MAX_FILES_def)
    then obtain q where q: "oldest (map (\<lambda>(q, f). (q, touched f)) m) = Some q" "q \<in> fst ` set m"
      using oldest_in [of "map (\<lambda>(q, f). (q, touched f)) m"] by force
    from filter_fst_length [OF q(2)] have "length m1 < MAX_FILES"
      using True q(1) assms(1) by (simp add: m1_def memory_ok_def)
    then show ?thesis by simp
  next
    case False
    then show ?thesis using assms(1) by (auto simp: m1_def memory_ok_def)
  qed
  have ok: "list_all (\<lambda>(_, f). file_ok f) m1" using sub assms(1) by (auto simp: memory_ok_def list_all_iff)
  have f: "f = (case map_of m1 p of Some f \<Rightarrow> f | None \<Rightarrow> new_file now)\<lparr>touched := now\<rparr>" and m': "m' = set_file p f m1"
    using assms(2) by (auto simp: file_entry_def Let_def m1_def)
  have "file_ok f"
  proof (cases "map_of m1 p")
    case (Some g)
    then have "file_ok g" using ok by (auto simp: list_all_iff dest: map_of_SomeD)
    then show ?thesis by (simp add: f Some file_ok_def)
  qed (simp add: f new_file_def file_ok_def)
  then show ?thesis using set_file_ok [OF d ok _ len] by (simp add: m' f)
qed

lemma put_known_ok:
  "memory_ok m \<Longrightarrow> map_of m p = Some g \<Longrightarrow> file_ok f \<Longrightarrow> memory_ok (set_file p f m)"
  by (intro set_file_ok) (auto simp: memory_ok_def)

lemma make_room_ok:
  assumes "length seen \<le> MAX_LINES_PER_FILE" and "distinct (map fst seen)"
  shows "length (make_room now seen) < MAX_LINES_PER_FILE \<and> distinct (map fst (make_room now seen)) \<and>
    set (make_room now seen) \<subseteq> set seen"
proof (cases "length seen < MAX_LINES_PER_FILE")
  case False
  define keep where "keep = filter (\<lambda>(_, t). recent now t) seen"
  have keep: "length keep \<le> MAX_LINES_PER_FILE" "distinct (map fst keep)" "set keep \<subseteq> set seen"
    using assms by (auto simp: keep_def distinct_filter_fst intro: le_trans [OF length_filter_le])
  show ?thesis
  proof (cases "length keep < MAX_LINES_PER_FILE")
    case True
    then show ?thesis using False keep by (simp add: make_room_def Let_def keep_def)
  next
    case full: False
    then have "keep \<noteq> []" by (auto simp: MAX_LINES_PER_FILE_def)
    then obtain k where k: "oldest keep = Some k" "k \<in> fst ` set keep" using oldest_in by blast
    then have "make_room now seen = filter (\<lambda>(k', _). k' \<noteq> k) keep"
      using False full by (simp add: make_room_def Let_def keep_def)
    then show ?thesis using filter_fst_length [OF k(2)] keep by (auto simp: distinct_filter_fst)
  qed
qed (use assms in \<open>simp add: make_room_def\<close>)

lemma read_start_ok: "memory_ok m \<Longrightarrow> memory_ok (snd (read_start p len mx now m))"
proof (cases "map_of m p")
  case (Some f)
  assume m: "memory_ok m"
  then have "file_ok f" using Some by (auto simp: memory_ok_def list_all_iff dest: map_of_SomeD)
  then show ?thesis using put_known_ok [OF m Some] Some
    by (auto simp: read_start_def Let_def file_ok_def)
qed (simp add: read_start_def)

lemma mark_read_ok: "memory_ok m \<Longrightarrow> memory_ok (mark_read p pos now m)"
  using file_entry_ok [of m p now]
  by (cases "file_entry p now m") (auto simp: mark_read_def file_ok_def intro: put_known_ok)

lemma first_sighting_ok:
  assumes "memory_ok m"
  shows "memory_ok (snd (first_sighting sig p line now m))"
proof -
  obtain f m' where e: "file_entry p now m = (f, m')" by fastforce
  have ok: "memory_ok m'" "file_ok f" "map_of m' p = Some f" using file_entry_ok [OF assms e] by auto
  let ?k = "sig line"
  have a: "file_ok (f\<lparr>seen_lines := (?k, now) # filter (\<lambda>(k', _). k' \<noteq> ?k) (seen_lines f)\<rparr>)" if "map_of (seen_lines f) ?k = Some t" for t
    using ok(2) filter_fst_length [of ?k "seen_lines f"] that
    by (auto simp: file_ok_def distinct_filter_fst dest: map_of_SomeD) (force dest: map_of_SomeD)
  have b: "file_ok (f\<lparr>seen_lines := (?k, now) # make_room now (seen_lines f)\<rparr>)" if "map_of (seen_lines f) ?k = None"
    using make_room_ok [of "seen_lines f" now] ok(2) that by (auto simp: file_ok_def map_of_eq_None_iff)
  show ?thesis
    using ok a b by (auto simp: first_sighting_def e Let_def split: option.splits intro: put_known_ok)
qed

text \<open>
  the memory of the log watcher stays within 512 files and 256 lines of each, whatever is
  written to the logs, and it is exact: after a file was read up to a byte, the next read of
  it begins at exactly this byte unless the file shrank or outgrew the window, nothing new
  means no read, and a line just reported is not reported again within six hours.
\<close>

theorem log_memory_exact:
  assumes "memory_ok m"
  shows "memory_ok (snd (read_start p len mx now m)) \<and> memory_ok (mark_read p pos now m) \<and>
    memory_ok (snd (first_sighting sig p line now m)) \<and>
    (pos \<le> len \<and> len - pos \<le> mx \<longrightarrow>
       fst (read_start p len mx later (mark_read p pos now m)) =
         (if len = pos then None else Some \<lparr>rf_offset = pos, rf_mid_line = False\<rparr>)) \<and>
    (fst (first_sighting sig p line now m) \<and> now \<le> later \<and> later - now < SEEN_TTL \<longrightarrow>
       \<not> fst (first_sighting sig p line later (snd (first_sighting sig p line now m))))"
proof -
  have reading: "fst (read_start p len mx later (mark_read p pos now m)) =
      (if len = pos then None else Some \<lparr>rf_offset = pos, rf_mid_line = False\<rparr>)" if "pos \<le> len" "len - pos \<le> mx"
    using that by (auto simp: read_start_def mark_read_def Let_def split: prod.splits)
  have "\<not> fst (first_sighting sig p line later (snd (first_sighting sig p line now m)))"
    if first: "fst (first_sighting sig p line now m)" and late: "now \<le> later" "later - now < SEEN_TTL"
  proof -
    obtain f m' where e: "file_entry p now m = (f, m')" by fastforce
    obtain g where g: "map_of (snd (first_sighting sig p line now m)) p = Some g" "map_of (seen_lines g) (sig line) = Some now"
      using first by (cases "map_of (seen_lines f) (sig line)") (auto simp: first_sighting_def e Let_def split: if_splits)
    obtain f2 m2 where e2: "file_entry p later (snd (first_sighting sig p line now m)) = (f2, m2)" by fastforce
    have "seen_lines f2 = seen_lines g" using e2 g(1) by (auto simp: file_entry_def Let_def)
    then show ?thesis using e2 g(2) late by (auto simp: first_sighting_def [of sig p line later] recent_def)
  qed
  then show ?thesis using assms read_start_ok mark_read_ok first_sighting_ok reading by blast
qed

lemma log_memory_exact_witness:
  "fst (read_start ''a.log'' 150 100 9 (mark_read ''a.log'' 100 5 [])) = Some \<lparr>rf_offset = 100, rf_mid_line = False\<rparr> \<and>
   memory_ok (mark_read ''a.log'' 100 5 [])"
  using log_memory_exact [of "[]" "''a.log''" 150 100 5 100 length "''x''" 9] by (simp add: memory_ok_def)

end
