(* ===== verification/Game_Mode.thy ===== *)
theory Game_Mode
  imports Prelude
begin

text \<open>
  The power-plan boost of Game Mode (\<open>game_mode.rs\<close>): switching to High Performance when a game
  starts, with the plan to go back to stored first, and restoring it when the game ends or the
  service starts. The functions take what \<open>powercfg\<close> and the store answered; the step relation
  at the end lets every answer fail, the service stop at any point, and the user change the
  plan at any time.
\<close>

section \<open>Reading the active plan\<close>

definition is_guid :: "string \<Rightarrow> bool" where
  "is_guid s =
     (let parts = split_on (\<lambda>c. c = CHR ''-'') s in
      length parts = 5 \<and> list_all2 (\<lambda>n p. length p = n \<and> list_all is_ascii_hexdigit p) [8, 4, 4, 4, 12] parts)"

text \<open>The separators are white space, of any length in bytes, and the parentheses.\<close>

function scheme_tokens :: "string \<Rightarrow> string \<Rightarrow> string list" where
  "scheme_tokens s cur =
     (if s = [] then [rev cur]
      else if ws_len s \<noteq> 0 then rev cur # scheme_tokens (drop (ws_len s) s) []
      else if hd s = CHR ''('' \<or> hd s = CHR '')'' then rev cur # scheme_tokens (tl s) []
      else scheme_tokens (tl s) (hd s # cur))"
  by pat_completeness auto
termination
  by (relation "measure (length \<circ> fst)") auto

declare scheme_tokens.simps [simp del]

definition parse_scheme_guid :: "string \<Rightarrow> string option" where
  "parse_scheme_guid text = find is_guid (scheme_tokens text [])"

lemma parsed_is_guid: "parse_scheme_guid text = Some g \<Longrightarrow> is_guid g"
  by (auto simp: parse_scheme_guid_def find_Some_iff)

section \<open>The edges of a game\<close>

definition HIGH_PERF_GUID :: string where "HIGH_PERF_GUID = ''8c5e7fda-e8bf-4a96-9a85-a6e23a8c635c''"

abbreviation high_perf :: "string \<Rightarrow> bool" where "high_perf g \<equiv> eq_ignore_ascii_case g HIGH_PERF_GUID"

text \<open>The plan in force and the plan stored for the way back.\<close>

record power =
  in_force :: string
  saved_guid :: "string option"

text \<open>What the calls of one edge answered: the output of the query, and which calls succeeded.\<close>

record answers =
  an_query :: "string option"
  an_saved :: bool
  an_set :: bool
  an_stored :: bool
  an_deleted :: bool

definition set_scheme :: "answers \<Rightarrow> string \<Rightarrow> power \<Rightarrow> power" where
  "set_scheme A g p = (if an_set A then p\<lparr>in_force := g\<rparr> else p)"

definition restore_plan :: "answers \<Rightarrow> power \<Rightarrow> power" where
  "restore_plan A p =
     (if \<not> an_stored A then p
      else (case saved_guid p of
          None \<Rightarrow> p
        | Some g \<Rightarrow>
            if an_set A then
              (let p = set_scheme A g p in if an_deleted A then p\<lparr>saved_guid := None\<rparr> else p)
            else p))"

definition on_gaming_edge :: "bool \<Rightarrow> bool \<Rightarrow> answers \<Rightarrow> power \<Rightarrow> power" where
  "on_gaming_edge power_boost on A p =
     (if \<not> on then restore_plan A p
      else if \<not> power_boost then p
      else (case Option.bind (an_query A) parse_scheme_guid of
          None \<Rightarrow> p
        | Some cur \<Rightarrow>
            if high_perf cur then p
            else if \<not> an_saved A then p
            else set_scheme A HIGH_PERF_GUID (p\<lparr>saved_guid := Some cur\<rparr>)))"

section \<open>The plan over time\<close>

text \<open>
  The last component is a ghost: the plan a boost replaced, until it is restored or the user
  picks another plan. A query that answers names the plan in force; a stop of the service
  between two calls is an edge whose later calls fail.
\<close>

definition tells_plan :: "answers \<Rightarrow> power \<Rightarrow> bool" where
  "tells_plan A p = (\<forall>g. Option.bind (an_query A) parse_scheme_guid = Some g \<longrightarrow> g = in_force p)"

definition restored :: "answers \<Rightarrow> power \<Rightarrow> bool" where
  "restored A p = (an_stored A \<and> saved_guid p \<noteq> None \<and> an_set A)"

inductive plays :: "power \<Rightarrow> string option \<Rightarrow> bool" where
  start: "plays \<lparr>in_force = g, saved_guid = None\<rparr> None"
| game_on: "plays p b \<Longrightarrow> tells_plan A p \<Longrightarrow> p' = on_gaming_edge boost True A p \<Longrightarrow>
    plays p' (if in_force p' \<noteq> in_force p then Some (in_force p) else b)"
| game_off: "plays p b \<Longrightarrow> plays (on_gaming_edge boost False A p) (if restored A p then None else b)"
| startup: "plays p b \<Longrightarrow> plays (restore_plan A p) (if restored A p then None else b)"
| user: "plays p b \<Longrightarrow> plays (p\<lparr>in_force := g\<rparr>) None"

definition way_back :: "power \<Rightarrow> string option \<Rightarrow> bool" where
  "way_back p b =
     ((\<forall>g. b = Some g \<longrightarrow> saved_guid p = Some g \<and> in_force p = HIGH_PERF_GUID) \<and>
      (\<forall>g. saved_guid p = Some g \<longrightarrow> is_guid g \<and> \<not> high_perf g))"

lemma restore_way_back: "way_back p b \<Longrightarrow> way_back (restore_plan A p) (if restored A p then None else b)"
  by (cases "saved_guid p") (auto simp: way_back_def restore_plan_def restored_def set_scheme_def Let_def)

lemma boost_way_back:
  assumes "way_back p b" and "tells_plan A p" and p': "p' = on_gaming_edge boost True A p"
  shows "way_back p' (if in_force p' \<noteq> in_force p then Some (in_force p) else b)"
proof (cases "boost \<and> an_saved A \<and> (\<exists>g. Option.bind (an_query A) parse_scheme_guid = Some g \<and> \<not> high_perf g)")
  case True
  then obtain g where g: "Option.bind (an_query A) parse_scheme_guid = Some g" "\<not> high_perf g" by blast
  then have cur: "g = in_force p" and guid: "is_guid g"
    using assms(2) by (auto simp: tells_plan_def bind_eq_Some_conv dest: parsed_is_guid)
  have res: "p' = set_scheme A HIGH_PERF_GUID (p\<lparr>saved_guid := Some g\<rparr>)"
    using True g by (simp add: p' on_gaming_edge_def)
  have "b = None" if "\<not> an_set A"
    using assms(1) g(2) cur by (cases b) (auto simp: way_back_def)
  moreover have "g \<noteq> HIGH_PERF_GUID" using g(2) by auto
  ultimately show ?thesis using g cur guid by (auto simp: res set_scheme_def way_back_def)
next
  case False
  then have "p' = p" by (auto simp: p' on_gaming_edge_def split: option.splits)
  then show ?thesis using assms(1) by simp
qed

lemma plays_way_back: "plays p b \<Longrightarrow> way_back p b"
proof (induction rule: plays.induct)
  case (game_on p b A p' boost)
  show ?case using boost_way_back [OF game_on(4,2,3)] .
next
  case (game_off p b boost A)
  then show ?case using restore_way_back [of p b A] by (simp add: on_gaming_edge_def)
next
  case (startup p b A)
  then show ?case by (intro restore_way_back)
qed (auto simp: way_back_def)

text \<open>
  C39: no boost is left without a way back. Whenever a plan was replaced by a boost and neither
  restored nor overridden by the user since, its GUID is stored, however the service was
  stopped and whichever calls failed; and a restore whose calls succeed puts exactly this
  plan in force again and forgets it.
\<close>

theorem boost_has_a_way_back:
  assumes "plays p (Some g)"
  shows "saved_guid p = Some g \<and> in_force p = HIGH_PERF_GUID \<and> is_guid g \<and> \<not> high_perf g \<and>
    (an_stored A \<and> an_set A \<and> an_deleted A \<longrightarrow> restore_plan A p = \<lparr>in_force = g, saved_guid = None\<rparr>)"
  using plays_way_back [OF assms] by (cases p) (auto simp: way_back_def restore_plan_def set_scheme_def Let_def)

definition balanced_guid :: string where "balanced_guid = ''381b4222-f694-41f0-9685-ff5bb260df2e''"

definition all_answers :: answers where
  "all_answers = \<lparr>an_query = Some (''Power Scheme GUID: '' @ balanced_guid @ ''  (Balanced)''), an_saved = True,
     an_set = True, an_stored = True, an_deleted = True\<rparr>"

lemma parse_balanced:
  "parse_scheme_guid (''Power Scheme GUID: '' @ balanced_guid @ ''  (Balanced)'') = Some balanced_guid"
  "\<not> high_perf balanced_guid"
  by code_simp+

lemma boost_has_a_way_back_witness:
  "restore_plan all_answers \<lparr>in_force = HIGH_PERF_GUID, saved_guid = Some balanced_guid\<rparr> =
     \<lparr>in_force = balanced_guid, saved_guid = None\<rparr>"
proof -
  let ?p = "\<lparr>in_force = balanced_guid, saved_guid = None\<rparr>"
  have on: "on_gaming_edge True True all_answers ?p = \<lparr>in_force = HIGH_PERF_GUID, saved_guid = Some balanced_guid\<rparr>"
    using parse_balanced by (simp add: on_gaming_edge_def all_answers_def set_scheme_def)
  have "tells_plan all_answers ?p" using parse_balanced by (simp add: tells_plan_def all_answers_def)
  moreover have "balanced_guid \<noteq> HIGH_PERF_GUID" using parse_balanced(2) by auto
  ultimately have "plays \<lparr>in_force = HIGH_PERF_GUID, saved_guid = Some balanced_guid\<rparr> (Some balanced_guid)"
    using plays.game_on [OF plays.start [of balanced_guid], of all_answers _ True] on by simp
  from boost_has_a_way_back [OF this, of all_answers] show ?thesis by (simp add: all_answers_def)
qed

end
