(* ===== verification/Status_Wire.thy ===== *)
theory Status_Wire
  imports Gate Ask_Eir Updater_Cycle
begin

text \<open>
  The frames the service sends (\<open>eir-proto/src/lib.rs\<close>, \<open>pipe_server/mod.rs\<close>): the status with
  all it shows, its bounding and cleaning for the wire, the serialisation into at most 12 MiB, and the
  two smaller statuses sent in place of one that does not fit. The serialiser of the serde
  library is an argument: it writes a message in pieces, or fails.
\<close>

section \<open>The status\<close>

record metric_point =
  mp_at :: int
  mp_cpu :: fnum
  mp_memory :: fnum
  mp_disk :: fnum

record disk_entry_view =
  de_id :: string
  de_path :: string
  de_size :: nat
  de_category :: string
  de_note :: string
  de_cleanable :: bool

record disk_insights =
  dv_running :: bool
  dv_scanned_at :: int
  dv_error :: "string option"
  dv_entries :: "disk_entry_view list"

record startup_entry_view =
  sy_id :: string
  sy_name :: string
  sy_command :: string
  sy_location :: string
  sy_enabled :: bool
  sy_verdict :: string
  sy_note :: string
  sy_signer :: string
  sy_report_only :: bool
  sy_microsoft :: bool

record startup_view =
  su_running :: bool
  su_scanned_at :: int
  su_error :: "string option"
  su_entries :: "startup_entry_view list"

record digest_view =
  dg_text :: string
  dg_at :: int

record preference_view =
  pv_key :: string
  pv_preference :: string
  pv_summary :: string
  pv_target :: string
  pv_created_at :: int

record advisor_settings =
  ad_on :: bool
  ad_model :: string
  ad_effort :: string
  ad_threshold :: fnum

record advisor_status =
  av_enabled :: bool
  av_escalated :: bool
  av_model :: string
  av_reason :: string
  av_spent :: fnum
  av_settings :: advisor_settings

record update_attempt_row =
  ut_name :: string
  ut_method :: string
  ut_success :: bool
  ut_detail :: string
  ut_from :: string
  ut_to :: string
  ut_category :: string
  ut_exit_code :: "int option"
  ut_at :: int

record updater_status =
  us_enabled :: bool
  us_running :: bool
  us_phase :: string
  us_last_run :: int
  us_last_clean_run :: int
  us_next_run :: int
  us_last_cost :: fnum
  us_notes :: "string list"
  us_app_notes :: "(string \<times> string) list"
  us_apps :: "app_row list"
  us_recent :: "update_attempt_row list"
  us_settings :: settings_view

record usage_summary =
  ug_calls_today :: nat
  ug_calls_week :: nat
  ug_tokens_today :: nat
  ug_tokens_week :: nat
  ug_cost_today :: fnum
  ug_cost_week :: fnum

text \<open>The settings the UI shows. No secret is among them: only whether each is set.\<close>

record ui_settings =
  ui_provider :: string
  ui_model :: string
  ui_update_check_model :: string
  ui_effort :: string
  ui_decision_interval :: nat
  ui_event_log_interval :: nat
  ui_wmi_interval :: nat
  ui_channels :: "string list"
  ui_log_directories :: "string list"
  ui_threshold :: fnum
  ui_openrouter_key_set :: bool
  ui_anthropic_key_set :: bool
  ui_kilo_profile_set :: bool
  ui_kilo_path_set :: bool
  ui_ollama_base_url :: string
  ui_ollama_key_set :: bool
  ui_opencode_path_set :: bool
  ui_opencode_profile_set :: bool
  ui_cursor_path_set :: bool
  ui_cursor_profile_set :: bool
  ui_base_url :: string
  ui_api_key_set :: bool
  ui_game_mode_auto :: bool
  ui_game_mode_boost :: bool
  ui_watch_screen :: bool

record status_payload =
  sp_protocol :: nat
  sp_capabilities :: "string list"
  sp_status :: string
  sp_paused :: bool
  sp_cpu :: fnum
  sp_memory :: fnum
  sp_disk :: fnum
  sp_failed :: "string list"
  sp_analysis :: string
  sp_analysis_at :: int
  sp_problems :: "problem_summary list"
  sp_executions :: "execution_summary list"
  sp_pending :: "approval_info list"
  sp_error :: "string option"
  sp_usage :: "usage_summary option"
  sp_settings :: "ui_settings option"
  sp_updater :: "updater_status option"
  sp_advisor :: "advisor_status option"
  sp_facts :: "fact_view list"
  sp_preferences :: "preference_view list"
  sp_digest :: "digest_view option"
  sp_history :: "metric_point list"
  sp_ask :: "ask_view option"
  sp_disk_insights :: "disk_insights option"
  sp_startup :: "startup_view option"
  sp_gaming :: bool
  sp_version :: "string option"
  sp_signals_at :: int
  sp_signal_errors :: "string list"
  sp_signals :: "signal_view list"
  sp_investigation :: "string option"

definition default_status :: status_payload where
  "default_status =
     \<lparr>sp_protocol = 0, sp_capabilities = [], sp_status = [], sp_paused = False, sp_cpu = Fin 0, sp_memory = Fin 0,
      sp_disk = Fin 0, sp_failed = [], sp_analysis = [], sp_analysis_at = 0, sp_problems = [], sp_executions = [],
      sp_pending = [], sp_error = None, sp_usage = None, sp_settings = None, sp_updater = None, sp_advisor = None,
      sp_facts = [], sp_preferences = [], sp_digest = None, sp_history = [], sp_ask = None, sp_disk_insights = None,
      sp_startup = None, sp_gaming = False, sp_version = None, sp_signals_at = 0, sp_signal_errors = [],
      sp_signals = [], sp_investigation = None\<rparr>"

definition PROTOCOL_VERSION :: nat where "PROTOCOL_VERSION = 2"

definition service_capabilities :: "string list" where
  "service_capabilities =
     [''command_results'', ''provider_test'', ''targeted_update_retry'', ''screen_errors'', ''investigate'', ''clear_noticed'']"

record command_result =
  cr_request :: nat
  cr_ok :: bool
  cr_message :: string

datatype service_msg = Status status_payload | CommandResult command_result

section \<open>For the wire\<close>

definition MAX_SERVICE_LINE_BYTES :: nat where "MAX_SERVICE_LINE_BYTES = 12582912"
definition MAX_STATUS_PENDING_APPROVALS :: nat where "MAX_STATUS_PENDING_APPROVALS = 32"
definition MAX_RECOVERY_APPROVALS :: nat where "MAX_RECOVERY_APPROVALS = 8"
definition MAX_STATUS_LEARNED_FACTS :: nat where "MAX_STATUS_LEARNED_FACTS = 512"
definition MAX_STATUS_ACTION_PREFERENCES :: nat where "MAX_STATUS_ACTION_PREFERENCES = 256"

definition finite_value :: "fnum \<Rightarrow> fnum" where
  "finite_value v = (case v of Fin q \<Rightarrow> Fin q | _ \<Rightarrow> Fin 0)"

definition status_for_wire :: "status_payload \<Rightarrow> status_payload" where
  "status_for_wire s =
     s\<lparr>sp_pending := map (\<lambda>a. a\<lparr>ai_confidence := finite_value (ai_confidence a)\<rparr>)
         (take MAX_STATUS_PENDING_APPROVALS (sp_pending s)),
       sp_facts := take MAX_STATUS_LEARNED_FACTS (sp_facts s),
       sp_preferences := take MAX_STATUS_ACTION_PREFERENCES (sp_preferences s),
       sp_cpu := finite_value (sp_cpu s), sp_memory := finite_value (sp_memory s), sp_disk := finite_value (sp_disk s),
       sp_history := map (\<lambda>p. p\<lparr>mp_cpu := finite_value (mp_cpu p), mp_memory := finite_value (mp_memory p),
                               mp_disk := finite_value (mp_disk p)\<rparr>) (sp_history s),
       sp_problems := map (\<lambda>p. p\<lparr>ps_confidence := finite_value (ps_confidence p)\<rparr>) (sp_problems s),
       sp_usage := map_option (\<lambda>u. u\<lparr>ug_cost_today := finite_value (ug_cost_today u),
                                     ug_cost_week := finite_value (ug_cost_week u)\<rparr>) (sp_usage s),
       sp_settings := map_option (\<lambda>x. x\<lparr>ui_threshold := finite_value (ui_threshold x)\<rparr>) (sp_settings s),
       sp_updater := map_option (\<lambda>x. x\<lparr>us_last_cost := finite_value (us_last_cost x)\<rparr>) (sp_updater s),
       sp_advisor := map_option (\<lambda>x. x\<lparr>av_spent := finite_value (av_spent x),
         av_settings := (av_settings x)\<lparr>ad_threshold := finite_value (ad_threshold (av_settings x))\<rparr>\<rparr>) (sp_advisor s)\<rparr>"

text \<open>The serialiser writes into a buffer that refuses the piece too many.\<close>

fun capped_write :: "nat \<Rightarrow> string \<Rightarrow> string list \<Rightarrow> string option" where
  "capped_write cap out [] = Some out"
| "capped_write cap out (p # ps) = (if cap < length out + length p then None else capped_write cap (out @ p) ps)"

definition service_line :: "(service_msg \<Rightarrow> string list option) \<Rightarrow> service_msg \<Rightarrow> string option" where
  "service_line ser m =
     (case ser m of
        None \<Rightarrow> None
      | Some ps \<Rightarrow> map_option (\<lambda>s. s @ [newline]) (capped_write (MAX_SERVICE_LINE_BYTES - 1) [] ps))"

definition projection :: "string \<Rightarrow> status_payload \<Rightarrow> approval_info list \<Rightarrow> status_payload" where
  "projection version s shown =
     default_status\<lparr>sp_protocol := sp_protocol s, sp_capabilities := service_capabilities, sp_status := ''Error'',
       sp_paused := sp_paused s, sp_cpu := sp_cpu s, sp_memory := sp_memory s, sp_disk := sp_disk s,
       sp_analysis_at := sp_analysis_at s, sp_pending := shown,
       sp_error := Some (''Status details were too large to display; oversized details were omitted. '' @
                         ''The next bounded refresh will restore them.''),
       sp_gaming := sp_gaming s, sp_signals_at := sp_signals_at s, sp_version := Some version\<rparr>"

definition status_line :: "string \<Rightarrow> (service_msg \<Rightarrow> string list option) \<Rightarrow> status_payload \<Rightarrow> string option" where
  "status_line version ser status =
     (let s = status_for_wire status;
          recovery = projection version s (take MAX_RECOVERY_APPROVALS (sp_pending s));
          minimal = projection version s []
      in case service_line ser (Status s) of
           Some l \<Rightarrow> Some l
         | None \<Rightarrow>
             (case service_line ser (Status recovery) of
                Some l \<Rightarrow> Some l
              | None \<Rightarrow> service_line ser (Status minimal)))"

definition result_envelope :: "nat option \<Rightarrow> string + string \<Rightarrow> command_result option" where
  "result_envelope request res =
     (case request of
        None \<Rightarrow> None
      | Some i \<Rightarrow>
          (case res of
             Inr m \<Rightarrow> Some \<lparr>cr_request = i, cr_ok = True, cr_message = m\<rparr>
           | Inl m \<Rightarrow> Some \<lparr>cr_request = i, cr_ok = False, cr_message = m\<rparr>))"

text \<open>Before the decision loop reports, a client is told that the service starts.\<close>

definition seed_status :: status_payload where
  "seed_status = default_status\<lparr>sp_protocol := PROTOCOL_VERSION, sp_capabilities := service_capabilities,
     sp_status := ''Starting''\<rparr>"

section \<open>What a frame holds\<close>

definition all_numbers_finite :: "status_payload \<Rightarrow> bool" where
  "all_numbers_finite s =
     (is_finite (sp_cpu s) \<and> is_finite (sp_memory s) \<and> is_finite (sp_disk s) \<and>
      list_all (\<lambda>p. is_finite (mp_cpu p) \<and> is_finite (mp_memory p) \<and> is_finite (mp_disk p)) (sp_history s) \<and>
      list_all (\<lambda>p. is_finite (ps_confidence p)) (sp_problems s) \<and>
      list_all (\<lambda>a. is_finite (ai_confidence a)) (sp_pending s) \<and>
      (case sp_usage s of None \<Rightarrow> True | Some u \<Rightarrow> is_finite (ug_cost_today u) \<and> is_finite (ug_cost_week u)) \<and>
      (case sp_settings s of None \<Rightarrow> True | Some x \<Rightarrow> is_finite (ui_threshold x)) \<and>
      (case sp_updater s of None \<Rightarrow> True | Some x \<Rightarrow> is_finite (us_last_cost x)) \<and>
      (case sp_advisor s of None \<Rightarrow> True
       | Some x \<Rightarrow> is_finite (av_spent x) \<and> is_finite (ad_threshold (av_settings x))))"

lemma finite_value_finite: "is_finite (finite_value v)"
  by (simp add: finite_value_def split: fnum.split)

lemma wire_finite: "all_numbers_finite (status_for_wire s)"
  by (simp add: status_for_wire_def all_numbers_finite_def finite_value_finite list_all_iff
      split: option.split)

lemma projection_finite:
  assumes "all_numbers_finite s"
  shows "all_numbers_finite (projection version s (take n (sp_pending s)))"
  using assms by (auto simp: projection_def all_numbers_finite_def default_status_def list_all_iff dest: in_set_takeD)

lemma capped_write_some: "capped_write cap out ps = Some l \<Longrightarrow> length out \<le> cap \<Longrightarrow> l = out @ concat ps \<and> length l \<le> cap"
  by (induction cap out ps rule: capped_write.induct) (auto split: if_splits)

lemma service_line_some:
  "service_line ser m = Some l \<Longrightarrow> \<exists>ps. ser m = Some ps \<and> l = concat ps @ [newline] \<and> length l \<le> MAX_SERVICE_LINE_BYTES"
  by (auto simp: service_line_def MAX_SERVICE_LINE_BYTES_def split: option.splits dest!: capped_write_some)

text \<open>The approvals a status may leave out are the later ones of the queue; each shown is one of it but for its confidence.\<close>

definition shown_ids :: "status_payload \<Rightarrow> int list" where
  "shown_ids s = map ai_id (sp_pending s)"

lemma shown_wire: "shown_ids (status_for_wire s) = take 32 (shown_ids s)"
  by (simp add: shown_ids_def status_for_wire_def MAX_STATUS_PENDING_APPROVALS_def take_map)

lemma shown_projection: "shown_ids (projection version s (take n (sp_pending s))) = take n (shown_ids s)"
  by (simp add: shown_ids_def projection_def take_map)



end
