(* ===== verification/Pipe_Server.thy ===== *)
theory Pipe_Server
  imports Exec_Files Status_Wire
begin

text \<open>
  The control plane between the service and its user interfaces (\<open>pipe_server/mod.rs\<close>,
  \<open>pipe_server/unix.rs\<close>, \<open>pipe_server/windows.rs\<close>, \<open>session.rs\<close>): who may connect on either
  platform, how the bytes of a connection become requests for the decision loop, and how
  messages become bounded frames. The reader and the writer are state machines over events, so
  that every way of cutting the stream and every moment a session can end is covered.
\<close>

section \<open>Who may connect\<close>

definition peer_allowed :: "nat \<Rightarrow> nat \<Rightarrow> nat list \<Rightarrow> nat list \<Rightarrow> bool" where
  "peer_allowed uid gid allow_uids allow_gids = (uid = 0 \<or> uid \<in> set allow_uids \<or> gid \<in> set allow_gids)"

definition DEFAULT_SOCKET_PATH :: string where "DEFAULT_SOCKET_PATH = ''/run/eir/eir.sock''"

record socket_settings =
  so_path :: string
  so_uids :: "nat list"
  so_gids :: "nat list"

definition configured_socket :: "socket_settings option \<Rightarrow> socket_settings" where
  "configured_socket loaded =
     (case loaded of
        None \<Rightarrow> \<lparr>so_path = DEFAULT_SOCKET_PATH, so_uids = [], so_gids = []\<rparr>
      | Some c \<Rightarrow> c\<lparr>so_path := (if trim (so_path c) = [] then DEFAULT_SOCKET_PATH else so_path c)\<rparr>)"

text \<open>The socket's file when the service binds it: what a connect to it found, and what is done about it.\<close>

datatype connect_outcome = Alive | Refused | Absent | ConnectError string

datatype socket_act = RemoveFile | BindFile

definition bind_socket :: "connect_outcome \<Rightarrow> (string + unit) \<times> socket_act list" where
  "bind_socket outcome =
     (case outcome of
        Alive \<Rightarrow> (Inl ''a live eir-svc already owns the socket'', [])
      | ConnectError e \<Rightarrow> (Inl e, [])
      | _ \<Rightarrow> (Inr (), [RemoveFile, BindFile]))"

text \<open>The active sessions of Windows, and the evidence about a client process.\<close>

record wts_session =
  ws_id :: nat
  ws_active :: bool

definition NO_SESSION :: nat where "NO_SESSION = 4294967295"

definition sole_active_session :: "wts_session list \<Rightarrow> nat option" where
  "sole_active_session sessions =
     (case filter (\<lambda>s. ws_active s \<and> ws_id s \<noteq> 0 \<and> ws_id s \<noteq> NO_SESSION) sessions of
        [s] \<Rightarrow> Some (ws_id s)
      | _ \<Rightarrow> None)"

definition client_session_matches_active :: "nat \<Rightarrow> nat option \<Rightarrow> bool" where
  "client_session_matches_active client active_id = (client \<noteq> NO_SESSION \<and> active_id = Some client)"

definition client_identity_evidence_allowed :: "bool \<Rightarrow> bool \<Rightarrow> bool \<Rightarrow> bool" where
  "client_identity_evidence_allowed session_active elevated_admin installed_ui_path =
     (session_active \<and> (elevated_admin \<or> installed_ui_path))"

definition fixed_drive_root :: "path_part list \<Rightarrow> string option" where
  "fixed_drive_root ps = (case ps of DiskPrefix d # RootDir # _ \<Rightarrow> Some d | _ \<Rightarrow> None)"

record image_env =
  ie_files :: file_env
  ie_fixed :: "string \<Rightarrow> bool"
  ie_service_dir :: "string option"

definition checked_fixed_image_path :: "image_env \<Rightarrow> string \<Rightarrow> string option" where
  "checked_fixed_image_path I path =
     (case fixed_drive_root (fe_parts (ie_files I) path) of
        None \<Rightarrow> None
      | Some d \<Rightarrow>
          if \<not> ie_fixed I d then None
          else (case checked_local_path True (ie_files I) path of Inr (Some c) \<Rightarrow> Some c | _ \<Rightarrow> None))"

definition installed_ui_image_path :: "image_env \<Rightarrow> string option" where
  "installed_ui_image_path I =
     Option.bind (ie_service_dir I) (\<lambda>d. checked_fixed_image_path I (d @ [backslash] @ ''eir.exe''))"

definition windows_path_eq :: "string \<Rightarrow> string \<Rightarrow> bool" where
  "windows_path_eq a b = eq_ignore_ascii_case a b"

record client =
  cl_session :: "nat option"
  cl_elevated :: "bool option"
  cl_admin :: "bool option"
  cl_image :: "string option"
  cl_same_user :: bool

definition is_elevated_admin :: "client \<Rightarrow> bool" where
  "is_elevated_admin c = (cl_elevated c = Some True \<and> cl_admin c = Some True)"

definition verified_client_session :: "image_env \<Rightarrow> nat option \<Rightarrow> client \<Rightarrow> nat option" where
  "verified_client_session I active_id c =
     (case cl_session c of
        None \<Rightarrow> None
      | Some s \<Rightarrow>
          (let session_active = client_session_matches_active s active_id in
           if client_identity_evidence_allowed session_active (is_elevated_admin c) False then Some s
           else (case cl_image c of
               None \<Rightarrow> None
             | Some img \<Rightarrow>
                 (let same_path =
                    (case (checked_fixed_image_path I img, installed_ui_image_path I) of
                       (Some a, Some b) \<Rightarrow> windows_path_eq a b
                     | _ \<Rightarrow> False)
                  in if client_identity_evidence_allowed session_active False same_path then Some s else None))))"

definition verified_portable_client_session :: "image_env \<Rightarrow> client \<Rightarrow> nat option" where
  "verified_portable_client_session I c =
     (case cl_session c of
        None \<Rightarrow> None
      | Some s \<Rightarrow>
          if \<not> cl_same_user c then None
          else (case (Option.bind (cl_image c) (checked_fixed_image_path I), installed_ui_image_path I) of
              (Some a, Some b) \<Rightarrow> if windows_path_eq a b then Some s else None
            | _ \<Rightarrow> None))"

datatype elevation = DefaultElevation | LimitedElevation | FullElevation

definition portable_token_identity_allowed :: "elevation option \<Rightarrow> bool option \<Rightarrow> bool" where
  "portable_token_identity_allowed el local_system =
     (local_system = Some False \<and> (el = Some DefaultElevation \<or> el = Some LimitedElevation))"

section \<open>From bytes to requests\<close>

definition MAX_UI_LINE_BYTES :: nat where "MAX_UI_LINE_BYTES = 12582912"

text \<open>\<open>std::str::from_utf8\<close>: the length of the well-formed character the bytes begin with, zero for none.\<close>

definition tail_byte :: "char \<Rightarrow> bool" where
  "tail_byte c = (128 \<le> byte c \<and> byte c < 192)"

definition utf8_char :: "string \<Rightarrow> nat" where
  "utf8_char s =
     (case s of
        [] \<Rightarrow> 0
      | b # r \<Rightarrow>
          if byte b < 128 then 1
          else if 194 \<le> byte b \<and> byte b < 224 then
            (case r of c # _ \<Rightarrow> if tail_byte c then 2 else 0 | _ \<Rightarrow> 0)
          else if 224 \<le> byte b \<and> byte b < 240 then
            (case r of
               c # d # _ \<Rightarrow>
                 if tail_byte c \<and> tail_byte d \<and> (byte b = 224 \<longrightarrow> 160 \<le> byte c) \<and> (byte b = 237 \<longrightarrow> byte c < 160)
                 then 3 else 0
             | _ \<Rightarrow> 0)
          else if 240 \<le> byte b \<and> byte b < 245 then
            (case r of
               c # d # e # _ \<Rightarrow>
                 if tail_byte c \<and> tail_byte d \<and> tail_byte e \<and>
                    (byte b = 240 \<longrightarrow> 144 \<le> byte c) \<and> (byte b = 244 \<longrightarrow> byte c < 144)
                 then 4 else 0
             | _ \<Rightarrow> 0)
          else 0)"

function valid_utf8 :: "string \<Rightarrow> bool" where
  "valid_utf8 s =
     (if s = [] then True else if utf8_char s = 0 then False else valid_utf8 (drop (utf8_char s) s))"
  by pat_completeness auto
termination
  by (relation "measure length") auto

declare valid_utf8.simps [simp del]

text \<open>The request a complete line carries, its newline included or not.\<close>

definition request_of :: "(string \<Rightarrow> 'r option) \<Rightarrow> string \<Rightarrow> 'r option" where
  "request_of parse line =
     (if \<not> valid_utf8 line then None
      else if trim line = [] then None
      else parse (trim line))"

text \<open>
  A connection's reader: the bytes the transport holds, the bytes of the line read so far, the
  request waiting for room in the loop's channel, and the watch on the session with its
  unseen-change mark.
\<close>

record 'r conn =
  co_unread :: string
  co_eof :: bool
  co_buf :: string
  co_sending :: "'r option"
  co_live :: bool
  co_changed :: bool
  co_open :: bool
  co_forwarded :: "'r list"

definition new_conn :: "'r conn" where
  "new_conn = \<lparr>co_unread = [], co_eof = False, co_buf = [], co_sending = None, co_live = True, co_changed = False,
     co_open = True, co_forwarded = []\<rparr>"

datatype conn_event =
  Arrive string | HangUp | Read | SetSession bool | Notice | WatchGone | Accept | ChannelClosed

definition close :: "'r conn \<Rightarrow> 'r conn" where
  "close c = c\<lparr>co_open := False, co_sending := None\<rparr>"

text \<open>One completed line, its newline included.\<close>

definition take_line :: "(string \<Rightarrow> 'r option) \<Rightarrow> string \<Rightarrow> 'r conn \<Rightarrow> 'r conn" where
  "take_line parse line c =
     (if \<not> co_live c then close c else c\<lparr>co_buf := [], co_sending := request_of parse line\<rparr>)"

definition read_line :: "(string \<Rightarrow> 'r option) \<Rightarrow> 'r conn \<Rightarrow> 'r conn" where
  "read_line parse c =
     (let room = MAX_UI_LINE_BYTES - length (co_buf c) in
      case find_index (\<lambda>b. b = newline) (take room (co_unread c)) of
        Some i \<Rightarrow> take_line parse (co_buf c @ take (i + 1) (co_unread c)) (c\<lparr>co_unread := drop (i + 1) (co_unread c)\<rparr>)
      | None \<Rightarrow>
          if room \<le> length (co_unread c) then close c
          else (let d = c\<lparr>co_buf := co_buf c @ co_unread c, co_unread := []\<rparr> in
                if co_eof c then close d else d))"

fun conn_step :: "(string \<Rightarrow> 'r option) \<Rightarrow> 'r conn \<Rightarrow> conn_event \<Rightarrow> 'r conn" where
  "conn_step parse c (Arrive s) = (if co_eof c then c else c\<lparr>co_unread := co_unread c @ s\<rparr>)"
| "conn_step parse c HangUp = c\<lparr>co_eof := True\<rparr>"
| "conn_step parse c (SetSession v) = c\<lparr>co_live := v, co_changed := True\<rparr>"
| "conn_step parse c Notice =
     (if \<not> co_open c \<or> \<not> co_changed c then c
      else if co_sending c \<noteq> None \<or> \<not> co_live c then close c
      else c\<lparr>co_changed := False\<rparr>)"
| "conn_step parse c WatchGone = (if co_open c then close c else c)"
| "conn_step parse c Read = (if co_open c \<and> co_sending c = None then read_line parse c else c)"
| "conn_step parse c Accept =
     (case co_sending c of
        None \<Rightarrow> c
      | Some r \<Rightarrow>
          (let d = c\<lparr>co_forwarded := co_forwarded c @ [r], co_sending := None\<rparr> in
           if co_live c then d else close d))"
| "conn_step parse c ChannelClosed = (if co_sending c = None then c else close c)"

definition conn_run :: "(string \<Rightarrow> 'r option) \<Rightarrow> conn_event list \<Rightarrow> 'r conn" where
  "conn_run parse evs = foldl (conn_step parse) new_conn evs"

section \<open>One client\<close>

text \<open>The sessions are enumerated twice: when the client is identified, and once more before it is served.\<close>

definition serve_pipe ::
  "image_env \<Rightarrow> wts_session list \<Rightarrow> wts_session list \<Rightarrow> client \<Rightarrow> (string \<Rightarrow> 'r option) \<Rightarrow> conn_event list \<Rightarrow> 'r list" where
  "serve_pipe I sessions sessions' c parse evs =
     (case verified_client_session I (sole_active_session sessions) c of
        None \<Rightarrow> []
      | Some s \<Rightarrow>
          if client_session_matches_active s (sole_active_session sessions') then co_forwarded (conn_run parse evs) else [])"

definition serve_socket ::
  "socket_settings \<Rightarrow> (nat \<times> nat) option \<Rightarrow> (string \<Rightarrow> 'r option) \<Rightarrow> conn_event list \<Rightarrow> 'r list" where
  "serve_socket S cred parse evs =
     (case cred of
        None \<Rightarrow> []
      | Some (uid, gid) \<Rightarrow>
          if peer_allowed uid gid (so_uids S) (so_gids S) then co_forwarded (conn_run parse evs) else [])"

section \<open>Frames to the client\<close>

record writer =
  wr_live :: bool
  wr_changed :: bool
  wr_open :: bool
  wr_frames :: "string list"

datatype write_event = Frame "string option" bool | Lagged | Ended | SessionIs bool | SessionNotice

definition write_frame :: "string option \<Rightarrow> bool \<Rightarrow> writer \<Rightarrow> writer" where
  "write_frame line ok w =
     (if \<not> wr_open w then w
      else if \<not> wr_live w then w\<lparr>wr_open := False\<rparr>
      else (case line of
          None \<Rightarrow> w\<lparr>wr_open := False\<rparr>
        | Some l \<Rightarrow> if ok then w\<lparr>wr_frames := wr_frames w @ [l]\<rparr> else w\<lparr>wr_open := False\<rparr>))"

fun write_step :: "writer \<Rightarrow> write_event \<Rightarrow> writer" where
  "write_step w (Frame line ok) = write_frame line ok w"
| "write_step w Lagged = w"
| "write_step w Ended = w\<lparr>wr_open := False\<rparr>"
| "write_step w (SessionIs v) = w\<lparr>wr_live := v, wr_changed := True\<rparr>"
| "write_step w SessionNotice =
     (if \<not> wr_changed w then w
      else if \<not> wr_live w then w\<lparr>wr_open := False\<rparr> else w\<lparr>wr_changed := False\<rparr>)"

text \<open>The current status goes out first.\<close>

definition write_run :: "string option \<Rightarrow> bool \<Rightarrow> write_event list \<Rightarrow> writer" where
  "write_run status ok evs =
     foldl write_step (write_frame status ok \<lparr>wr_live = True, wr_changed = False, wr_open = True, wr_frames = []\<rparr>) evs"

section \<open>The requests of a stream\<close>

text \<open>
  The reference: the requests in a stream of bytes, whatever it was cut into. A line of
  \<open>MAX_UI_LINE_BYTES\<close> or more ends them.
\<close>

function requests_in :: "(string \<Rightarrow> 'r option) \<Rightarrow> string \<Rightarrow> 'r list" where
  "requests_in parse s =
     (case find_index (\<lambda>b. b = newline) (take MAX_UI_LINE_BYTES s) of
        None \<Rightarrow> []
      | Some i \<Rightarrow>
          (case request_of parse (take (i + 1) s) of None \<Rightarrow> [] | Some r \<Rightarrow> [r]) @ requests_in parse (drop (i + 1) s))"
  by pat_completeness auto
termination
  by (relation "measure (length \<circ> snd)") (auto dest!: find_index_Some)

declare requests_in.simps [simp del]

definition quiet_event :: "conn_event \<Rightarrow> bool" where
  "quiet_event e = (case e of Arrive _ \<Rightarrow> True | HangUp \<Rightarrow> True | Read \<Rightarrow> True | Accept \<Rightarrow> True | _ \<Rightarrow> False)"

fun arrived :: "conn_event list \<Rightarrow> string" where
  "arrived [] = []"
| "arrived (HangUp # es) = []"
| "arrived (Arrive s # es) = s @ arrived es"
| "arrived (e # es) = arrived es"

abbreviation waiting_request :: "'r conn \<Rightarrow> 'r list" where
  "waiting_request c \<equiv> (case co_sending c of None \<Rightarrow> [] | Some r \<Rightarrow> [r])"

lemma find_index_snoc: "(\<forall>x \<in> set xs. \<not> P x) \<Longrightarrow> P y \<Longrightarrow> find_index P (xs @ y # ys) = Some (length xs)"
  by (induction xs) auto

lemma requests_line:
  assumes "newline \<notin> set l" and "length l < MAX_UI_LINE_BYTES"
  shows "requests_in parse (l @ newline # t) =
    (case request_of parse (l @ [newline]) of None \<Rightarrow> [] | Some r \<Rightarrow> [r]) @ requests_in parse t"
proof -
  have "take MAX_UI_LINE_BYTES (l @ newline # t) = l @ newline # take (MAX_UI_LINE_BYTES - length l - 1) t"
    using assms(2) by (cases "MAX_UI_LINE_BYTES - length l") auto
  then have "find_index (\<lambda>b. b = newline) (take MAX_UI_LINE_BYTES (l @ newline # t)) = Some (length l)"
    using find_index_snoc [of l "\<lambda>b. b = newline" newline] assms(1) by auto
  then show ?thesis by (subst requests_in.simps) simp
qed

lemma requests_stop: "newline \<notin> set (take MAX_UI_LINE_BYTES s) \<Longrightarrow> requests_in parse s = []"
  by (subst requests_in.simps) (auto simp: find_index_None split: option.splits dest!: find_index_Some dest: nth_mem)

text \<open>The state of a reader that has been given the stream \<open>s\<close>.\<close>

definition tracks :: "(string \<Rightarrow> 'r option) \<Rightarrow> 'r conn \<Rightarrow> string \<Rightarrow> bool" where
  "tracks parse c s =
     (co_live c \<and> \<not> co_changed c \<and> newline \<notin> set (co_buf c) \<and> length (co_buf c) < MAX_UI_LINE_BYTES \<and>
      (if co_open c then
         (\<exists>past. s = past @ co_buf c @ co_unread c \<and>
            (\<forall>t. requests_in parse (past @ t) = co_forwarded c @ waiting_request c @ requests_in parse t))
       else co_sending c = None \<and> (\<forall>t. (co_eof c \<longrightarrow> t = []) \<longrightarrow> co_forwarded c = requests_in parse (s @ t))))"

lemma tracks_read:
  assumes "tracks parse c s" and op: "co_open c" and free: "co_sending c = None"
  shows "tracks parse (read_line parse c) s"
proof -
  define room where "room = MAX_UI_LINE_BYTES - length (co_buf c)"
  have T: "co_live c" "\<not> co_changed c" "newline \<notin> set (co_buf c)" "length (co_buf c) < MAX_UI_LINE_BYTES"
    using assms(1) by (auto simp: tracks_def)
  obtain past where s: "s = past @ co_buf c @ co_unread c"
    and past: "\<And>t. requests_in parse (past @ t) = co_forwarded c @ requests_in parse t"
    using assms by (auto simp: tracks_def)
  show ?thesis
  proof (cases "find_index (\<lambda>b. b = newline) (take room (co_unread c))")
    case (Some i)
    define l where "l = co_buf c @ take i (co_unread c)"
    from find_index_Some [OF Some] have i: "i < length (co_unread c)" "i < room" "co_unread c ! i = newline"
        "\<forall>j < i. co_unread c ! j \<noteq> newline" by auto
    have u: "co_unread c = take i (co_unread c) @ newline # drop (i + 1) (co_unread c)"
      using id_take_nth_drop [OF i(1)] i(3) by simp
    have line: "co_buf c @ take (i + 1) (co_unread c) = l @ [newline]"
      using i(1,3) by (simp add: l_def take_Suc_conv_app_nth)
    have nl: "newline \<notin> set l"
      using T(3) i(1,4) by (auto simp: l_def in_set_conv_nth)
    have len: "length l < MAX_UI_LINE_BYTES" using i T(4) by (simp add: l_def room_def)
    have split: "s = (past @ l @ [newline]) @ drop (i + 1) (co_unread c)"
      using s u by (metis append.assoc append_Cons append_Nil l_def)
    have next_line: "requests_in parse ((past @ l @ [newline]) @ t) =
        co_forwarded c @ (case request_of parse (l @ [newline]) of None \<Rightarrow> [] | Some r \<Rightarrow> [r]) @ requests_in parse t" for t
      using past [of "l @ newline # t"] requests_line [OF nl len, of parse t] by simp
    have "read_line parse c =
        c\<lparr>co_unread := drop (i + 1) (co_unread c), co_buf := [], co_sending := request_of parse (l @ [newline])\<rparr>"
      using Some T(1) line by (simp add: read_line_def room_def [symmetric] Let_def take_line_def)
    moreover have "\<exists>past'. s = past' @ [] @ drop (i + 1) (co_unread c) \<and>
        (\<forall>t. requests_in parse (past' @ t) =
          co_forwarded c @ (case request_of parse (l @ [newline]) of None \<Rightarrow> [] | Some r \<Rightarrow> [r]) @ requests_in parse t)"
      using split next_line by (intro exI [of _ "past @ l @ [newline]"] conjI allI) simp_all
    ultimately show ?thesis using T(1,2) op by (simp add: tracks_def MAX_UI_LINE_BYTES_def)
  next
    case None
    then have no: "newline \<notin> set (take room (co_unread c))" by (auto simp: find_index_None)
    show ?thesis
    proof (cases "room \<le> length (co_unread c)")
      case True
      have no3: "newline \<notin> set (take MAX_UI_LINE_BYTES (co_buf c @ co_unread c @ t))" for t
        using no T(3,4) True by (auto simp: room_def)
      then have "requests_in parse (s @ t) = co_forwarded c" for t
        using past [of "co_buf c @ co_unread c @ t"] requests_stop [OF no3 [of t], of parse] by (simp add: s)
      then show ?thesis using None True T
        by (simp add: read_line_def room_def [symmetric] Let_def close_def tracks_def)
    next
      case False
      have no2: "newline \<notin> set (co_buf c @ co_unread c)" using no False T(3) by simp
      then have "requests_in parse (co_buf c @ co_unread c) = []"
        by (intro requests_stop) (meson in_set_takeD)
      then have "requests_in parse s = co_forwarded c" using past [of "co_buf c @ co_unread c"] by (simp add: s)
      moreover have "length (co_buf c @ co_unread c) < MAX_UI_LINE_BYTES" using False by (simp add: room_def)
      ultimately show ?thesis using None False T no2 op s past free
        by (auto simp: read_line_def room_def [symmetric] Let_def close_def tracks_def)
    qed
  qed
qed

lemma tracks_step:
  assumes "tracks parse c s" and "quiet_event e"
  shows "tracks parse (conn_step parse c e) (case e of Arrive x \<Rightarrow> if co_eof c then s else s @ x | _ \<Rightarrow> s)"
proof (cases e)
  case Read
  then show ?thesis using assms tracks_read by auto
next
  case (Arrive x)
  then show ?thesis using assms by (auto simp: tracks_def)
next
  case Accept
  then show ?thesis using assms by (auto simp: tracks_def close_def Let_def split: option.splits if_splits)
next
  case HangUp
  have "co_forwarded c = requests_in parse s" if "\<not> co_open c"
    using assms(1) that by (simp add: tracks_def) (metis append_Nil2)
  with HangUp assms show ?thesis by (auto simp: tracks_def)
qed (use assms in \<open>auto simp: tracks_def quiet_event_def\<close>)

lemma read_eof [simp]: "co_eof (read_line parse c) = co_eof c"
  by (simp add: read_line_def take_line_def close_def Let_def split: option.split)

lemma tracks_run:
  "tracks parse c s \<Longrightarrow> list_all quiet_event evs \<Longrightarrow>
     tracks parse (foldl (conn_step parse) c evs) (s @ (if co_eof c then [] else arrived evs))"
proof (induction evs arbitrary: c s)
  case (Cons e evs)
  have step: "tracks parse (conn_step parse c e) (case e of Arrive x \<Rightarrow> if co_eof c then s else s @ x | _ \<Rightarrow> s)"
    using tracks_step Cons.prems by auto
  have "co_eof (conn_step parse c e) = (co_eof c \<or> e = HangUp)" if "quiet_event e"
    using that by (cases e) (auto simp: quiet_event_def close_def Let_def split: option.splits)
  with Cons.IH [OF step] Cons.prems show ?case
    by (cases e) (auto simp: quiet_event_def split: if_splits)
qed simp

lemma tracks_new: "tracks parse new_conn []"
  by (simp add: tracks_def new_conn_def MAX_UI_LINE_BYTES_def)

section \<open>Draining\<close>

definition serve_round :: "(string \<Rightarrow> 'r option) \<Rightarrow> 'r conn \<Rightarrow> 'r conn" where
  "serve_round parse c = conn_step parse (conn_step parse c Read) Accept"

lemma rounds: "foldl (conn_step parse) c (concat (replicate n [Read, Accept])) = (serve_round parse ^^ n) c"
  by (induction n arbitrary: c) (simp_all add: serve_round_def funpow_swap1)

lemma round_tracks: "tracks parse c s \<Longrightarrow> tracks parse (serve_round parse c) s"
  using tracks_step [of parse c s Read] tracks_step [of parse "conn_step parse c Read" s Accept]
  by (simp add: serve_round_def quiet_event_def)

lemma round_progress:
  assumes "tracks parse c s"
  shows "co_sending (serve_round parse c) = None \<and>
    (co_open (serve_round parse c) \<longrightarrow>
       length (co_unread (serve_round parse c)) \<le> (if co_sending c = None then length (co_unread c) - 1 else length (co_unread c)))"
  using assms
  by (cases "co_sending c"; cases "find_index (\<lambda>b. b = newline) (take (MAX_UI_LINE_BYTES - length (co_buf c)) (co_unread c))")
    (auto simp: serve_round_def read_line_def take_line_def close_def Let_def tracks_def split: option.splits)

lemma drained:
  "tracks parse c s \<Longrightarrow> co_sending c = None \<Longrightarrow> (co_open c \<longrightarrow> length (co_unread c) \<le> n) \<Longrightarrow>
     co_forwarded ((serve_round parse ^^ n) c) = requests_in parse s"
proof (induction n arbitrary: c)
  case 0
  show ?case
  proof (cases "co_open c")
    case True
    then have "co_unread c = []" using 0 by simp
    moreover have "requests_in parse (co_buf c) = []"
      using 0 by (intro requests_stop) (auto simp: tracks_def dest: in_set_takeD)
    ultimately show ?thesis using 0 True by (auto simp: tracks_def)
  next
    case False
    then show ?thesis using 0 by (auto simp: tracks_def dest: spec [of _ "[]"])
  qed
next
  case (Suc n)
  have "co_open (serve_round parse c) \<longrightarrow> length (co_unread (serve_round parse c)) \<le> n"
    using round_progress [OF Suc.prems(1)] Suc.prems(2,3)
    by (auto simp: serve_round_def split: if_splits option.splits)
  then show ?case
    using Suc.IH [OF round_tracks [OF Suc.prems(1)]] round_progress [OF Suc.prems(1)] by (simp add: funpow_swap1)
qed

text \<open>
  C16: a connection is read line by line whatever it is cut into. While its session lasts, for
  every way the client's bytes arrive between the reads and the forwards, up to a hang-up, what
  has been forwarded is a prefix of the requests in the bytes received, the line being read stays
  below 12 MiB, and as many more rounds of reading as there are bytes forward exactly
  those requests: every well-formed line once and in order, up to the first oversized line.
\<close>

theorem connection_reads_exactly_its_requests:
  assumes "list_all quiet_event evs"
  shows "(\<exists>rest. requests_in parse (arrived evs) = co_forwarded (conn_run parse evs) @ rest) \<and>
    length (co_buf (conn_run parse evs)) < MAX_UI_LINE_BYTES \<and>
    co_forwarded (conn_run parse (evs @ concat (replicate (length (arrived evs) + 1) [Read, Accept]))) =
      requests_in parse (arrived evs)"
proof -
  let ?c = "conn_run parse evs" and ?s = "arrived evs"
  have t: "tracks parse ?c ?s"
    using tracks_run [OF tracks_new assms, of parse] by (simp add: conn_run_def new_conn_def)
  have p: "\<exists>rest. requests_in parse ?s = co_forwarded ?c @ rest"
  proof (cases "co_open ?c")
    case True
    with t obtain past where "?s = past @ co_buf ?c @ co_unread ?c"
      and "requests_in parse (past @ co_buf ?c @ co_unread ?c) =
        co_forwarded ?c @ waiting_request ?c @ requests_in parse (co_buf ?c @ co_unread ?c)"
      by (auto simp: tracks_def)
    then show ?thesis by (metis append.assoc)
  next
    case False
    with t have "\<forall>x. (co_eof ?c \<longrightarrow> x = []) \<longrightarrow> co_forwarded ?c = requests_in parse (?s @ x)" by (simp add: tracks_def)
    from this [rule_format, of "[]"] show ?thesis by simp
  qed
  have "co_open (serve_round parse ?c) \<longrightarrow> length (co_unread (serve_round parse ?c)) \<le> length ?s"
  proof
    assume o: "co_open (serve_round parse ?c)"
    then have "co_open ?c" using t
      by (cases "co_sending ?c") (auto simp: serve_round_def tracks_def split: if_splits)
    then have "length (co_unread ?c) \<le> length ?s" using t by (auto simp: tracks_def)
    then show "length (co_unread (serve_round parse ?c)) \<le> length ?s"
      using round_progress [OF t] o by (auto split: if_splits)
  qed
  then have "co_forwarded ((serve_round parse ^^ length ?s) (serve_round parse ?c)) = requests_in parse ?s"
    using drained [OF round_tracks [OF t]] round_progress [OF t] by blast
  then have "co_forwarded (conn_run parse (evs @ concat (replicate (length ?s + 1) [Read, Accept]))) = requests_in parse ?s"
    by (simp add: conn_run_def rounds [of parse _ "length ?s + 1", simplified] funpow_swap1)
  then show ?thesis using p t by (simp add: tracks_def)
qed

lemma connection_reads_exactly_its_requests_witness:
  "co_forwarded (conn_run Some ([Arrive (''hi'' @ [newline] @ ''x'')] @ concat (replicate 5 [Read, Accept]))) = [''hi'']"
proof -
  let ?evs = "[Arrive (''hi'' @ [newline] @ ''x'')]"
  have c: "list_all quiet_event ?evs" by (simp add: quiet_event_def)
  have r: "request_of Some (''hi'' @ [newline]) = Some ''hi''" by code_simp
  have nl: "newline \<notin> set ''hi''" and nx: "newline \<notin> set ''x''" by code_simp+
  then have tail: "newline \<notin> set (take MAX_UI_LINE_BYTES ''x'')" by (blast dest: in_set_takeD)
  have "requests_in Some (''hi'' @ newline # ''x'') = [''hi'']"
    using requests_line [OF nl, of Some "''x''"] requests_stop [OF tail, of Some] r by (simp add: MAX_UI_LINE_BYTES_def)
  moreover have "length (arrived ?evs) + 1 = 5" "arrived ?evs = ''hi'' @ newline # ''x''" by simp_all
  ultimately show ?thesis using connection_reads_exactly_its_requests [OF c, of Some] by (simp add: eval_nat_numeral)
qed

section \<open>A session that ends\<close>

definition stays_dead :: "conn_event \<Rightarrow> bool" where
  "stays_dead e = (e \<noteq> SetSession True)"

definition writer_stays_dead :: "write_event \<Rightarrow> bool" where
  "writer_stays_dead e = (e \<noteq> SessionIs True)"

text \<open>What a reader whose session ended may still do: hand over the one request it was sending.\<close>

definition cut_off :: "'r list \<Rightarrow> 'r list \<Rightarrow> 'r conn \<Rightarrow> bool" where
  "cut_off sent waiting c =
     (\<not> co_live c \<and>
      (co_forwarded c = sent \<and> (co_sending c = None \<or> waiting_request c = waiting) \<or>
       co_forwarded c = sent @ waiting \<and> co_sending c = None))"

lemma cut_off_read: "cut_off sent waiting c \<Longrightarrow> co_sending c = None \<Longrightarrow> cut_off sent waiting (read_line parse c)"
  by (auto simp: cut_off_def read_line_def take_line_def close_def Let_def split: option.splits)

lemma cut_off_step: "cut_off sent waiting c \<Longrightarrow> stays_dead e \<Longrightarrow> cut_off sent waiting (conn_step parse c e)"
proof (cases e)
  case Read
  then show "cut_off sent waiting c \<Longrightarrow> ?thesis" by (simp add: cut_off_read)
next
  case Accept
  then show "cut_off sent waiting c \<Longrightarrow> ?thesis" by (auto simp: cut_off_def close_def Let_def split: option.splits)
qed (auto simp: cut_off_def close_def stays_dead_def)

lemma cut_off_run: "cut_off sent waiting c \<Longrightarrow> list_all stays_dead evs \<Longrightarrow> cut_off sent waiting (foldl (conn_step parse) c evs)"
  by (induction evs arbitrary: c) (simp_all add: cut_off_step)

lemma dead_writer: "\<not> wr_live w \<Longrightarrow> list_all writer_stays_dead evs \<Longrightarrow> wr_frames (foldl write_step w evs) = wr_frames w"
proof (induction evs arbitrary: w)
  case (Cons e evs)
  have "\<not> wr_live (write_step w e) \<and> wr_frames (write_step w e) = wr_frames w"
    using Cons.prems by (cases e) (auto simp: write_frame_def writer_stays_dead_def)
  with Cons show ?case by simp
qed simp



section \<open>Admission\<close>

text \<open>
  C17: only admitted clients are heard. A request comes through the pipe only when exactly one
  session of the machine is active, the client belongs to it, and it is an elevated administrator
  or its image, resolved on a fixed local drive, is the user interface installed beside the
  service; and through the socket only from root, a configured user or a configured group.
\<close>

theorem only_admitted_clients_heard:
  "(serve_pipe I sessions sessions' c parse evs \<noteq> [] \<longrightarrow>
      (\<exists>s. filter (\<lambda>x. ws_active x \<and> ws_id x \<noteq> 0 \<and> ws_id x \<noteq> NO_SESSION) sessions = [s] \<and> cl_session c = Some (ws_id s)) \<and>
      (\<exists>s. filter (\<lambda>x. ws_active x \<and> ws_id x \<noteq> 0 \<and> ws_id x \<noteq> NO_SESSION) sessions' = [s] \<and> cl_session c = Some (ws_id s)) \<and>
      (cl_elevated c = Some True \<and> cl_admin c = Some True \<or>
       (\<exists>img a b. cl_image c = Some img \<and> checked_fixed_image_path I img = Some a \<and>
          installed_ui_image_path I = Some b \<and> eq_ignore_ascii_case a b))) \<and>
   (serve_socket S cred parse evs \<noteq> [] \<longrightarrow>
      (\<exists>uid gid. cred = Some (uid, gid) \<and> (uid = 0 \<or> uid \<in> set (so_uids S) \<or> gid \<in> set (so_gids S))))"
proof (intro conjI impI)
  assume "serve_pipe I sessions sessions' c parse evs \<noteq> []"
  then obtain s where v: "verified_client_session I (sole_active_session sessions) c = Some s"
    and m': "client_session_matches_active s (sole_active_session sessions')"
    by (auto simp: serve_pipe_def split: option.splits if_splits)
  then have c: "cl_session c = Some s" and m: "client_session_matches_active s (sole_active_session sessions)"
    by (auto simp: verified_client_session_def client_identity_evidence_allowed_def Let_def split: option.splits if_splits)
  have sole: "\<exists>x. filter (\<lambda>x. ws_active x \<and> ws_id x \<noteq> 0 \<and> ws_id x \<noteq> NO_SESSION) xs = [x] \<and> cl_session c = Some (ws_id x)"
    if "client_session_matches_active s (sole_active_session xs)" for xs
    using that c by (auto simp: client_session_matches_active_def sole_active_session_def split: list.splits)
  from sole [OF m] show "\<exists>s. filter (\<lambda>x. ws_active x \<and> ws_id x \<noteq> 0 \<and> ws_id x \<noteq> NO_SESSION) sessions = [s] \<and> cl_session c = Some (ws_id s)" .
  from sole [OF m'] show "\<exists>s. filter (\<lambda>x. ws_active x \<and> ws_id x \<noteq> 0 \<and> ws_id x \<noteq> NO_SESSION) sessions' = [s] \<and> cl_session c = Some (ws_id s)" .
  show "cl_elevated c = Some True \<and> cl_admin c = Some True \<or>
       (\<exists>img a b. cl_image c = Some img \<and> checked_fixed_image_path I img = Some a \<and>
          installed_ui_image_path I = Some b \<and> eq_ignore_ascii_case a b)"
    using v by (auto simp: verified_client_session_def client_identity_evidence_allowed_def is_elevated_admin_def
        windows_path_eq_def Let_def split: option.splits if_splits)
next
  assume "serve_socket S cred parse evs \<noteq> []"
  then show "\<exists>uid gid. cred = Some (uid, gid) \<and> (uid = 0 \<or> uid \<in> set (so_uids S) \<or> gid \<in> set (so_gids S))"
    by (auto simp: serve_socket_def peer_allowed_def split: option.splits if_splits)
qed

lemma only_admitted_clients_heard_witness:
  "let S = \<lparr>so_path = DEFAULT_SOCKET_PATH, so_uids = [1000], so_gids = []\<rparr>; evs = [Arrive (''hi'' @ [newline]), Read, Accept]
   in serve_socket S (Some (1000, 5)) Some evs = [''hi''] \<and> serve_socket S (Some (1001, 5)) Some evs = []"
proof -
  let ?S = "\<lparr>so_path = DEFAULT_SOCKET_PATH, so_uids = [1000], so_gids = []\<rparr>"
  let ?evs = "[Arrive (''hi'' @ [newline]), Read, Accept]"
  have r: "request_of Some (''hi'' @ [newline]) = Some ''hi''" by code_simp
  have "CHR ''h'' \<noteq> newline" "CHR ''i'' \<noteq> newline" by code_simp+
  then have "co_forwarded (conn_run Some ?evs) = [''hi'']"
    using r by (simp add: conn_run_def new_conn_def read_line_def take_line_def MAX_UI_LINE_BYTES_def)
  then have "serve_socket ?S (Some (1000, 5)) Some ?evs = [''hi'']" by (simp add: serve_socket_def peer_allowed_def)
  moreover have "serve_socket ?S (Some (1001, 5)) Some ?evs = []"
    using only_admitted_clients_heard [of _ _ _ _ Some ?evs ?S "Some (1001, 5)"] by auto
  ultimately show ?thesis by (simp only: Let_def)
qed

end
