(* ===== verification/Service_Config.thy ===== *)
theory Service_Config
  imports Pipe_Server
begin

text \<open>
  The service's configuration (\<open>config.rs\<close>): its sections, what is made of a file from disk, what
  the settings dialogue may change, and how it is written so that a crash at any moment leaves a
  configuration that loads. The TOML library is an argument: \<open>parse\<close> reads a text, \<open>render\<close> prints a
  configuration. \<open>u\<close> is the case mapping of \<open>to_lowercase\<close> and \<open>win\<close> the platform of the build.
\<close>

section \<open>The sections\<close>

datatype api_provider = OpenCode | Claude | Codex | Cursor

fun provider_str :: "api_provider \<Rightarrow> string" where
  "provider_str OpenCode = ''opencode_cli''"
| "provider_str Claude = ''claude_cli''"
| "provider_str Codex = ''codex_cli''"
| "provider_str Cursor = ''cursor_cli''"

definition provider_parse :: "string \<Rightarrow> api_provider" where
  "provider_parse s =
     (if s \<in> {''claude_cli'', ''anthropic'', ''openai_compatible'', ''open_ai_compatible''} then Claude
      else if s = ''codex_cli'' then Codex
      else if s = ''cursor_cli'' then Cursor
      else OpenCode)"

record api_config =
  ap_provider :: api_provider
  ap_model :: string
  ap_update_model :: string
  ap_effort :: string
  ap_claude_path :: "string option"
  ap_profile :: "string option"
  ap_codex_path :: "string option"
  ap_opencode_path :: "string option"
  ap_opencode_profile :: "string option"
  ap_cursor_path :: "string option"
  ap_cursor_profile :: "string option"
  ap_linux_user :: "string option"

record monitoring_config =
  mo_channels :: "string list"
  mo_directories :: "string list"
  mo_event_log_poll :: nat
  mo_wmi_poll :: nat
  mo_decision_interval :: nat
  mo_threshold :: fnum
  mo_game_mode_auto :: bool
  mo_game_mode_boost :: bool
  mo_require_tray :: bool
  mo_watch_screen :: bool

record advisor_config =
  ac_enabled :: bool
  ac_model :: string
  ac_effort :: string
  ac_threshold :: fnum

record config =
  cf_api :: api_config
  cf_monitoring :: monitoring_config
  cf_audit_db :: string
  cf_updater :: updater_config
  cf_advisor :: advisor_config
  cf_service :: socket_settings
  cf_notify :: "string list"

text \<open>A change sent by the UI. Its deprecated fields are kept for old peers and read by nothing.\<close>

record ui_update =
  up_provider :: string
  up_model :: string
  up_update_check_model :: string
  up_effort :: string
  up_opencode_path :: "string option"
  up_opencode_profile :: "string option"
  up_cursor_path :: "string option"
  up_cursor_profile :: "string option"
  up_decision_interval :: nat
  up_event_log_poll :: nat
  up_wmi_poll :: nat
  up_channels :: "string list"
  up_directories :: "string list"
  up_threshold :: fnum
  up_game_mode_auto :: bool
  up_game_mode_boost :: bool
  up_watch_screen :: "bool option"

text \<open>The single-precision values of 0.8, 0.6 and 0.95.\<close>

definition TOP_THRESHOLD :: fnum where "TOP_THRESHOLD = rnd f32 (95 / 100)"
definition LOW_CONFIDENCE :: fnum where "LOW_CONFIDENCE = rnd f32 (6 / 10)"
definition default_confidence :: fnum where "default_confidence = rnd f32 (8 / 10)"
definition default_service :: socket_settings where
  "default_service = \<lparr>so_path = ''/run/eir/eir.sock'', so_uids = [], so_gids = []\<rparr>"
definition default_advisor :: advisor_config where
  "default_advisor = \<lparr>ac_enabled = False, ac_model = [], ac_effort = [], ac_threshold = LOW_CONFIDENCE\<rparr>"

text \<open>The monitoring section of a file that names none of its fields.\<close>

definition default_monitoring :: "bool \<Rightarrow> monitoring_config" where
  "default_monitoring win =
     \<lparr>mo_channels = [], mo_directories = [], mo_event_log_poll = 30, mo_wmi_poll = 300, mo_decision_interval = 600,
      mo_threshold = default_confidence, mo_game_mode_auto = True, mo_game_mode_boost = False,
      mo_require_tray = win, mo_watch_screen = True\<rparr>"

section \<open>Bounding\<close>

definition is_real :: "string \<Rightarrow> bool" where
  "is_real s = (trim s \<noteq> [] \<and> \<not> contains_str ''YourName'' (trim s))"

definition normalize_effort :: "(string \<Rightarrow> string) \<Rightarrow> string \<Rightarrow> string" where
  "normalize_effort u s =
     (let e = to_lowercase u (trim s) in if e \<in> {''low'', ''medium'', ''high'', ''xhigh'', ''max''} then e else [])"

definition finite_or :: "fnum \<Rightarrow> fnum \<Rightarrow> fnum \<Rightarrow> fnum \<Rightarrow> fnum" where
  "finite_or v lo hi d = (if is_finite v then (if f_lt v lo then lo else if f_lt hi v then hi else v) else d)"

definition MAX_LOG_DIRECTORIES :: nat where "MAX_LOG_DIRECTORIES = 16"
definition MAX_LOG_DIRECTORY_CHARS :: nat where "MAX_LOG_DIRECTORY_CHARS = 1024"
definition MAX_EVENT_LOG_CHANNELS :: nat where "MAX_EVENT_LOG_CHANNELS = 64"
definition MAX_EVENT_LOG_CHANNEL_CHARS :: nat where "MAX_EVENT_LOG_CHANNEL_CHARS = 256"
definition MAX_MONITORING_INTERVAL_SECS :: nat where "MAX_MONITORING_INTERVAL_SECS = 604800"

text \<open>Both lists are kept by a key, the first spelling of each winning; the key decides what repeats.\<close>

definition add_apart :: "(string \<Rightarrow> string) \<Rightarrow> string \<Rightarrow> string list \<Rightarrow> string list" where
  "add_apart key x safe = (if key x \<in> set (map key safe) then safe else safe @ [x])"

fun collect_channels :: "string list \<Rightarrow> string list \<Rightarrow> string + string list" where
  "collect_channels [] safe = Inr safe"
| "collect_channels (raw # rs) safe =
     (let ch = trim raw in
      if ch = [] then collect_channels rs safe
      else if MAX_EVENT_LOG_CHANNEL_CHARS < char_count ch then Inl ''event-log channel name is too long''
      else if has_control ch then Inl ''event-log channel name contains control characters''
      else collect_channels rs (add_apart to_ascii_lowercase ch safe))"

definition normalize_event_log_channels :: "string list \<Rightarrow> string + string list" where
  "normalize_event_log_channels chs =
     (if MAX_EVENT_LOG_CHANNELS < length chs then Inl ''at most 64 event-log channels are allowed''
      else collect_channels chs [])"

definition add_loaded_channel :: "string \<Rightarrow> string list \<Rightarrow> string list" where
  "add_loaded_channel raw safe =
     (case normalize_event_log_channels [raw] of
        Inl _ \<Rightarrow> safe
      | Inr chs \<Rightarrow> fold (add_apart to_ascii_lowercase) chs safe)"

definition sanitize_loaded_event_log_channels :: "string list \<Rightarrow> string list" where
  "sanitize_loaded_event_log_channels chs = fold add_loaded_channel (take MAX_EVENT_LOG_CHANNELS chs) []"

text \<open>
  A path whose first components are a drive and the root, as \<open>Path::components\<close> of Windows
  parses it; on other platforms no path has a drive.
\<close>

definition drive_rooted :: "bool \<Rightarrow> string \<Rightarrow> bool" where
  "drive_rooted win p =
     (win \<and> (case p of
        c # d # e # _ \<Rightarrow> (is_ascii_upper c \<or> is_ascii_lower c) \<and> d = CHR '':'' \<and> is_sep e
      | _ \<Rightarrow> False))"

definition directory_key :: "string \<Rightarrow> string" where
  "directory_key p = to_ascii_lowercase (replace_char (CHR ''/'') [backslash] p)"

fun collect_directories :: "bool \<Rightarrow> string list \<Rightarrow> string list \<Rightarrow> string + string list" where
  "collect_directories win [] out = Inr out"
| "collect_directories win (raw # rs) out =
     (let p = trim raw in
      if p = [] then collect_directories win rs out
      else if MAX_LOG_DIRECTORY_CHARS < char_count p then Inl ''log directory is too long''
      else if \<not> drive_rooted win p then Inl (''log directory must be an absolute local drive path: '' @ p)
      else collect_directories win rs (add_apart directory_key p out))"

definition normalize_log_directories :: "bool \<Rightarrow> string list \<Rightarrow> string + string list" where
  "normalize_log_directories win ds =
     (if MAX_LOG_DIRECTORIES < length ds then Inl ''at most 16 log directories are allowed''
      else collect_directories win ds [])"

definition add_loaded_directory :: "bool \<Rightarrow> string \<Rightarrow> string list \<Rightarrow> string list" where
  "add_loaded_directory win raw safe =
     (if MAX_LOG_DIRECTORIES \<le> length safe then safe
      else (case normalize_log_directories win [raw] of
          Inl _ \<Rightarrow> safe
        | Inr ds \<Rightarrow> fold (add_apart directory_key) ds safe))"

definition sanitize_loaded_log_directories :: "bool \<Rightarrow> string list \<Rightarrow> string list" where
  "sanitize_loaded_log_directories win ds = fold (add_loaded_directory win) ds []"

section \<open>The advisor's view\<close>

definition advisor_to_view :: "advisor_config \<Rightarrow> advisor_settings" where
  "advisor_to_view a =
     \<lparr>ad_on = ac_enabled a, ad_model = ac_model a, ad_effort = ac_effort a, ad_threshold = ac_threshold a\<rparr>"

definition advisor_apply_view :: "(string \<Rightarrow> string) \<Rightarrow> advisor_settings \<Rightarrow> advisor_config \<Rightarrow> advisor_config" where
  "advisor_apply_view u v a =
     a\<lparr>ac_enabled := ad_on v, ac_model := trim (ad_model v), ac_effort := normalize_effort u (ad_effort v),
       ac_threshold := finite_or (ad_threshold v) (Fin 0) (TOP_THRESHOLD) (LOW_CONFIDENCE)\<rparr>"

section \<open>The settings dialogue\<close>

definition real_set :: "string option \<Rightarrow> bool" where
  "real_set p = (case p of Some s \<Rightarrow> is_real s | None \<Rightarrow> False)"

definition to_ui_settings :: "(string \<Rightarrow> string) \<Rightarrow> config \<Rightarrow> ui_settings" where
  "to_ui_settings u c =
     (let a = cf_api c; m = cf_monitoring c in
      \<lparr>ui_provider = provider_str (ap_provider a), ui_model = ap_model a, ui_update_check_model = ap_update_model a,
       ui_effort = normalize_effort u (ap_effort a), ui_decision_interval = mo_decision_interval m,
       ui_event_log_interval = mo_event_log_poll m, ui_wmi_interval = mo_wmi_poll m, ui_channels = mo_channels m,
       ui_log_directories = mo_directories m, ui_threshold = mo_threshold m,
       ui_openrouter_key_set = False, ui_anthropic_key_set = False, ui_kilo_profile_set = False, ui_kilo_path_set = False,
       ui_ollama_base_url = [], ui_ollama_key_set = False,
       ui_opencode_path_set = real_set (ap_opencode_path a), ui_opencode_profile_set = real_set (ap_opencode_profile a),
       ui_cursor_path_set = real_set (ap_cursor_path a), ui_cursor_profile_set = real_set (ap_cursor_profile a),
       ui_base_url = [], ui_api_key_set = False, ui_game_mode_auto = mo_game_mode_auto m,
       ui_game_mode_boost = mo_game_mode_boost m, ui_watch_screen = mo_watch_screen m\<rparr>)"

definition settings_update_needs_restart :: "config \<Rightarrow> ui_update \<Rightarrow> bool" where
  "settings_update_needs_restart c v =
     (let m = cf_monitoring c in
      mo_channels m \<noteq> up_channels v \<or> mo_directories m \<noteq> up_directories v \<or>
      mo_event_log_poll m \<noteq> up_event_log_poll v \<or> mo_wmi_poll m \<noteq> up_wmi_poll v)"

definition keep_override :: "string option \<Rightarrow> string option \<Rightarrow> string option" where
  "keep_override cur new =
     (case new of None \<Rightarrow> cur | Some v \<Rightarrow> if trim v = [] then cur else Some (trim v))"

definition apply_update :: "(string \<Rightarrow> string) \<Rightarrow> bool \<Rightarrow> ui_update \<Rightarrow> config \<Rightarrow> string + config" where
  "apply_update u win v c =
     (case normalize_event_log_channels (up_channels v) of
        Inl e \<Rightarrow> Inl e
      | Inr channels \<Rightarrow>
          (case normalize_log_directories win (up_directories v) of
             Inl e \<Rightarrow> Inl e
           | Inr directories \<Rightarrow>
               (let provider = provider_parse (up_provider v); a = cf_api c; m = cf_monitoring c; d = cf_advisor c in
                Inr (c\<lparr>
                  cf_advisor := (if provider \<noteq> ap_provider a then d\<lparr>ac_model := []\<rparr> else d),
                  cf_api := a\<lparr>ap_provider := provider, ap_model := up_model v, ap_update_model := up_update_check_model v,
                    ap_effort := normalize_effort u (up_effort v),
                    ap_opencode_path := keep_override (ap_opencode_path a) (up_opencode_path v),
                    ap_opencode_profile := keep_override (ap_opencode_profile a) (up_opencode_profile v),
                    ap_cursor_path := keep_override (ap_cursor_path a) (up_cursor_path v),
                    ap_cursor_profile := keep_override (ap_cursor_profile a) (up_cursor_profile v)\<rparr>,
                  cf_monitoring := m\<lparr>
                    mo_decision_interval := clamp 10 MAX_MONITORING_INTERVAL_SECS (up_decision_interval v),
                    mo_event_log_poll := clamp 5 MAX_MONITORING_INTERVAL_SECS (up_event_log_poll v),
                    mo_wmi_poll := clamp 30 MAX_MONITORING_INTERVAL_SECS (up_wmi_poll v),
                    mo_channels := channels, mo_directories := directories,
                    mo_threshold := finite_or (up_threshold v) (Fin (1 / 2)) (TOP_THRESHOLD) default_confidence,
                    mo_game_mode_auto := up_game_mode_auto v, mo_game_mode_boost := up_game_mode_boost v,
                    mo_watch_screen := (case up_watch_screen v of Some b \<Rightarrow> b | None \<Rightarrow> mo_watch_screen m)\<rparr>\<rparr>))))"

section \<open>Loading\<close>

definition bare_model :: "string \<Rightarrow> string" where
  "bare_model s = (if trim s \<noteq> [] \<and> CHR ''/'' \<notin> set (trim s) then ''ollama/'' @ trim s else s)"

definition sanitize_loaded :: "(string \<Rightarrow> string) \<Rightarrow> bool \<Rightarrow> config \<Rightarrow> config" where
  "sanitize_loaded u win c =
     (let m = cf_monitoring c; a = cf_api c in
      c\<lparr>cf_monitoring := m\<lparr>
          mo_channels := sanitize_loaded_event_log_channels (mo_channels m),
          mo_directories := sanitize_loaded_log_directories win (mo_directories m),
          mo_decision_interval := clamp 10 MAX_MONITORING_INTERVAL_SECS (mo_decision_interval m),
          mo_event_log_poll := clamp 5 MAX_MONITORING_INTERVAL_SECS (mo_event_log_poll m),
          mo_wmi_poll := clamp 30 MAX_MONITORING_INTERVAL_SECS (mo_wmi_poll m),
          mo_threshold := finite_or (mo_threshold m) (Fin (1 / 2)) (TOP_THRESHOLD) default_confidence\<rparr>,
        cf_advisor := (cf_advisor c)\<lparr>ac_threshold :=
          finite_or (ac_threshold (cf_advisor c)) (Fin 0) (TOP_THRESHOLD) (ac_threshold default_advisor)\<rparr>,
        cf_updater := sanitize u (cf_updater c),
        cf_api := (if ap_provider a = OpenCode
                   then a\<lparr>ap_model := bare_model (ap_model a), ap_update_model := bare_model (ap_update_model a)\<rparr>
                   else a)\<rparr>)"

text \<open>The live file, its backup and the temporary file, each absent or holding a text.\<close>

record disk =
  dk_live :: "string option"
  dk_bak :: "string option"
  dk_tmp :: "string option"

definition load :: "(string \<Rightarrow> string) \<Rightarrow> bool \<Rightarrow> (string \<Rightarrow> config option) \<Rightarrow> disk \<Rightarrow> string + config" where
  "load u win parse d =
     (case dk_live d of
        None \<Rightarrow> Inl ''Failed to read config file''
      | Some t \<Rightarrow>
          (case parse t of
             Some c \<Rightarrow> Inr (sanitize_loaded u win c)
           | None \<Rightarrow>
               (case Option.bind (dk_bak d) parse of
                  Some c \<Rightarrow> Inr (sanitize_loaded u win c)
                | None \<Rightarrow> Inl ''Failed to parse config TOML'')))"

section \<open>Saving\<close>

text \<open>
  What the file system does with a save: how much of each text is on the disk while it is being
  written, whether the write ends well, and whether the rename does.
\<close>

record save_io =
  io_bak_part :: string
  io_bak_ok :: bool
  io_tmp_part :: string
  io_tmp_ok :: bool
  io_rename_ok :: bool

text \<open>The result, and every state the disk goes through: a crash leaves one of them.\<close>

definition back_up :: "(string \<Rightarrow> config option) \<Rightarrow> save_io \<Rightarrow> disk \<Rightarrow> disk list" where
  "back_up parse io d =
     (case dk_live d of
        Some t \<Rightarrow>
          if parse t \<noteq> None then
            d\<lparr>dk_bak := Some (io_bak_part io)\<rparr> # (if io_bak_ok io then [d\<lparr>dk_bak := Some t\<rparr>] else [])
          else []
      | None \<Rightarrow> [])"

definition save ::
  "(string \<Rightarrow> config option) \<Rightarrow> (config \<Rightarrow> string option) \<Rightarrow> save_io \<Rightarrow> config \<Rightarrow> disk \<Rightarrow> (string + unit) \<times> disk list" where
  "save parse render io c d =
     (case render c of
        None \<Rightarrow> (Inl ''Failed to serialize config'', [d])
      | Some toml \<Rightarrow>
          (let backed = d # back_up parse io d;
               e = last backed;
               part = e\<lparr>dk_tmp := Some (io_tmp_part io)\<rparr>;
               whole = e\<lparr>dk_tmp := Some toml\<rparr>
           in if \<not> io_tmp_ok io then (Inl ''Failed to write temp config file'', backed @ [part])
              else if \<not> io_rename_ok io then (Inl ''Failed to replace config file'', backed @ [part, whole])
              else (Inr (), backed @ [part, whole, whole\<lparr>dk_live := Some toml, dk_tmp := None\<rparr>])))"

lemma back_up_live: "e \<in> set (back_up parse io d) \<Longrightarrow> dk_live e = dk_live d"
  by (auto simp: back_up_def split: option.splits if_splits)

text \<open>A backup is only touched while the live file parses, so it never matters then.\<close>

lemma load_back_up: "e \<in> set (back_up parse io d) \<Longrightarrow> load u win parse e = load u win parse d"
  by (auto simp: back_up_def load_def split: option.splits if_splits)

lemma load_last_backed: "load u win parse (last (d # back_up parse io d)) = load u win parse d"
proof (cases "back_up parse io d = []")
  case False
  then have "last (d # back_up parse io d) \<in> set (back_up parse io d)" by (simp add: last_in_set)
  then show ?thesis by (rule load_back_up)
qed simp

lemma load_tmp: "load u win parse (d\<lparr>dk_tmp := t\<rparr>) = load u win parse d"
  by (simp add: load_def split: option.split)


section \<open>Limits\<close>

definition keyed_apart :: "(string \<Rightarrow> string) \<Rightarrow> string list \<Rightarrow> bool" where
  "keyed_apart key xs = distinct (map key xs)"

definition channels_ok :: "string list \<Rightarrow> bool" where
  "channels_ok chs =
     (length chs \<le> 64 \<and> keyed_apart to_ascii_lowercase chs \<and>
      list_all (\<lambda>ch. ch \<noteq> [] \<and> char_count ch \<le> 256 \<and> \<not> has_control ch) chs)"

definition directories_ok :: "bool \<Rightarrow> string list \<Rightarrow> bool" where
  "directories_ok win ds =
     (length ds \<le> 16 \<and> keyed_apart directory_key ds \<and> list_all (\<lambda>p. drive_rooted win p \<and> char_count p \<le> 1024) ds)"

definition between :: "rat \<Rightarrow> fnum \<Rightarrow> fnum \<Rightarrow> bool" where
  "between lo hi v = (is_finite v \<and> f_le (Fin lo) v \<and> f_le v hi)"

definition within_limits :: "bool \<Rightarrow> config \<Rightarrow> bool" where
  "within_limits win c =
     (let m = cf_monitoring c in
      channels_ok (mo_channels m) \<and> directories_ok win (mo_directories m) \<and>
      10 \<le> mo_decision_interval m \<and> mo_decision_interval m \<le> 604800 \<and>
      5 \<le> mo_event_log_poll m \<and> mo_event_log_poll m \<le> 604800 \<and>
      30 \<le> mo_wmi_poll m \<and> mo_wmi_poll m \<le> 604800 \<and>
      between (1 / 2) (TOP_THRESHOLD) (mo_threshold m) \<and>
      between 0 (TOP_THRESHOLD) (ac_threshold (cf_advisor c)) \<and>
      config_ok (cf_updater c))"

lemma quotient_half: "quotient_of (1 / 2) = (1, 2)"
  by code_simp

lemma quotient_seven_eighths: "quotient_of (7 / 8) = (7, 8)"
  by code_simp

lemma representable_half: "representable f32 (1 / 2)"
  by (simp add: representable_def rnd_def round_pos_def ulp_def f32_def expo_def pow2_def bit_len.simps rne_def
      quotient_half)

lemma representable_seven_eighths: "representable f32 (7 / 8)"
  by (simp add: representable_def rnd_def round_pos_def ulp_def f32_def expo_def pow2_def bit_len.simps rne_def
      quotient_seven_eighths)

lemma upper_limit: "\<exists>h. TOP_THRESHOLD = Fin h \<and> 7 / 8 \<le> h"
  using r32.round_le [OF representable_1_32, of "95 / 100"] r32.round_ge [OF representable_seven_eighths, of "95 / 100"]
  unfolding TOP_THRESHOLD_def by auto

lemma below_top:
  assumes "representable f32 lo" and "0 < lo" and "lo \<le> q" and "q \<le> 7 / 8"
  shows "between lo TOP_THRESHOLD (rnd f32 q)"
proof -
  have "0 \<le> q" using assms(2,3) by simp
  from r32.round_le [OF representable_seven_eighths this assms(4)] obtain r where r: "rnd f32 q = Fin r" "r \<le> 7 / 8"
    by blast
  obtain h where h: "TOP_THRESHOLD = Fin h" "7 / 8 \<le> h" using upper_limit by blast
  from r32.round_ge [OF assms(1-3)] r h(2) show ?thesis unfolding h(1) by (simp add: between_def)
qed

lemma default_limits: "between (1 / 2) TOP_THRESHOLD default_confidence" "between 0 TOP_THRESHOLD LOW_CONFIDENCE"
proof -
  show "between (1 / 2) TOP_THRESHOLD default_confidence"
    unfolding default_confidence_def by (rule below_top [OF representable_half]) simp_all
  have "between (1 / 2) TOP_THRESHOLD LOW_CONFIDENCE"
    unfolding LOW_CONFIDENCE_def by (rule below_top [OF representable_half]) simp_all
  moreover have "f_le (Fin 0) x" if "f_le (Fin (1 / 2)) x" for x using that by (cases x) simp_all
  ultimately show "between 0 TOP_THRESHOLD LOW_CONFIDENCE" by (simp add: between_def)
qed

lemma finite_or_between:
  assumes "between lo (TOP_THRESHOLD) d" and "lo \<le> 7 / 8"
  shows "between lo (TOP_THRESHOLD) (finite_or v (Fin lo) (TOP_THRESHOLD) d)"
proof -
  obtain h where h: "TOP_THRESHOLD = Fin h" "7 / 8 \<le> h" using upper_limit by blast
  show ?thesis using assms h(2) unfolding h(1) by (cases v) (auto simp: finite_or_def between_def)
qed

lemma add_apart_keeps:
  "keyed_apart key safe \<Longrightarrow> keyed_apart key (add_apart key x safe)"
  "length (add_apart key x safe) \<le> length safe + 1"
  "set (add_apart key x safe) \<subseteq> set safe \<union> {x}"
  by (auto simp: add_apart_def keyed_apart_def)

lemma fold_add_apart:
  "keyed_apart key safe \<Longrightarrow>
     keyed_apart key (fold (add_apart key) xs safe) \<and>
     length (fold (add_apart key) xs safe) \<le> length safe + length xs \<and>
     set (fold (add_apart key) xs safe) \<subseteq> set safe \<union> set xs"
proof (induction xs arbitrary: safe)
  case (Cons x xs)
  from Cons.IH [OF add_apart_keeps(1) [OF Cons.prems, of x]] add_apart_keeps(2) [of key x safe]
    add_apart_keeps(3) [of key x safe]
  show ?case by fastforce
qed simp

abbreviation channel_ok :: "string \<Rightarrow> bool" where
  "channel_ok ch \<equiv> ch \<noteq> [] \<and> char_count ch \<le> 256 \<and> \<not> has_control ch"

abbreviation directory_ok :: "bool \<Rightarrow> string \<Rightarrow> bool" where
  "directory_ok win p \<equiv> drive_rooted win p \<and> char_count p \<le> 1024"

lemma collect_channels_ok:
  "collect_channels chs safe = Inr out \<Longrightarrow> keyed_apart to_ascii_lowercase safe \<Longrightarrow> \<forall>ch \<in> set safe. channel_ok ch \<Longrightarrow>
     keyed_apart to_ascii_lowercase out \<and> length out \<le> length safe + length chs \<and> (\<forall>ch \<in> set out. channel_ok ch)"
proof (induction chs safe arbitrary: out rule: collect_channels.induct)
  case (2 raw rs safe)
  show ?case
  proof (cases "trim raw = []")
    case True
    with "2.prems"(1) have "collect_channels rs safe = Inr out" by simp
    from "2.IH"(1) [OF refl True this "2.prems"(2,3)] show ?thesis by auto
  next
    case False
    let ?safe = "add_apart to_ascii_lowercase (trim raw) safe"
    from False "2.prems"(1) have ok: "\<not> MAX_EVENT_LOG_CHANNEL_CHARS < char_count (trim raw)" "\<not> has_control (trim raw)"
      and rest: "collect_channels rs ?safe = Inr out"
      by (auto simp: Let_def split: if_splits)
    have "\<forall>ch \<in> set ?safe. channel_ok ch"
      using ok False "2.prems"(3) add_apart_keeps(3) [of to_ascii_lowercase "trim raw" safe]
      by (auto simp: MAX_EVENT_LOG_CHANNEL_CHARS_def)
    from "2.IH"(2) [OF refl False ok rest add_apart_keeps(1) [OF "2.prems"(2)] this]
      add_apart_keeps(2) [of to_ascii_lowercase "trim raw" safe]
    show ?thesis by auto
  qed
qed simp

lemma collect_directories_ok:
  "collect_directories win ds out = Inr res \<Longrightarrow> keyed_apart directory_key out \<Longrightarrow> \<forall>p \<in> set out. directory_ok win p \<Longrightarrow>
     keyed_apart directory_key res \<and> length res \<le> length out + length ds \<and> (\<forall>p \<in> set res. directory_ok win p)"
proof (induction win ds out arbitrary: res rule: collect_directories.induct)
  case (2 win raw rs out)
  show ?case
  proof (cases "trim raw = []")
    case True
    with "2.prems"(1) have "collect_directories win rs out = Inr res" by simp
    from "2.IH"(1) [OF refl True this "2.prems"(2,3)] show ?thesis by auto
  next
    case False
    let ?out = "add_apart directory_key (trim raw) out"
    from False "2.prems"(1) have ok: "\<not> MAX_LOG_DIRECTORY_CHARS < char_count (trim raw)" "\<not> \<not> drive_rooted win (trim raw)"
      and rest: "collect_directories win rs ?out = Inr res"
      by (auto simp: Let_def split: if_splits)
    have "\<forall>p \<in> set ?out. directory_ok win p"
      using ok "2.prems"(3) add_apart_keeps(3) [of directory_key "trim raw" out]
      by (auto simp: MAX_LOG_DIRECTORY_CHARS_def)
    from "2.IH"(2) [OF refl False ok rest add_apart_keeps(1) [OF "2.prems"(2)] this]
      add_apart_keeps(2) [of directory_key "trim raw" out]
    show ?thesis by auto
  qed
qed simp

lemma keyed_apart_Nil: "keyed_apart key []"
  by (simp add: keyed_apart_def)

lemma normal_channels_ok: "normalize_event_log_channels chs = Inr out \<Longrightarrow> channels_ok out \<and> length out \<le> length chs"
  using collect_channels_ok [of chs "[]" out]
  by (auto simp: normalize_event_log_channels_def channels_ok_def keyed_apart_Nil list_all_iff MAX_EVENT_LOG_CHANNELS_def
      split: if_splits)

lemma normal_directories_ok:
  "normalize_log_directories win ds = Inr out \<Longrightarrow> directories_ok win out \<and> length out \<le> length ds"
  using collect_directories_ok [of win ds "[]" out]
  by (auto simp: normalize_log_directories_def directories_ok_def keyed_apart_Nil list_all_iff MAX_LOG_DIRECTORIES_def
      split: if_splits)

lemma add_loaded_channel_keeps:
  assumes "keyed_apart to_ascii_lowercase safe" and "\<forall>ch \<in> set safe. channel_ok ch"
  shows "keyed_apart to_ascii_lowercase (add_loaded_channel raw safe) \<and>
    length (add_loaded_channel raw safe) \<le> length safe + 1 \<and> (\<forall>ch \<in> set (add_loaded_channel raw safe). channel_ok ch)"
proof (cases "normalize_event_log_channels [raw]")
  case (Inr chs)
  from normal_channels_ok [OF this] have "channels_ok chs" "length chs \<le> 1" by simp_all
  with fold_add_apart [OF assms(1), of chs] assms(2) Inr show ?thesis
    by (fastforce simp: add_loaded_channel_def channels_ok_def list_all_iff)
qed (use assms in \<open>simp add: add_loaded_channel_def\<close>)

lemma loaded_channels_ok: "channels_ok (sanitize_loaded_event_log_channels chs)"
proof -
  have "keyed_apart to_ascii_lowercase (fold add_loaded_channel xs safe) \<and>
      length (fold add_loaded_channel xs safe) \<le> length safe + length xs \<and>
      (\<forall>ch \<in> set (fold add_loaded_channel xs safe). channel_ok ch)"
    if "keyed_apart to_ascii_lowercase safe" "\<forall>ch \<in> set safe. channel_ok ch" for xs safe
    using that
  proof (induction xs arbitrary: safe)
    case (Cons x xs)
    from add_loaded_channel_keeps [OF Cons.prems, of x] Cons.IH [of "add_loaded_channel x safe"] show ?case by simp
  qed simp
  from this [of "[]" "take MAX_EVENT_LOG_CHANNELS chs"] show ?thesis
    by (auto simp: channels_ok_def sanitize_loaded_event_log_channels_def keyed_apart_Nil list_all_iff MAX_EVENT_LOG_CHANNELS_def)
qed

lemma add_loaded_directory_ok: "directories_ok win safe \<Longrightarrow> directories_ok win (add_loaded_directory win raw safe)"
proof (cases "normalize_log_directories win [raw]")
  case (Inr ds)
  assume safe: "directories_ok win safe"
  from normal_directories_ok [OF Inr] have "directories_ok win ds" "length ds \<le> 1" by simp_all
  with fold_add_apart [of directory_key safe ds] safe Inr show ?thesis
    by (fastforce simp: add_loaded_directory_def directories_ok_def list_all_iff MAX_LOG_DIRECTORIES_def)
qed (simp add: add_loaded_directory_def)

lemma loaded_directories_ok: "directories_ok win (sanitize_loaded_log_directories win ds)"
proof -
  have "directories_ok win (fold (add_loaded_directory win) ds safe)" if "directories_ok win safe" for safe
    using that by (induction ds arbitrary: safe) (simp_all add: add_loaded_directory_ok)
  then show ?thesis by (simp add: sanitize_loaded_log_directories_def directories_ok_def keyed_apart_Nil)
qed

lemma monitoring_clamps:
  "10 \<le> clamp 10 MAX_MONITORING_INTERVAL_SECS x" "clamp 10 MAX_MONITORING_INTERVAL_SECS x \<le> 604800"
  "5 \<le> clamp 5 MAX_MONITORING_INTERVAL_SECS x" "clamp 5 MAX_MONITORING_INTERVAL_SECS x \<le> 604800"
  "30 \<le> clamp 30 MAX_MONITORING_INTERVAL_SECS x" "clamp 30 MAX_MONITORING_INTERVAL_SECS x \<le> 604800"
  by (simp_all add: clamp_def MAX_MONITORING_INTERVAL_SECS_def)

lemma sanitize_within: "within_limits win (sanitize_loaded u win c)"
  by (simp add: within_limits_def sanitize_loaded_def Let_def loaded_channels_ok loaded_directories_ok monitoring_clamps
      finite_or_between default_limits default_advisor_def config_ok_sanitize)

lemma update_within: "within_limits win c \<Longrightarrow> apply_update u win v c = Inr c' \<Longrightarrow> within_limits win c'"
  by (auto simp: within_limits_def apply_update_def Let_def monitoring_clamps finite_or_between default_limits
      dest: normal_channels_ok normal_directories_ok split: sum.splits)

text \<open>
  C34: the configuration is always within its limits. Whatever stands in the file, what is loaded
  watches at most 64 channels and 16 directories, no two the same, every directory on a local
  drive, polls and decides at intervals between their minimum and a week, and acts only above a
  confidence between a half and 0.95; and no change from the settings dialogues leaves these
  limits, whatever the UI sends.
\<close>

theorem config_always_bounded:
  assumes "within_limits win c"
  shows "within_limits win (sanitize_loaded u win d) \<and>
    (case apply_update u win v c of Inr c' \<Rightarrow> within_limits win c' | Inl _ \<Rightarrow> True) \<and>
    within_limits win (c\<lparr>cf_advisor := advisor_apply_view u a (cf_advisor c)\<rparr>) \<and>
    within_limits win (c\<lparr>cf_updater := apply_view s (cf_updater c)\<rparr>)"
proof -
  have "within_limits win (c\<lparr>cf_advisor := advisor_apply_view u a (cf_advisor c)\<rparr>)"
    using assms by (simp add: within_limits_def Let_def advisor_apply_view_def finite_or_between default_limits)
  moreover have "within_limits win (c\<lparr>cf_updater := apply_view s (cf_updater c)\<rparr>)"
    using assms by (simp add: within_limits_def Let_def config_ok_apply)
  ultimately show ?thesis using sanitize_within update_within [OF assms] by (auto split: sum.split)
qed

definition example_config :: config where
  "example_config =
     \<lparr>cf_api = \<lparr>ap_provider = OpenCode, ap_model = ''llama3.2'', ap_update_model = [], ap_effort = [], ap_claude_path = None,
        ap_profile = None, ap_codex_path = None, ap_opencode_path = None, ap_opencode_profile = None,
        ap_cursor_path = None, ap_cursor_profile = None, ap_linux_user = None\<rparr>,
      cf_monitoring = default_monitoring True, cf_audit_db = ''./eir.db'', cf_updater = default_config,
      cf_advisor = default_advisor, cf_service = default_service, cf_notify = []\<rparr>"

lemma config_always_bounded_witness:
  "within_limits True example_config \<and>
   within_limits True (example_config\<lparr>cf_advisor :=
     advisor_apply_view id \<lparr>ad_on = True, ad_model = [], ad_effort = ''max'', ad_threshold = NaN\<rparr> (cf_advisor example_config)\<rparr>)"
proof -
  have "within_limits True example_config"
    by (simp add: within_limits_def example_config_def default_monitoring_def default_advisor_def default_limits
        channels_ok_def directories_ok_def keyed_apart_Nil default_config_ok)
  from config_always_bounded [OF this, of id _ _
      "\<lparr>ad_on = True, ad_model = [], ad_effort = ''max'', ad_threshold = NaN\<rparr>"] this
  show ?thesis by blast
qed


section \<open>A model without its provider\<close>

text \<open>
  The settings dialogue stores the name of a model as it is typed, and only loading adds the
  provider's prefix: until the next start the running service uses the bare name.
\<close>

lemma bare_model_until_restart:
  assumes "apply_update u win v c = Inr c'" and "provider_parse (up_provider v) = OpenCode" and "up_model v = ''llama3.2''"
  shows "ap_model (cf_api c') = ''llama3.2'' \<and> ap_model (cf_api (sanitize_loaded u win c')) = ''ollama/llama3.2''"
proof -
  have "bare_model ''llama3.2'' = ''ollama/llama3.2''" by code_simp
  moreover have "ap_provider (cf_api c') = OpenCode" "ap_model (cf_api c') = ''llama3.2''"
    using assms by (auto simp: apply_update_def Let_def split: sum.splits)
  ultimately show ?thesis by (simp add: sanitize_loaded_def Let_def)
qed

end
