(* ===== verification/Loop_Analysis.thy ===== *)
theory Loop_Analysis
  imports Service_Config
begin

text \<open>
  The analyses of the decision loop (\<open>main.rs\<close>): when a cycle asks the model and when it is skipped, how a
  reaction to fresh signals is paced, the second, deeper pass of the advisor, and the number of those passes
  a day, which is kept in the database. An analysis runs on a task of its own; the loop goes on meanwhile.
\<close>

section \<open>The advisor's second pass\<close>

definition MAX_ESCALATIONS_PER_DAY :: nat where "MAX_ESCALATIONS_PER_DAY = 24"

definition best_confidence :: "problem list \<Rightarrow> fnum" where
  "best_confidence ps = foldl (\<lambda>m p. f_max m (confidence p)) (Fin 0) ps"

definition should_escalate :: "decision \<Rightarrow> advisor_config \<Rightarrow> nat \<Rightarrow> string option" where
  "should_escalate d c escalations_today =
     (if \<not> ac_enabled c then None
      else if trim (ac_model c) = [] \<and> trim (ac_effort c) = [] then None
      else if MAX_ESCALATIONS_PER_DAY \<le> escalations_today then None
      else if needs_deeper_analysis d then Some ''the agent flagged the signals as ambiguous''
      else if problems d \<noteq> [] \<and> f_lt (best_confidence (problems d)) (ac_threshold c) then Some ''confidence was low''
      else None)"

text \<open>The answer of one call to the model: an error, or the decision and what it cost, when that is known.\<close>

type_synonym model_call = "string + (decision \<times> fnum option)"

record analysis_success =
  an_fingerprint :: "string option"
  an_decision :: decision
  an_usage :: "fnum list"
  an_advisor :: advisor_status
  an_spent :: fnum
  an_escalations :: nat
  an_cost :: fnum

text \<open>What the task takes along when it is started.\<close>

record analysis_task =
  tk_config :: advisor_config
  tk_fingerprint :: "string option"
  tk_spent :: fnum
  tk_escalations :: nat

definition usage_list :: "fnum option \<Rightarrow> fnum list" where
  "usage_list c = (case c of Some x \<Rightarrow> [x] | None \<Rightarrow> [])"

definition base_success :: "analysis_task \<Rightarrow> decision \<Rightarrow> fnum option \<Rightarrow> analysis_success" where
  "base_success k d cost =
     \<lparr>an_fingerprint = tk_fingerprint k, an_decision = d, an_usage = usage_list cost,
      an_advisor = \<lparr>av_enabled = ac_enabled (tk_config k), av_escalated = False, av_model = [], av_reason = [],
                    av_spent = tk_spent k, av_settings = advisor_to_view (tk_config k)\<rparr>,
      an_spent = tk_spent k, an_escalations = tk_escalations k, an_cost = f_sub f64 (tk_spent k) (tk_spent k)\<rparr>"

definition escalated_success ::
  "analysis_task \<Rightarrow> string \<Rightarrow> fnum option \<Rightarrow> decision \<Rightarrow> fnum option \<Rightarrow> analysis_success" where
  "escalated_success k reason cost d2 cost2 =
     (let spent = (case cost2 of Some c \<Rightarrow> f_add f64 (tk_spent k) c | None \<Rightarrow> tk_spent k) in
      \<lparr>an_fingerprint = tk_fingerprint k, an_decision = d2, an_usage = usage_list cost @ usage_list cost2,
       an_advisor = \<lparr>av_enabled = ac_enabled (tk_config k), av_escalated = True, av_model = ac_model (tk_config k),
                     av_reason = reason, av_spent = spent, av_settings = advisor_to_view (tk_config k)\<rparr>,
       an_spent = spent, an_escalations = tk_escalations k + 1, an_cost = f_sub f64 spent (tk_spent k)\<rparr>)"

text \<open>The task: one call, and a second one when the first asks for it and the day's cap leaves room.\<close>

definition run_analysis :: "analysis_task \<Rightarrow> model_call \<Rightarrow> model_call \<Rightarrow> string + analysis_success" where
  "run_analysis k first deeper =
     (case first of
        Inl e \<Rightarrow> Inl e
      | Inr (d, cost) \<Rightarrow>
          (case should_escalate d (tk_config k) (tk_escalations k) of
             None \<Rightarrow> Inr (base_success k d cost)
           | Some reason \<Rightarrow>
               (case deeper of
                  Inl e \<Rightarrow> Inr (base_success k d cost)
                | Inr (d2, cost2) \<Rightarrow> Inr (escalated_success k reason cost d2 cost2))))"

datatype analysis_end = AnalysisRan model_call model_call | AnalysisPanicked | AnalysisTimedOut

definition analysis_outcome :: "analysis_task \<Rightarrow> analysis_end \<Rightarrow> string + analysis_success" where
  "analysis_outcome k e =
     (case e of
        AnalysisRan first deeper \<Rightarrow> run_analysis k first deeper
      | AnalysisPanicked \<Rightarrow> Inl ''analysis task panicked''
      | AnalysisTimedOut \<Rightarrow> Inl ''analysis exceeded 30m and was stopped'')"

section \<open>The day's totals\<close>

text \<open>
  The UTC day. The code writes it as text, compares it for equality and uses it as a key, so its number
  stands for it. A row of \<open>advisor_daily_spend\<close> is the money spent and the passes made.
\<close>

definition utc_day :: "instant \<Rightarrow> int" where
  "utc_day t = unix_secs t div 86400"

type_synonym day_table = "(int \<times> (fnum \<times> int)) list"

definition U32_MAX :: int where "U32_MAX = 2 ^ 32 - 1"

definition load_advisor_day :: "int \<Rightarrow> day_table \<Rightarrow> fnum \<times> nat" where
  "load_advisor_day on_day t =
     (case tbl_get t on_day of
        Some (spent, n) \<Rightarrow> (if is_finite spent then f_max spent (Fin 0) else Fin 0, nat (min (max n 0) U32_MAX))
      | None \<Rightarrow> (Fin 0, 0))"

definition save_advisor_day :: "int \<Rightarrow> fnum \<Rightarrow> nat \<Rightarrow> day_table \<Rightarrow> day_table" where
  "save_advisor_day on_day spent n t = tbl_put on_day (spent, int n) t"

section \<open>The loop\<close>

record analysis_loop =
  lo_paused :: bool
  lo_investigation :: "string option"
  lo_in_flight :: bool
  lo_running :: bool
  lo_task :: "analysis_task option"
  lo_fingerprint :: "string option"
  lo_last_at :: "instant option"
  lo_react_at :: "instant option"
  lo_last_cycle :: instant
  lo_day :: int
  lo_spent :: fnum
  lo_escalations :: nat
  lo_advisor :: "advisor_status option"
  lo_days :: day_table
  lo_last_analysis :: string
  lo_error :: "string option"

definition ANALYSIS_HEARTBEAT :: instant where "ANALYSIS_HEARTBEAT = 6 * 3600 * second"
definition REACTIVE_DEBOUNCE :: instant where "REACTIVE_DEBOUNCE = 10 * second"
definition REACTIVE_MIN_GAP :: instant where "REACTIVE_MIN_GAP = 60 * second"

text \<open>A collector saw something actionable: a reaction is scheduled, unless one is already.\<close>

definition schedule_reaction :: "instant \<Rightarrow> analysis_loop \<Rightarrow> analysis_loop" where
  "schedule_reaction t s =
     (case lo_react_at s of
        None \<Rightarrow> s\<lparr>lo_react_at := Some (max (t + REACTIVE_DEBOUNCE) (lo_last_cycle s + REACTIVE_MIN_GAP))\<rparr>
      | Some _ \<Rightarrow> s)"

definition reaction_due :: "instant \<Rightarrow> analysis_loop \<Rightarrow> bool" where
  "reaction_due t s = (\<not> lo_running s \<and> (case lo_react_at s of Some at_time \<Rightarrow> at_time \<le> t | None \<Rightarrow> False))"

definition game_ended :: "instant \<Rightarrow> analysis_loop \<Rightarrow> analysis_loop" where
  "game_ended t s =
     s\<lparr>lo_fingerprint := None,
       lo_react_at := (case lo_react_at s of None \<Rightarrow> Some (t + REACTIVE_DEBOUNCE) | Some x \<Rightarrow> Some x)\<rparr>"

definition pause_toggled :: "instant \<Rightarrow> analysis_loop \<Rightarrow> analysis_loop" where
  "pause_toggled t s =
     (let s = s\<lparr>lo_paused := \<not> lo_paused s\<rparr> in
      if \<not> lo_paused s \<and> lo_investigation s \<noteq> None then s\<lparr>lo_react_at := Some t\<rparr> else s)"

definition investigation_accepted :: "instant \<Rightarrow> string \<Rightarrow> analysis_loop \<Rightarrow> analysis_loop" where
  "investigation_accepted t description s =
     s\<lparr>lo_investigation := Some (trim description), lo_react_at := Some t\<rparr>"

definition begin_cycle :: "instant \<Rightarrow> analysis_loop \<Rightarrow> analysis_loop" where
  "begin_cycle t s =
     s\<lparr>lo_last_cycle := t, lo_react_at := (if lo_running s then lo_react_at s else None)\<rparr>"

definition clear_error :: "analysis_loop \<Rightarrow> analysis_loop" where
  "clear_error s = (if lo_paused s then s else s\<lparr>lo_error := None\<rparr>)"

text \<open>Whether the model is asked. \<open>fp\<close> is the fingerprint of the signals collected.\<close>

definition changed_signals :: "string option \<Rightarrow> analysis_loop \<Rightarrow> bool" where
  "changed_signals fp s = (lo_investigation s \<noteq> None \<or> fp \<noteq> None \<and> fp \<noteq> lo_fingerprint s)"

definition heartbeat_due :: "instant \<Rightarrow> analysis_loop \<Rightarrow> bool" where
  "heartbeat_due t s = (case lo_last_at s of Some l \<Rightarrow> ANALYSIS_HEARTBEAT \<le> t - l | None \<Rightarrow> True)"

definition roll_day :: "int \<Rightarrow> analysis_loop \<Rightarrow> analysis_loop" where
  "roll_day today s =
     (if lo_day s = today then s else s\<lparr>lo_day := today, lo_spent := Fin 0, lo_escalations := 0\<rparr>)"

definition launch_analysis :: "instant \<Rightarrow> advisor_config \<Rightarrow> string option \<Rightarrow> analysis_loop \<Rightarrow> analysis_loop" where
  "launch_analysis t cfg fp s =
     (let s = roll_day (utc_day t) s in
      s\<lparr>lo_running := True, lo_in_flight := (lo_investigation s \<noteq> None),
        lo_task := Some \<lparr>tk_config = cfg, tk_fingerprint = fp, tk_spent = lo_spent s, tk_escalations = lo_escalations s\<rparr>\<rparr>)"

definition skip_analysis :: "string option \<Rightarrow> analysis_loop \<Rightarrow> analysis_loop" where
  "skip_analysis fp s = clear_error (if fp = None then s\<lparr>lo_fingerprint := None\<rparr> else s)"

text \<open>
  One cycle: \<open>lapsed\<close> is a game's lease that ran out, \<open>attended\<close> that a tray is connected or none is required,
  \<open>ai\<close> that a provider is configured.
\<close>

record cycle_inputs =
  ci_lapsed :: bool
  ci_attended :: bool
  ci_ai :: bool
  ci_config :: advisor_config
  ci_snapshot :: snapshot

definition reconciled :: "instant \<Rightarrow> cycle_inputs \<Rightarrow> analysis_loop \<Rightarrow> analysis_loop" where
  "reconciled t c s = (let s = begin_cycle t s in if ci_lapsed c then s\<lparr>lo_fingerprint := None\<rparr> else s)"

definition loop_cycle ::
  "(string \<Rightarrow> string) \<Rightarrow> (string list \<Rightarrow> string) \<Rightarrow> instant \<Rightarrow> cycle_inputs \<Rightarrow> analysis_loop \<Rightarrow> analysis_loop" where
  "loop_cycle u hash t c s =
     (let s = reconciled t c s in
         if \<not> ci_attended c \<or> lo_paused s \<or> \<not> ci_ai c then s
         else if lo_running s then clear_error s
         else (let fp = actionable_fingerprint u hash ((ci_snapshot c)\<lparr>user_report := lo_investigation s\<rparr>) in
               if changed_signals fp s \<or> heartbeat_due t s then launch_analysis t (ci_config c) fp s
               else skip_analysis fp s))"

definition finish_report :: "analysis_loop \<Rightarrow> analysis_loop" where
  "finish_report s = (if lo_in_flight s then s\<lparr>lo_in_flight := False, lo_investigation := None\<rparr> else s)"

text \<open>The totals the task computed, or, when the day changed under it, its own share of them.\<close>

definition fold_totals :: "int \<Rightarrow> analysis_success \<Rightarrow> analysis_loop \<Rightarrow> analysis_loop" where
  "fold_totals today r s =
     (if lo_day s \<noteq> today then
        s\<lparr>lo_day := today, lo_spent := an_cost r, lo_escalations := (if av_escalated (an_advisor r) then 1 else 0)\<rparr>
      else s\<lparr>lo_spent := an_spent r, lo_escalations := an_escalations r\<rparr>)"

definition merge_advisor :: "advisor_status \<Rightarrow> advisor_status option \<Rightarrow> advisor_status" where
  "merge_advisor new old =
     (case old of
        Some a \<Rightarrow> a\<lparr>av_escalated := av_escalated new, av_model := av_model new, av_reason := av_reason new,
                   av_spent := av_spent new\<rparr>
      | None \<Rightarrow> new)"

definition loop_analysis_done :: "instant \<Rightarrow> bool \<Rightarrow> string + analysis_success \<Rightarrow> analysis_loop \<Rightarrow> analysis_loop" where
  "loop_analysis_done t saved outcome s =
     (let s = s\<lparr>lo_running := False, lo_task := None\<rparr> in
      case outcome of
        Inl e \<Rightarrow> finish_report (s\<lparr>lo_error := Some (''AI: '' @ e)\<rparr>)
      | Inr r \<Rightarrow>
          (let s = s\<lparr>lo_fingerprint := an_fingerprint r, lo_last_at := Some t, lo_last_analysis := analysis (an_decision r)\<rparr>;
               s = clear_error (finish_report s);
               s = fold_totals (utc_day t) r s;
               s = s\<lparr>lo_advisor := Some (merge_advisor (an_advisor r) (lo_advisor s))\<rparr>
           in if saved then s\<lparr>lo_days := save_advisor_day (lo_day s) (lo_spent s) (lo_escalations s) (lo_days s)\<rparr> else s))"

text \<open>A start of the service: everything in memory is new, the table stays.\<close>

definition loop_started :: "instant \<Rightarrow> bool \<Rightarrow> advisor_config \<Rightarrow> day_table \<Rightarrow> analysis_loop" where
  "loop_started t loaded cfg days =
     (let totals = (if loaded then load_advisor_day (utc_day t) days else (Fin 0, 0)) in
      \<lparr>lo_paused = False, lo_investigation = None, lo_in_flight = False, lo_running = False, lo_task = None,
       lo_fingerprint = None, lo_last_at = None, lo_react_at = None, lo_last_cycle = t, lo_day = utc_day t,
       lo_spent = fst totals, lo_escalations = snd totals,
       lo_advisor = Some \<lparr>av_enabled = ac_enabled cfg, av_escalated = False, av_model = [], av_reason = [],
                          av_spent = Fin 0, av_settings = advisor_to_view cfg\<rparr>,
       lo_days = days, lo_last_analysis = [], lo_error = None\<rparr>)"

section \<open>Every event\<close>

datatype analysis_event =
    SignalSeen instant
  | GameEnded instant
  | PauseToggled instant
  | InvestigationAccepted instant string
  | CycleRuns instant cycle_inputs
  | AnalysisEnds instant bool analysis_end
  | ServiceRestarts instant bool advisor_config

fun event_time :: "analysis_event \<Rightarrow> instant" where
  "event_time (SignalSeen t) = t"
| "event_time (GameEnded t) = t"
| "event_time (PauseToggled t) = t"
| "event_time (InvestigationAccepted t d) = t"
| "event_time (CycleRuns t c) = t"
| "event_time (AnalysisEnds t saved e) = t"
| "event_time (ServiceRestarts t loaded cfg) = t"

text \<open>An analysis ends only after it was started.\<close>

fun analysis_enabled :: "analysis_event \<Rightarrow> analysis_loop \<Rightarrow> bool" where
  "analysis_enabled (AnalysisEnds t saved e) s = (lo_task s \<noteq> None)"
| "analysis_enabled e s = True"

fun analysis_step ::
  "(string \<Rightarrow> string) \<Rightarrow> (string list \<Rightarrow> string) \<Rightarrow> analysis_event \<Rightarrow> analysis_loop \<Rightarrow> analysis_loop" where
  "analysis_step u hash (SignalSeen t) s = schedule_reaction t s"
| "analysis_step u hash (GameEnded t) s = game_ended t s"
| "analysis_step u hash (PauseToggled t) s = pause_toggled t s"
| "analysis_step u hash (InvestigationAccepted t d) s = investigation_accepted t d s"
| "analysis_step u hash (CycleRuns t c) s = loop_cycle u hash t c s"
| "analysis_step u hash (AnalysisEnds t saved e) s =
     (case lo_task s of Some k \<Rightarrow> loop_analysis_done t saved (analysis_outcome k e) s | None \<Rightarrow> s)"
| "analysis_step u hash (ServiceRestarts t loaded cfg) s = loop_started t loaded cfg (lo_days s)"

text \<open>The days on which the result of a second pass was folded in, the newest first.\<close>

fun escalated_on :: "analysis_event \<Rightarrow> analysis_loop \<Rightarrow> int list" where
  "escalated_on (AnalysisEnds t saved e) s =
     (case lo_task s of
        Some k \<Rightarrow> (case analysis_outcome k e of
            Inr r \<Rightarrow> if av_escalated (an_advisor r) then [utc_day t] else []
          | Inl _ \<Rightarrow> [])
      | None \<Rightarrow> [])"
| "escalated_on e s = []"

text \<open>The database took every row and gave it back at every start.\<close>

fun durable :: "analysis_event \<Rightarrow> bool" where
  "durable (AnalysisEnds t saved e) = saved"
| "durable (ServiceRestarts t loaded cfg) = loaded"
| "durable e = True"

text \<open>The runs from a first start on an empty table, with a clock that does not go back.\<close>

inductive analysis_run ::
  "(string \<Rightarrow> string) \<Rightarrow> (string list \<Rightarrow> string) \<Rightarrow> instant \<Rightarrow> analysis_event list \<Rightarrow> analysis_loop \<Rightarrow> int list \<Rightarrow> bool"
  for u hash where
  first_start: "analysis_run u hash t [] (loop_started t True cfg []) []"
| next_event: "analysis_run u hash t es s folded \<Longrightarrow> analysis_enabled e s \<Longrightarrow> t \<le> event_time e \<Longrightarrow>
    analysis_run u hash (event_time e) (es @ [e]) (analysis_step u hash e s) (escalated_on e s @ folded)"

section \<open>The cap on second passes\<close>

lemma should_escalate_room: "should_escalate d c n = Some r \<Longrightarrow> n < MAX_ESCALATIONS_PER_DAY"
  by (simp add: should_escalate_def split: if_splits)

lemma outcome_totals:
  assumes "analysis_outcome k e = Inr r"
  shows "an_escalations r = tk_escalations k + (if av_escalated (an_advisor r) then 1 else 0) \<and>
         (av_escalated (an_advisor r) \<longrightarrow> tk_escalations k < MAX_ESCALATIONS_PER_DAY)"
  using assms
  by (auto simp: analysis_outcome_def run_analysis_def base_success_def escalated_success_def Let_def
      dest: should_escalate_room split: analysis_end.splits sum.splits option.splits)

text \<open>The part of the state the count depends on.\<close>

definition totals :: "analysis_loop \<Rightarrow> analysis_task option \<times> int \<times> nat \<times> day_table" where
  "totals s = (lo_task s, lo_day s, lo_escalations s, lo_days s)"

definition rows_ok :: "int list \<Rightarrow> day_table \<Rightarrow> bool" where
  "rows_ok folded t = (\<forall>d. (case tbl_get t d of Some (_, n) \<Rightarrow> n = int (count_list folded d) | None \<Rightarrow> count_list folded d = 0))"

definition cap_ok :: "instant \<Rightarrow> int list \<Rightarrow> analysis_task option \<times> int \<times> nat \<times> day_table \<Rightarrow> bool" where
  "cap_ok t folded x =
     (case x of (task, on_day, n, rows) \<Rightarrow>
        on_day \<le> utc_day t \<and> (\<forall>d. count_list folded d \<le> MAX_ESCALATIONS_PER_DAY) \<and>
        (\<forall>d > on_day. count_list folded d = 0) \<and> n = count_list folded on_day \<and> rows_ok folded rows \<and>
        (\<forall>k. task = Some k \<longrightarrow> tk_escalations k = n))"

lemma utc_day_mono: "t \<le> t' \<Longrightarrow> utc_day t \<le> utc_day t'"
  by (simp add: utc_day_def unix_secs_def second_def zdiv_mono1)

lemma cap_later: "cap_ok t folded x \<Longrightarrow> t \<le> t' \<Longrightarrow> cap_ok t' folded x"
  using utc_day_mono [of t t'] by (auto simp: cap_ok_def split: prod.splits)

lemma load_count:
  assumes "rows_ok folded rows" and "\<forall>d. count_list folded d \<le> MAX_ESCALATIONS_PER_DAY"
  shows "snd (load_advisor_day on_day rows) = count_list folded on_day"
proof -
  have "int (count_list folded on_day) \<le> U32_MAX"
    using assms(2) [rule_format, of on_day] by (simp add: MAX_ESCALATIONS_PER_DAY_def U32_MAX_def)
  then show ?thesis
    using assms(1) by (auto simp: rows_ok_def load_advisor_day_def split: option.splits dest!: spec [of _ on_day])
qed

lemma cap_roll:
  assumes "cap_ok t folded (task, on_day, n, rows)" and "on_day \<le> today" "today \<le> utc_day t"
  shows "cap_ok t folded (None, today, (if on_day = today then n else 0), rows)"
  using assms by (auto simp: cap_ok_def)

lemma totals_quiet [simp]:
  "totals (schedule_reaction t s) = totals s" "totals (game_ended t s) = totals s" "totals (pause_toggled t s) = totals s"
  "totals (investigation_accepted t d s) = totals s" "totals (begin_cycle t s) = totals s" "totals (clear_error s) = totals s"
  "totals (skip_analysis fp s) = totals s" "totals (finish_report s) = totals s"
  by (simp_all add: totals_def schedule_reaction_def game_ended_def pause_toggled_def investigation_accepted_def
      begin_cycle_def clear_error_def skip_analysis_def finish_report_def Let_def split: option.split)

lemma totals_fingerprint [simp]: "totals (s\<lparr>lo_fingerprint := x\<rparr>) = totals s"
  by (simp add: totals_def)

lemma cap_launch:
  assumes "cap_ok t folded (totals s)"
  shows "cap_ok t folded (totals (launch_analysis t cfg fp s))"
proof -
  define r where "r = roll_day (utc_day t) s"
  have r: "lo_day r = utc_day t \<and> lo_escalations r = (if lo_day s = utc_day t then lo_escalations s else 0) \<and> lo_days r = lo_days s"
    by (simp add: r_def roll_day_def)
  from assms have "lo_day s \<le> utc_day t" by (simp add: totals_def cap_ok_def)
  with cap_roll [of t folded "lo_task s" "lo_day s" "lo_escalations s" "lo_days s" "utc_day t"] assms r
  have "cap_ok t folded (None, lo_day r, lo_escalations r, lo_days r)" by (simp add: totals_def)
  then show ?thesis by (simp add: launch_analysis_def r_def [symmetric] Let_def totals_def cap_ok_def)
qed

lemma totals_reconciled [simp]: "totals (reconciled t c s) = totals s"
  by (simp add: reconciled_def Let_def)

lemma cap_cycle:
  assumes "cap_ok t folded (totals s)"
  shows "cap_ok t folded (totals (loop_cycle u hash t c s))"
  using assms cap_launch [of t folded "reconciled t c s"] by (simp add: loop_cycle_def Let_def)

lemma fold_totals_cap:
  assumes cap: "cap_ok t folded (Some k, lo_day s, lo_escalations s, lo_days s)" and out: "analysis_outcome k e = Inr r"
  defines "new \<equiv> (if av_escalated (an_advisor r) then [utc_day t] else []) @ folded"
  defines "s' \<equiv> fold_totals (utc_day t) r s"
  shows "lo_day s' = utc_day t \<and> lo_escalations s' = count_list new (utc_day t) \<and> lo_days s' = lo_days s \<and>
    (\<forall>d. count_list new d \<le> MAX_ESCALATIONS_PER_DAY) \<and> (\<forall>d > utc_day t. count_list new d = 0) \<and>
    (\<forall>d. d \<noteq> utc_day t \<longrightarrow> count_list new d = count_list folded d)"
proof -
  from cap have le: "lo_day s \<le> utc_day t" and few: "\<forall>d. count_list folded d \<le> MAX_ESCALATIONS_PER_DAY"
    and none: "\<forall>d > lo_day s. count_list folded d = 0" and n: "lo_escalations s = count_list folded (lo_day s)"
    and k: "tk_escalations k = lo_escalations s" by (simp_all add: cap_ok_def)
  have tot: "an_escalations r = tk_escalations k + (if av_escalated (an_advisor r) then 1 else 0)"
    and room: "av_escalated (an_advisor r) \<Longrightarrow> tk_escalations k < MAX_ESCALATIONS_PER_DAY"
    using outcome_totals [OF out] by simp_all
  have now: "count_list folded (utc_day t) = (if lo_day s = utc_day t then lo_escalations s else 0)"
    using le none n by auto
  have cap1: "av_escalated (an_advisor r) \<Longrightarrow> count_list folded (utc_day t) < MAX_ESCALATIONS_PER_DAY"
    using now room k by (simp add: MAX_ESCALATIONS_PER_DAY_def)
  have "\<forall>d. count_list new d \<le> MAX_ESCALATIONS_PER_DAY" using few cap1 by (auto simp: new_def Suc_le_eq)
  moreover have "\<forall>d > utc_day t. count_list new d = 0" using none le by (auto simp: new_def)
  moreover have "\<forall>d. d \<noteq> utc_day t \<longrightarrow> count_list new d = count_list folded d" by (simp add: new_def)
  moreover have "lo_escalations s' = count_list new (utc_day t)" "lo_day s' = utc_day t" "lo_days s' = lo_days s"
    using now tot k by (auto simp: s'_def fold_totals_def new_def)
  ultimately show ?thesis by blast
qed

lemma rows_step:
  assumes "rows_ok folded rows" and "\<forall>d. d \<noteq> on_day \<longrightarrow> count_list new d = count_list folded d"
  shows "rows_ok new (save_advisor_day on_day sp (count_list new on_day) rows)"
  unfolding rows_ok_def
proof
  fix d
  from assms(1) have "case tbl_get rows d of Some (_, n) \<Rightarrow> n = int (count_list folded d) | None \<Rightarrow> count_list folded d = 0"
    by (simp add: rows_ok_def)
  then show "case tbl_get (save_advisor_day on_day sp (count_list new on_day) rows) d of
      Some (_, n) \<Rightarrow> n = int (count_list new d) | None \<Rightarrow> count_list new d = 0"
    using assms(2) by (cases "d = on_day") (auto simp: save_advisor_day_def tbl_get_def map_of_tbl_put split: option.splits prod.splits)
qed

lemma cap_done:
  assumes cap: "cap_ok t folded (totals s)" and task: "lo_task s = Some k"
  shows "cap_ok t (escalated_on (AnalysisEnds t True e) s @ folded) (totals (loop_analysis_done t True (analysis_outcome k e) s))"
proof (cases "analysis_outcome k e")
  case (Inl err)
  have "totals (finish_report (s\<lparr>lo_running := False, lo_task := None, lo_error := Some (''AI: '' @ err)\<rparr>)) =
      (None, lo_day s, lo_escalations s, lo_days s)" by (simp, simp add: totals_def)
  with cap Inl task show ?thesis by (simp add: loop_analysis_done_def totals_def cap_ok_def)
next
  case (Inr r)
  define m where "m = clear_error (finish_report (s\<lparr>lo_running := False, lo_task := None, lo_fingerprint := an_fingerprint r,
    lo_last_at := Some t, lo_last_analysis := analysis (an_decision r)\<rparr>))"
  have m: "totals m = (None, lo_day s, lo_escalations s, lo_days s)" by (simp add: m_def, simp add: totals_def)
  define f where "f = fold_totals (utc_day t) r m"
  from cap task have "cap_ok t folded (Some k, lo_day m, lo_escalations m, lo_days m)" using m by (simp add: totals_def)
  from fold_totals_cap [OF this Inr]
  have f: "lo_day f = utc_day t" "lo_days f = lo_days m"
    "lo_escalations f = count_list (escalated_on (AnalysisEnds t True e) s @ folded) (utc_day t)"
    "\<forall>d. count_list (escalated_on (AnalysisEnds t True e) s @ folded) d \<le> MAX_ESCALATIONS_PER_DAY"
    "\<forall>d > utc_day t. count_list (escalated_on (AnalysisEnds t True e) s @ folded) d = 0"
    "\<forall>d. d \<noteq> utc_day t \<longrightarrow> count_list (escalated_on (AnalysisEnds t True e) s @ folded) d = count_list folded d"
    using Inr task by (simp_all add: f_def)
  have task_f: "lo_task f = None" using m by (simp add: f_def fold_totals_def totals_def)
  have "rows_ok folded (lo_days m)" using cap m by (simp add: totals_def cap_ok_def)
  from rows_step [OF this f(6)] f(3) have
    "rows_ok (escalated_on (AnalysisEnds t True e) s @ folded) (save_advisor_day (utc_day t) (lo_spent f) (lo_escalations f) (lo_days m))"
    by simp
  moreover have "totals (loop_analysis_done t True (analysis_outcome k e) s) =
      (None, utc_day t, lo_escalations f, save_advisor_day (utc_day t) (lo_spent f) (lo_escalations f) (lo_days m))"
    using Inr f(1,2) task_f by (simp add: loop_analysis_done_def Let_def m_def [symmetric] f_def [symmetric] totals_def)
  ultimately show ?thesis using f(3,4,5) by (simp add: cap_ok_def)
qed

lemma run_cap: "analysis_run u hash t es s folded \<Longrightarrow> list_all durable es \<Longrightarrow> cap_ok t folded (totals s)"
proof (induction rule: analysis_run.induct)
  case (first_start t cfg)
  show ?case by (simp add: loop_started_def load_advisor_day_def tbl_get_def totals_def cap_ok_def rows_ok_def)
next
  case (next_event t es s folded e)
  then have cap: "cap_ok (event_time e) folded (totals s)" and dur: "durable e" by (auto intro: cap_later)
  show ?case
  proof (cases e)
    case (CycleRuns t' c)
    then show ?thesis using cap_cycle cap by simp
  next
    case (AnalysisEnds t' saved end')
    then obtain k where "lo_task s = Some k" using next_event by auto
    then show ?thesis using AnalysisEnds cap_done [of t' folded s k end'] cap dur by simp
  next
    case (ServiceRestarts t' loaded cfg)
    have "rows_ok folded (lo_days s)" "\<forall>d. count_list folded d \<le> MAX_ESCALATIONS_PER_DAY"
      "\<forall>d > lo_day s. count_list folded d = 0" "lo_day s \<le> utc_day t'"
      using cap ServiceRestarts by (simp_all add: totals_def cap_ok_def)
    then show ?thesis
      using ServiceRestarts dur load_count [of folded "lo_days s" "utc_day t'"]
      by (auto simp: loop_started_def totals_def cap_ok_def)
  qed (use cap in simp_all)
qed

text \<open>
  C26: no more than 24 second passes a day. In any run of the service, over any number of restarts, with
  analyses that end before or after midnight, fail, hang or panic, and settings that change meanwhile, as long
  as the database keeps its rows and the clock does not go back, at most 24 results of the deeper pass
  are folded in on any one day, and the count shown is exactly that number.
\<close>

theorem second_passes_capped:
  assumes "analysis_run u hash t es s folded" and "list_all durable es"
  shows "count_list folded d \<le> 24 \<and> lo_escalations s = count_list folded (lo_day s)"
  using run_cap [OF assms] by (simp add: totals_def cap_ok_def MAX_ESCALATIONS_PER_DAY_def)

section \<open>No problem is skipped\<close>

definition open_cycle :: "cycle_inputs \<Rightarrow> analysis_loop \<Rightarrow> bool" where
  "open_cycle c s = (ci_attended c \<and> ci_ai c \<and> \<not> lo_paused s \<and> \<not> lo_running s)"

definition cycle_fingerprint ::
  "(string \<Rightarrow> string) \<Rightarrow> (string list \<Rightarrow> string) \<Rightarrow> cycle_inputs \<Rightarrow> analysis_loop \<Rightarrow> string option" where
  "cycle_fingerprint u hash c s = actionable_fingerprint u hash ((ci_snapshot c)\<lparr>user_report := lo_investigation s\<rparr>)"

lemma reconciled_fields [simp]:
  "lo_investigation (reconciled t c s) = lo_investigation s" "lo_running (reconciled t c s) = lo_running s"
  "lo_paused (reconciled t c s) = lo_paused s" "lo_last_at (reconciled t c s) = lo_last_at s"
  "lo_fingerprint (reconciled t c s) = (if ci_lapsed c then None else lo_fingerprint s)"
  by (simp_all add: reconciled_def begin_cycle_def Let_def)

lemma open_cycle_step:
  assumes "open_cycle c s"
  shows "loop_cycle u hash t c s =
    (let fp = cycle_fingerprint u hash c s; s = reconciled t c s in
     if changed_signals fp s \<or> heartbeat_due t s then launch_analysis t (ci_config c) fp s else skip_analysis fp s)"
  using assms by (simp add: loop_cycle_def open_cycle_def cycle_fingerprint_def Let_def)

lemma launch_fields: "lo_running (launch_analysis t cfg fp s)" "lo_fingerprint (launch_analysis t cfg fp s) = lo_fingerprint s"
  by (simp_all add: launch_analysis_def Let_def roll_day_def)

lemma skip_fields:
  "lo_running (skip_analysis fp s) = lo_running s"
  "lo_fingerprint (skip_analysis fp s) = (if fp = None then None else lo_fingerprint s)"
  by (auto simp: skip_analysis_def clear_error_def)

lemma open_cycle_exact:
  assumes "open_cycle c s"
  shows "lo_running (loop_cycle u hash t c s) \<longleftrightarrow>
    lo_investigation s \<noteq> None \<or>
    cycle_fingerprint u hash c s \<noteq> None \<and> (ci_lapsed c \<or> cycle_fingerprint u hash c s \<noteq> lo_fingerprint s) \<or> heartbeat_due t s"
proof -
  from assms have "\<not> lo_running s" by (simp add: open_cycle_def)
  then show ?thesis
    by (auto simp: open_cycle_step [OF assms] Let_def launch_fields skip_fields changed_signals_def heartbeat_due_def)
qed

lemma cycle_keeps_fingerprint:
  assumes "open_cycle c s"
  shows "lo_fingerprint (loop_cycle u hash t c s) =
    (if ci_lapsed c \<or> \<not> lo_running (loop_cycle u hash t c s) \<and> cycle_fingerprint u hash c s = None then None
     else lo_fingerprint s)"
proof -
  from assms have "\<not> lo_running s" by (simp add: open_cycle_def)
  then show ?thesis by (auto simp: open_cycle_step [OF assms] Let_def launch_fields skip_fields)
qed

lemma failed_analysis:
  "lo_fingerprint (loop_analysis_done t saved (Inl e) s) = lo_fingerprint s \<and> \<not> lo_running (loop_analysis_done t saved (Inl e) s)"
  by (simp add: loop_analysis_done_def finish_report_def Let_def)


section \<open>Witnesses\<close>

definition deep_advisor :: advisor_config where
  "deep_advisor = default_advisor\<lparr>ac_enabled := True, ac_model := ''opus''\<rparr>"

definition unsure :: decision where
  "unsure = \<lparr>analysis = ''unclear'', problems = [], needs_deeper_analysis = True\<rparr>"

definition calm_inputs :: cycle_inputs where
  "calm_inputs = \<lparr>ci_lapsed = False, ci_attended = True, ci_ai = True, ci_config = deep_advisor, ci_snapshot = sample_snapshot []\<rparr>"

definition first_state :: analysis_loop where
  "first_state = loop_started 0 True deep_advisor []"


definition asked_state :: analysis_loop where
  "asked_state = loop_cycle id (\<lambda>_. []) 0 calm_inputs first_state"

definition deep_end :: analysis_event where
  "deep_end = AnalysisEnds 0 True (AnalysisRan (Inr (unsure, None)) (Inr (unsure, None)))"

lemma second_passes_capped_witness:
  "lo_escalations (analysis_step id (\<lambda>_. []) deep_end asked_state) = 1"
proof -
  have on_day: "utc_day 0 = 0" by (simp add: utc_day_def unix_secs_def)
  obtain fp where task: "lo_task asked_state =
      Some \<lparr>tk_config = deep_advisor, tk_fingerprint = fp, tk_spent = Fin 0, tk_escalations = 0\<rparr>"
    by (simp add: asked_state_def loop_cycle_def first_state_def loop_started_def begin_cycle_def calm_inputs_def Let_def
        heartbeat_due_def launch_analysis_def roll_day_def load_advisor_day_def tbl_get_def reconciled_def)
  have "trim ''opus'' \<noteq> []" by code_simp
  then have esc: "escalated_on deep_end asked_state = [0]"
    by (simp add: deep_end_def task analysis_outcome_def run_analysis_def should_escalate_def deep_advisor_def unsure_def
        MAX_ESCALATIONS_PER_DAY_def escalated_success_def Let_def on_day)
  have "analysis_run id (\<lambda>_. []) 0 [CycleRuns 0 calm_inputs] asked_state []"
    using next_event [OF first_start, of "CycleRuns 0 calm_inputs" 0 deep_advisor id "\<lambda>_. []"]
    by (simp add: asked_state_def first_state_def)
  from next_event [OF this, of deep_end] esc task
  have run: "analysis_run id (\<lambda>_. []) 0 [CycleRuns 0 calm_inputs, deep_end] (analysis_step id (\<lambda>_. []) deep_end asked_state) [0]"
    by (simp add: deep_end_def)
  have "lo_day (analysis_step id (\<lambda>_. []) deep_end asked_state) = 0"
    by (simp add: deep_end_def task analysis_outcome_def run_analysis_def loop_analysis_done_def fold_totals_def on_day Let_def
        split: option.split)
  with second_passes_capped [OF run, of 0] show ?thesis by (simp add: deep_end_def)
qed

end
