(* ===== verification/Loop_Scans.thy ===== *)
theory Loop_Scans
  imports Scans Gate_Props
begin

text \<open>
  The scans in the decision loop (\<open>main.rs\<close>): a scan is started by a click, runs on a task
  of its own, and is folded into the state when it ends; what a click on one of its rows means is
  looked up in the service's own copy. The startup listing belongs to one user: when another
  signs in, it is neither shown, nor replaced by the first user's late result, nor acted on.
\<close>

section \<open>State\<close>

record scan_cache =
  ca_disk :: "disk_insights option"
  ca_disk_running :: bool
  ca_disk_targets :: "(string \<times> fix_action) list"
  ca_startup :: "startup_view option"
  ca_owner :: "string option"
  ca_startup_running :: bool
  ca_startup_targets :: "(string \<times> startup_toggle) list"

definition no_scans :: scan_cache where
  "no_scans =
     \<lparr>ca_disk = None, ca_disk_running = False, ca_disk_targets = [], ca_startup = None, ca_owner = None,
      ca_startup_running = False, ca_startup_targets = []\<rparr>"

section \<open>Disk\<close>

definition scanning_disk :: "disk_insights option \<Rightarrow> disk_insights" where
  "scanning_disk v =
     \<lparr>dv_running = True, dv_scanned_at = (case v of Some d \<Rightarrow> dv_scanned_at d | None \<Rightarrow> 0), dv_error = None,
      dv_entries = (case v of Some d \<Rightarrow> dv_entries d | None \<Rightarrow> [])\<rparr>"

definition handle_scan_disk :: "bool \<Rightarrow> scan_cache \<Rightarrow> (string + string) \<times> scan_cache" where
  "handle_scan_disk is_paused c =
     (if is_paused then (Inl ''Resume monitoring before scanning'', c)
      else if ca_disk_running c then (Inl ''A disk scan is already running'', c)
      else (Inr ''Disk scan started'', c\<lparr>ca_disk_running := True, ca_disk := Some (scanning_disk (ca_disk c))\<rparr>))"

definition failed_disk :: "string \<Rightarrow> disk_insights option \<Rightarrow> disk_insights" where
  "failed_disk e v =
     \<lparr>dv_running = False, dv_scanned_at = (case v of Some d \<Rightarrow> dv_scanned_at d | None \<Rightarrow> 0), dv_error = Some e,
      dv_entries = (case v of Some d \<Rightarrow> dv_entries d | None \<Rightarrow> [])\<rparr>"

definition disk_done :: "int \<Rightarrow> string + disk_scan_result \<Rightarrow> scan_cache \<Rightarrow> scan_cache" where
  "disk_done secs r c =
     (let c = c\<lparr>ca_disk_running := False\<rparr> in
      case r of
        Inr res \<Rightarrow> c\<lparr>ca_disk_targets := dr_targets res,
            ca_disk := Some \<lparr>dv_running = False, dv_scanned_at = secs, dv_error = None, dv_entries = dr_entries res\<rparr>\<rparr>
      | Inl e \<Rightarrow> c\<lparr>ca_disk := Some (failed_disk e (ca_disk c))\<rparr>)"

definition handle_clean_disk_entry ::
  "env \<Rightarrow> execution_policy \<Rightarrow> io \<Rightarrow> string \<Rightarrow> scan_cache \<Rightarrow> world \<Rightarrow> (string + string) \<times> world" where
  "handle_clean_disk_entry E pol i row c w =
     (case tbl_get (ca_disk_targets c) row of
        Some a \<Rightarrow> route_user_action E pol i a ''User-requested disk cleanup'' ''user-requested cleanup'' False w
      | None \<Rightarrow> (Inl ''Disk entry is stale; scan again'', w))"

section \<open>Startup\<close>

text \<open>SIDs are compared as Windows writes them, in either case; \<open>None\<close> is a session with nobody in it.\<close>

definition startup_owner_matches :: "string option \<Rightarrow> string option \<Rightarrow> bool" where
  "startup_owner_matches owner current =
     (case (owner, current) of (Some a, Some b) \<Rightarrow> eq_ignore_ascii_case a b | _ \<Rightarrow> False)"

definition clear_stale_startup_cache :: "string option \<Rightarrow> scan_cache \<Rightarrow> bool \<times> scan_cache" where
  "clear_stale_startup_cache current c =
     (if ca_owner c = None \<or> startup_owner_matches (ca_owner c) current then (False, c)
      else (True, c\<lparr>ca_startup := None, ca_owner := None, ca_startup_running := False, ca_startup_targets := []\<rparr>))"

text \<open>What the status shows (\<open>build_status\<close>).\<close>

definition shown_startup :: "string option \<Rightarrow> scan_cache \<Rightarrow> startup_view option" where
  "shown_startup current c = (if startup_owner_matches (ca_owner c) current then ca_startup c else None)"

definition scanning_startup :: "startup_view option \<Rightarrow> startup_view" where
  "scanning_startup v =
     \<lparr>su_running = True, su_scanned_at = (case v of Some s \<Rightarrow> su_scanned_at s | None \<Rightarrow> 0), su_error = None,
      su_entries = (case v of Some s \<Rightarrow> su_entries s | None \<Rightarrow> [])\<rparr>"

definition handle_scan_startup :: "bool \<Rightarrow> string option \<Rightarrow> scan_cache \<Rightarrow> (string + string) \<times> scan_cache" where
  "handle_scan_startup is_paused current c =
     (let c = snd (clear_stale_startup_cache current c) in
      if is_paused then (Inl ''Resume monitoring before scanning'', c)
      else (case current of
          None \<Rightarrow> (Inl ''Startup scan requires an active interactive user'', c)
        | Some sid \<Rightarrow>
            if ca_startup_running c then (Inl ''A startup scan is already running'', c)
            else (Inr ''Startup scan started'',
                  c\<lparr>ca_owner := Some sid, ca_startup_running := True,
                    ca_startup := Some (scanning_startup (ca_startup c))\<rparr>)))"

definition failed_startup :: "string \<Rightarrow> startup_view option \<Rightarrow> startup_view" where
  "failed_startup e v =
     \<lparr>su_running = False, su_scanned_at = (case v of Some s \<Rightarrow> su_scanned_at s | None \<Rightarrow> 0), su_error = Some e,
      su_entries = (case v of Some s \<Rightarrow> su_entries s | None \<Rightarrow> [])\<rparr>"

text \<open>A scan of the user \<open>sid\<close> ended, while \<open>current\<close> is signed in.\<close>

definition startup_done ::
  "int \<Rightarrow> string \<Rightarrow> string + startup_scan_result \<Rightarrow> string option \<Rightarrow> scan_cache \<Rightarrow> scan_cache" where
  "startup_done secs sid r current c =
     (if \<not> startup_owner_matches (ca_owner c) (Some sid) \<or> \<not> startup_owner_matches (Some sid) current then
        (if startup_owner_matches (ca_owner c) (Some sid) then snd (clear_stale_startup_cache current c) else c)
      else (case r of
          Inr res \<Rightarrow>
            if \<not> eq_ignore_ascii_case (sr_owner res) sid then snd (clear_stale_startup_cache None c)
            else c\<lparr>ca_startup_running := False, ca_startup_targets := sr_targets res,
                   ca_startup := Some \<lparr>su_running = False, su_scanned_at = secs, su_error = None,
                                       su_entries = sr_entries res\<rparr>\<rparr>
        | Inl e \<Rightarrow> c\<lparr>ca_startup_running := False, ca_startup := Some (failed_startup e (ca_startup c))\<rparr>))"

definition toggle_action :: "startup_toggle \<Rightarrow> bool \<Rightarrow> fix_action" where
  "toggle_action g enable =
     StartupSet (if tg_location g = ''scheduled_task'' then tg_task_path g else tg_name g) (tg_location g)
       (tg_hive g) enable"

text \<open>The cache after a click on a row, and the toggle the row stands for.\<close>

definition startup_target :: "string option \<Rightarrow> string \<Rightarrow> scan_cache \<Rightarrow> startup_toggle option \<times> scan_cache" where
  "startup_target current row c =
     (if startup_owner_matches (ca_owner c) current then (tbl_get (ca_startup_targets c) row, c)
      else (None, snd (clear_stale_startup_cache current c)))"

definition handle_set_startup_entry ::
  "env \<Rightarrow> execution_policy \<Rightarrow> io \<Rightarrow> string option \<Rightarrow> string \<Rightarrow> bool \<Rightarrow> scan_cache \<times> world \<Rightarrow>
     (string + string) \<times> scan_cache \<times> world" where
  "handle_set_startup_entry E pol i current row enable s =
     (let (target, c) = startup_target current row (fst s) in
      case target of
        Some g \<Rightarrow>
          (let (res, w) = route_user_action E pol i (toggle_action g enable)
                 (if enable then ''User re-enabled a startup entry'' else ''User disabled a startup entry'')
                 ''user startup change'' True (snd s)
           in (res, c, w))
      | None \<Rightarrow> (Inl ''Startup entry is stale; scan again'', c, snd s))"

section \<open>The loop\<close>

text \<open>
  The events that touch the cache, with the answers of the outside: whether Eir is paused, who
  is signed in. A scan ends only after it was started.
\<close>

datatype scan_event =
    DiskAsked bool
  | DiskEnded int "string + disk_scan_result"
  | DiskClicked env execution_policy io string
  | StartupAsked bool "string option"
  | StartupEnded int string "string + startup_scan_result" "string option"
  | StartupClicked env execution_policy io "string option" string bool

text \<open>The loop with the scans that are under way: how many of the disk, and whose of the startup entries.\<close>

record scan_loop =
  sl_cache :: scan_cache
  sl_world :: world
  sl_disk_tasks :: nat
  sl_startup_tasks :: "string list"

fun scan_enabled :: "scan_event \<Rightarrow> scan_loop \<Rightarrow> bool" where
  "scan_enabled (DiskEnded secs r) s = (sl_disk_tasks s > 0)"
| "scan_enabled (StartupEnded secs sid r current) s = (sid \<in> set (sl_startup_tasks s))"
| "scan_enabled e s = True"

fun scan_step :: "scan_event \<Rightarrow> scan_loop \<Rightarrow> scan_loop" where
  "scan_step (DiskAsked p) s =
     s\<lparr>sl_cache := snd (handle_scan_disk p (sl_cache s)),
       sl_disk_tasks := (if is_ok (fst (handle_scan_disk p (sl_cache s))) then sl_disk_tasks s + 1 else sl_disk_tasks s)\<rparr>"
| "scan_step (DiskEnded secs r) s =
     s\<lparr>sl_cache := disk_done secs r (sl_cache s), sl_disk_tasks := sl_disk_tasks s - 1\<rparr>"
| "scan_step (DiskClicked E pol i row) s =
     s\<lparr>sl_world := snd (handle_clean_disk_entry E pol i row (sl_cache s) (sl_world s))\<rparr>"
| "scan_step (StartupAsked p current) s =
     s\<lparr>sl_cache := snd (handle_scan_startup p current (sl_cache s)),
       sl_startup_tasks := (if is_ok (fst (handle_scan_startup p current (sl_cache s)))
         then the current # sl_startup_tasks s else sl_startup_tasks s)\<rparr>"
| "scan_step (StartupEnded secs sid r current) s =
     s\<lparr>sl_cache := startup_done secs sid r current (sl_cache s), sl_startup_tasks := remove1 sid (sl_startup_tasks s)\<rparr>"
| "scan_step (StartupClicked E pol i current row enable) s =
     (let after = snd (handle_set_startup_entry E pol i current row enable (sl_cache s, sl_world s)) in
      s\<lparr>sl_cache := fst after, sl_world := snd after\<rparr>)"

definition scan_start :: "world \<Rightarrow> scan_loop" where
  "scan_start w = \<lparr>sl_cache = no_scans, sl_world = w, sl_disk_tasks = 0, sl_startup_tasks = []\<rparr>"

inductive scan_run :: "world \<Rightarrow> scan_event list \<Rightarrow> scan_loop \<Rightarrow> bool" for w where
  run_start: "scan_run w [] (scan_start w)"
| run_step: "scan_run w es s \<Longrightarrow> scan_enabled e s \<Longrightarrow> scan_run w (es @ [e]) (scan_step e s)"

section \<open>Invariants\<close>

text \<open>One disk scan at a time, and the view says so; a startup cache without an owner is empty.\<close>

definition disk_flag_ok :: "nat \<Rightarrow> scan_cache \<Rightarrow> bool" where
  "disk_flag_ok n c =
     (n = (if ca_disk_running c then 1 else 0) \<and>
      (case ca_disk c of Some v \<Rightarrow> dv_running v = ca_disk_running c | None \<Rightarrow> \<not> ca_disk_running c))"

definition unowned_empty :: "scan_cache \<Rightarrow> bool" where
  "unowned_empty c =
     (ca_owner c = None \<longrightarrow> ca_startup c = None \<and> ca_startup_targets c = [] \<and> \<not> ca_startup_running c)"

text \<open>What the cache holds comes from a scan of its owner that ended while the owner was signed in.\<close>

fun delivered :: "string \<Rightarrow> scan_event \<Rightarrow> startup_scan_result option" where
  "delivered owner (StartupEnded secs sid (Inr res) current) =
     (if eq_ignore_ascii_case owner sid \<and> startup_owner_matches (Some sid) current \<and> eq_ignore_ascii_case (sr_owner res) sid
      then Some res else None)"
| "delivered owner e = None"

definition results :: "scan_event list \<Rightarrow> string \<Rightarrow> startup_scan_result list" where
  "results es owner = List.map_filter (delivered owner) es"

definition owned_by :: "scan_event list \<Rightarrow> string option \<Rightarrow> (startup_scan_result \<Rightarrow> 'a) \<Rightarrow> 'a \<Rightarrow> bool" where
  "owned_by es owner part x = (case owner of Some me \<Rightarrow> x \<in> part ` set (results es me) | None \<Rightarrow> False)"

definition provenance :: "scan_event list \<Rightarrow> scan_cache \<Rightarrow> bool" where
  "provenance es c =
     ((ca_startup_targets c = [] \<or> owned_by es (ca_owner c) sr_targets (ca_startup_targets c)) \<and>
      (case ca_startup c of
         None \<Rightarrow> True
       | Some v \<Rightarrow> su_entries v = [] \<or> owned_by es (ca_owner c) sr_entries (su_entries v)))"

lemma owned_by_more [intro]: "owned_by es owner part x \<Longrightarrow> owned_by (es @ es') owner part x"
  by (auto simp: owned_by_def results_def map_filter_def split: option.splits)

lemma delivered_owner:
  assumes "eq_ignore_ascii_case owner owner'"
  shows "delivered owner = delivered owner'"
proof
  fix e
  show "delivered owner e = delivered owner' e"
    using assms by (induction owner e rule: delivered.induct) (simp_all add: eq_ignore_ascii_case_def)
qed

lemma owned_by_same:
  assumes "owned_by es owner part x" and "startup_owner_matches owner owner'"
  shows "owned_by es owner' part x"
proof -
  from assms obtain a b where "owner = Some a" "owner' = Some b" "eq_ignore_ascii_case a b"
    by (auto simp: startup_owner_matches_def split: option.splits)
  with assms(1) delivered_owner [of a b] show ?thesis by (simp add: owned_by_def results_def)
qed

text \<open>What each handler leaves alone.\<close>

definition disk_part :: "scan_cache \<Rightarrow> disk_insights option \<times> bool \<times> (string \<times> fix_action) list" where
  "disk_part c = (ca_disk c, ca_disk_running c, ca_disk_targets c)"

lemma stale_disk [simp]: "disk_part (snd (clear_stale_startup_cache current c)) = disk_part c"
  by (simp add: clear_stale_startup_cache_def disk_part_def)

lemma startup_target_disk [simp]: "disk_part (snd (startup_target current row c)) = disk_part c"
  by (simp add: startup_target_def)

lemma handle_startup_disk [simp]: "disk_part (snd (handle_scan_startup p current c)) = disk_part c"
proof -
  have "disk_part (c'\<lparr>ca_owner := x, ca_startup_running := y, ca_startup := z\<rparr>) = disk_part c'" for c' x y z
    by (simp add: disk_part_def)
  then show ?thesis by (simp add: handle_scan_startup_def Let_def split: option.split)
qed

lemma startup_done_disk [simp]: "disk_part (startup_done secs sid r current c) = disk_part c"
proof -
  have "disk_part (c'\<lparr>ca_startup_running := x, ca_startup := y\<rparr>) = disk_part c'"
    "disk_part (c'\<lparr>ca_startup_running := x, ca_startup_targets := z, ca_startup := y\<rparr>) = disk_part c'" for c' x y z
    by (simp_all add: disk_part_def)
  then show ?thesis by (simp add: startup_done_def split: sum.split)
qed

lemma route_cache [simp]:
  "fst (snd (handle_set_startup_entry E pol i current row enable (c, w))) = snd (startup_target current row c)"
  by (simp add: handle_set_startup_entry_def split: prod.split option.split)

section \<open>Disk rows\<close>

lemma same_disk_flag: "disk_part c = disk_part c' \<Longrightarrow> disk_flag_ok n c = disk_flag_ok n c'"
  by (simp add: disk_part_def disk_flag_ok_def split: option.split)

lemma start_flag:
  "disk_flag_ok n c \<Longrightarrow>
     disk_flag_ok (if is_ok (fst (handle_scan_disk p c)) then n + 1 else n) (snd (handle_scan_disk p c))"
  by (auto simp: disk_flag_ok_def handle_scan_disk_def scanning_disk_def is_ok_def split: option.split option.split_asm)

lemma done_flag: "disk_flag_ok n c \<Longrightarrow> n > 0 \<Longrightarrow> disk_flag_ok (n - 1) (disk_done secs r c)"
  by (cases r) (simp_all add: disk_flag_ok_def disk_done_def failed_disk_def Let_def split: if_splits)

fun disk_event :: "scan_event \<Rightarrow> bool" where
  "disk_event (DiskAsked p) = True"
| "disk_event (DiskEnded secs r) = True"
| "disk_event e = False"

lemma other_events:
  assumes "\<not> disk_event e"
  shows "disk_part (sl_cache (scan_step e s)) = disk_part (sl_cache s)" "sl_disk_tasks (scan_step e s) = sl_disk_tasks s"
  using assms by (cases e; simp add: Let_def)+

lemma flag_step:
  assumes "disk_flag_ok (sl_disk_tasks s) (sl_cache s)" and "scan_enabled e s"
  shows "disk_flag_ok (sl_disk_tasks (scan_step e s)) (sl_cache (scan_step e s))"
proof (cases "disk_event e")
  case True
  then show ?thesis
  proof (cases e)
    case (DiskAsked p)
    then show ?thesis using start_flag [OF assms(1), of p] by simp
  next
    case (DiskEnded secs r)
    then show ?thesis using done_flag [OF assms(1)] assms(2) by simp
  qed simp_all
next
  case False
  then show ?thesis using assms(1) other_events [OF False, of s] same_disk_flag by metis
qed

text \<open>The actions of the disk cache are those of the last scan that ended well.\<close>

definition from_scans :: "scan_event list \<Rightarrow> scan_cache \<Rightarrow> bool" where
  "from_scans es c =
     (ca_disk_targets c = [] \<or> (\<exists>secs res. DiskEnded secs (Inr res) \<in> set es \<and> ca_disk_targets c = dr_targets res))"

lemma from_scans_step:
  assumes "from_scans es (sl_cache s)"
  shows "from_scans (es @ [e]) (sl_cache (scan_step e s))"
proof (cases "disk_event e")
  case True
  then show ?thesis
  proof (cases e)
    case (DiskAsked p)
    have "ca_disk_targets (snd (handle_scan_disk p c)) = ca_disk_targets c" for c by (simp add: handle_scan_disk_def)
    then have "ca_disk_targets (sl_cache (scan_step e s)) = ca_disk_targets (sl_cache s)"
      using DiskAsked by simp
    then show ?thesis using assms by (auto simp: from_scans_def)
  next
    case (DiskEnded secs r)
    then show ?thesis using assms by (cases r) (auto simp: from_scans_def disk_done_def Let_def)
  qed simp_all
next
  case False
  then have "ca_disk_targets (sl_cache (scan_step e s)) = ca_disk_targets (sl_cache s)"
    using other_events(1) [OF False, of s] by (simp add: disk_part_def)
  then show ?thesis using assms by (auto simp: from_scans_def)
qed

lemma run_disk:
  "scan_run w es s \<Longrightarrow> disk_flag_ok (sl_disk_tasks s) (sl_cache s) \<and> from_scans es (sl_cache s)"
proof (induction rule: scan_run.induct)
  case run_start
  then show ?case by (simp add: scan_start_def no_scans_def disk_flag_ok_def from_scans_def)
next
  case (run_step es s e)
  then show ?case using flag_step from_scans_step by blast
qed

section \<open>Startup rows\<close>

lemma stale_provenance: "provenance es c \<Longrightarrow> provenance es (snd (clear_stale_startup_cache current c))"
  by (auto simp: provenance_def clear_stale_startup_cache_def split: option.splits)

lemma provenance_more: "provenance es c \<Longrightarrow> provenance (es @ es') c"
  by (auto simp: provenance_def split: option.splits)

lemma kept_provenance:
  assumes "provenance es c" "su_entries v = (case ca_startup c of Some v \<Rightarrow> su_entries v | None \<Rightarrow> [])"
    "owner = ca_owner c \<or> startup_owner_matches (ca_owner c) owner"
  shows "provenance es (c\<lparr>ca_owner := owner, ca_startup_running := r, ca_startup := Some v\<rparr>)"
  using assms by (auto simp: provenance_def intro: owned_by_same split: option.splits)

lemma asked_provenance:
  assumes prov: "provenance es c" and empty: "unowned_empty c"
  shows "provenance es (snd (handle_scan_startup p current c))" "unowned_empty (snd (handle_scan_startup p current c))"
proof -
  define c' where "c' = snd (clear_stale_startup_cache current c)"
  have c': "provenance es c'" "unowned_empty c'"
    using prov empty by (simp_all add: c'_def stale_provenance) (simp add: clear_stale_startup_cache_def unowned_empty_def)
  have owner: "ca_owner c' = None \<or> startup_owner_matches (ca_owner c') current"
    by (simp add: c'_def clear_stale_startup_cache_def)
  have same: "provenance es (c'\<lparr>ca_owner := Some sid, ca_startup_running := x, ca_startup := Some (scanning_startup (ca_startup c'))\<rparr>)"
    if "current = Some sid" for sid x
  proof (cases "ca_owner c'")
    case None
    with c' show ?thesis by (simp add: provenance_def unowned_empty_def scanning_startup_def)
  next
    case (Some me)
    with owner that c' show ?thesis by (intro kept_provenance) (simp_all add: scanning_startup_def)
  qed
  show "provenance es (snd (handle_scan_startup p current c))"
    using c' same by (simp add: handle_scan_startup_def Let_def c'_def [symmetric] split: option.split)
  show "unowned_empty (snd (handle_scan_startup p current c))"
    using c' by (auto simp: handle_scan_startup_def Let_def c'_def [symmetric] unowned_empty_def split: option.split)
qed

lemma stale_empty: "unowned_empty c \<Longrightarrow> unowned_empty (snd (clear_stale_startup_cache current c))"
  by (simp add: clear_stale_startup_cache_def unowned_empty_def)

lemma done_empty: "unowned_empty c \<Longrightarrow> unowned_empty (startup_done secs sid r current c)"
  by (cases r) (simp_all add: startup_done_def stale_empty, simp_all add: unowned_empty_def startup_owner_matches_def split: option.splits)

lemma done_provenance:
  assumes "provenance es c"
  shows "provenance (es @ [StartupEnded secs sid r current]) (startup_done secs sid r current c)"
proof (cases r)
  case (Inl e)
  have "provenance es (c\<lparr>ca_startup_running := False, ca_startup := Some (failed_startup e (ca_startup c))\<rparr>)"
    using kept_provenance [OF assms, of "failed_startup e (ca_startup c)" "ca_owner c" False]
    by (simp add: failed_startup_def)
  then show ?thesis using assms Inl by (simp add: startup_done_def stale_provenance provenance_more)
next
  case (Inr res)
  have "provenance (es @ [StartupEnded secs sid r current])
      (c\<lparr>ca_startup_running := x, ca_startup_targets := sr_targets res, ca_startup := Some v\<rparr>)"
    if "startup_owner_matches (ca_owner c) (Some sid)" "startup_owner_matches (Some sid) current"
      "eq_ignore_ascii_case (sr_owner res) sid" "su_entries v = sr_entries res" for x v
    using that Inr
    by (cases "ca_owner c")
      (auto simp: provenance_def owned_by_def results_def map_filter_def startup_owner_matches_def split: option.splits)
  then show ?thesis using assms Inr by (simp add: startup_done_def stale_provenance provenance_more)
qed

lemma startup_step:
  assumes "provenance es (sl_cache s)" "unowned_empty (sl_cache s)"
  shows "provenance (es @ [e]) (sl_cache (scan_step e s)) \<and> unowned_empty (sl_cache (scan_step e s))"
proof (cases e)
  case (DiskAsked p)
  have "provenance es (snd (handle_scan_disk p (sl_cache s))) \<and> unowned_empty (snd (handle_scan_disk p (sl_cache s)))"
    using assms by (auto simp: handle_scan_disk_def provenance_def unowned_empty_def split: option.split)
  then show ?thesis using DiskAsked provenance_more by simp
next
  case (DiskEnded secs r)
  have "provenance es (disk_done secs r (sl_cache s)) \<and> unowned_empty (disk_done secs r (sl_cache s))"
    using assms by (cases r) (auto simp: disk_done_def Let_def provenance_def unowned_empty_def split: option.split)
  then show ?thesis using DiskEnded provenance_more by simp
next
  case (DiskClicked E pol i row)
  then show ?thesis using assms provenance_more by simp
next
  case (StartupAsked p current)
  then show ?thesis using asked_provenance [OF assms, of p current] provenance_more by simp
next
  case (StartupEnded secs sid r current)
  then show ?thesis using done_provenance [OF assms(1)] done_empty [OF assms(2)] by simp
next
  case (StartupClicked E pol i current row enable)
  have "provenance es (snd (startup_target current row (sl_cache s))) \<and> unowned_empty (snd (startup_target current row (sl_cache s)))"
    using assms by (simp add: startup_target_def stale_provenance stale_empty)
  then show ?thesis using StartupClicked provenance_more by (simp add: Let_def)
qed

lemma run_startup: "scan_run w es s \<Longrightarrow> provenance es (sl_cache s) \<and> unowned_empty (sl_cache s)"
proof (induction rule: scan_run.induct)
  case run_start
  then show ?case by (simp add: scan_start_def no_scans_def provenance_def unowned_empty_def)
next
  case (run_step es s e)
  then show ?case using startup_step by blast
qed

section \<open>What the loop promises\<close>

text \<open>
  one disk scan at a time. After any sequence of clicks and endings, the scan flag is set exactly
  while a scan is under way, never more than one is, and the view shows it running exactly then;
  so a scan that ends, well or not, is always followed by the possibility of another.
\<close>

theorem disk_scans_one_at_a_time:
  assumes "scan_run w es s"
  shows "sl_disk_tasks s \<le> 1 \<and> ca_disk_running (sl_cache s) = (sl_disk_tasks s = 1) \<and>
     (case ca_disk (sl_cache s) of Some v \<Rightarrow> dv_running v = (sl_disk_tasks s = 1) | None \<Rightarrow> sl_disk_tasks s = 0)"
  using run_disk [OF assms] by (auto simp: disk_flag_ok_def split: option.splits)

text \<open>
  C20: a click on a disk row asks the gate for one of three actions. Whatever scans ended before it, whatever
  they found, and whatever id the click carries, the loop either answers that the entry is stale and
  changes nothing, or routes through the gate the clearing of the Windows temporary files, of the
  prefetch cache, or the deletion of the memory dump.
\<close>

theorem disk_clicks_are_safe:
  assumes "scan_run w es s" and "\<And>secs res. DiskEnded secs (Inr res) \<in> set es \<Longrightarrow> \<exists>N. res = disk_scan N drive"
  shows "handle_clean_disk_entry E pol i row (sl_cache s) w' = (Inl ''Disk entry is stale; scan again'', w') \<or>
    (\<exists>a. a \<in> {DiskCleanup ''temp'', DiskCleanup ''prefetch'', FileDelete (memory_dump drive)} \<and>
       handle_clean_disk_entry E pol i row (sl_cache s) w' =
         route_user_action E pol i a ''User-requested disk cleanup'' ''user-requested cleanup'' False w')"
proof (cases "tbl_get (ca_disk_targets (sl_cache s)) row")
  case None
  then show ?thesis by (simp add: handle_clean_disk_entry_def)
next
  case (Some a)
  then have "ca_disk_targets (sl_cache s) \<noteq> []" by (auto simp: tbl_get_def)
  with run_disk [OF assms(1)] assms(2) obtain N where "ca_disk_targets (sl_cache s) = dr_targets (disk_scan N drive)"
    by (auto simp: from_scans_def)
  with Some have "a \<in> {DiskCleanup ''temp'', DiskCleanup ''prefetch'', FileDelete (memory_dump drive)}"
    by (intro scan_targets) simp
  with Some show ?thesis by (auto simp: handle_clean_disk_entry_def)
qed

text \<open>
  C19: the startup listing stays with its user. After any sequence of scans, endings and clicks, with anyone
  signing in between, the rows the status shows and the toggle a click is turned into come from a scan of
  the very user who is signed in at that moment, one that ended while that user was signed in; nobody
  signed in sees none and toggles none.
\<close>

theorem startup_rows_stay_with_their_user:
  assumes "scan_run w es s"
  shows "(case shown_startup current (sl_cache s) of
            Some v \<Rightarrow> su_entries v = [] \<or> owned_by es current sr_entries (su_entries v)
          | None \<Rightarrow> True) \<and>
         (case fst (startup_target current row (sl_cache s)) of
            Some g \<Rightarrow> (\<exists>me res. current = Some me \<and> res \<in> set (results es me) \<and> tbl_get (sr_targets res) row = Some g)
          | None \<Rightarrow> True)"
proof -
  from run_startup [OF assms] have prov: "provenance es (sl_cache s)" by blast
  have moved: "owned_by es current part x"
    if "owned_by es (ca_owner (sl_cache s)) part x" "startup_owner_matches (ca_owner (sl_cache s)) current"
    for part :: "startup_scan_result \<Rightarrow> 'b" and x
    using owned_by_same that .
  have target: "\<exists>me res. current = Some me \<and> res \<in> set (results es me) \<and> tbl_get (sr_targets res) row = Some g"
    if "fst (startup_target current row (sl_cache s)) = Some g" for g
  proof -
    from that have own: "startup_owner_matches (ca_owner (sl_cache s)) current"
      and got: "tbl_get (ca_startup_targets (sl_cache s)) row = Some g"
      by (simp_all add: startup_target_def split: if_splits)
    from got prov have "owned_by es (ca_owner (sl_cache s)) sr_targets (ca_startup_targets (sl_cache s))"
      by (auto simp: provenance_def tbl_get_def)
    from owned_by_same [OF this own] got show ?thesis by (auto simp: owned_by_def split: option.splits)
  qed
  have "su_entries v = [] \<or> owned_by es current sr_entries (su_entries v)"
    if "shown_startup current (sl_cache s) = Some v" for v
    using that prov owned_by_same [of es "ca_owner (sl_cache s)" sr_entries "su_entries v" current]
    by (auto simp: shown_startup_def provenance_def split: if_splits)
  with target show ?thesis by (auto split: option.split)
qed

section \<open>Witnesses\<close>

text \<open>One user scans and sees an entry; after another signs in, it is neither shown nor clickable.\<close>

definition bob_scan :: startup_scan_result where
  "bob_scan = \<lparr>sr_owner = ''S-1-5-21-7'',
     sr_entries = [\<lparr>sy_id = ''k1'', sy_name = ''Tool'', sy_command = ''tool.exe'', sy_location = ''user_run'', sy_enabled = True,
        sy_verdict = [], sy_note = [], sy_signer = [], sy_report_only = False, sy_microsoft = False\<rparr>],
     sr_targets = [(''k1'', \<lparr>tg_name = ''Tool'', tg_location = ''user_run'', tg_hive = ''S-1-5-21-7'', tg_task_path = []\<rparr>)]\<rparr>"

definition bob :: "string option" where "bob = Some ''S-1-5-21-7''"

definition bob_events :: "scan_event list" where
  "bob_events = [StartupAsked False bob, StartupEnded 100 ''S-1-5-21-7'' (Inr bob_scan) bob]"

definition clicked_events :: "scan_event list" where
  "clicked_events = [DiskAsked False, DiskAsked False]"

definition scan_steps :: "scan_event list \<Rightarrow> scan_loop" where
  "scan_steps es = fold scan_step es (scan_start empty_world)"

lemma two_steps:
  assumes "scan_enabled e1 (scan_start empty_world)" "scan_enabled e2 (scan_step e1 (scan_start empty_world))"
  shows "scan_run empty_world [e1, e2] (scan_steps [e1, e2])"
  using run_step [OF run_step [OF run_start assms(1)] assms(2)] by (simp add: scan_steps_def)

lemma disk_scans_one_at_a_time_witness:
  "sl_disk_tasks (scan_steps clicked_events) \<le> 1 \<and> ca_disk_running (sl_cache (scan_steps clicked_events))"
proof -
  have run: "scan_run empty_world clicked_events (scan_steps clicked_events)"
    unfolding clicked_events_def by (rule two_steps) simp_all
  have "sl_disk_tasks (scan_steps clicked_events) = 1"
    by (simp add: scan_steps_def clicked_events_def handle_scan_disk_def scan_start_def no_scans_def is_ok_def)
  with disk_scans_one_at_a_time [OF run] show ?thesis by simp
qed

lemma startup_rows_stay_with_their_user_witness:
  "shown_startup bob (sl_cache (scan_steps bob_events)) \<noteq> None \<and>
   fst (startup_target (Some ''S-1-5-21-9'') ''k1'' (sl_cache (scan_steps bob_events))) = None"
proof -
  have run: "scan_run empty_world bob_events (scan_steps bob_events)"
    unfolding bob_events_def
    by (rule two_steps) (simp_all add: handle_scan_startup_def Let_def bob_def is_ok_def scan_start_def no_scans_def
        clear_stale_startup_cache_def)
  have "\<not> eq_ignore_ascii_case ''S-1-5-21-9'' ''S-1-5-21-7''" by code_simp
  then have none: "results bob_events ''S-1-5-21-9'' = []"
    by (simp add: results_def bob_events_def map_filter_def)
  have "shown_startup bob (sl_cache (scan_steps bob_events)) \<noteq> None"
    by (simp add: scan_steps_def bob_events_def bob_def handle_scan_startup_def Let_def scan_start_def no_scans_def
        clear_stale_startup_cache_def startup_done_def startup_owner_matches_def bob_scan_def shown_startup_def)
  moreover have "fst (startup_target (Some ''S-1-5-21-9'') ''k1'' (sl_cache (scan_steps bob_events))) = None"
    using startup_rows_stay_with_their_user [OF run, of "Some ''S-1-5-21-9''" "''k1''"] none
    by (auto split: option.splits)
  ultimately show ?thesis ..
qed

definition drive_c :: string where "drive_c = [CHR ''C'', CHR 0x3A, backslash]"

definition temp_scan :: disk_scan_result where
  "temp_scan = disk_scan empty_machine drive_c"

lemma disk_clicks_are_safe_witness:
  "handle_clean_disk_entry sample_env sample_policy sample_io ''x'' (sl_cache (scan_steps [DiskAsked False, DiskEnded 100 (Inr temp_scan)])) empty_world =
     (Inl ''Disk entry is stale; scan again'', empty_world) \<or>
   (\<exists>a. a \<in> {DiskCleanup ''temp'', DiskCleanup ''prefetch'', FileDelete (memory_dump drive_c)} \<and>
      handle_clean_disk_entry sample_env sample_policy sample_io ''x'' (sl_cache (scan_steps [DiskAsked False, DiskEnded 100 (Inr temp_scan)])) empty_world =
        route_user_action sample_env sample_policy sample_io a ''User-requested disk cleanup'' ''user-requested cleanup'' False empty_world)"
proof (rule disk_clicks_are_safe)
  show "scan_run empty_world [DiskAsked False, DiskEnded 100 (Inr temp_scan)]
      (scan_steps [DiskAsked False, DiskEnded 100 (Inr temp_scan)])"
    by (rule two_steps) (simp_all add: handle_scan_disk_def scan_start_def no_scans_def is_ok_def)
qed (auto simp: temp_scan_def)

end
