(* ===== verification/Log_Parser.thy ===== *)
theory Log_Parser
  imports Signals
begin

text \<open>
  What the service makes of a log file (\<open>signals/log_parser.rs\<close>): the program it belongs to, the
  lines that name a failure, the highest severity among those not reported before, and a few
  excerpts around them. The question whether a line is new threads a state; with the log memory
  of \<open>Signals\<close> for it, a log that repeats itself is reported once.
\<close>

section \<open>The program of a log\<close>

text \<open>The normal components of the path that are UTF-8, and the name of its parent directory.\<close>

definition program_at :: "(string \<Rightarrow> string) \<Rightarrow> string list \<Rightarrow> nat \<Rightarrow> string option" where
  "program_at u comps i =
     (let lower = to_lowercase u (comps ! i);
          before = (if i = 0 \<or> length comps < i then None else Some (to_lowercase u (comps ! (i - 1))))
      in if i + 1 < length comps then
           (let app = comps ! (i + 1) in
            if lower = ''program files'' \<or> lower = ''program files (x86)'' then Some app
            else if lower = ''programdata'' then Some app
            else if lower = ''logs'' \<and> before = Some ''windows'' then Some (''Windows '' @ app)
            else if lower \<in> {''local'', ''roaming'', ''locallow''} \<and> before = Some ''appdata'' then Some app
            else None)
         else None)"

definition extract_program :: "(string \<Rightarrow> string) \<Rightarrow> string list \<Rightarrow> string option \<Rightarrow> string" where
  "extract_program u comps parent =
     (case List.map_filter (program_at u comps) [0..<length comps] of
        app # _ \<Rightarrow> app
      | [] \<Rightarrow> (case parent of Some n \<Rightarrow> n | None \<Rightarrow> ''Unknown''))"

section \<open>Excerpts\<close>

definition MAX_EXCERPT_CHARS :: nat where "MAX_EXCERPT_CHARS = 2500"
definition MAX_SNIPPETS :: nat where "MAX_SNIPPETS = 5"
definition MAX_LINE_CHARS :: nat where "MAX_LINE_CHARS = 300"

definition excerpt :: "string \<Rightarrow> string" where
  "excerpt content =
     (let t = trim content in
      if char_count t \<le> MAX_EXCERPT_CHARS then t
      else take_chars MAX_EXCERPT_CHARS t @ [newline] @ ellipsis @ ''[truncated]'')"

definition clip_line :: "string \<Rightarrow> string" where
  "clip_line line =
     (if char_count line \<le> MAX_LINE_CHARS then line else take_chars (MAX_LINE_CHARS - 1) line @ ellipsis)"

section \<open>Failures\<close>

definition ERROR_KEYWORDS :: "string list" where
  "ERROR_KEYWORDS =
     [''error'', ''fatal'', ''critical'', ''exception'', ''crash'', ''panic'', ''unhandled'', ''traceback'',
      ''stack trace'', ''access violation'', ''segfault'', ''corrupt'', ''aborted'']"

definition WARN_KEYWORDS :: "string list" where
  "WARN_KEYWORDS =
     [''warn'', ''warning'', ''deprecated'', ''failed'', ''failure'', ''timeout'', ''refused'', ''denied'', ''unavailable'']"

definition fatal_words :: "string list" where
  "fatal_words = [''fatal'', ''critical'', ''crash'', ''access violation'', ''aborted'']"

definition severity_rank :: "string \<Rightarrow> nat" where
  "severity_rank sev = (if sev = ''FATAL'' then 3 else if sev = ''ERROR'' then 2 else if sev = ''WARN'' then 1 else 0)"

definition names_any :: "string list \<Rightarrow> string \<Rightarrow> bool" where
  "names_any words lower = list_ex (\<lambda>k. contains_str k lower) words"

definition is_error :: "(string \<Rightarrow> string) \<Rightarrow> string \<Rightarrow> bool" where
  "is_error u line = names_any ERROR_KEYWORDS (to_lowercase u line)"

definition is_warn :: "(string \<Rightarrow> string) \<Rightarrow> string \<Rightarrow> bool" where
  "is_warn u line = (\<not> is_error u line \<and> names_any WARN_KEYWORDS (to_lowercase u line))"

definition raise_severity :: "(string \<Rightarrow> string) \<Rightarrow> string \<Rightarrow> string \<Rightarrow> string" where
  "raise_severity u line sev =
     (if sev = ''FATAL'' then sev
      else if names_any fatal_words (to_lowercase u line) then ''FATAL''
      else if sev \<noteq> ''ERROR'' \<and> is_error u line then ''ERROR''
      else if sev = ''INFO'' \<and> is_warn u line then ''WARN''
      else sev)"

text \<open>The excerpts are kept as their windows of lines until the end of the scan.\<close>

record 's log_scan =
  ls_severity :: string
  ls_windows :: "(nat \<times> nat) list"
  ls_next :: nat
  ls_seen :: 's

definition found_line :: "(string \<Rightarrow> string) \<Rightarrow> nat \<Rightarrow> nat \<Rightarrow> string \<Rightarrow> 's log_scan \<Rightarrow> 's log_scan" where
  "found_line u total_lines i line s =
     (let s = s\<lparr>ls_severity := raise_severity u line (ls_severity s)\<rparr> in
      if length (ls_windows s) < MAX_SNIPPETS \<and> ls_next s \<le> i then
        (let stop = min (i + 3) total_lines in
         s\<lparr>ls_windows := ls_windows s @ [(i - 1, stop)], ls_next := stop + 1\<rparr>)
      else s)"

fun scan_lines ::
  "(string \<Rightarrow> string) \<Rightarrow> (string \<Rightarrow> 's \<Rightarrow> bool \<times> 's) \<Rightarrow> nat \<Rightarrow> nat \<Rightarrow> string list \<Rightarrow> 's log_scan \<Rightarrow> 's log_scan" where
  "scan_lines u is_new total_lines i [] s = s"
| "scan_lines u is_new total_lines i (l # ls) s =
     (if \<not> is_error u l \<and> \<not> is_warn u l then scan_lines u is_new total_lines (i + 1) ls s
      else (case is_new l (ls_seen s) of
          (False, m) \<Rightarrow> scan_lines u is_new total_lines (i + 1) ls (s\<lparr>ls_seen := m\<rparr>)
        | (True, m) \<Rightarrow> scan_lines u is_new total_lines (i + 1) ls (found_line u total_lines i l (s\<lparr>ls_seen := m\<rparr>))))"

definition window_text :: "string list \<Rightarrow> nat \<times> nat \<Rightarrow> string" where
  "window_text ls w = join [newline] (map clip_line (take (snd w - fst w) (drop (fst w) ls)))"

definition scan_text :: "(string \<Rightarrow> string) \<Rightarrow> (string \<Rightarrow> 's \<Rightarrow> bool \<times> 's) \<Rightarrow> string \<Rightarrow> 's \<Rightarrow> 's log_scan" where
  "scan_text u is_new content m =
     (let ls = lines content in
      scan_lines u is_new (length ls) 0 ls \<lparr>ls_severity = ''INFO'', ls_windows = [], ls_next = 0, ls_seen = m\<rparr>)"

definition extract_errors ::
  "(string \<Rightarrow> string) \<Rightarrow> (string \<Rightarrow> 's \<Rightarrow> bool \<times> 's) \<Rightarrow> string \<Rightarrow> 's \<Rightarrow> (string list \<times> string) \<times> 's" where
  "extract_errors u is_new content m =
     (let s = scan_text u is_new content m in
      ((map (window_text (lines content)) (ls_windows s), ls_severity s), ls_seen s))"

definition parse_log ::
  "(string \<Rightarrow> string) \<Rightarrow> string \<Rightarrow> string list \<Rightarrow> string option \<Rightarrow> (string \<Rightarrow> 's \<Rightarrow> bool \<times> 's) \<Rightarrow> string \<Rightarrow> 's \<Rightarrow> log_event \<times> 's" where
  "parse_log u path comps parent is_new content m =
     (case extract_errors u is_new content m of
        ((snippets, severity), m) \<Rightarrow>
          (\<lparr>le_program = extract_program u comps parent, le_log_path = path, le_severity = severity,
             le_error_snippets = snippets, le_content_excerpt = excerpt content\<rparr>, m))"

section \<open>The scan\<close>

text \<open>The failure lines that are new, by position: the reference for what a scan finds.\<close>

definition failure :: "(string \<Rightarrow> string) \<Rightarrow> string \<Rightarrow> bool" where
  "failure u l = (is_error u l \<or> is_warn u l)"

fun new_failures ::
  "(string \<Rightarrow> string) \<Rightarrow> (string \<Rightarrow> 's \<Rightarrow> bool \<times> 's) \<Rightarrow> nat \<Rightarrow> string list \<Rightarrow> 's \<Rightarrow> nat list" where
  "new_failures u is_new i [] m = []"
| "new_failures u is_new i (l # ls) m =
     (if failure u l then
        (if fst (is_new l m) then [i] else []) @ new_failures u is_new (i + 1) ls (snd (is_new l m))
      else new_failures u is_new (i + 1) ls m)"

definition line_rank :: "(string \<Rightarrow> string) \<Rightarrow> string \<Rightarrow> nat" where
  "line_rank u l = (if names_any fatal_words (to_lowercase u l) then 3 else if is_error u l then 2 else if is_warn u l then 1 else 0)"

definition severities :: "string list" where "severities = [''INFO'', ''WARN'', ''ERROR'', ''FATAL'']"

lemma raise_rank:
  "sev \<in> set severities \<Longrightarrow>
     raise_severity u l sev \<in> set severities \<and> severity_rank (raise_severity u l sev) = max (severity_rank sev) (line_rank u l)"
  by (auto simp: raise_severity_def severities_def severity_rank_def line_rank_def is_warn_def)

definition windows_ok :: "nat \<Rightarrow> nat list \<Rightarrow> nat \<Rightarrow> (nat \<times> nat) list \<Rightarrow> bool" where
  "windows_ok n found nxt ws =
     (length ws \<le> MAX_SNIPPETS \<and> sorted_wrt (\<lambda>v w. snd v \<le> fst w) ws \<and>
      list_all (\<lambda>w. fst w < snd w \<and> snd w \<le> n \<and> snd w \<le> fst w + 4 \<and> snd w < nxt \<and>
                    list_ex (\<lambda>i. fst w \<le> i \<and> i < snd w) found) ws \<and>
      (found \<noteq> [] \<longrightarrow> ws \<noteq> []) \<and> (ws = [] \<longrightarrow> nxt = 0))"

lemma windows_more: "windows_ok n found nxt ws \<Longrightarrow> ws \<noteq> [] \<or> more_found = [] \<Longrightarrow> windows_ok n (found @ more_found) nxt ws"
  by (auto simp: windows_ok_def list_all_iff list_ex_iff)

lemma found_windows:
  assumes "windows_ok n found (ls_next s) (ls_windows s)" and "i < n"
  shows "windows_ok n (found @ [i]) (ls_next (found_line u n i l s)) (ls_windows (found_line u n i l s))"
proof (cases "length (ls_windows s) < MAX_SNIPPETS \<and> ls_next s \<le> i")
  case True
  have "snd w \<le> i - 1" if "w \<in> set (ls_windows s)" for w
    using assms(1) True that by (force simp: windows_ok_def list_all_iff)
  then show ?thesis
    using True assms
    by (force simp: found_line_def Let_def windows_ok_def list_all_iff list_ex_iff sorted_wrt_append)
next
  case False
  then have "ls_windows s \<noteq> []" using assms(1) by (auto simp: windows_ok_def MAX_SNIPPETS_def)
  with windows_more [OF assms(1)] False show ?thesis by (auto simp: found_line_def Let_def)
qed

lemma scan_found:
  assumes "windows_ok n found (ls_next s) (ls_windows s)" and "i + length ls = n" and "ls_severity s \<in> set severities"
  shows "windows_ok n (found @ new_failures u is_new i ls (ls_seen s))
      (ls_next (scan_lines u is_new n i ls s)) (ls_windows (scan_lines u is_new n i ls s)) \<and>
    ls_severity (scan_lines u is_new n i ls s) \<in> set severities \<and>
    severity_rank (ls_severity (scan_lines u is_new n i ls s)) =
      foldl max (severity_rank (ls_severity s)) (map (\<lambda>j. line_rank u (ls ! (j - i))) (new_failures u is_new i ls (ls_seen s)))"
  using assms
proof (induction ls arbitrary: found i s)
  case (Cons l ls)
  have ge: "j \<ge> k" if "j \<in> set (new_failures u is_new k xs m)" for j k xs m
    using that by (induction xs arbitrary: k m) (auto split: if_splits dest: Suc_leD)
  have shift: "map (\<lambda>j. line_rank u ((l # ls) ! (j - i))) (new_failures u is_new (Suc i) ls m) =
      map (\<lambda>j. line_rank u (ls ! (j - (Suc i)))) (new_failures u is_new (Suc i) ls m)" for m
  proof (rule map_cong [OF refl])
    fix j
    assume "j \<in> set (new_failures u is_new (Suc i) ls m)"
    from ge [OF this] obtain k where "j = Suc i + k" using le_Suc_ex by blast
    then show "line_rank u ((l # ls) ! (j - i)) = line_rank u (ls ! (j - (Suc i)))" by simp
  qed
  show ?case
  proof (cases "failure u l")
    case False
    then show ?thesis using Cons.IH [of found s "i + 1"] Cons.prems by (simp add: failure_def shift)
  next
    case True
    obtain b m where n: "is_new l (ls_seen s) = (b, m)" by fastforce
    show ?thesis
    proof (cases b)
      case False
      then show ?thesis using Cons.IH [of found "s\<lparr>ls_seen := m\<rparr>" "i + 1"] Cons.prems True n by (auto simp: failure_def shift)
    next
      case new: True
      let ?s = "found_line u n i l (s\<lparr>ls_seen := m\<rparr>)"
      have w: "windows_ok n (found @ [i]) (ls_next ?s) (ls_windows ?s)"
        using found_windows [of n found "s\<lparr>ls_seen := m\<rparr>" i] Cons.prems by simp
      have sv: "ls_severity ?s = raise_severity u l (ls_severity s)" "ls_seen ?s = m"
        by (auto simp: found_line_def Let_def)
      show ?thesis using Cons.IH [OF w] Cons.prems True n new sv raise_rank [of "ls_severity s" u l]
        by (auto simp: failure_def shift)
    qed
  qed
qed simp

text \<open>
  C40: a scan reports exactly the new failures of a log. Its severity is the highest among the
  lines that name a failure and were not reported before; there is an excerpt as soon as there
  is such a line, at most five, each of at most four lines around one, and no line of the log is in
  two of them.
\<close>

theorem log_findings_exact:
  fixes is_new :: "string \<Rightarrow> 's \<Rightarrow> bool \<times> 's"
  shows "let s = scan_text u is_new content m; found = new_failures u is_new 0 (lines content) m in
    severity_rank (ls_severity s) = foldl max 0 (map (\<lambda>i. line_rank u (lines content ! i)) found) \<and>
    length (ls_windows s) \<le> 5 \<and> (ls_windows s = [] \<longleftrightarrow> found = []) \<and>
    sorted_wrt (\<lambda>v w. snd v \<le> fst w) (ls_windows s) \<and>
    list_all (\<lambda>w. fst w < snd w \<and> snd w \<le> length (lines content) \<and> snd w \<le> fst w + 4 \<and>
      list_ex (\<lambda>i. fst w \<le> i \<and> i < snd w) found) (ls_windows s)"
proof -
  let ?s0 = "\<lparr>ls_severity = ''INFO'', ls_windows = [], ls_next = 0, ls_seen = m\<rparr>"
  have "windows_ok (length (lines content)) [] (ls_next ?s0) (ls_windows ?s0)" "ls_severity ?s0 \<in> set severities"
    by (simp_all add: windows_ok_def severities_def)
  from scan_found [OF this(1) _ this(2), of 0 "lines content" u is_new]
  have f: "windows_ok (length (lines content)) (new_failures u is_new 0 (lines content) m)
        (ls_next (scan_text u is_new content m)) (ls_windows (scan_text u is_new content m))"
      "severity_rank (ls_severity (scan_text u is_new content m)) =
        foldl max 0 (map (\<lambda>i. line_rank u (lines content ! i)) (new_failures u is_new 0 (lines content) m))"
    by (simp_all add: scan_text_def Let_def severity_rank_def)
  have "ls_windows (scan_text u is_new content m) = [] \<longleftrightarrow> new_failures u is_new 0 (lines content) m = []"
    using f(1) by (cases "ls_windows (scan_text u is_new content m)") (auto simp: windows_ok_def)
  with f show ?thesis by (simp add: windows_ok_def Let_def MAX_SNIPPETS_def list_all_iff)
qed

end
