(* ===== verification/Screen_Reports.thy ===== *)
theory Screen_Reports
  imports System_State Updater_Config
begin

text \<open>
  Errors seen on the screen (\<open>signals/screen.rs\<close>): the tray's report is untrusted text, cleaned and
  cut before anything reads it, and kept until the next decision cycle unless the same message
  of the same application was reported in the last ten minutes.
\<close>

definition MAX_APP_CHARS :: nat where "MAX_APP_CHARS = 120"
definition MAX_TITLE_CHARS :: nat where "MAX_TITLE_CHARS = 200"
definition MAX_TEXT_CHARS :: nat where "MAX_TEXT_CHARS = 1500"
definition BUFFER_CAP :: nat where "BUFFER_CAP = 20"
definition SCREEN_REPEAT_SECS :: int where "SCREEN_REPEAT_SECS = 600"
definition SEEN_CAP :: nat where "SEEN_CAP = 200"

section \<open>Cleaning a report\<close>

text \<open>The length in bytes of the white space or control character the text begins with.\<close>

definition blank_len :: "string \<Rightarrow> nat" where
  "blank_len s =
     (if ws_len s \<noteq> 0 then ws_len s
      else (case s of
          [] \<Rightarrow> 0
        | c # r \<Rightarrow>
            if byte c < 32 \<or> byte c = 127 then 1
            else if byte c = 0xC2 \<and> r \<noteq> [] \<and> 128 \<le> byte (hd r) \<and> byte (hd r) < 160 then 2
            else 0))"

function blank_words :: "string \<Rightarrow> string \<Rightarrow> string list" where
  "blank_words s cur =
     (if s = [] then [rev cur]
      else if blank_len s \<noteq> 0 then rev cur # blank_words (drop (blank_len s) s) []
      else blank_words (tl s) (hd s # cur))"
  by pat_completeness auto
termination
  by (relation "measure (length \<circ> fst)") auto

declare blank_words.simps [simp del]

fun clean_words :: "nat \<Rightarrow> string list \<Rightarrow> nat \<Rightarrow> string \<Rightarrow> string" where
  "clean_words max_chars [] n out = out"
| "clean_words max_chars (w # ws) n out =
     (if w = [] then clean_words max_chars ws n out
      else if 0 < n \<and> max_chars \<le> n then out
      else (let sep = (if 0 < n then '' '' else []);
                kept = take_chars (max_chars - (n + length sep)) w
            in clean_words max_chars ws (n + length sep + char_count kept) (out @ sep @ kept)))"

definition clean :: "string \<Rightarrow> nat \<Rightarrow> string" where
  "clean s max_chars = clean_words max_chars (blank_words s []) 0 []"

definition app_file_name :: "string \<Rightarrow> string" where
  "app_file_name app = rev (takeWhile (\<lambda>c. c \<noteq> backslash \<and> c \<noteq> CHR ''/'') (rev app))"

definition normalise :: "string \<Rightarrow> string \<Rightarrow> string \<Rightarrow> bool \<Rightarrow> instant \<Rightarrow> string + screen_error" where
  "normalise app title text hung at_time =
     (let app = clean (app_file_name app) MAX_APP_CHARS in
      if app = [] then Inl ''screen error has no application''
      else (let title = clean title MAX_TITLE_CHARS;
                text = (if hung then [] else clean text MAX_TEXT_CHARS)
            in if \<not> hung \<and> title = [] \<and> text = [] then Inl ''screen error has no text''
               else Inr \<lparr>se_timestamp = at_time, se_app = app, se_title = title, se_text = text, se_hung = hung\<rparr>))"

section \<open>The buffer\<close>

record screen_buffer =
  sb_pending :: "screen_error list"
  sb_seen :: "(string \<times> int) list"

definition empty_buffer :: screen_buffer where "empty_buffer = \<lparr>sb_pending = [], sb_seen = []\<rparr>"

definition report_key :: "(string \<Rightarrow> string) \<Rightarrow> screen_error \<Rightarrow> string" where
  "report_key u e =
     to_lowercase u (se_app e @ ''|'' @ se_title e @ ''|'' @ se_text e @ ''|'' @ (if se_hung e then ''true'' else ''false''))"

text \<open>Making room at the front, then appending.\<close>

definition push_bounded :: "nat \<Rightarrow> 'a \<Rightarrow> 'a list \<Rightarrow> 'a list" where
  "push_bounded cap x xs = (if cap \<le> length xs then tl xs else xs) @ [x]"

definition push_report :: "(string \<Rightarrow> string) \<Rightarrow> screen_error \<Rightarrow> screen_buffer \<Rightarrow> bool \<times> screen_buffer" where
  "push_report u e b =
     (let now = se_timestamp e; key = report_key u e;
          b = b\<lparr>sb_seen := filter (\<lambda>(_, t). now - t < SCREEN_REPEAT_SECS) (sb_seen b)\<rparr>
      in if list_ex (\<lambda>(k, _). k = key) (sb_seen b) then (False, b)
         else (True, b\<lparr>sb_seen := push_bounded SEEN_CAP (key, now) (sb_seen b),
                       sb_pending := push_bounded BUFFER_CAP e (sb_pending b)\<rparr>))"

definition drain_reports :: "screen_buffer \<Rightarrow> screen_error list \<times> screen_buffer" where
  "drain_reports b = (sb_pending b, b\<lparr>sb_pending := []\<rparr>)"

section \<open>Bounds\<close>

lemma ascii_count: "char_count '' '' = 1"
  by code_simp

lemma clean_words_count: "n = char_count out \<Longrightarrow> n \<le> m \<Longrightarrow> char_count (clean_words m ws n out) \<le> m"
proof (induction m ws n out rule: clean_words.induct)
  case (2 m w ws n out)
  define sep :: string where "sep = (if 0 < n then '' '' else [])"
  define kept where "kept = take_chars (m - (n + length sep)) w"
  have k: "char_count kept \<le> m - (n + length sep)" by (simp add: kept_def char_count_take_chars)
  have s: "char_count sep = length sep" by (simp add: sep_def ascii_count str_simps)
  show ?case
  proof (cases "w = [] \<or> 0 < n \<and> m \<le> n")
    case False
    then have le: "n + length sep \<le> m" using 2(4) by (auto simp: sep_def)
    have cnt: "n + length sep + char_count kept = char_count (out @ sep @ kept)"
      using 2(3) s by (simp add: str_simps)
    have "n + length sep + char_count kept \<le> m" using k le by linarith
    with False cnt have "char_count (clean_words m ws (n + length sep + char_count kept) (out @ sep @ kept)) \<le> m"
      unfolding sep_def kept_def by (intro "2.IH" (2)) auto
    with False show ?thesis by (auto simp: sep_def kept_def Let_def)
  next
    case True
    show ?thesis
    proof (cases "w = []")
      case True
      then show ?thesis using 2 by simp
    next
      case False
      then show ?thesis using True 2(3,4) by simp
    qed
  qed
qed simp

lemma set_tl: "set (tl s) \<subseteq> set s"
  by (cases s) auto

lemma clean_count: "char_count (clean s m) \<le> m"
  unfolding clean_def by (rule clean_words_count) (simp_all add: char_count_def)

lemma set_take_chars: "set (take_chars n s) \<subseteq> set s"
  using take_chars_prefix [of s n] by (metis Un_upper1 set_append)

lemma set_clean_words: "set (clean_words m ws n out) \<subseteq> set out \<union> {CHR '' ''} \<union> \<Union> (set ` set ws)"
proof (induction m ws n out rule: clean_words.induct)
  case (2 m w ws n out)
  show ?case
    using 2 set_take_chars [of "m - (n + length (if 0 < n then '' '' else []))" w]
    by (auto simp: Let_def split: if_splits) blast+
qed auto

lemma set_blank_words: "w \<in> set (blank_words s cur) \<Longrightarrow> set w \<subseteq> set s \<union> set cur"
proof (induction s cur arbitrary: w rule: blank_words.induct)
  case (1 s cur)
  have d: "set (drop k s) \<subseteq> set s" for k by (rule set_drop_subset)
  have h: "hd s \<in> set s" if "s \<noteq> []" using that by simp
  show ?case using 1 d [of "blank_len s"] set_tl [of s] h blank_words.simps [of s cur]
    by (fastforce split: if_splits)
qed

lemma set_clean: "set (clean s m) \<subseteq> set s \<union> {CHR '' ''}"
  using set_clean_words [of m "blank_words s []" 0 "[]"] set_blank_words [of _ s "[]"] by (fastforce simp: clean_def)

lemma app_file_name_plain: "c \<in> set (app_file_name app) \<Longrightarrow> c \<noteq> backslash \<and> c \<noteq> CHR ''/''"
  by (auto simp: app_file_name_def dest: set_takeWhileD)

definition report_ok :: "screen_error \<Rightarrow> bool" where
  "report_ok e =
     (se_app e \<noteq> [] \<and> char_count (se_app e) \<le> 120 \<and> char_count (se_title e) \<le> 200 \<and> char_count (se_text e) \<le> 1500 \<and>
      backslash \<notin> set (se_app e) \<and> CHR ''/'' \<notin> set (se_app e) \<and>
      (if se_hung e then se_text e = [] else se_title e @ se_text e \<noteq> []))"

lemma app_name_plain: "backslash \<notin> set (clean (app_file_name app) m)" "CHR ''/'' \<notin> set (clean (app_file_name app) m)"
  using set_clean [of "app_file_name app" m] app_file_name_plain [of _ app] by auto

lemma normalise_ok: "normalise app title text hung t = Inr e \<Longrightarrow> report_ok e"
  using clean_count [of "app_file_name app" 120] clean_count [of title 200] clean_count [of _ 1500] app_name_plain [of app 120]
  by (auto simp: normalise_def report_ok_def str_simps Let_def MAX_APP_CHARS_def MAX_TITLE_CHARS_def MAX_TEXT_CHARS_def
      split: if_splits)

text \<open>
  The buffer over time, with the reports accepted since the last drain: reports come at times that
  do not go back, and a decision cycle drains.
\<close>

inductive screening :: "(string \<Rightarrow> string) \<Rightarrow> screen_buffer \<Rightarrow> int \<Rightarrow> screen_error list \<Rightarrow> bool" for u where
  start: "screening u empty_buffer t []"
| report: "screening u b t since \<Longrightarrow> t \<le> t' \<Longrightarrow> normalise app title text hung t' = Inr e \<Longrightarrow>
    push_report u e b = (new, b') \<Longrightarrow> screening u b' t' (if new then since @ [e] else since)"
| drain: "screening u b t since \<Longrightarrow> screening u (snd (drain_reports b)) t []"

definition buffer_ok :: "screen_buffer \<Rightarrow> screen_error list \<Rightarrow> bool" where
  "buffer_ok b since =
     (sb_pending b = drop (length since - BUFFER_CAP) since \<and> list_all report_ok since \<and> length (sb_seen b) \<le> SEEN_CAP)"

lemma push_bounded_last: "0 < cap \<Longrightarrow> push_bounded cap x (drop (length xs - cap) xs) = drop (length (xs @ [x]) - cap) (xs @ [x])"
  by (auto simp: push_bounded_def tl_drop drop_Suc Suc_diff_le)

lemma push_bounded_length: "0 < cap \<Longrightarrow> length xs \<le> cap \<Longrightarrow> length (push_bounded cap x xs) \<le> cap"
  by (auto simp: push_bounded_def)

lemma screening_ok: "screening u b t since \<Longrightarrow> buffer_ok b since"
proof (induction rule: screening.induct)
  case (report b t since t' app title body hung e new b')
  have seen: "length (filter (\<lambda>(_, t0). se_timestamp e - t0 < SCREEN_REPEAT_SECS) (sb_seen b)) \<le> SEEN_CAP"
    using report by (auto simp: buffer_ok_def intro: order_trans [OF length_filter_le])
  show ?case
    using report seen normalise_ok [OF report(3)] push_bounded_last [of BUFFER_CAP e since] push_bounded_length [OF _ seen]
    by (auto simp: push_report_def buffer_ok_def Let_def BUFFER_CAP_def SEEN_CAP_def split: if_splits)
qed (auto simp: buffer_ok_def empty_buffer_def drain_reports_def)

text \<open>
  what the screen watcher passes on is bounded and not repeated. A cycle is handed the last
  twenty of the reports accepted since the cycle before, in order; each has an application
  name without a path, of at most 120 characters, a title of at most 200 and a text of at most 1500;
  and a message just accepted is refused when it comes again within ten minutes.
\<close>

theorem screen_reports_bounded:
  assumes "screening u b t since"
  shows "fst (drain_reports b) = drop (length since - 20) since \<and> list_all report_ok since \<and>
    length (sb_seen b) \<le> 200 \<and>
    (fst (push_report u e b) \<and> report_key u e' = report_key u e \<and> se_timestamp e' - se_timestamp e < 600 \<longrightarrow>
       \<not> fst (push_report u e' (snd (push_report u e b))))"
proof -
  have ok: "buffer_ok b since" using assms by (rule screening_ok)
  have "\<not> fst (push_report u e' (snd (push_report u e b)))"
    if "fst (push_report u e b)" "report_key u e' = report_key u e" "se_timestamp e' - se_timestamp e < 600"
  proof -
    have "(report_key u e, se_timestamp e) \<in> set (sb_seen (snd (push_report u e b)))"
      using that(1) by (auto simp: push_report_def push_bounded_def Let_def)
    then show ?thesis using that(2,3)
      by (auto simp: push_report_def [of u e'] Let_def list_ex_iff SCREEN_REPEAT_SECS_def intro!: bexI)
  qed
  then show ?thesis using ok by (auto simp: buffer_ok_def drain_reports_def BUFFER_CAP_def SEEN_CAP_def)
qed

definition popup :: "instant \<Rightarrow> screen_error" where
  "popup t = \<lparr>se_timestamp = t, se_app = ''app.exe'', se_title = ''Error'', se_text = ''It failed'', se_hung = False\<rparr>"

lemma screen_reports_bounded_witness:
  "normalise (''C:'' @ [backslash] @ ''x'' @ [backslash] @ ''app.exe'') ''Error'' ''It  failed'' False 5 = Inr (popup 5) \<and>
   fst (push_report id (popup 5) empty_buffer) \<and>
   \<not> fst (push_report id (popup 9) (snd (push_report id (popup 5) empty_buffer)))"
proof -
  have n: "normalise (''C:'' @ [backslash] @ ''x'' @ [backslash] @ ''app.exe'') ''Error'' ''It  failed'' False 5 = Inr (popup 5)"
    by code_simp
  have p: "fst (push_report id (popup 5) empty_buffer)" by (simp add: push_report_def empty_buffer_def Let_def)
  have k: "report_key id (popup 9) = report_key id (popup 5)" by (simp add: report_key_def popup_def)
  from screen_reports_bounded [OF screening.start [of id 0], of "popup 5" "popup 9"] n p k
  show ?thesis by (simp add: popup_def)
qed

end
