(* ===== verification/Spec2Isabelle.thy ===== *)
theory Spec2Isabelle
  imports Approval_Life Explain Prefs Learn_Apply Updater_Cycle Exec_Shape Model_Reply Signals Game_Mode
    Pipe_Server Service_Config Loop_Analysis Loop_Scans Log_Parser Screen_Reports Ask_Eir
begin

text \<open>
  \<^bold>\<open>Eir\<close> is a self-healing service for Windows and Linux, written in Rust. A decision loop collects
  signals (failed services, event-log entries, log files, error boxes seen on the screen), asks a
  language model what is wrong, and routes each fix the model proposes through a gate: a policy, standing
  preferences of the user, what was learned from the past, and a rate limiter decide whether it runs,
  waits for the user's approval, or is refused. An executor worker runs one action at a time. Beside it an
  updater keeps applications current and heals failing updates, and a control plane (a named pipe on
  Windows, a Unix socket on Linux) connects the tray application and \<open>eirctl\<close>. All of this trusts
  neither the model's replies, nor the programs it looks at, nor the clients that connect.

  This development models the service, \<open>eir-svc\<close>, and the protocol types of \<open>eir-proto\<close>. Every definition
  follows one function, type or handler of the source and keeps its name where Isabelle allows it;
  names below are files under \<open>src/eir-svc/src/\<close> unless they say otherwise.

  \<^bold>\<open>How code becomes definitions.\<close> A struct is a \<open>record\<close>, an enum a \<open>datatype\<close>, a \<open>Result\<close> a sum with the error on
  the left, an \<open>Option\<close> an \<open>option\<close>. A \<open>String\<close> is the list of its UTF-8 bytes, and the functions of \<open>str\<close> are
  written over bytes (\<open>Prelude\<close>). Floats are exact IEEE 754 values over the rationals (\<open>Floats\<close>). Counters
  that saturate do so in the model. A SQLite table is an association list with its unique keys, or the record
  \<open>store\<close>; a transaction is one function that returns the new table or leaves the old one. A handler of
  the loop is a function from the state, and from what the outside answered, to the state and the reply;
  asynchronous tasks are events, so that any interleaving is a list of events. Each call that can fail takes its answer
  from an argument (the records \<open>io\<close>, \<open>exec_io\<close>, \<open>heal_env\<close>, \<open>cycle_env\<close>, \<open>save_io\<close>, \<open>scan_env\<close> and the like).

  \<^bold>\<open>Theories.\<close>
  \<^item> \<open>Prelude\<close>, \<open>Floats\<close>, \<open>Tables\<close>, \<open>Rotation\<close>: bytes and strings; rounding and the order of floats; the
    contract of a keyed table as a locale, interpreted on the association lists the tables are; fair
    rotation as a locale, interpreted on the updater's choice of candidates.
  \<^item> \<open>Fix_Action\<close>, \<open>Model_Json\<close>, \<open>Model_Reply\<close> (\<open>models.rs\<close>, \<open>ai/json.rs\<close>): the closed set of actions, their keys and wire
    form, the shorthand forms a model writes; the candidates a reply is cut into, the repair of
    almost-JSON, the record made of it. Lemmas: encoding and decoding an action is the identity, a complete
    value is found whatever prose surrounds it, strict JSON passes the repair unchanged.
  \<^item> \<open>Paths\<close>, \<open>Policy\<close>, \<open>Safety\<close>, \<open>Prefs\<close> (\<open>policy/mod.rs\<close>, \<open>safety.rs\<close>, \<open>prefs.rs\<close>): the lexical comparison of paths, the
    blocklists and confidence gate, the rate limiter and circuit breaker, the standing preferences.
    Lemmas: exactly when an action is approved without the user, and that a blocked directory, key or file blocks
    everything under it however it is spelled.
  \<^item> \<open>System_State\<close>, \<open>Signals\<close>, \<open>Log_Parser\<close>, \<open>Screen_Reports\<close> (\<open>models.rs\<close>, \<open>signals/feed.rs\<close>, \<open>signals/log_memory.rs\<close>,
    \<open>signals/log_parser.rs\<close>, \<open>signals/screen.rs\<close>): the snapshot and its fingerprint, the feed and what the
    watcher remembers of a log, the findings of a log against a reference scan, the cleaning and
    de-duplication of screen reports.
  \<^item> \<open>Approval_Store\<close>, \<open>Approval_Life\<close> (\<open>audit.rs\<close>): the durable queue of approvals, the execution log and the undo
    records, their invariant, and the life of an approval as a machine of its own which the gate refines.
  \<^item> \<open>Learn_Detect\<close>, \<open>Learn_Store\<close>, \<open>Learn_Apply\<close>, \<open>Explain\<close> (\<open>learn/\<close>, \<open>explain.rs\<close>): the detectors over past outcomes, the
    facts they store, what a fact may change, and the text of an approval card.
  \<^item> \<open>Gate\<close>, \<open>Gate_Life\<close>, \<open>Gate_Steps\<close>, \<open>Gate_Props\<close> (\<open>main.rs\<close>): the decision loop's gate, the user's decisions, the worker,
    crash recovery; the loop as a step function over all its events, the states reachable from any
    sound database, and their invariant: one job per issue and per approval, whatever happens in
    whatever order. \<open>Game_Mode\<close> (\<open>game_mode.rs\<close>): the power-plan boost and its way back.
  \<^item> \<open>Exec_Quote\<close>, \<open>Exec_Windows\<close>, \<open>Exec_Startup\<close>, \<open>Exec_Registry\<close>, \<open>Exec_Files\<close>, \<open>Exec_Services\<close>, \<open>Executor\<close>, \<open>Exec_Shape\<close>
    (\<open>executor/\<close>): every action to the script, command or calls it becomes, on both platforms. The
    scripts are built from literals set apart, and \<open>Exec_Shape\<close> shows that text chosen by the model stays
    inside them.
  \<^item> \<open>Updater_Names\<close>, \<open>Updater_Config\<close>, \<open>Updater_Version\<close>, \<open>Updater_History\<close>, \<open>Updater_Plan\<close>, \<open>Updater_Download\<close>, \<open>Updater_Native\<close>,
    \<open>Updater_Managers\<close>, \<open>Updater_Domain\<close>, \<open>Updater_Check\<close>, \<open>Updater_Heal\<close>, \<open>Updater_Cycle\<close> (\<open>updater/\<close>): identities, settings,
    version order, pauses after repeated failures, the gates an installer found by the model passes
    before it is started, the package managers' output, the check, the healing loop and one cycle.
  \<^item> \<open>Loop_Analysis\<close> (\<open>main.rs\<close>, \<open>audit.rs\<close>): when a cycle asks the model, when it is skipped, the deeper second pass and its
    cap per day over any run with restarts, midnights and failures.
  \<^item> \<open>Ask_Eir\<close> (\<open>ask.rs\<close>), \<open>Scans\<close> (\<open>disk_scan.rs\<close>, \<open>startup_scan.rs\<close>), \<open>Loop_Scans\<close> (\<open>main.rs\<close>): questions to the model, the two scans a
    user starts, and their handlers in the loop, with the users who sign in and out meanwhile.
  \<^item> \<open>Status_Wire\<close>, \<open>Pipe_Server\<close>, \<open>Service_Config\<close> (\<open>eir-proto/src/lib.rs\<close>, \<open>pipe_server/\<close>, \<open>session.rs\<close>, \<open>config.rs\<close>): the frames the
    service sends and their bound, who is heard and how bytes become requests, the configuration and its
    saving with a crash at any point.

  \<^bold>\<open>Arguments of the model.\<close> What the sources only call is an argument: the case mapping of non-ASCII
  letters (\<open>u\<close>, \<open>low\<close>), the \<open>Debug\<close> escape of strings (\<open>esc\<close>) and of floats, serde's encodings (\<open>codec\<close>), the JSON and TOML readers and
  writers, the \<open>semver\<close> and \<open>url\<close> crates, hashes, the walk of a directory tree, what a process prints, the
  file system's and the service manager's answers, the language model. Where a property needs
  something of such an argument (that decoding inverts encoding, that a number read is a number of the
  format), it is a named hypothesis, and the property's witness has an instance of it. PowerShell's quoting rules
  are the reader \<open>Exec_Quote\<close> states; \<open>Game_Mode\<close> takes a failed \<open>powercfg\<close> call to leave the plan as it was.

  \<^bold>\<open>Bounds and termination.\<close> Loops are structural recursions or have a measure; none needs fuel. The healing loop
  ends because each round uses up one of the configured attempts; the directory walk sees as many entries
  as the clock allows, an argument; a connection is a finite list of events.

  \<^bold>\<open>Not modelled.\<close> The tray application (\<open>eir-ui\<close>) and \<open>eirctl\<close> (\<open>eir-cli\<close>) are clients of the protocol. Of the service:
  the calls to model providers and their prompts (\<open>ai/\<close> but for \<open>ai/json.rs\<close>), the collectors that
  poll WMI, the event log, journald and file changes, the hardware profile, the inventory of installed software,
  notifications, the weekly digest's text, feedback after-states, database migrations, installation as a
  service: they are input and output around the logic above. Of the decision loop,
  the periodic tick itself and the handlers of the updater's settings are left out; of \<open>blocking\<close> tasks, a panic is modelled only where the loop reports it.
\<close>

end
